(* ===== verification/Prelude.thy ===== *)
theory Prelude
  imports Main "HOL-Library.Word" "HOL-Library.Sublist"
begin

text \<open>
  Shared vocabulary of the development.

  \<^item> Machine integers: \<open>u8\<close>, \<open>u16\<close> and \<open>u32\<close> are words of the C widths; an
    \<open>int32_t\<close> is a \<open>u32\<close> read with \<open>sint\<close>.
  \<^item> \<open>outcome\<close>: what a C procedure that works on a state can end in.  It goes on in a new
    state, it leaves the process through \<open>_exit\<close> (the state then says what is left on disk
    and on the network), or it runs into behaviour that C leaves undefined.
  \<^item> \<open>upd_first\<close> and \<open>first_index\<close>: the loop
    \<open>for (i...) if (cond(a[i])) { ...; break; }\<close> over a fixed array.
  \<^item> \<open>run\<close>: an event loop \<open>for (;;)\<close> driven by the list of the events it receives.
  \<^item> The locales \<open>machine\<close> (an invariant that every event keeps) and \<open>growing\<close>
    (a preorder along which every event moves the state) hold the induction over such a
    run; every process of the program interprets them.
\<close>

type_synonym u8 = "8 word"
type_synonym u16 = "16 word"
type_synonym u32 = "32 word"

named_theorems frame_simps \<open>which parts of a state an operation leaves alone\<close>
named_theorems len_simps \<open>operations keep the length of the C arrays\<close>

subsection \<open>Outcomes of a C procedure\<close>

datatype 's outcome = Running 's | Exited 's | Undefined

fun and_then :: "'s outcome \<Rightarrow> ('s \<Rightarrow> 't outcome) \<Rightarrow> ('s \<Rightarrow> 't) \<Rightarrow> 't outcome" where
  "and_then (Running s) f g = f s"
| "and_then (Exited s) f g = Exited (g s)"
| "and_then Undefined f g = Undefined"

abbreviation seq :: "'s outcome \<Rightarrow> ('s \<Rightarrow> 's outcome) \<Rightarrow> 's outcome" where
  "seq m f \<equiv> and_then m f (\<lambda>s. s)"

fun out_all :: "('s \<Rightarrow> bool) \<Rightarrow> 's outcome \<Rightarrow> bool" where
  "out_all P (Running s) = P s"
| "out_all P (Exited s) = P s"
| "out_all P Undefined = True"

lemma out_all_seq:
  assumes "out_all P m" and "\<And>s. P s \<Longrightarrow> out_all Q (f s)" and "\<And>s. P s \<Longrightarrow> Q s"
  shows "out_all Q (seq m f)"
  using assms by (cases m) auto

lemma out_all_mono: "out_all P m \<Longrightarrow> (\<And>s. P s \<Longrightarrow> Q s) \<Longrightarrow> out_all Q m"
  by (cases m) auto

lemma out_allD: "out_all P m \<Longrightarrow> m = Running s \<Longrightarrow> P s"
  by simp

subsection \<open>Event loops\<close>

fun run :: "('e \<Rightarrow> 's \<Rightarrow> 's outcome) \<Rightarrow> 'e list \<Rightarrow> 's \<Rightarrow> 's outcome" where
  "run step [] s = Running s"
| "run step (e # es) s = seq (step e s) (run step es)"

lemma run_append: "run step (es @ fs) s = seq (run step es s) (run step fs)"
proof (induction es arbitrary: s)
  case Nil
  show ?case by simp
next
  case (Cons e es)
  then show ?case by (cases "step e s") simp_all
qed

locale machine =
  fixes step :: "'e \<Rightarrow> 's \<Rightarrow> 's outcome"
    and inv :: "'s \<Rightarrow> bool"
  assumes step_inv: "inv s \<Longrightarrow> out_all inv (step e s)"
begin

lemma run_inv: "inv s \<Longrightarrow> out_all inv (run step es s)"
proof (induction es arbitrary: s)
  case Nil
  then show ?case by simp
next
  case (Cons e es)
  from Cons.prems have "out_all inv (step e s)" by (rule step_inv)
  then have "out_all inv (seq (step e s) (run step es))"
    by (rule out_all_seq) (auto intro: Cons.IH)
  then show ?case by simp
qed

lemma run_keeps: "inv s \<Longrightarrow> run step es s = Running s' \<Longrightarrow> inv s'"
  using run_inv [of s es] by simp

end

locale growing =
  fixes step :: "'e \<Rightarrow> 's \<Rightarrow> 's outcome"
    and le :: "'s \<Rightarrow> 's \<Rightarrow> bool"
  assumes le_refl: "le s s"
    and le_trans: "le s t \<Longrightarrow> le t u \<Longrightarrow> le s u"
    and step_le: "out_all (le s) (step e s)"
begin

lemma run_le: "out_all (le s) (run step es s)"
proof (induction es arbitrary: s)
  case Nil
  show ?case by (simp add: le_refl)
next
  case (Cons e es)
  have "out_all (le s) (step e s)" by (rule step_le)
  then have "out_all (le s) (seq (step e s) (run step es))"
  proof (rule out_all_seq)
    fix t
    assume "le s t"
    then show "out_all (le s) (run step es t)"
      using Cons.IH [of t] by (auto elim!: out_all_mono intro: le_trans)
  qed simp
  then show ?case by simp
qed

lemma run_grows: "run step es s = Running s' \<Longrightarrow> le s s'"
  using run_le [of s es] by simp

end

subsection \<open>First match in an array\<close>

fun first_index :: "('a \<Rightarrow> bool) \<Rightarrow> 'a list \<Rightarrow> nat option" where
  "first_index P [] = None"
| "first_index P (x # xs) = (if P x then Some 0 else map_option Suc (first_index P xs))"

fun upd_first :: "('a \<Rightarrow> bool) \<Rightarrow> ('a \<Rightarrow> 'a) \<Rightarrow> 'a list \<Rightarrow> 'a list" where
  "upd_first P f [] = []"
| "upd_first P f (x # xs) = (if P x then f x # xs else x # upd_first P f xs)"

lemma length_upd_first [simp, len_simps]: "length (upd_first P f xs) = length xs"
  by (induction xs) auto

lemma upd_first_none: "(\<And>x. x \<in> set xs \<Longrightarrow> \<not> P x) \<Longrightarrow> upd_first P f xs = xs"
  by (induction xs) auto

lemma set_upd_first: "set (upd_first P f xs) \<subseteq> set xs \<union> f ` {x \<in> set xs. P x}"
  by (induction xs) auto

lemma list_all_replicate_iff [simp]: "list_all P (replicate n x) \<longleftrightarrow> n = 0 \<or> P x"
  by (induction n) auto

lemma list_all_upd_first:
  "list_all Q xs \<Longrightarrow> (\<And>x. Q x \<Longrightarrow> P x \<Longrightarrow> Q (f x)) \<Longrightarrow> list_all Q (upd_first P f xs)"
  by (induction xs) auto

lemma map_upd_first:
  "(\<And>x. P x \<Longrightarrow> g (f x) = g x) \<Longrightarrow> map g (upd_first P f xs) = map g xs"
  by (induction xs) auto

lemma first_index_None: "first_index P xs = None \<longleftrightarrow> (\<forall>x\<in>set xs. \<not> P x)"
  by (induction xs) auto

lemma first_index_Some:
  "first_index P xs = Some i \<longleftrightarrow>
    i < length xs \<and> P (xs ! i) \<and> (\<forall>j < i. \<not> P (xs ! j))"
proof (induction xs arbitrary: i)
  case Nil
  show ?case by simp
next
  case (Cons x xs)
  show ?case
  proof (cases "P x")
    case True
    then show ?thesis by (cases i) auto
  next
    case False
    then show ?thesis using Cons.IH by (cases i) (auto simp: less_Suc_eq_0_disj)
  qed
qed

lemma first_indexD:
  assumes "first_index P xs = Some i"
  shows "i < length xs" and "P (xs ! i)"
  using assms by (simp_all add: first_index_Some)

lemma upd_first_index:
  "upd_first P f xs = (case first_index P xs of None \<Rightarrow> xs | Some i \<Rightarrow> xs[i := f (xs ! i)])"
  by (induction xs) (auto split: option.splits)

lemma find_first_index: "find P xs = map_option ((!) xs) (first_index P xs)"
  by (induction xs) (auto simp: option.map_comp comp_def)

end
