(* ===== verification/Bytes.thy ===== *)
theory Bytes
  imports Prelude "HOL-Library.Monad_Syntax"
begin

text \<open>
  Memory at byte level: the representation of a \<open>uint32_t\<close> in the memory of a little or a
  big endian host, \<open>htonl\<close> and \<open>ntohl\<close>, \<open>memcpy\<close> into and out of a buffer at a position
  (\<open>None\<close> when it leaves the buffer, which C does not define), and C strings.

  The locale \<open>codec\<close> is the contract between a serialising routine, which writes at a
  position and returns the position behind, and its deserialising partner.  The locale
  \<open>array_codec\<close> extends it to the routines that loop over a fixed array and is shown to give
  a \<open>codec\<close> again.
\<close>

unbundle bit_operations_syntax

subsection \<open>Words in memory\<close>

datatype endian = Little | Big

definition be_bytes :: "u32 \<Rightarrow> u8 list" where
  "be_bytes v = [ucast (drop_bit 24 v), ucast (drop_bit 16 v), ucast (drop_bit 8 v), ucast v]"

fun of_be_bytes :: "u8 list \<Rightarrow> u32" where
  "of_be_bytes [a, b, c, d] =
     push_bit 24 (ucast a) OR push_bit 16 (ucast b) OR push_bit 8 (ucast c) OR ucast d"
| "of_be_bytes _ = 0"

fun mem_of_u32 :: "endian \<Rightarrow> u32 \<Rightarrow> u8 list" where
  "mem_of_u32 Big v = be_bytes v"
| "mem_of_u32 Little v = rev (be_bytes v)"

fun u32_of_mem :: "endian \<Rightarrow> u8 list \<Rightarrow> u32" where
  "u32_of_mem Big bs = of_be_bytes bs"
| "u32_of_mem Little bs = of_be_bytes (rev bs)"

text \<open>The C library's byte order conversions: the identity on a big endian host, a swap of the
  four bytes on a little endian one.\<close>

fun htonl :: "endian \<Rightarrow> u32 \<Rightarrow> u32" where
  "htonl Big v = v"
| "htonl Little v = of_be_bytes (rev (be_bytes v))"

definition ntohl :: "endian \<Rightarrow> u32 \<Rightarrow> u32" where
  "ntohl e v = htonl e v"

lemma length_be_bytes [simp, len_simps]: "length (be_bytes v) = 4"
  by (simp add: be_bytes_def)

lemma of_be_be [simp]: "of_be_bytes (be_bytes v) = v"
proof (rule bit_word_eqI)
  fix n
  assume "n < LENGTH(32)"
  then have "n < 32" by simp
  then consider "n < 8" | "8 \<le> n" "n < 16" | "16 \<le> n" "n < 24" | "24 \<le> n" "n < 32"
    by linarith
  then show "bit (of_be_bytes (be_bytes v)) n = bit v n"
    by cases (auto simp: be_bytes_def bit_simps)
qed

lemma be_of_be: "length bs = 4 \<Longrightarrow> be_bytes (of_be_bytes bs) = bs"
proof -
  assume "length bs = 4"
  then obtain a b c d where bs: "bs = [a, b, c, d]"
    by (auto simp: length_Suc_conv numeral_eq_Suc)
  have "ucast (drop_bit 24 (of_be_bytes [a, b, c, d])) = a"
    by (rule bit_word_eqI) (auto simp: bit_simps dest: bit_imp_le_length)
  moreover have "ucast (drop_bit 16 (of_be_bytes [a, b, c, d])) = b"
    by (rule bit_word_eqI) (auto simp: bit_simps dest: bit_imp_le_length)
  moreover have "ucast (drop_bit 8 (of_be_bytes [a, b, c, d])) = c"
    by (rule bit_word_eqI) (auto simp: bit_simps dest: bit_imp_le_length)
  moreover have "ucast (of_be_bytes [a, b, c, d]) = d"
    by (rule bit_word_eqI) (auto simp: bit_simps dest: bit_imp_le_length)
  ultimately show ?thesis by (simp add: bs be_bytes_def)
qed

text \<open>Whatever the host, the bytes that \<open>htonl\<close> leaves in memory are the big endian ones, and
  \<open>ntohl\<close> reads them back.\<close>

lemma mem_htonl [simp]: "mem_of_u32 e (htonl e v) = be_bytes v"
  by (cases e) (simp_all add: be_of_be)

lemma ntohl_mem [simp]: "ntohl e (u32_of_mem e (be_bytes v)) = v"
  by (cases e) (simp_all add: ntohl_def be_of_be)

lemma ntohl_mem_of: "length bs = 4 \<Longrightarrow> ntohl e (u32_of_mem e bs) = of_be_bytes bs"
  by (cases e) (simp_all add: ntohl_def be_of_be)

subsection \<open>Buffers\<close>

definition overlay :: "u8 list \<Rightarrow> nat \<Rightarrow> u8 list \<Rightarrow> u8 list" where
  "overlay buf pos bs = take pos buf @ bs @ drop (pos + length bs) buf"

definition memcpy_to :: "u8 list \<Rightarrow> nat \<Rightarrow> u8 list \<Rightarrow> u8 list option" where
  "memcpy_to buf pos bs =
     (if pos + length bs \<le> length buf then Some (overlay buf pos bs) else None)"

definition memcpy_from :: "u8 list \<Rightarrow> nat \<Rightarrow> nat \<Rightarrow> u8 list option" where
  "memcpy_from buf pos n =
     (if pos + n \<le> length buf then Some (take n (drop pos buf)) else None)"

lemma length_overlay [simp, len_simps]:
  "pos + length bs \<le> length buf \<Longrightarrow> length (overlay buf pos bs) = length buf"
  by (simp add: overlay_def)

lemma overlay_Nil [simp]: "overlay buf pos [] = buf"
  by (simp add: overlay_def)

lemma overlay_overlay:
  "pos + length xs + length ys \<le> length buf \<Longrightarrow>
    overlay (overlay buf pos xs) (pos + length xs) ys = overlay buf pos (xs @ ys)"
proof -
  assume fits: "pos + length xs + length ys \<le> length buf"
  show ?thesis
  proof (cases "length buf \<le> pos")
    case True
    with fits have "length xs = 0" and "length ys = 0" by linarith+
    then show ?thesis by simp
  next
    case False
    with fits show ?thesis by (simp add: overlay_def drop_drop algebra_simps)
  qed
qed

lemma overlay_all: "length bs = length buf \<Longrightarrow> overlay buf 0 bs = bs"
  by (simp add: overlay_def)

lemma drop_overlay:
  "pos \<le> length buf \<Longrightarrow> drop pos (overlay buf pos bs) = bs @ drop (pos + length bs) buf"
  by (simp add: overlay_def)

subsection \<open>Serialisers that loop over an array\<close>

fun put_list ::
  "(u8 list \<Rightarrow> nat \<Rightarrow> 'a \<Rightarrow> (u8 list \<times> nat) option) \<Rightarrow> u8 list \<Rightarrow> nat \<Rightarrow> 'a list \<Rightarrow> (u8 list \<times> nat) option"
where
  "put_list put buf pos [] = Some (buf, pos)"
| "put_list put buf pos (x # xs) =
     do { (buf, pos) \<leftarrow> put buf pos x; put_list put buf pos xs }"

fun get_list :: "(u8 list \<Rightarrow> nat \<Rightarrow> ('a \<times> nat) option) \<Rightarrow> nat \<Rightarrow> u8 list \<Rightarrow> nat \<Rightarrow> ('a list \<times> nat) option"
where
  "get_list get 0 buf pos = Some ([], pos)"
| "get_list get (Suc n) buf pos =
     do { (x, pos) \<leftarrow> get buf pos; (xs, pos) \<leftarrow> get_list get n buf pos; Some (x # xs, pos) }"

locale codec =
  fixes put :: "u8 list \<Rightarrow> nat \<Rightarrow> 'a \<Rightarrow> (u8 list \<times> nat) option"
    and get :: "u8 list \<Rightarrow> nat \<Rightarrow> ('a \<times> nat) option"
    and enc :: "'a \<Rightarrow> u8 list"
    and width :: nat
    and ok :: "'a \<Rightarrow> bool"
  assumes enc_length: "ok a \<Longrightarrow> length (enc a) = width"
    and put_fits: "ok a \<Longrightarrow> pos + width \<le> length buf \<Longrightarrow>
      put buf pos a = Some (overlay buf pos (enc a), pos + width)"
    and put_short: "ok a \<Longrightarrow> length buf < pos + width \<Longrightarrow> put buf pos a = None"
    and get_enc: "ok a \<Longrightarrow> drop pos buf = enc a @ rest \<Longrightarrow> get buf pos = Some (a, pos + width)"
begin

lemma put_Some_iff: "ok a \<Longrightarrow> put buf pos a \<noteq> None \<longleftrightarrow> pos + width \<le> length buf"
  by (cases "pos + width \<le> length buf") (auto simp: put_fits put_short)

lemma get_put:
  assumes "ok a" and "put buf pos a = Some (buf', pos')"
  shows "get buf' pos = Some (a, pos')"
proof -
  from assms have fits: "pos + width \<le> length buf"
    using put_Some_iff [of a buf pos] by simp
  with assms have buf': "buf' = overlay buf pos (enc a)" and pos': "pos' = pos + width"
    by (auto simp: put_fits)
  from fits have "drop pos buf' = enc a @ drop (pos + length (enc a)) buf"
    by (simp add: buf' drop_overlay)
  with \<open>ok a\<close> show ?thesis by (simp add: get_enc pos')
qed

lemma concat_length: "list_all ok xs \<Longrightarrow> length (concat (map enc xs)) = length xs * width"
  by (induction xs) (auto simp: enc_length)

lemma put_list_fits:
  "list_all ok xs \<Longrightarrow> pos + length xs * width \<le> length buf \<Longrightarrow>
    put_list put buf pos xs = Some (overlay buf pos (concat (map enc xs)), pos + length xs * width)"
proof (induction xs arbitrary: buf pos)
  case Nil
  then show ?case by simp
next
  case (Cons x xs)
  let ?buf = "overlay buf pos (enc x)"
  from Cons.prems have x: "ok x" and xs: "list_all ok xs" by auto
  have "put buf pos x = Some (?buf, pos + width)"
    using x Cons.prems by (simp add: put_fits)
  moreover have "put_list put ?buf (pos + width) xs =
      Some (overlay ?buf (pos + width) (concat (map enc xs)), pos + width + length xs * width)"
    using Cons.IH [OF xs, of "pos + width" ?buf] Cons.prems x by (simp add: enc_length)
  moreover have "overlay ?buf (pos + width) (concat (map enc xs)) =
      overlay buf pos (enc x @ concat (map enc xs))"
    using overlay_overlay [of pos "enc x" "concat (map enc xs)" buf] Cons.prems x xs
    by (simp add: enc_length concat_length)
  ultimately show ?case by simp
qed

lemma put_list_short:
  "list_all ok xs \<Longrightarrow> length buf < pos + length xs * width \<Longrightarrow> pos \<le> length buf \<Longrightarrow>
    put_list put buf pos xs = None"
proof (induction xs arbitrary: buf pos)
  case Nil
  then show ?case by simp
next
  case (Cons x xs)
  show ?case
  proof (cases "pos + width \<le> length buf")
    case True
    with Cons show ?thesis by (simp add: put_fits enc_length)
  next
    case False
    with Cons.prems show ?thesis by (simp add: put_short)
  qed
qed

lemma get_list_enc:
  "list_all ok xs \<Longrightarrow> drop pos buf = concat (map enc xs) @ rest \<Longrightarrow>
    get_list get (length xs) buf pos = Some (xs, pos + length xs * width)"
proof (induction xs arbitrary: pos)
  case Nil
  then show ?case by simp
next
  case (Cons x xs)
  from Cons.prems have x: "ok x" and xs: "list_all ok xs" by auto
  have 1: "get buf pos = Some (x, pos + width)"
    using x Cons.prems by (auto intro: get_enc)
  have "drop (pos + width) buf = drop width (drop pos buf)"
    by (simp add: add.commute)
  also have "\<dots> = concat (map enc xs) @ rest"
    using Cons.prems x by (simp add: enc_length)
  finally have "get_list get (length xs) buf (pos + width) =
      Some (xs, pos + width + length xs * width)"
    using Cons.IH [OF xs] by blast
  with 1 show ?case by simp
qed

end

locale array_codec = codec put get enc width ok
  for put :: "u8 list \<Rightarrow> nat \<Rightarrow> 'a \<Rightarrow> (u8 list \<times> nat) option"
    and get :: "u8 list \<Rightarrow> nat \<Rightarrow> ('a \<times> nat) option"
    and enc :: "'a \<Rightarrow> u8 list"
    and width :: nat
    and ok :: "'a \<Rightarrow> bool" +
  fixes n :: nat
  assumes some_entry: "0 < n" and some_width: "0 < width"

sublocale array_codec \<subseteq> arr: codec
  "put_list put" "get_list get n" "\<lambda>xs. concat (map enc xs)" "n * width"
  "\<lambda>xs. list_all ok xs \<and> length xs = n"
proof unfold_locales
  fix xs :: "'a list" and pos buf rest
  assume xs: "list_all ok xs \<and> length xs = n"
  then show "length (concat (map enc xs)) = n * width"
    by (simp add: concat_length)
  show "pos + n * width \<le> length buf \<Longrightarrow>
      put_list put buf pos xs = Some (overlay buf pos (concat (map enc xs)), pos + n * width)"
    using xs put_list_fits [of xs pos buf] by simp
  show "drop pos buf = concat (map enc xs) @ rest \<Longrightarrow>
      get_list get n buf pos = Some (xs, pos + n * width)"
    using xs get_list_enc [of xs pos buf rest] by simp
  assume short: "length buf < pos + n * width"
  show "put_list put buf pos xs = None"
  proof (cases "pos \<le> length buf")
    case True
    with xs short show ?thesis by (simp add: put_list_short)
  next
    case False
    from xs some_entry obtain y ys where "xs = y # ys" by (cases xs) auto
    with xs False some_width show ?thesis by (simp add: put_short)
  qed
qed

subsection \<open>C strings\<close>

definition c_strlen :: "u8 list \<Rightarrow> nat option" where
  "c_strlen s = (if 0 \<in> set s then Some (length (takeWhile (\<lambda>b. b \<noteq> 0) s)) else None)"

definition c_string :: "u8 list \<Rightarrow> u8 list" where
  "c_string s = takeWhile (\<lambda>b. b \<noteq> 0) s"

definition strcpy :: "u8 list \<Rightarrow> u8 list \<Rightarrow> u8 list option" where
  "strcpy dst src =
     do { n \<leftarrow> c_strlen src;
          if n < length dst then Some (take (Suc n) src @ drop (Suc n) dst) else None }"

lemma c_strlen_less: "c_strlen s = Some n \<Longrightarrow> n < length s"
  by (induction s arbitrary: n) (auto simp: c_strlen_def split: if_splits)

lemma strcpy_length: "strcpy dst src = Some r \<Longrightarrow> length r = length dst"
  by (auto simp: strcpy_def bind_eq_Some_conv dest!: c_strlen_less split: if_splits)

lemma take_c_strlen:
  "c_strlen s = Some n \<Longrightarrow> take (Suc n) s = c_string s @ [0]"
proof (induction s arbitrary: n)
  case Nil
  then show ?case by (simp add: c_strlen_def)
next
  case (Cons b s)
  then show ?case by (cases "b = 0") (auto simp: c_strlen_def c_string_def split: if_splits)
qed

lemma c_string_terminated: "0 \<notin> set xs \<Longrightarrow> c_string (xs @ 0 # ys) = xs"
  by (induction xs) (auto simp: c_string_def)

lemma c_string_no0: "0 \<notin> set (c_string s)"
  by (auto simp: c_string_def dest: set_takeWhileD)

lemma strcpy_string:
  assumes "strcpy dst src = Some r"
  shows "c_string r = c_string src" and "0 \<in> set r"
proof -
  from assms obtain n where "c_strlen src = Some n"
    and r: "r = take (Suc n) src @ drop (Suc n) dst"
    by (auto simp: strcpy_def bind_eq_Some_conv split: if_splits)
  then have "r = c_string src @ 0 # drop (Suc n) dst"
    by (simp add: take_c_strlen)
  then show "c_string r = c_string src" and "0 \<in> set r"
    by (simp_all add: c_string_terminated c_string_no0)
qed

lemma strcpy_total:
  assumes "0 \<in> set src" and "length (c_string src) < length dst"
  shows "\<exists>r. strcpy dst src = Some r"
  using assms by (simp add: strcpy_def c_strlen_def c_string_def)

lemma strcpy_same_size: "0 \<in> set src \<Longrightarrow> length src = length dst \<Longrightarrow> \<exists>r. strcpy dst src = Some r"
proof -
  assume "0 \<in> set src" and "length src = length dst"
  then obtain n where "c_strlen src = Some n" by (simp add: c_strlen_def)
  with \<open>length src = length dst\<close> show ?thesis
    by (auto simp: strcpy_def dest: c_strlen_less)
qed

end
