(* ===== verification/VectorClock.thy ===== *)
theory VectorClock
  imports Prelude
begin

text \<open>
  Vector clocks: \<open>struct clock\<close>, the array of \<open>MAX_NODES\<close> entries that every process of
  \<open>transaction_management\<close> keeps, \<open>updateMyVectorClock\<close> (helper.c) and the merge loop that
  tmanager.c and tworker.c share.  An entry with node id 0 is a free slot.

  The locale \<open>vclock\<close> is what the processes rely on: a tick advances the own entry only, a
  merge never lowers an entry, both keep the array well formed.  From these laws follows how an
  entry grows along any sequence of local events and receives.
\<close>

record clock =
  c_nodeId :: u32
  c_time :: u32

definition no_clock :: clock where
  "no_clock = \<lparr>c_nodeId = 0, c_time = 0\<rparr>"

subsection \<open>The operations\<close>

definition updateMyVectorClock :: "u32 \<Rightarrow> clock list \<Rightarrow> nat \<times> clock list" where
  "updateMyVectorClock port vc =
     ((case first_index (\<lambda>c. c_nodeId c = port) vc of None \<Rightarrow> length vc | Some i \<Rightarrow> i),
      upd_first (\<lambda>c. c_nodeId c = port) (\<lambda>c. c\<lparr>c_time := c_time c + 1\<rparr>) vc)"

abbreviation tick :: "u32 \<Rightarrow> clock list \<Rightarrow> clock list" where
  "tick port vc \<equiv> snd (updateMyVectorClock port vc)"

fun merge_entry :: "clock \<Rightarrow> clock list \<Rightarrow> clock list" where
  "merge_entry m [] = []"
| "merge_entry m (c # cs) =
     (if c_nodeId m = c_nodeId c then
        (if c_time m > c_time c then c\<lparr>c_time := c_time m\<rparr> else c) # cs
      else if c_nodeId c = 0 then
        c\<lparr>c_nodeId := c_nodeId m, c_time := c_time m\<rparr> # cs
      else c # merge_entry m cs)"

fun merge_clocks :: "clock list \<Rightarrow> clock list \<Rightarrow> clock list" where
  "merge_clocks [] vc = vc"
| "merge_clocks (m # ms) vc =
     (if c_nodeId m = 0 then vc else merge_clocks ms (merge_entry m vc))"

subsection \<open>What an array of entries says about a node\<close>

fun vtime :: "clock list \<Rightarrow> u32 \<Rightarrow> u32" where
  "vtime [] n = 0"
| "vtime (c # cs) n = (if c_nodeId c = n then c_time c else vtime cs n)"

definition known :: "clock list \<Rightarrow> u32 set" where
  "known vc = c_nodeId ` set vc - {0}"

fun wf_clock :: "clock list \<Rightarrow> bool" where
  "wf_clock [] = True"
| "wf_clock (c # cs) =
     (if c_nodeId c = 0 then list_all (\<lambda>d. c_nodeId d = 0) cs
      else list_all (\<lambda>d. c_nodeId d \<noteq> c_nodeId c) cs \<and> wf_clock cs)"

lemma known_Nil [simp]: "known [] = {}"
  by (simp add: known_def)

lemma known_Cons [simp]:
  "known (c # cs) = (if c_nodeId c = 0 then known cs else insert (c_nodeId c) (known cs))"
  by (auto simp: known_def)

lemma zero_not_known [simp]: "0 \<notin> known vc"
  by (simp add: known_def)

lemma finite_known [simp]: "finite (known vc)"
  by (simp add: known_def)

lemma wf_free_known: "list_all (\<lambda>d. c_nodeId d = 0) cs \<Longrightarrow> known cs = {}"
  by (induction cs) auto

lemma wf_free_vtime: "n \<noteq> 0 \<Longrightarrow> list_all (\<lambda>d. c_nodeId d = 0) cs \<Longrightarrow> vtime cs n = 0"
  by (induction cs) auto

lemma wf_free: "list_all (\<lambda>d. c_nodeId d = 0) cs \<Longrightarrow> wf_clock cs"
  by (cases cs) auto

lemma wf_clock_replicate [simp]: "c_nodeId c = 0 \<Longrightarrow> wf_clock (replicate n c)"
  by (rule wf_free) simp

lemma list_all_other_known: "n \<noteq> 0 \<Longrightarrow> list_all (\<lambda>d. c_nodeId d \<noteq> n) cs \<longleftrightarrow> n \<notin> known cs"
  by (induction cs) auto

lemma vtime_unknown: "n \<noteq> 0 \<Longrightarrow> n \<notin> known vc \<Longrightarrow> vtime vc n = 0"
  by (induction vc) (auto split: if_splits)

lemma card_known_le: "card (known vc) \<le> length vc"
proof -
  have "known vc \<subseteq> set (map c_nodeId vc)" by (auto simp: known_def)
  then have "card (known vc) \<le> card (set (map c_nodeId vc))" by (rule card_mono [rotated]) simp
  also have "\<dots> \<le> length (map c_nodeId vc)" by (rule card_length)
  finally show ?thesis by simp
qed

subsection \<open>Ticks\<close>

lemma length_tick [simp, len_simps]: "length (tick p vc) = length vc"
  by (simp add: updateMyVectorClock_def)

lemma tick_Cons:
  "tick p (c # cs) =
    (if c_nodeId c = p then c\<lparr>c_time := c_time c + 1\<rparr> # cs else c # tick p cs)"
  by (simp add: updateMyVectorClock_def)

lemma tick_Nil [simp]: "tick p [] = []"
  by (simp add: updateMyVectorClock_def)

lemma map_nodeId_tick [simp]: "map c_nodeId (tick p vc) = map c_nodeId vc"
  by (induction vc) (auto simp: tick_Cons)

lemma known_tick [simp]: "known (tick p vc) = known vc"
  by (induction vc) (auto simp: tick_Cons)

lemma list_all_nodeId_tick [simp]:
  "list_all (\<lambda>d. c_nodeId d = n) (tick p vc) = list_all (\<lambda>d. c_nodeId d = n) vc"
  "list_all (\<lambda>d. c_nodeId d \<noteq> n) (tick p vc) = list_all (\<lambda>d. c_nodeId d \<noteq> n) vc"
  by (induction vc) (auto simp: tick_Cons)

lemma wf_tick [simp]: "wf_clock (tick p vc) = wf_clock vc"
  by (induction vc) (auto simp: tick_Cons)

lemma vtime_tick:
  "vtime (tick p vc) n =
    (if n = p \<and> p \<in> c_nodeId ` set vc then vtime vc p + 1 else vtime vc n)"
  by (induction vc) (auto simp: tick_Cons)

lemma tick_index:
  assumes "p \<noteq> 0" and "p \<in> known vc"
  shows "fst (updateMyVectorClock p vc) < length vc"
    and "c_nodeId (vc ! fst (updateMyVectorClock p vc)) = p"
    and "tick p vc = vc[fst (updateMyVectorClock p vc) :=
           (vc ! fst (updateMyVectorClock p vc))\<lparr>c_time := c_time (vc ! fst (updateMyVectorClock p vc)) + 1\<rparr>]"
proof -
  from assms obtain i where i: "first_index (\<lambda>c. c_nodeId c = p) vc = Some i"
    by (cases "first_index (\<lambda>c. c_nodeId c = p) vc") (auto simp: known_def first_index_None)
  then show "fst (updateMyVectorClock p vc) < length vc"
    and "c_nodeId (vc ! fst (updateMyVectorClock p vc)) = p"
    and "tick p vc = vc[fst (updateMyVectorClock p vc) :=
           (vc ! fst (updateMyVectorClock p vc))\<lparr>c_time := c_time (vc ! fst (updateMyVectorClock p vc)) + 1\<rparr>]"
    using first_indexD [OF i] by (simp_all add: updateMyVectorClock_def upd_first_index)
qed

subsection \<open>Merging\<close>

lemma length_merge_entry [simp, len_simps]: "length (merge_entry m vc) = length vc"
  by (induction vc) auto

lemma length_merge_clocks [simp, len_simps]: "length (merge_clocks ms vc) = length vc"
  by (induction ms arbitrary: vc) auto

lemma known_merge_entry_subset:
  "c_nodeId m \<noteq> 0 \<Longrightarrow> known (merge_entry m vc) \<subseteq> insert (c_nodeId m) (known vc)"
  by (induction vc) auto

lemma known_merge_entry_superset: "c_nodeId m \<noteq> 0 \<Longrightarrow> known vc \<subseteq> known (merge_entry m vc)"
  by (induction vc) auto

lemma wf_merge_entry: "c_nodeId m \<noteq> 0 \<Longrightarrow> wf_clock vc \<Longrightarrow> wf_clock (merge_entry m vc)"
proof (induction vc)
  case Nil
  then show ?case by simp
next
  case (Cons c cs)
  consider (free) "c_nodeId c = 0" | (same) "c_nodeId c = c_nodeId m"
    | (other) "c_nodeId c \<noteq> 0" "c_nodeId c \<noteq> c_nodeId m" by blast
  then show ?case
  proof cases
    case free
    with Cons.prems have "list_all (\<lambda>d. c_nodeId d \<noteq> c_nodeId m) cs"
      by (auto simp: list_all_iff)
    with free Cons.prems show ?thesis by (auto simp: wf_free)
  next
    case same
    with Cons.prems show ?thesis by auto
  next
    case other
    with Cons.prems have new: "c_nodeId c \<notin> known cs" and wf: "wf_clock cs"
      by (auto simp: list_all_other_known)
    have "c_nodeId c \<notin> known (merge_entry m cs)"
      using known_merge_entry_subset [OF Cons.prems(1), of cs] new other(2) by blast
    then have "list_all (\<lambda>d. c_nodeId d \<noteq> c_nodeId c) (merge_entry m cs)"
      using other(1) by (simp add: list_all_other_known)
    moreover have "wf_clock (merge_entry m cs)" using Cons.prems(1) wf by (rule Cons.IH)
    ultimately show ?thesis using other by auto
  qed
qed

lemma wf_merge_clocks: "wf_clock vc \<Longrightarrow> wf_clock (merge_clocks ms vc)"
  by (induction ms arbitrary: vc) (auto intro: wf_merge_entry)

lemma full_known: "wf_clock vc \<Longrightarrow> 0 \<notin> c_nodeId ` set vc \<Longrightarrow> card (known vc) = length vc"
  by (induction vc) (auto simp: list_all_other_known)

text \<open>A merged entry: the larger time if the node has a slot or there is a free one; an entry
  that finds no slot is dropped.\<close>

lemma vtime_merge_entry:
  assumes "wf_clock vc" and "c_nodeId m \<noteq> 0" and "n \<noteq> 0"
  shows "vtime (merge_entry m vc) n =
    (if n = c_nodeId m \<and> (n \<in> known vc \<or> 0 \<in> c_nodeId ` set vc)
     then max (vtime vc n) (c_time m) else vtime vc n)"
  using assms
  by (induction vc)
    (auto simp: max_def wf_free_known wf_free_vtime list_all_other_known vtime_unknown not_less)

lemma known_merge_entry_room:
  "c_nodeId m \<noteq> 0 \<Longrightarrow> wf_clock vc \<Longrightarrow> c_nodeId m \<in> known vc \<or> 0 \<in> c_nodeId ` set vc \<Longrightarrow>
    known (merge_entry m vc) = insert (c_nodeId m) (known vc)"
  by (induction vc) (auto simp: wf_free_known)

lemma merge_entry_ge:
  "wf_clock vc \<Longrightarrow> c_nodeId m \<noteq> 0 \<Longrightarrow> n \<noteq> 0 \<Longrightarrow> vtime vc n \<le> vtime (merge_entry m vc) n"
  by (simp add: vtime_merge_entry)

lemma merge_clocks_ge: "wf_clock vc \<Longrightarrow> n \<noteq> 0 \<Longrightarrow> vtime vc n \<le> vtime (merge_clocks ms vc) n"
proof (induction ms arbitrary: vc)
  case Nil
  show ?case by simp
next
  case (Cons m ms)
  show ?case
  proof (cases "c_nodeId m = 0")
    case True
    then show ?thesis by simp
  next
    case False
    with Cons.prems have "vtime vc n \<le> vtime (merge_entry m vc) n"
      by (intro merge_entry_ge)
    also have "\<dots> \<le> vtime (merge_clocks ms (merge_entry m vc)) n"
      using Cons False by (intro Cons.IH wf_merge_entry)
    finally show ?thesis using False by simp
  qed
qed

lemma known_merge_clocks_superset: "known vc \<subseteq> known (merge_clocks ms vc)"
proof (induction ms arbitrary: vc)
  case Nil
  show ?case by simp
next
  case (Cons m ms)
  then show ?case
    using known_merge_entry_superset [of m vc] by (cases "c_nodeId m = 0") (simp_all, blast)
qed

text \<open>With enough slots for the nodes of both clocks, a merge is the pointwise maximum.\<close>

lemma merge_clocks_room:
  assumes "wf_clock ms" and "wf_clock vc" and "card (known ms \<union> known vc) \<le> length vc"
  shows "known (merge_clocks ms vc) = known ms \<union> known vc \<and>
    (\<forall>n. n \<noteq> 0 \<longrightarrow> vtime (merge_clocks ms vc) n = max (vtime vc n) (vtime ms n))"
  using assms
proof (induction ms arbitrary: vc)
  case Nil
  then show ?case by simp
next
  case (Cons m ms)
  show ?case
  proof (cases "c_nodeId m = 0")
    case True
    with Cons.prems show ?thesis by (auto simp: wf_free_known wf_free_vtime)
  next
    case False
    let ?vc = "merge_entry m vc"
    have slot: "c_nodeId m \<in> known vc \<or> 0 \<in> c_nodeId ` set vc"
    proof (rule ccontr)
      assume no: "\<not> ?thesis"
      with Cons.prems have "card (known vc) = length vc" by (intro full_known) auto
      moreover from no have "card (insert (c_nodeId m) (known vc)) = Suc (card (known vc))"
        by simp
      moreover have "card (insert (c_nodeId m) (known vc)) \<le> card (known (m # ms) \<union> known vc)"
        using False by (intro card_mono) auto
      ultimately show False using Cons.prems by simp
    qed
    then have known: "known ?vc = insert (c_nodeId m) (known vc)"
      using False Cons.prems by (intro known_merge_entry_room) auto
    have wf: "wf_clock ?vc" and wfms: "wf_clock ms" and new: "c_nodeId m \<notin> known ms"
      using False Cons.prems by (auto intro: wf_merge_entry simp: list_all_other_known)
    have "known ms \<union> known ?vc = known (m # ms) \<union> known vc"
      using False known by auto
    then have IH: "known (merge_clocks ms ?vc) = known ms \<union> known ?vc \<and>
        (\<forall>n. n \<noteq> 0 \<longrightarrow> vtime (merge_clocks ms ?vc) n = max (vtime ?vc n) (vtime ms n))"
      using Cons.prems wf wfms by (intro Cons.IH) simp_all
    have "max (vtime ?vc n) (vtime ms n) = max (vtime vc n) (vtime (m # ms) n)" if "n \<noteq> 0" for n
      using that False new slot Cons.prems by (auto simp: vtime_merge_entry vtime_unknown)
    with IH known False show ?thesis by auto
  qed
qed

subsection \<open>The contract of a vector clock\<close>

datatype 'v clock_event = Tick | Merge 'v

fun clock_run ::
  "(u32 \<Rightarrow> 'v \<Rightarrow> 'v) \<Rightarrow> ('v \<Rightarrow> 'v \<Rightarrow> 'v) \<Rightarrow> u32 \<Rightarrow> 'v clock_event list \<Rightarrow> 'v \<Rightarrow> 'v"
where
  "clock_run tk mg p [] v = v"
| "clock_run tk mg p (Tick # es) v = clock_run tk mg p es (tk p v)"
| "clock_run tk mg p (Merge m # es) v = clock_run tk mg p es (mg m v)"

fun no_wrap ::
  "(u32 \<Rightarrow> 'v \<Rightarrow> 'v) \<Rightarrow> ('v \<Rightarrow> 'v \<Rightarrow> 'v) \<Rightarrow> ('v \<Rightarrow> u32 \<Rightarrow> u32) \<Rightarrow> u32 \<Rightarrow> 'v clock_event list \<Rightarrow> 'v \<Rightarrow> bool"
where
  "no_wrap tk mg tm p [] v = True"
| "no_wrap tk mg tm p (Tick # es) v = (tm v p \<noteq> - 1 \<and> no_wrap tk mg tm p es (tk p v))"
| "no_wrap tk mg tm p (Merge m # es) v = no_wrap tk mg tm p es (mg m v)"

definition ticks :: "'v clock_event list \<Rightarrow> nat" where
  "ticks es = length (filter (\<lambda>e. case e of Tick \<Rightarrow> True | Merge _ \<Rightarrow> False) es)"

lemma ticks_simps [simp]:
  "ticks [] = 0" "ticks (Tick # es) = Suc (ticks es)" "ticks (Merge m # es) = ticks es"
  by (simp_all add: ticks_def)

lemma unat_suc: "(w :: u32) \<noteq> - 1 \<Longrightarrow> unat (w + 1) = Suc (unat w)"
proof -
  assume "w \<noteq> - 1"
  then have "w + 1 \<noteq> 0" by (metis add.inverse_unique add.commute)
  then show ?thesis by (simp add: unatSuc add.commute)
qed

locale vclock =
  fixes tk :: "u32 \<Rightarrow> 'v \<Rightarrow> 'v"
    and mg :: "'v \<Rightarrow> 'v \<Rightarrow> 'v"
    and tm :: "'v \<Rightarrow> u32 \<Rightarrow> u32"
    and ok :: "'v \<Rightarrow> bool"
    and okm :: "'v \<Rightarrow> bool"
    and knows :: "'v \<Rightarrow> u32 \<Rightarrow> bool"
  assumes ok_tick: "ok v \<Longrightarrow> ok (tk p v)"
    and ok_merge: "ok v \<Longrightarrow> okm m \<Longrightarrow> ok (mg m v)"
    and knows_tick: "ok v \<Longrightarrow> knows v n \<Longrightarrow> knows (tk p v) n"
    and knows_merge: "ok v \<Longrightarrow> okm m \<Longrightarrow> knows v n \<Longrightarrow> knows (mg m v) n"
    and tick_self: "ok v \<Longrightarrow> knows v p \<Longrightarrow> tm (tk p v) p = tm v p + 1"
    and tick_other: "ok v \<Longrightarrow> n \<noteq> p \<Longrightarrow> tm (tk p v) n = tm v n"
    and merge_ge: "ok v \<Longrightarrow> okm m \<Longrightarrow> n \<noteq> 0 \<Longrightarrow> tm v n \<le> tm (mg m v) n"
begin

lemma run_own_entry:
  assumes "ok v" and "knows v p" and "p \<noteq> 0" and "\<And>m. Merge m \<in> set es \<Longrightarrow> okm m"
    and "no_wrap tk mg tm p es v"
  shows "unat (tm v p) + ticks es \<le> unat (tm (clock_run tk mg p es v) p)"
  using assms
proof (induction es arbitrary: v)
  case Nil
  then show ?case by simp
next
  case (Cons e es)
  show ?case
  proof (cases e)
    case Tick
    with Cons.prems have "unat (tm (tk p v) p) + ticks es \<le> unat (tm (clock_run tk mg p es (tk p v)) p)"
      by (intro Cons.IH) (auto intro: ok_tick knows_tick)
    moreover have "unat (tm (tk p v) p) = Suc (unat (tm v p))"
      using Cons.prems Tick by (simp add: tick_self unat_suc)
    ultimately show ?thesis using Tick by simp
  next
    case (Merge m)
    with Cons.prems have "unat (tm (mg m v) p) + ticks es \<le> unat (tm (clock_run tk mg p es (mg m v)) p)"
      by (intro Cons.IH) (auto intro: ok_merge knows_merge)
    moreover have "unat (tm v p) \<le> unat (tm (mg m v) p)"
      using Cons.prems Merge by (auto intro: merge_ge simp flip: word_le_nat_alt)
    ultimately show ?thesis using Merge by simp
  qed
qed

lemma run_other_entry:
  assumes "ok v" and "n \<noteq> p" and "n \<noteq> 0" and "\<And>m. Merge m \<in> set es \<Longrightarrow> okm m"
  shows "tm v n \<le> tm (clock_run tk mg p es v) n"
  using assms
proof (induction es arbitrary: v)
  case Nil
  then show ?case by simp
next
  case (Cons e es)
  show ?case
  proof (cases e)
    case Tick
    with Cons.prems have "tm (tk p v) n \<le> tm (clock_run tk mg p es (tk p v)) n"
      by (intro Cons.IH) (auto intro: ok_tick)
    with Cons.prems Tick show ?thesis by (simp add: tick_other)
  next
    case (Merge m)
    with Cons.prems have "tm (mg m v) n \<le> tm (clock_run tk mg p es (mg m v)) n"
      by (intro Cons.IH) (auto intro: ok_merge)
    moreover have "tm v n \<le> tm (mg m v) n"
      using Cons.prems Merge by (auto intro: merge_ge)
    ultimately show ?thesis using Merge by simp
  qed
qed

end

interpretation txclock: vclock tick merge_clocks vtime wf_clock "\<lambda>m. True" "\<lambda>v n. n \<in> known v"
proof unfold_locales
  fix v m :: "clock list" and n p :: u32
  show "n \<in> known v \<Longrightarrow> n \<in> known (merge_clocks m v)"
    using known_merge_clocks_superset [of v m] by blast
  show "p \<in> known v \<Longrightarrow> vtime (tick p v) p = vtime v p + 1"
    by (simp add: vtime_tick known_def)
qed (simp_all add: vtime_tick wf_merge_clocks merge_clocks_ge)

end
