(* ===== verification/TxWire.thy ===== *)
theory TxWire
  imports Bytes VectorClock
begin

text \<open>
  The wire format of \<open>transaction_management\<close>: the message ids of msg.h, the two message
  structures (\<open>msgType\<close> from cmd to a worker, \<open>txMessage\<close> between workers and the transaction
  manager) and the serialisation routines of helper.c, which write and read network byte order
  at a moving position of a buffer.

  The routines are shown to be codecs for any byte order of the host; the round trips, the
  number of bytes and the behaviour on short buffers follow from the codec laws.
\<close>

subsection \<open>Constants of msg.h and tworker.h\<close>

abbreviation MAX_NODES :: nat where "MAX_NODES \<equiv> 10"
abbreviation MAX_TRANS :: nat where "MAX_TRANS \<equiv> 5"
abbreviation IDLEN :: nat where "IDLEN \<equiv> 64"

abbreviation BEGINTX :: u32 where "BEGINTX \<equiv> 1000"
abbreviation JOINTX :: u32 where "JOINTX \<equiv> 1001"
abbreviation NEW_A :: u32 where "NEW_A \<equiv> 1002"
abbreviation NEW_B :: u32 where "NEW_B \<equiv> 1003"
abbreviation NEW_IDSTR :: u32 where "NEW_IDSTR \<equiv> 1004"
abbreviation DELAY_RESPONSE :: u32 where "DELAY_RESPONSE \<equiv> 1005"
abbreviation CRASH :: u32 where "CRASH \<equiv> 1006"
abbreviation COMMIT :: u32 where "COMMIT \<equiv> 1007"
abbreviation COMMIT_CRASH :: u32 where "COMMIT_CRASH \<equiv> 1008"
abbreviation ABORT :: u32 where "ABORT \<equiv> 1009"
abbreviation ABORT_CRASH :: u32 where "ABORT_CRASH \<equiv> 1010"
abbreviation VOTE_ABORT :: u32 where "VOTE_ABORT \<equiv> 1011"
abbreviation VOTE_COMMIT :: u32 where "VOTE_COMMIT \<equiv> 1012"
abbreviation JOIN_FAIL :: u32 where "JOIN_FAIL \<equiv> 1013"
abbreviation JOIN_SUCCESS :: u32 where "JOIN_SUCCESS \<equiv> 1014"
abbreviation BEGIN_FAIL :: u32 where "BEGIN_FAIL \<equiv> 1015"
abbreviation BEGIN_SUCCESS :: u32 where "BEGIN_SUCCESS \<equiv> 1016"
abbreviation PREPARE_COMMIT :: u32 where "PREPARE_COMMIT \<equiv> 1017"
abbreviation COMMIT_REQ :: u32 where "COMMIT_REQ \<equiv> 1018"
abbreviation POLL_DECISION :: u32 where "POLL_DECISION \<equiv> 1019"
abbreviation RESTARTED :: u32 where "RESTARTED \<equiv> 1020"

abbreviation DECIDE_ABORT :: u32 where "DECIDE_ABORT \<equiv> 2000"
abbreviation DECIDE_COMMIT :: u32 where "DECIDE_COMMIT \<equiv> 2001"
abbreviation WAIT :: u32 where "WAIT \<equiv> 2002"

subsection \<open>Messages\<close>

text \<open>The union \<open>strData\<close> is one array of 64 bytes under two names.\<close>

record msgType =
  m_msgID :: u32
  m_tid :: u32
  m_port :: u32
  m_newValue :: u32
  m_delay :: u32
  m_strData :: "u8 list"

abbreviation newID :: "msgType \<Rightarrow> u8 list" where "newID \<equiv> m_strData"
abbreviation hostName :: "msgType \<Rightarrow> u8 list" where "hostName \<equiv> m_strData"

record txMessage =
  tx_msgID :: u32
  tx_tid :: u32
  tx_nodeId :: u32
  tx_isCrash :: u32
  tx_vectorClock :: "clock list"

text \<open>\<open>struct sockaddr_in\<close>: the address, and the port as \<open>ntohs\<close> reads it.\<close>

record sockaddr_in =
  sin_addr :: u32
  sin_port :: u16

definition sizeof_msgType :: nat where "sizeof_msgType = 84"
definition sizeof_txMessage :: nat where "sizeof_txMessage = 96"

subsection \<open>Serialisation\<close>

definition serializeInt :: "endian \<Rightarrow> u8 list \<Rightarrow> nat \<Rightarrow> u32 \<Rightarrow> (u8 list \<times> nat) option" where
  "serializeInt e buffer pos val =
     do { buffer \<leftarrow> memcpy_to buffer pos (mem_of_u32 e (htonl e val)); Some (buffer, pos + 4) }"

definition serializeUnsignedInt :: "endian \<Rightarrow> u8 list \<Rightarrow> nat \<Rightarrow> u32 \<Rightarrow> (u8 list \<times> nat) option" where
  "serializeUnsignedInt e buffer pos val =
     do { buffer \<leftarrow> memcpy_to buffer pos (mem_of_u32 e (htonl e val)); Some (buffer, pos + 4) }"

definition serializeMsg :: "endian \<Rightarrow> u8 list \<Rightarrow> msgType \<Rightarrow> u8 list option" where
  "serializeMsg e buffer m =
     do { (buffer, pos) \<leftarrow> serializeUnsignedInt e buffer 0 (m_msgID m);
          (buffer, pos) \<leftarrow> serializeUnsignedInt e buffer pos (m_tid m);
          (buffer, pos) \<leftarrow> serializeUnsignedInt e buffer pos (m_port m);
          (buffer, pos) \<leftarrow> serializeInt e buffer pos (m_newValue m);
          (buffer, pos) \<leftarrow> serializeInt e buffer pos (m_delay m);
          if m_msgID m = NEW_IDSTR then memcpy_to buffer pos (take IDLEN (newID m))
          else memcpy_to buffer pos (take IDLEN (hostName m)) }"

text \<open>The body of the loop over the clock entries, and the loop.\<close>

definition serializeClockEntry :: "endian \<Rightarrow> u8 list \<Rightarrow> nat \<Rightarrow> clock \<Rightarrow> (u8 list \<times> nat) option" where
  "serializeClockEntry e buffer pos c =
     do { (buffer, pos) \<leftarrow> serializeInt e buffer pos (c_nodeId c);
          serializeInt e buffer pos (c_time c) }"

definition serializeClock :: "endian \<Rightarrow> u8 list \<Rightarrow> nat \<Rightarrow> clock list \<Rightarrow> (u8 list \<times> nat) option" where
  "serializeClock e buffer pos vc = put_list (serializeClockEntry e) buffer pos vc"

definition serializeWorkerMsg :: "endian \<Rightarrow> u8 list \<Rightarrow> txMessage \<Rightarrow> u8 list option" where
  "serializeWorkerMsg e buffer m =
     do { (buffer, pos) \<leftarrow> serializeUnsignedInt e buffer 0 (tx_msgID m);
          (buffer, pos) \<leftarrow> serializeUnsignedInt e buffer pos (tx_tid m);
          (buffer, pos) \<leftarrow> serializeUnsignedInt e buffer pos (tx_nodeId m);
          (buffer, pos) \<leftarrow> serializeUnsignedInt e buffer pos (tx_isCrash m);
          (buffer, pos) \<leftarrow> serializeClock e buffer pos (tx_vectorClock m);
          Some buffer }"

subsection \<open>Deserialisation\<close>

definition deserializeInt :: "endian \<Rightarrow> u8 list \<Rightarrow> nat \<Rightarrow> (u32 \<times> nat) option" where
  "deserializeInt e buffer pos =
     do { temp \<leftarrow> memcpy_from buffer pos 4; Some (ntohl e (u32_of_mem e temp), pos + 4) }"

definition deserializeUnsignedInt :: "endian \<Rightarrow> u8 list \<Rightarrow> nat \<Rightarrow> (u32 \<times> nat) option" where
  "deserializeUnsignedInt e buffer pos =
     do { temp \<leftarrow> memcpy_from buffer pos 4; Some (ntohl e (u32_of_mem e temp), pos + 4) }"

definition deserializeMsg :: "endian \<Rightarrow> u8 list \<Rightarrow> msgType option" where
  "deserializeMsg e buffer =
     do { (msgID, pos) \<leftarrow> deserializeUnsignedInt e buffer 0;
          (tid, pos) \<leftarrow> deserializeUnsignedInt e buffer pos;
          (port, pos) \<leftarrow> deserializeUnsignedInt e buffer pos;
          (newValue, pos) \<leftarrow> deserializeInt e buffer pos;
          (delay, pos) \<leftarrow> deserializeInt e buffer pos;
          str \<leftarrow> (if msgID = NEW_IDSTR then memcpy_from buffer pos IDLEN
                  else memcpy_from buffer pos IDLEN);
          Some \<lparr>m_msgID = msgID, m_tid = tid, m_port = port, m_newValue = newValue,
                m_delay = delay, m_strData = str\<rparr> }"

definition deserializeClockUnsignedInt :: "endian \<Rightarrow> u8 list \<Rightarrow> nat \<Rightarrow> (u32 \<times> nat) option" where
  "deserializeClockUnsignedInt e buffer pos =
     do { temp \<leftarrow> memcpy_from buffer pos 4; Some (ntohl e (u32_of_mem e temp), pos + 4) }"

definition deserializeClockEntry :: "endian \<Rightarrow> u8 list \<Rightarrow> nat \<Rightarrow> (clock \<times> nat) option" where
  "deserializeClockEntry e buffer pos =
     do { (n, pos) \<leftarrow> deserializeClockUnsignedInt e buffer pos;
          (t, pos) \<leftarrow> deserializeClockUnsignedInt e buffer pos;
          Some (\<lparr>c_nodeId = n, c_time = t\<rparr>, pos) }"

definition deserializeClock :: "endian \<Rightarrow> u8 list \<Rightarrow> nat \<Rightarrow> (clock list \<times> nat) option" where
  "deserializeClock e buffer pos = get_list (deserializeClockEntry e) MAX_NODES buffer pos"

definition deserializeWorkerMsg :: "endian \<Rightarrow> u8 list \<Rightarrow> txMessage option" where
  "deserializeWorkerMsg e buffer =
     do { (msgID, pos) \<leftarrow> deserializeUnsignedInt e buffer 0;
          (tid, pos) \<leftarrow> deserializeUnsignedInt e buffer pos;
          (nodeId, pos) \<leftarrow> deserializeUnsignedInt e buffer pos;
          (isCrash, pos) \<leftarrow> deserializeUnsignedInt e buffer pos;
          (vc, pos) \<leftarrow> deserializeClock e buffer pos;
          Some \<lparr>tx_msgID = msgID, tx_tid = tid, tx_nodeId = nodeId, tx_isCrash = isCrash,
                tx_vectorClock = vc\<rparr> }"

subsection \<open>The integer and clock codecs\<close>

definition clock_bytes :: "clock \<Rightarrow> u8 list" where
  "clock_bytes c = be_bytes (c_nodeId c) @ be_bytes (c_time c)"

lemma length_clock_bytes [simp, len_simps]: "length (clock_bytes c) = 8"
  by (simp add: clock_bytes_def)

interpretation uint_codec: codec "serializeUnsignedInt e" "deserializeUnsignedInt e" be_bytes 4 "\<lambda>_. True"
  for e
  by unfold_locales
    (auto simp: serializeUnsignedInt_def deserializeUnsignedInt_def memcpy_to_def memcpy_from_def
      dest: arg_cong [where f = length])

interpretation int_codec: codec "serializeInt e" "deserializeInt e" be_bytes 4 "\<lambda>_. True" for e
  by unfold_locales
    (auto simp: serializeInt_def deserializeInt_def memcpy_to_def memcpy_from_def
      dest: arg_cong [where f = length])

lemma deserializeClockUnsignedInt_eq: "deserializeClockUnsignedInt = deserializeInt"
  by (simp add: fun_eq_iff deserializeClockUnsignedInt_def deserializeInt_def)

lemma serializeClockEntry_short:
  "length buf < pos + 8 \<Longrightarrow> serializeClockEntry e buf pos c = None"
  by (cases "pos + 4 \<le> length buf")
    (simp_all add: serializeClockEntry_def int_codec.put_fits int_codec.put_short)

lemma serializeClockEntry_fits:
  assumes "pos + 8 \<le> length buf"
  shows "serializeClockEntry e buf pos c = Some (overlay buf pos (clock_bytes c), pos + 8)"
proof -
  have "overlay (overlay buf pos (be_bytes (c_nodeId c))) (pos + 4) (be_bytes (c_time c)) =
      overlay buf pos (clock_bytes c)"
    using assms overlay_overlay [of pos "be_bytes (c_nodeId c)" "be_bytes (c_time c)" buf]
    by (simp add: clock_bytes_def)
  with assms show ?thesis
    by (simp add: serializeClockEntry_def int_codec.put_fits)
qed

lemma deserializeClockEntry_enc:
  assumes "drop pos buf = clock_bytes c @ rest"
  shows "deserializeClockEntry e buf pos = Some (c, pos + 8)"
proof -
  have 1: "deserializeInt e buf pos = Some (c_nodeId c, pos + 4)"
    using assms by (auto intro: int_codec.get_enc simp: clock_bytes_def)
  have "drop (pos + 4) buf = drop 4 (drop pos buf)" by (simp add: add.commute)
  also have "\<dots> = be_bytes (c_time c) @ rest" using assms by (simp add: clock_bytes_def)
  finally have t: "drop (pos + 4) buf = be_bytes (c_time c) @ rest" .
  have 2: "deserializeInt e buf (pos + 4) = Some (c_time c, pos + 8)"
    using int_codec.get_enc [OF TrueI t, of e] by simp
  show ?thesis by (simp add: deserializeClockEntry_def deserializeClockUnsignedInt_eq 1 2)
qed

interpretation clock_codec: array_codec
  "serializeClockEntry e" "deserializeClockEntry e" clock_bytes 8 "\<lambda>_. True" MAX_NODES for e
  by unfold_locales
    (simp_all add: serializeClockEntry_fits serializeClockEntry_short deserializeClockEntry_enc)

subsection \<open>Whole messages\<close>

definition txBytes :: "txMessage \<Rightarrow> u8 list" where
  "txBytes m = be_bytes (tx_msgID m) @ be_bytes (tx_tid m) @ be_bytes (tx_nodeId m) @
     be_bytes (tx_isCrash m) @ concat (map clock_bytes (tx_vectorClock m))"

definition msgBytes :: "msgType \<Rightarrow> u8 list" where
  "msgBytes m = be_bytes (m_msgID m) @ be_bytes (m_tid m) @ be_bytes (m_port m) @
     be_bytes (m_newValue m) @ be_bytes (m_delay m) @ take IDLEN (m_strData m)"

definition wf_txMessage :: "txMessage \<Rightarrow> bool" where
  "wf_txMessage m \<longleftrightarrow> length (tx_vectorClock m) = MAX_NODES"

definition wf_msgType :: "msgType \<Rightarrow> bool" where
  "wf_msgType m \<longleftrightarrow> length (m_strData m) = IDLEN"

lemma list_all_True [simp]: "list_all (\<lambda>_. True) xs"
  by (induction xs) auto

lemma length_txBytes: "wf_txMessage m \<Longrightarrow> length (txBytes m) = sizeof_txMessage"
  using clock_codec.arr.enc_length [of "tx_vectorClock m"]
  by (simp add: txBytes_def wf_txMessage_def sizeof_txMessage_def)

lemma length_msgBytes: "wf_msgType m \<Longrightarrow> length (msgBytes m) = sizeof_msgType"
  by (simp add: msgBytes_def wf_msgType_def sizeof_msgType_def)

lemma overlay_next:
  "length xs = n \<Longrightarrow> n + length ys \<le> length buf \<Longrightarrow>
    overlay (overlay buf 0 xs) n ys = overlay buf 0 (xs @ ys)"
  using overlay_overlay [of 0 xs ys buf] by simp

lemma serializeWorkerMsg_fits:
  assumes "wf_txMessage m" and "sizeof_txMessage \<le> length buf"
  shows "serializeWorkerMsg e buf m = Some (overlay buf 0 (txBytes m))"
proof -
  have len: "length (concat (map clock_bytes (tx_vectorClock m))) = 80"
    using clock_codec.arr.enc_length [of "tx_vectorClock m"] assms(1)
    by (simp add: wf_txMessage_def)
  with assms show ?thesis
    by (simp add: serializeWorkerMsg_def serializeClock_def sizeof_txMessage_def wf_txMessage_def
        uint_codec.put_fits clock_codec.arr.put_fits overlay_next txBytes_def)
qed

lemma serializeMsg_fits:
  assumes "wf_msgType m" and "sizeof_msgType \<le> length buf"
  shows "serializeMsg e buf m = Some (overlay buf 0 (msgBytes m))"
  using assms
  by (simp add: serializeMsg_def sizeof_msgType_def wf_msgType_def uint_codec.put_fits
      int_codec.put_fits overlay_next msgBytes_def memcpy_to_def)

lemma drop_tail: "drop pos buf = xs @ rest \<Longrightarrow> length xs = n \<Longrightarrow> drop (pos + n) buf = rest"
  by (metis add.commute append_eq_conv_conj drop_drop)

lemma deserializeWorkerMsg_txBytes:
  assumes "wf_txMessage m"
  shows "deserializeWorkerMsg e (txBytes m @ rest) = Some m"
proof -
  let ?buf = "txBytes m @ rest"
  let ?vc = "concat (map clock_bytes (tx_vectorClock m))"
  have vc: "length ?vc = 80"
    using clock_codec.arr.enc_length [of "tx_vectorClock m"] assms by (simp add: wf_txMessage_def)
  have d0: "drop 0 ?buf = be_bytes (tx_msgID m) @ be_bytes (tx_tid m) @ be_bytes (tx_nodeId m) @
     be_bytes (tx_isCrash m) @ ?vc @ rest" by (simp add: txBytes_def)
  have d4: "drop 4 ?buf = be_bytes (tx_tid m) @ be_bytes (tx_nodeId m) @ be_bytes (tx_isCrash m) @ ?vc @ rest"
    using drop_tail [OF d0, of 4] by simp
  have d8: "drop 8 ?buf = be_bytes (tx_nodeId m) @ be_bytes (tx_isCrash m) @ ?vc @ rest"
    using drop_tail [OF d4, of 4] by simp
  have d12: "drop 12 ?buf = be_bytes (tx_isCrash m) @ ?vc @ rest"
    using drop_tail [OF d8, of 4] by simp
  have d16: "drop 16 ?buf = ?vc @ rest"
    using drop_tail [OF d12, of 4] by simp
  have "get_list (deserializeClockEntry e) MAX_NODES ?buf 16 = Some (tx_vectorClock m, 96)"
    using clock_codec.arr.get_enc [OF _ d16, of e] assms by (simp add: wf_txMessage_def)
  then show ?thesis
    by (simp add: deserializeWorkerMsg_def deserializeClock_def uint_codec.get_enc [OF _ d0]
        uint_codec.get_enc [OF _ d4] uint_codec.get_enc [OF _ d8] uint_codec.get_enc [OF _ d12])
qed

lemma deserializeMsg_msgBytes:
  assumes "wf_msgType m"
  shows "deserializeMsg e (msgBytes m @ rest) = Some m"
proof -
  let ?buf = "msgBytes m @ rest"
  have str: "length (m_strData m) = 64" using assms by (simp add: wf_msgType_def)
  have d0: "drop 0 ?buf = be_bytes (m_msgID m) @ be_bytes (m_tid m) @ be_bytes (m_port m) @
     be_bytes (m_newValue m) @ be_bytes (m_delay m) @ m_strData m @ rest"
    by (simp add: msgBytes_def str)
  have d4: "drop 4 ?buf = be_bytes (m_tid m) @ be_bytes (m_port m) @
     be_bytes (m_newValue m) @ be_bytes (m_delay m) @ m_strData m @ rest"
    using drop_tail [OF d0, of 4] by simp
  have d8: "drop 8 ?buf = be_bytes (m_port m) @
     be_bytes (m_newValue m) @ be_bytes (m_delay m) @ m_strData m @ rest"
    using drop_tail [OF d4, of 4] by simp
  have d12: "drop 12 ?buf = be_bytes (m_newValue m) @ be_bytes (m_delay m) @ m_strData m @ rest"
    using drop_tail [OF d8, of 4] by simp
  have d16: "drop 16 ?buf = be_bytes (m_delay m) @ m_strData m @ rest"
    using drop_tail [OF d12, of 4] by simp
  have d20: "drop 20 ?buf = m_strData m @ rest"
    using drop_tail [OF d16, of 4] by simp
  have "20 + 64 \<le> length ?buf" by (simp add: msgBytes_def str)
  then have "memcpy_from ?buf 20 64 = Some (m_strData m)"
    unfolding memcpy_from_def d20 using str by simp
  then show ?thesis
    by (simp add: deserializeMsg_def uint_codec.get_enc [OF _ d0]
        uint_codec.get_enc [OF _ d4] uint_codec.get_enc [OF _ d8] int_codec.get_enc [OF _ d12]
        int_codec.get_enc [OF _ d16])
qed

text \<open>A buffer that holds a whole message always parses, and the parse has a full clock.\<close>

lemma get_list_length: "get_list get n buf pos = Some (xs, pos') \<Longrightarrow> length xs = n"
  by (induction n arbitrary: pos xs) (auto simp: bind_eq_Some_conv)

lemma deserialize_wf: "deserializeWorkerMsg e buf = Some m \<Longrightarrow> wf_txMessage m"
  by (auto simp: deserializeWorkerMsg_def deserializeClock_def wf_txMessage_def bind_eq_Some_conv
      dest: get_list_length)

lemma deserializeMsg_wf: "deserializeMsg e buf = Some m \<Longrightarrow> wf_msgType m"
  by (auto simp: deserializeMsg_def wf_msgType_def bind_eq_Some_conv memcpy_from_def
      split: if_splits)

end
