(* ===== verification/ShiViz.thy ===== *)
theory ShiViz
  imports VectorClock
begin

text \<open>
  The ShiViz log lines of helper.c: the decimal conversion of \<open>sprintf\<close>, \<open>writeVectorTime\<close>,
  \<open>writeStartToLog\<close> and \<open>writeToFile\<close>, with the exact number of characters each local buffer
  receives.  A log file is the string of its characters.
\<close>

subsection \<open>Decimal conversion\<close>

definition digit :: "nat \<Rightarrow> char" where
  "digit d = char_of (48 + d)"

fun show_nat :: "nat \<Rightarrow> string" where
  "show_nat n = (if n < 10 then [digit n] else show_nat (n div 10) @ [digit (n mod 10)])"

declare show_nat.simps [simp del]

definition show_u :: "u32 \<Rightarrow> string" where
  "show_u w = show_nat (unat w)"

text \<open>\<open>%d\<close> of an \<open>int32_t\<close>.\<close>

definition show_d :: "u32 \<Rightarrow> string" where
  "show_d w = (let i = sint w in
     if i < 0 then CHR ''-'' # show_nat (nat (- i)) else show_nat (nat i))"

abbreviation newline :: string where "newline \<equiv> [CHR 0x0A]"
abbreviation quote :: string where "quote \<equiv> [CHR 0x22]"

lemma length_show_nat_pos: "0 < length (show_nat n)"
  by (subst show_nat.simps) simp

lemma length_show_nat_le: "n < 10 ^ k \<Longrightarrow> 0 < k \<Longrightarrow> length (show_nat n) \<le> k"
proof (induction n arbitrary: k rule: show_nat.induct)
  case (1 n)
  show ?case
  proof (cases "n < 10")
    case True
    with "1.prems" show ?thesis by (subst show_nat.simps) simp
  next
    case False
    with "1.prems" obtain j where k: "k = Suc j" by (cases k) auto
    have "0 < j" using False "1.prems" k by (cases j) auto
    have "n div 10 < 10 ^ j" using "1.prems" k by (simp add: less_mult_imp_div_less mult.commute)
    with "1.IH" [OF False this \<open>0 < j\<close>] False k show ?thesis by (subst show_nat.simps) simp
  qed
qed

lemma length_show_nat_gt: "10 ^ k \<le> n \<Longrightarrow> k < length (show_nat n)"
proof (induction n arbitrary: k rule: show_nat.induct)
  case (1 n)
  show ?case
  proof (cases k)
    case 0
    then show ?thesis using length_show_nat_pos by simp
  next
    case (Suc j)
    have "(1::nat) \<le> 10 ^ j" by simp
    with "1.prems" Suc have big: "\<not> n < 10" by (simp only: power_Suc)
    have "10 ^ j \<le> n div 10" using "1.prems" Suc by (simp add: less_eq_div_iff_mult_less_eq mult.commute)
    with "1.IH" [OF big this] big Suc show ?thesis by (subst show_nat.simps) simp
  qed
qed

lemma length_show_nat_le_iff: "0 < k \<Longrightarrow> length (show_nat n) \<le> k \<longleftrightarrow> n < 10 ^ k"
  using length_show_nat_le [of n k] length_show_nat_gt [of k n] by (meson not_less)

lemma length_show_nat_mono: "m \<le> n \<Longrightarrow> length (show_nat m) \<le> length (show_nat n)"
proof -
  assume "m \<le> n"
  moreover have "n < 10 ^ length (show_nat n)"
    using length_show_nat_pos [of n] length_show_nat_le_iff [of "length (show_nat n)" n] by simp
  ultimately show ?thesis
    using length_show_nat_pos [of n] by (simp add: length_show_nat_le_iff)
qed

subsection \<open>Log lines\<close>

definition writeToFile :: "string \<Rightarrow> string \<Rightarrow> string" where
  "writeToFile file buf = file @ buf"

definition writeStartToLog :: "string \<Rightarrow> u32 \<Rightarrow> u32 \<Rightarrow> string" where
  "writeStartToLog file port clock =
     writeToFile file
       (''Starting N'' @ show_d port @ newline @ ''N'' @ show_d port @ '' {'' @ quote @ ''N'' @
        show_d port @ quote @ '' : '' @ show_d clock @ ''}'' @ newline)"

definition nodeIdText :: "u32 \<Rightarrow> string" where
  "nodeIdText port = ''N'' @ show_u port @ '' {''"

definition nodeTimeText :: "clock \<Rightarrow> string" where
  "nodeTimeText c = quote @ ''N'' @ show_u (c_nodeId c) @ quote @ '' : '' @ show_u (c_time c) @ '',''"

fun nodeTimes :: "clock list \<Rightarrow> string" where
  "nodeTimes [] = ''''"
| "nodeTimes (c # cs) = (if c_time c \<noteq> 0 then nodeTimeText c @ nodeTimes cs else nodeTimes cs)"

text \<open>The last character is overwritten by the terminator before the closing brace is appended.\<close>

definition writeVectorTime :: "clock list \<Rightarrow> u32 \<Rightarrow> string" where
  "writeVectorTime vc port = butlast (nodeIdText port @ nodeTimes vc) @ ''}'' @ newline"

lemma length_nodeIdText: "length (nodeIdText port) = length (show_u port) + 3"
  by (simp add: nodeIdText_def)

lemma length_nodeTimeText:
  "length (nodeTimeText c) = length (show_u (c_nodeId c)) + length (show_u (c_time c)) + 7"
  by (simp add: nodeTimeText_def)

lemma nodeTimes_filter: "nodeTimes vc = concat (map nodeTimeText (filter (\<lambda>c. c_time c \<noteq> 0) vc))"
  by (induction vc) auto

text \<open>The entries with a comma between two of them: what the log format asks for.\<close>

fun commas :: "string list \<Rightarrow> string" where
  "commas [] = ''''"
| "commas [s] = s"
| "commas (s # t # ss) = s @ '','' @ commas (t # ss)"

lemma concat_comma: "ss \<noteq> [] \<Longrightarrow> concat (map (\<lambda>s. s @ '','') ss) = commas ss @ '',''"
  by (induction ss rule: commas.induct) auto

definition entryText :: "clock \<Rightarrow> string" where
  "entryText c = quote @ ''N'' @ show_u (c_nodeId c) @ quote @ '' : '' @ show_u (c_time c)"

lemma writeVectorTime_entries:
  assumes "\<exists>c \<in> set vc. c_time c \<noteq> 0"
  shows "writeVectorTime vc port =
    ''N'' @ show_u port @ '' {'' @ commas (map entryText (filter (\<lambda>c. c_time c \<noteq> 0) vc)) @ ''}'' @ newline"
proof -
  let ?cs = "filter (\<lambda>c. c_time c \<noteq> 0) vc"
  from assms have "?cs \<noteq> []" by (auto simp: filter_empty_conv)
  have "nodeTimeText = (\<lambda>c. entryText c @ '','')"
    by (simp add: fun_eq_iff nodeTimeText_def entryText_def)
  then have "nodeTimes vc = concat (map (\<lambda>s. s @ '','') (map entryText ?cs))"
    by (simp add: nodeTimes_filter comp_def)
  also have "\<dots> = commas (map entryText ?cs) @ '',''"
    using \<open>?cs \<noteq> []\<close> by (intro concat_comma) simp
  finally show ?thesis by (simp add: writeVectorTime_def nodeIdText_def butlast_append)
qed

text \<open>A clock without a tick loses the opening brace.\<close>

lemma writeVectorTime_empty:
  assumes "\<forall>c \<in> set vc. c_time c = 0"
  shows "writeVectorTime vc port = ''N'' @ show_u port @ '' }'' @ newline"
proof -
  from assms have "nodeTimes vc = ''''" by (simp add: nodeTimes_filter filter_empty_conv)
  then show ?thesis by (simp add: writeVectorTime_def nodeIdText_def butlast_append)
qed

text \<open>\<open>char nodeTimeBuf[20]\<close> and \<open>char nodeIdBuf[n]\<close> with their terminator.\<close>

definition nodeTimeBuf_fits :: "clock \<Rightarrow> bool" where
  "nodeTimeBuf_fits c \<longleftrightarrow> length (nodeTimeText c) + 1 \<le> 20"

definition nodeIdBuf_fits :: "nat \<Rightarrow> u32 \<Rightarrow> bool" where
  "nodeIdBuf_fits bufsize port \<longleftrightarrow> length (nodeIdText port) + 1 \<le> bufsize"

lemma nodeTimeBuf_ports:
  assumes "unat (c_nodeId c) < 10 ^ 5" and "unat (c_time c) < 10 ^ 7"
  shows "nodeTimeBuf_fits c"
  using length_show_nat_le [OF assms(1)] length_show_nat_le [OF assms(2)]
  by (simp add: nodeTimeBuf_fits_def length_nodeTimeText show_u_def)

lemma nodeTimeBuf_overflow:
  assumes "10 ^ 4 \<le> unat (c_nodeId c)" and "10 ^ 7 \<le> unat (c_time c)"
  shows "\<not> nodeTimeBuf_fits c"
  using length_show_nat_gt [OF assms(1)] length_show_nat_gt [OF assms(2)]
  by (simp add: nodeTimeBuf_fits_def length_nodeTimeText show_u_def)

lemma nodeIdBuf_iff: "4 < bufsize \<Longrightarrow> nodeIdBuf_fits bufsize port \<longleftrightarrow> unat port < 10 ^ (bufsize - 4)"
  using length_show_nat_le_iff [of "bufsize - 4" "unat port"]
  by (auto simp: nodeIdBuf_fits_def length_nodeIdText show_u_def)

text \<open>\<open>char portBuf[10]\<close> of the event lines: \<open>N\<close>, the number of the other node and the terminator.\<close>

definition portBuf_fits :: "u32 \<Rightarrow> bool" where
  "portBuf_fits toFromNodeId \<longleftrightarrow> length (''N'' @ show_u toFromNodeId) + 1 \<le> 10"

lemma portBuf_iff: "portBuf_fits toFromNodeId \<longleftrightarrow> unat toFromNodeId < 10 ^ 8"
  using length_show_nat_le_iff [of 8 "unat toFromNodeId"] by (simp add: portBuf_fits_def show_u_def)

lemma length_nodeTimes:
  "(\<And>c. c \<in> set vc \<Longrightarrow> nodeTimeBuf_fits c) \<Longrightarrow> length (nodeTimes vc) \<le> 19 * length vc"
  by (induction vc) (fastforce simp: nodeTimeBuf_fits_def)+

lemma length_writeVectorTime:
  assumes "\<And>c. c \<in> set vc \<Longrightarrow> nodeTimeBuf_fits c"
  shows "length (writeVectorTime vc port) \<le> 14 + 19 * length vc"
proof -
  have "unat port < 2 ^ LENGTH(32)" by (rule unsigned_less)
  then have "unat port < 10 ^ 10" by simp
  then have "length (show_u port) \<le> 10" by (auto simp: show_u_def intro: length_show_nat_le)
  moreover have "length (nodeTimes vc) \<le> 19 * length vc"
    using assms by (rule length_nodeTimes)
  ultimately show ?thesis
    by (simp add: writeVectorTime_def length_nodeIdText)
qed

end
