(* ===== verification/TManager.thy ===== *)
theory TManager
  imports TxWire ShiViz
begin

text \<open>
  The transaction manager's data and operations (tmanager.h, the helpers of tmanager.c).

  The state of the process is one record: the globals of tmanager.c, the log file (its header,
  mapped at \<open>crashInfo\<close>, and the records behind it), the ShiViz log, the locals \<open>newMsg\<close> and
  \<open>rec\<close> of the receive loop, which keep their contents from one event to the next, and the
  datagrams handed to \<open>sendto\<close>.  \<open>msync\<close> only forces the mapped header to disk and is the
  identity here.  Contents that C leaves indeterminate are explicit: \<open>tm_junk\<close> is what an
  uninitialised \<open>logBuf\<close> holds, and uninitialised locals are arguments.
\<close>

subsection \<open>Data\<close>

record worker =
  w_nodeId :: u32
  w_port :: u32
  w_workerAddr :: sockaddr_in
  w_voteYes :: u32

record trans_info =
  i_tid :: u32
  i_isCrash :: u32
  i_workers :: "worker list"

record coord_crash_info =
  cc_vectorClock :: "clock list"
  cc_workerInfo :: "trans_info list"

record coord_record =
  cr_msgID :: u32
  cr_tid :: u32
  cr_nodeId :: u32

record trans_state =
  ts_tid :: u32
  ts_isCommit :: u32

record tm_state =
  tm_host :: endian
  tm_port :: u32
  tm_log :: "coord_record list"
  tm_crashInfo :: coord_crash_info
  tm_clock :: "clock list"
  tm_abortTid :: u32
  tm_stateTab :: "trans_state list"
  tm_newMsg :: txMessage
  tm_rec :: coord_record
  tm_shiviz :: string
  tm_junk :: string
  tm_outbox :: "(sockaddr_in \<times> u8 list) list"

abbreviation tm_rows :: "tm_state \<Rightarrow> trans_info list" where
  "tm_rows s \<equiv> cc_workerInfo (tm_crashInfo s)"

definition set_rows :: "trans_info list \<Rightarrow> tm_state \<Rightarrow> tm_state" where
  "set_rows rows s = s\<lparr>tm_crashInfo := (tm_crashInfo s)\<lparr>cc_workerInfo := rows\<rparr>\<rparr>"

subsection \<open>C's logical or on integers\<close>

definition c_lor :: "u32 \<Rightarrow> u32 \<Rightarrow> u32" where
  "c_lor a b = (if a \<noteq> 0 \<or> b \<noteq> 0 then 1 else 0)"

definition c_bool :: "bool \<Rightarrow> u32" where
  "c_bool b = (if b then 1 else 0)"

subsection \<open>The log records behind the mapped header\<close>

text \<open>
  \<open>mmap(NULL, 512, ...)\<close> maps the log file's first page and nothing behind it: records that
  reach past 4096 bytes are read outside the mapping.  The header takes 1520 bytes, a record
  12.
\<close>

definition page :: nat where "page = 4096"

definition sizeof_CoordCrashInfo :: nat where "sizeof_CoordCrashInfo = 1520"
definition sizeof_CoordRecord :: nat where "sizeof_CoordRecord = 12"

definition tm_records :: "tm_state \<Rightarrow> coord_record list option" where
  "tm_records s =
     (if sizeof_CoordCrashInfo + sizeof_CoordRecord * length (tm_log s) \<le> page
      then Some (tm_log s) else None)"

fun commitScan :: "coord_record list \<Rightarrow> trans_state list \<Rightarrow> trans_state list" where
  "commitScan [] st = st"
| "commitScan (r # rs) st =
     commitScan rs
       (if cr_msgID r = DECIDE_COMMIT
        then map (\<lambda>t. if cr_tid r = ts_tid t then t\<lparr>ts_isCommit := 1\<rparr> else t) st
        else st)"

definition findStateFromRecord :: "tm_state \<Rightarrow> tm_state outcome" where
  "findStateFromRecord s =
     (case tm_records s of
        None \<Rightarrow> Undefined
      | Some records \<Rightarrow>
          Running (s\<lparr>tm_stateTab :=
            commitScan (rev records)
              (map (\<lambda>i. \<lparr>ts_tid = i_tid i, ts_isCommit = 0\<rparr>) (tm_rows s))\<rparr>))"

text \<open>The scan from the newest record to the oldest; the argument is the reversed log.\<close>

fun waitingScan :: "u32 \<Rightarrow> coord_record list \<Rightarrow> bool" where
  "waitingScan cur [] = False"
| "waitingScan cur (r # rs) =
     (if cr_tid r = cur then
        (if cr_msgID r = c_lor DECIDE_ABORT DECIDE_COMMIT then False
         else if cr_msgID r = COMMIT_REQ then True
         else waitingScan cur rs)
      else waitingScan cur rs)"

fun waitingRows :: "coord_record list \<Rightarrow> trans_info list \<Rightarrow> u32 option" where
  "waitingRows recs [] = None"
| "waitingRows recs (i # is) =
     (if waitingScan (i_tid i) recs then Some (i_tid i) else waitingRows recs is)"

definition waitingForVotes :: "tm_state \<Rightarrow> (u32 \<times> tm_state) option" where
  "waitingForVotes s =
     do { records \<leftarrow> tm_records s;
          Some (case waitingRows (rev records) (tm_rows s) of
                  None \<Rightarrow> (0, s)
                | Some tid \<Rightarrow> (1, s\<lparr>tm_abortTid := tid\<rparr>)) }"

fun commitFound :: "u32 \<Rightarrow> coord_record list \<Rightarrow> bool" where
  "commitFound cur [] = False"
| "commitFound cur (r # rs) =
     (if cr_tid r = cur \<and> cr_msgID r = DECIDE_COMMIT then True else commitFound cur rs)"

definition isCommit :: "u32 \<Rightarrow> tm_state \<Rightarrow> u32 option" where
  "isCommit curTid s =
     do { records \<leftarrow> tm_records s;
          Some (if commitFound curTid (rev records) then 1 else 0) }"

definition writeRecordToLog :: "coord_record \<Rightarrow> tm_state \<Rightarrow> tm_state" where
  "writeRecordToLog r s = s\<lparr>tm_log := tm_log s @ [r]\<rparr>"

subsection \<open>Clocks\<close>

definition mergeVectorClock :: "txMessage \<Rightarrow> tm_state \<Rightarrow> tm_state" where
  "mergeVectorClock m s = s\<lparr>tm_clock := merge_clocks (tx_vectorClock m) (tm_clock s)\<rparr>"

definition restoreVectorTime :: "tm_state \<Rightarrow> tm_state" where
  "restoreVectorTime s = s\<lparr>tm_clock := cc_vectorClock (tm_crashInfo s)\<rparr>"

definition saveVectorTime :: "tm_state \<Rightarrow> tm_state" where
  "saveVectorTime s = s\<lparr>tm_crashInfo := (tm_crashInfo s)\<lparr>cc_vectorClock := tm_clock s\<rparr>\<rparr>"

definition tickMyClock :: "tm_state \<Rightarrow> tm_state" where
  "tickMyClock s = s\<lparr>tm_clock := tick (tm_port s) (tm_clock s)\<rparr>"

subsection \<open>The table of transactions\<close>

definition clean_worker :: "worker \<Rightarrow> worker" where
  "clean_worker w = w\<lparr>w_nodeId := 0, w_port := 0, w_voteYes := 0\<rparr>"

definition clean_row :: "trans_info \<Rightarrow> trans_info" where
  "clean_row i = i\<lparr>i_workers := map clean_worker (i_workers i), i_isCrash := 0, i_tid := 0\<rparr>"

definition cleanWorkerInfo :: "u32 \<Rightarrow> tm_state \<Rightarrow> tm_state" where
  "cleanWorkerInfo tid s = set_rows (upd_first (\<lambda>i. i_tid i = tid) clean_row (tm_rows s)) s"

definition add_worker :: "u32 \<Rightarrow> u32 \<Rightarrow> sockaddr_in \<Rightarrow> trans_info \<Rightarrow> trans_info" where
  "add_worker port nodeId workerAddr i =
     i\<lparr>i_workers :=
        upd_first (\<lambda>w. w_port w = 0)
          (\<lambda>w. w\<lparr>w_port := port, w_nodeId := nodeId, w_workerAddr := workerAddr\<rparr>) (i_workers i)\<rparr>"

text \<open>
  \<open>None\<close>: the search loop ended without setting \<open>index\<close> and the code then reads it.
\<close>

definition saveWorkerInfo ::
  "u32 \<Rightarrow> u32 \<Rightarrow> u32 \<Rightarrow> u32 \<Rightarrow> sockaddr_in \<Rightarrow> tm_state \<Rightarrow> (int \<times> tm_state) option"
where
  "saveWorkerInfo port tid msgID nodeId workerAddr s =
     (let rows = tm_rows s in
      case first_index (\<lambda>i. i_tid i = tid \<or> i_tid i = 0) rows of
        None \<Rightarrow> if msgID = JOINTX then None else Some (0, s)
      | Some index \<Rightarrow>
          if i_tid (rows ! index) = tid \<and> msgID = BEGINTX then Some (- 1, s)
          else if i_tid (rows ! index) \<noteq> tid \<and> msgID = JOINTX then Some (- 1, s)
          else
            let row = (rows ! index)\<lparr>i_tid := tid\<rparr>;
                row = (if msgID = JOINTX then add_worker port nodeId workerAddr row else row)
            in Some (0, set_rows (rows[index := row]) s))"

definition record_vote :: "txMessage \<Rightarrow> trans_info \<Rightarrow> trans_info" where
  "record_vote msg i =
     i\<lparr>i_workers :=
        upd_first (\<lambda>w. w_nodeId w = tx_nodeId msg)
          (\<lambda>w. if c_lor (c_bool (tx_msgID msg = VOTE_COMMIT)) VOTE_ABORT \<noteq> 0
                then w\<lparr>w_voteYes := tx_msgID msg\<rparr> else w) (i_workers i)\<rparr>"

fun tally :: "u32 \<Rightarrow> worker list \<Rightarrow> u32" where
  "tally commit [] = commit"
| "tally commit (w # ws) =
     (if w_nodeId w \<noteq> 0 then
        (if w_voteYes w = VOTE_ABORT \<or> w_voteYes w = ABORT then DECIDE_ABORT
         else if w_voteYes w = 0 then WAIT
         else tally DECIDE_COMMIT ws)
      else tally commit ws)"

text \<open>\<open>commit0\<close> is the indeterminate initial value of the local \<open>commit\<close>.\<close>

definition collectVote :: "u32 \<Rightarrow> txMessage \<Rightarrow> tm_state \<Rightarrow> (u32 \<times> tm_state) option" where
  "collectVote commit0 msg s =
     (case first_index (\<lambda>i. i_tid i = tx_tid msg) (tm_rows s) of
        None \<Rightarrow>
          do { c \<leftarrow> isCommit (tx_tid msg) s;
               Some (if c = 1 then DECIDE_COMMIT else DECIDE_ABORT, s) }
      | Some transIndex \<Rightarrow>
          let row = record_vote msg (tm_rows s ! transIndex);
              s = set_rows ((tm_rows s)[transIndex := row]) s
          in Some (tally commit0 (i_workers row), s))"

definition setCrash :: "txMessage \<Rightarrow> tm_state \<Rightarrow> tm_state" where
  "setCrash msg s =
     set_rows (upd_first (\<lambda>i. i_tid i = tx_tid msg)
       (\<lambda>i. i\<lparr>i_isCrash := i_isCrash i OR tx_isCrash msg\<rparr>) (tm_rows s)) s"

definition resetCrash :: "txMessage \<Rightarrow> tm_state \<Rightarrow> tm_state" where
  "resetCrash msg s =
     set_rows (upd_first (\<lambda>i. i_tid i = tx_tid msg) (\<lambda>i. i\<lparr>i_isCrash := 0\<rparr>) (tm_rows s)) s"

definition getCrash :: "txMessage \<Rightarrow> tm_state \<Rightarrow> u32" where
  "getCrash msg s =
     (case first_index (\<lambda>i. i_tid i = tx_tid msg) (tm_rows s) of
        None \<Rightarrow> 0 | Some i \<Rightarrow> i_isCrash (tm_rows s ! i))"

subsection \<open>ShiViz log\<close>

definition tm_localText :: "string \<Rightarrow> u32 \<Rightarrow> string" where
  "tm_localText junk msgID =
     (if msgID = CRASH then ''Locally CRASH''
      else if msgID = RESTARTED then ''Manager RESTARTED''
      else junk)"

definition writeLocalEventToLog :: "u32 \<Rightarrow> tm_state \<Rightarrow> tm_state" where
  "writeLocalEventToLog msgID s =
     s\<lparr>tm_shiviz := writeToFile (tm_shiviz s)
        (tm_localText (tm_junk s) msgID @ newline @ writeVectorTime (tm_clock s) (tm_port s))\<rparr>"

definition tm_eventText :: "string \<Rightarrow> txMessage \<Rightarrow> bool \<Rightarrow> string" where
  "tm_eventText junk m isSend =
     (let k = tx_msgID m; t = show_u (tx_tid m);
          to = (\<lambda>w. w @ '' Transaction '' @ t @ '' to '');
          fr = (\<lambda>w. w @ '' Transaction '' @ t @ '' from '') in
      if k = BEGINTX then (if isSend then to ''Send BEGIN'' else fr ''Receive BEGIN'')
      else if k = JOINTX then (if isSend then to ''Send JOIN'' else fr ''Receive JOIN'')
      else if k = JOIN_FAIL then (if isSend then to ''SEND JOIN_FAIL'' else fr ''Receive JOIN_FAIL'')
      else if k = JOIN_SUCCESS then (if isSend then to ''SEND JOIN_SUCCESS'' else fr ''Receive JOIN_SUCCESS'')
      else if k = BEGIN_FAIL then (if isSend then to ''SEND BEGIN_FAIL'' else fr ''Receive BEGIN_FAIL'')
      else if k = BEGIN_SUCCESS then (if isSend then to ''SEND BEGIN_SUCCESS'' else fr ''Receive BEGIN_SUCCESS'')
      else if k = PREPARE_COMMIT \<or> k = COMMIT then (if isSend then to ''SEND PREPARE_COMMIT'' else fr ''Receive COMMIT'')
      else if k = VOTE_COMMIT \<or> k = DECIDE_COMMIT then (if isSend then to ''SEND DECIDE_COMMIT'' else fr ''Receive VOTE_COMMIT'')
      else if k = DECIDE_ABORT \<or> k = VOTE_ABORT then (if isSend then to ''SEND DECIDE_ABORT'' else fr ''Receive VOTE_ABORT'')
      else if k = POLL_DECISION then (if isSend then to ''SEND POLL_DECISION'' else fr ''Receive POLL_DECISION'')
      else junk)"

definition writeEventToLog :: "txMessage \<Rightarrow> bool \<Rightarrow> u32 \<Rightarrow> tm_state \<Rightarrow> tm_state" where
  "writeEventToLog m isSend toFromNodeId s =
     s\<lparr>tm_shiviz := writeToFile (tm_shiviz s)
        (tm_eventText (tm_junk s) m isSend @ ''N'' @ show_u toFromNodeId @ newline @
         writeVectorTime (tm_clock s) (tm_port s))\<rparr>"

subsection \<open>Sending\<close>

text \<open>\<open>isCrash\<close> is not written: the message keeps what \<open>newMsg\<close> held.\<close>

definition constructMessage :: "txMessage \<Rightarrow> txMessage \<Rightarrow> u32 \<Rightarrow> u32 \<Rightarrow> tm_state \<Rightarrow> txMessage" where
  "constructMessage m newMsg msgKind nodeId s =
     newMsg\<lparr>tx_msgID := msgKind, tx_tid := tx_tid m,
            tx_nodeId := (if nodeId = 0 then tx_nodeId m else nodeId),
            tx_vectorClock := tm_clock s\<rparr>"

definition sendMsg :: "txMessage \<Rightarrow> sockaddr_in \<Rightarrow> tm_state \<Rightarrow> tm_state" where
  "sendMsg m addr s =
     (case serializeWorkerMsg (tm_host s) (replicate sizeof_txMessage 0) m of
        None \<Rightarrow> s
      | Some msgBuf \<Rightarrow> s\<lparr>tm_outbox := tm_outbox s @ [(addr, msgBuf)]\<rparr>)"

definition sendToWorker :: "txMessage \<Rightarrow> u32 \<Rightarrow> worker \<Rightarrow> txMessage \<times> tm_state \<Rightarrow> txMessage \<times> tm_state" where
  "sendToWorker recvMsg msgKind w ns =
     (let (newMsg, s) = ns in
      if w_port w \<noteq> 0 then
        let s = saveVectorTime (tickMyClock s);
            newMsg = constructMessage recvMsg newMsg msgKind (w_nodeId w) s;
            s = writeEventToLog newMsg True (tx_nodeId newMsg) s
        in (newMsg, sendMsg newMsg (w_workerAddr w) s)
      else (newMsg, s))"

fun sendToRows :: "txMessage \<Rightarrow> u32 \<Rightarrow> trans_info list \<Rightarrow> txMessage \<times> tm_state \<Rightarrow> txMessage \<times> tm_state" where
  "sendToRows recvMsg msgKind [] ns = ns"
| "sendToRows recvMsg msgKind (i # is) ns =
     sendToRows recvMsg msgKind is
       (if i_tid i = tx_tid recvMsg then fold (sendToWorker recvMsg msgKind) (i_workers i) ns
        else ns)"

definition sendToAllWorkers :: "txMessage \<Rightarrow> txMessage \<Rightarrow> u32 \<Rightarrow> tm_state \<Rightarrow> tm_state" where
  "sendToAllWorkers recvMsg newMsg msgKind s =
     snd (sendToRows recvMsg msgKind (tm_rows s) (newMsg, s))"

end
