(* ===== verification/TManagerLoop.thy ===== *)
theory TManagerLoop
  imports TManager
begin

text \<open>
  The transaction manager's receive loop \<open>handleWorkerMsg\<close>, one definition per case of its
  switch, and \<open>main\<close>: the first start and the restart after a crash.

  An event is what one round of the loop gets from \<open>poll\<close> and \<open>recvfrom\<close>: an error, a
  timeout, a failed receive, or a datagram.  For a datagram the event holds the sender's
  address, the 512 bytes of \<open>recvBuf\<close> after the call (the datagram in front and what was
  there before behind it), and the indeterminate initial value of \<open>collectVote\<close>'s local
  \<open>commit\<close>.  The argument of a timeout is the uninitialised local \<open>ourMsg\<close>.
\<close>

datatype tm_event =
    PollError
  | PollTimeout txMessage
  | RecvFailed
  | Received sockaddr_in "u8 list" u32

definition set_rec :: "u32 \<Rightarrow> u32 \<Rightarrow> u32 \<Rightarrow> tm_state \<Rightarrow> tm_state" where
  "set_rec msgID tid nodeId s =
     s\<lparr>tm_rec := \<lparr>cr_msgID = msgID, cr_tid = tid, cr_nodeId = nodeId\<rparr>\<rparr>"

text \<open>Construct an answer in \<open>newMsg\<close>, log it and send it to the sender.\<close>

definition reply :: "txMessage \<Rightarrow> u32 \<Rightarrow> sockaddr_in \<Rightarrow> tm_state \<Rightarrow> tm_state" where
  "reply msg kind workerAddr s =
     (let newMsg = constructMessage msg (tm_newMsg s) kind 0 s;
          s = s\<lparr>tm_newMsg := newMsg\<rparr>;
          s = writeEventToLog newMsg True (tx_nodeId newMsg) s
      in sendMsg newMsg workerAddr s)"

definition handle_timeout :: "txMessage \<Rightarrow> tm_state \<Rightarrow> tm_state outcome" where
  "handle_timeout ourMsg s =
     (case waitingForVotes s of
        None \<Rightarrow> Undefined
      | Some (w, s) \<Rightarrow>
          Running
            (if w = 1 then
               let s = set_rec DECIDE_ABORT (tm_abortTid s) (cr_nodeId (tm_rec s)) s;
                   s = writeRecordToLog (tm_rec s) s;
                   ourMsg = ourMsg\<lparr>tx_tid := tm_abortTid s\<rparr>;
                   s = sendToAllWorkers ourMsg (tm_newMsg s) DECIDE_ABORT s
               in cleanWorkerInfo (tm_abortTid s) s
             else s))"

definition handle_begin :: "txMessage \<Rightarrow> sockaddr_in \<Rightarrow> tm_state \<Rightarrow> tm_state outcome" where
  "handle_begin msg workerAddr s =
     (case saveWorkerInfo (ucast (sin_port workerAddr)) (tx_tid msg) (tx_msgID msg) (tx_nodeId msg)
             workerAddr s of
        None \<Rightarrow> Undefined
      | Some (error, s) \<Rightarrow>
          let s = saveVectorTime (tickMyClock s)
          in Running (reply msg (if error < 0 then BEGIN_FAIL else BEGIN_SUCCESS) workerAddr s))"

definition handle_join :: "txMessage \<Rightarrow> sockaddr_in \<Rightarrow> tm_state \<Rightarrow> tm_state outcome" where
  "handle_join msg workerAddr s =
     (case saveWorkerInfo (ucast (sin_port workerAddr)) (tx_tid msg) (tx_msgID msg) (tx_nodeId msg)
             workerAddr s of
        None \<Rightarrow> Undefined
      | Some (error, s) \<Rightarrow>
          let s = saveVectorTime (tickMyClock s)
          in Running
               (if error < 0 then reply msg JOIN_FAIL workerAddr s
                else
                  let s = set_rec (tx_msgID msg) (tx_tid msg) (tx_nodeId msg) s;
                      s = writeRecordToLog (tm_rec s) s
                  in reply msg JOIN_SUCCESS workerAddr s))"

definition handle_commit :: "txMessage \<Rightarrow> tm_state \<Rightarrow> tm_state outcome" where
  "handle_commit msg s =
     (let s = set_rec COMMIT_REQ (tx_tid msg) (tx_nodeId msg) s;
          s = writeRecordToLog (tm_rec s) s
      in Running (sendToAllWorkers msg (tm_newMsg s) PREPARE_COMMIT s))"

text \<open>Log a decision, then crash if the transaction asks for it, else tell every worker.\<close>

definition decide :: "txMessage \<Rightarrow> u32 \<Rightarrow> tm_state \<Rightarrow> tm_state outcome" where
  "decide msg kind s =
     (let s = set_rec kind (tx_tid msg) (tx_nodeId msg) s;
          s = writeRecordToLog (tm_rec s) s
      in if getCrash msg s = 1 then
           let s = resetCrash msg s;
               s = saveVectorTime (tickMyClock s);
               s = writeLocalEventToLog CRASH s
           in Exited (cleanWorkerInfo (tx_tid msg) s)
         else
           Running (cleanWorkerInfo (tx_tid msg) (sendToAllWorkers msg (tm_newMsg s) kind s)))"

definition act_on_decision :: "u32 \<Rightarrow> txMessage \<Rightarrow> sockaddr_in \<Rightarrow> tm_state \<Rightarrow> tm_state outcome" where
  "act_on_decision decision msg workerAddr s =
     (if decision = DECIDE_COMMIT then
        (if tx_msgID msg = POLL_DECISION
         then Running (reply msg DECIDE_COMMIT workerAddr (saveVectorTime (tickMyClock s)))
         else decide msg DECIDE_COMMIT s)
      else if decision = DECIDE_ABORT
      then Running (reply msg DECIDE_ABORT workerAddr (saveVectorTime (tickMyClock s)))
      else Running s)"

definition handle_vote :: "u32 \<Rightarrow> txMessage \<Rightarrow> sockaddr_in \<Rightarrow> tm_state \<Rightarrow> tm_state outcome" where
  "handle_vote commit0 msg workerAddr s =
     (let s = (if tx_isCrash msg = 1 then setCrash msg s else s) in
      case collectVote commit0 msg s of
        None \<Rightarrow> Undefined
      | Some (decision, s) \<Rightarrow> act_on_decision decision msg workerAddr s)"

definition handle_vote_abort :: "txMessage \<Rightarrow> tm_state \<Rightarrow> tm_state outcome" where
  "handle_vote_abort msg s =
     (let s = (if tx_isCrash msg = 1 then setCrash msg s else s)
      in decide msg DECIDE_ABORT s)"

definition handle_msg :: "u32 \<Rightarrow> txMessage \<Rightarrow> sockaddr_in \<Rightarrow> tm_state \<Rightarrow> tm_state outcome" where
  "handle_msg commit0 msg workerAddr s =
     (let k = tx_msgID msg in
      if k = BEGINTX then handle_begin msg workerAddr s
      else if k = JOINTX then handle_join msg workerAddr s
      else if k = COMMIT then handle_commit msg s
      else if k = POLL_DECISION \<or> k = VOTE_COMMIT then handle_vote commit0 msg workerAddr s
      else if k = VOTE_ABORT then handle_vote_abort msg s
      else Running s)"

fun handleWorkerMsg :: "tm_event \<Rightarrow> tm_state \<Rightarrow> tm_state outcome" where
  "handleWorkerMsg PollError s = Running s"
| "handleWorkerMsg (PollTimeout ourMsg) s = handle_timeout ourMsg s"
| "handleWorkerMsg RecvFailed s = Running s"
| "handleWorkerMsg (Received workerAddr buf commit0) s =
     (case deserializeWorkerMsg (tm_host s) buf of
        None \<Rightarrow> Undefined
      | Some msg \<Rightarrow>
          let s = saveVectorTime (mergeVectorClock msg (tickMyClock s));
              s = writeEventToLog msg False (tx_nodeId msg) s
          in handle_msg commit0 msg workerAddr s)"

subsection \<open>Start and restart\<close>

text \<open>
  What the process finds when it starts: the log file if there is one (header and records), the
  ShiViz file, and the indeterminate values of the uninitialised locals and of the header that
  is written into a new file.
\<close>

record tm_boot =
  b_host :: endian
  b_port :: u32
  b_file :: "(coord_crash_info \<times> coord_record list) option"
  b_shiviz :: string
  b_fileExist :: int
  b_space :: coord_crash_info
  b_msg :: txMessage
  b_newMsg :: txMessage
  b_rec :: coord_record
  b_junk :: string

definition boot_state :: "tm_boot \<Rightarrow> tm_state" where
  "boot_state b =
     (let (hdr, recs) = (case b_file b of None \<Rightarrow> (b_space b, []) | Some f \<Rightarrow> f) in
      \<lparr>tm_host = b_host b, tm_port = b_port b, tm_log = recs, tm_crashInfo = hdr,
       tm_clock = replicate MAX_NODES no_clock, tm_abortTid = 0,
       tm_stateTab = replicate MAX_TRANS \<lparr>ts_tid = 0, ts_isCommit = 0\<rparr>,
       tm_newMsg = b_newMsg b, tm_rec = b_rec b, tm_shiviz = b_shiviz b, tm_junk = b_junk b,
       tm_outbox = []\<rparr>)"

definition init_row :: "trans_info \<Rightarrow> trans_info" where
  "init_row i = i\<lparr>i_tid := 0, i_isCrash := 0, i_workers := map clean_worker (i_workers i)\<rparr>"

definition tm_first_start :: "tm_state \<Rightarrow> tm_state" where
  "tm_first_start s =
     (let s = s\<lparr>tm_shiviz := writeStartToLog (tm_shiviz s) (tm_port s) 1\<rparr>;
          s = saveVectorTime s;
          s = s\<lparr>tm_clock := \<lparr>c_nodeId = tm_port s, c_time = 1\<rparr> # replicate (MAX_NODES - 1) no_clock\<rparr>
      in set_rows (map init_row (tm_rows s)) s)"

fun resend_aborts :: "txMessage \<Rightarrow> txMessage \<Rightarrow> trans_state list \<Rightarrow> tm_state \<Rightarrow> tm_state" where
  "resend_aborts msg newMsg [] s = s"
| "resend_aborts msg newMsg (t # ts) s =
     resend_aborts msg newMsg ts
       (if ts_isCommit t = 0
        then sendToAllWorkers (msg\<lparr>tx_tid := ts_tid t\<rparr>) newMsg DECIDE_ABORT s else s)"

definition tm_restart :: "tm_boot \<Rightarrow> tm_state \<Rightarrow> tm_state outcome" where
  "tm_restart b s =
     (let s = restoreVectorTime s;
          s = saveVectorTime (tickMyClock s);
          s = writeLocalEventToLog RESTARTED s
      in seq (findStateFromRecord s)
           (\<lambda>s. Running (resend_aborts (b_msg b) (b_newMsg b) (tm_stateTab s) s)))"

definition tm_main :: "tm_boot \<Rightarrow> tm_state outcome" where
  "tm_main b =
     (let fileExist = (if b_file b \<noteq> None then 1 else b_fileExist b);
          s = boot_state b
      in if fileExist = 0 then Running (tm_first_start s) else tm_restart b s)"

end
