(* ===== verification/TManagerFrame.thy ===== *)
theory TManagerFrame
  imports TManagerLoop
begin

text \<open>
  What each operation of the transaction manager leaves alone, the well-formedness invariant
  \<open>wf_tm\<close> of its state, and the two facts about every run of the receive loop that the
  properties rest on: the invariant holds throughout, and the transaction log only grows.
\<close>

subsection \<open>Frames\<close>

lemmas tm_defs = set_rows_def saveVectorTime_def tickMyClock_def mergeVectorClock_def
  restoreVectorTime_def writeEventToLog_def writeLocalEventToLog_def writeRecordToLog_def set_rec_def

definition tm_core where
  "tm_core s = (tm_host s, tm_port s, tm_log s, tm_rows s, tm_abortTid s, tm_stateTab s,
     tm_newMsg s, tm_rec s, tm_junk s)"

lemma tm_core_fields:
  assumes "tm_core s = tm_core t"
  shows "tm_host s = tm_host t" and "tm_port s = tm_port t" and "tm_log s = tm_log t"
    and "tm_rows s = tm_rows t" and "tm_abortTid s = tm_abortTid t"
    and "tm_stateTab s = tm_stateTab t" and "tm_newMsg s = tm_newMsg t"
    and "tm_rec s = tm_rec t" and "tm_junk s = tm_junk t"
  using assms by (simp_all add: tm_core_def)

lemma sendMsg_wf:
  "wf_txMessage m \<Longrightarrow> sendMsg m addr s = s\<lparr>tm_outbox := tm_outbox s @ [(addr, txBytes m)]\<rparr>"
  by (simp add: sendMsg_def serializeWorkerMsg_fits overlay_all length_txBytes)

lemma sendMsg_frame [simp, frame_simps]:
  "tm_core (sendMsg m addr s) = tm_core s"
  "tm_clock (sendMsg m addr s) = tm_clock s"
  "tm_crashInfo (sendMsg m addr s) = tm_crashInfo s"
  "tm_shiviz (sendMsg m addr s) = tm_shiviz s"
  by (simp_all add: sendMsg_def tm_core_def split: option.splits)

lemma core_frame [simp, frame_simps]:
  "tm_core (saveVectorTime s) = tm_core s"
  "tm_core (tickMyClock s) = tm_core s"
  "tm_core (mergeVectorClock m s) = tm_core s"
  "tm_core (writeEventToLog m b n s) = tm_core s"
  "tm_core (writeLocalEventToLog k s) = tm_core s"
  by (simp_all add: tm_core_def tm_defs)

lemma sendToWorker_core [simp]: "tm_core (snd (sendToWorker m k w ns)) = tm_core (snd ns)"
  by (cases ns) (simp add: sendToWorker_def Let_def)

lemma fold_sendToWorker_core [simp]: "tm_core (snd (fold (sendToWorker m k) ws ns)) = tm_core (snd ns)"
  by (induction ws arbitrary: ns) auto

lemma sendToRows_core: "tm_core (snd (sendToRows m k rows ns)) = tm_core (snd ns)"
  by (induction rows arbitrary: ns) auto

lemma sendToAllWorkers_core [simp]: "tm_core (sendToAllWorkers m nm k s) = tm_core s"
  by (simp add: sendToAllWorkers_def sendToRows_core)

lemmas sendToAllWorkers_frame [simp, frame_simps] =
  tm_core_fields [OF sendToAllWorkers_core]

lemmas sendMsg_fields [simp, frame_simps] = tm_core_fields [OF sendMsg_frame(1)]

lemma saveVectorTime_fields [simp, frame_simps]:
  "tm_host (saveVectorTime s) = tm_host s" "tm_port (saveVectorTime s) = tm_port s"
  "tm_log (saveVectorTime s) = tm_log s" "tm_rows (saveVectorTime s) = tm_rows s"
  "tm_abortTid (saveVectorTime s) = tm_abortTid s" "tm_newMsg (saveVectorTime s) = tm_newMsg s"
  "tm_rec (saveVectorTime s) = tm_rec s" "tm_clock (saveVectorTime s) = tm_clock s"
  "tm_outbox (saveVectorTime s) = tm_outbox s" "tm_stateTab (saveVectorTime s) = tm_stateTab s"
  "cc_vectorClock (tm_crashInfo (saveVectorTime s)) = tm_clock s"
  by (simp_all add: saveVectorTime_def)

lemma tickMyClock_fields [simp, frame_simps]:
  "tm_host (tickMyClock s) = tm_host s" "tm_port (tickMyClock s) = tm_port s"
  "tm_log (tickMyClock s) = tm_log s" "tm_crashInfo (tickMyClock s) = tm_crashInfo s"
  "tm_abortTid (tickMyClock s) = tm_abortTid s" "tm_newMsg (tickMyClock s) = tm_newMsg s"
  "tm_rec (tickMyClock s) = tm_rec s" "tm_outbox (tickMyClock s) = tm_outbox s"
  "tm_clock (tickMyClock s) = tick (tm_port s) (tm_clock s)" "tm_stateTab (tickMyClock s) = tm_stateTab s"
  by (simp_all add: tickMyClock_def)

lemma mergeVectorClock_fields [simp, frame_simps]:
  "tm_host (mergeVectorClock m s) = tm_host s" "tm_port (mergeVectorClock m s) = tm_port s"
  "tm_log (mergeVectorClock m s) = tm_log s" "tm_crashInfo (mergeVectorClock m s) = tm_crashInfo s"
  "tm_abortTid (mergeVectorClock m s) = tm_abortTid s" "tm_newMsg (mergeVectorClock m s) = tm_newMsg s"
  "tm_rec (mergeVectorClock m s) = tm_rec s" "tm_outbox (mergeVectorClock m s) = tm_outbox s"
  "tm_clock (mergeVectorClock m s) = merge_clocks (tx_vectorClock m) (tm_clock s)"
  "tm_stateTab (mergeVectorClock m s) = tm_stateTab s"
  by (simp_all add: mergeVectorClock_def)

lemma writeEventToLog_fields [simp, frame_simps]:
  "tm_host (writeEventToLog m b n s) = tm_host s" "tm_port (writeEventToLog m b n s) = tm_port s"
  "tm_log (writeEventToLog m b n s) = tm_log s" "tm_crashInfo (writeEventToLog m b n s) = tm_crashInfo s"
  "tm_abortTid (writeEventToLog m b n s) = tm_abortTid s" "tm_newMsg (writeEventToLog m b n s) = tm_newMsg s"
  "tm_rec (writeEventToLog m b n s) = tm_rec s" "tm_outbox (writeEventToLog m b n s) = tm_outbox s"
  "tm_clock (writeEventToLog m b n s) = tm_clock s" "tm_stateTab (writeEventToLog m b n s) = tm_stateTab s"
  by (simp_all add: writeEventToLog_def)

lemma writeLocalEventToLog_fields [simp, frame_simps]:
  "tm_host (writeLocalEventToLog k s) = tm_host s" "tm_port (writeLocalEventToLog k s) = tm_port s"
  "tm_log (writeLocalEventToLog k s) = tm_log s" "tm_crashInfo (writeLocalEventToLog k s) = tm_crashInfo s"
  "tm_abortTid (writeLocalEventToLog k s) = tm_abortTid s" "tm_newMsg (writeLocalEventToLog k s) = tm_newMsg s"
  "tm_rec (writeLocalEventToLog k s) = tm_rec s" "tm_outbox (writeLocalEventToLog k s) = tm_outbox s"
  "tm_clock (writeLocalEventToLog k s) = tm_clock s" "tm_stateTab (writeLocalEventToLog k s) = tm_stateTab s"
  by (simp_all add: writeLocalEventToLog_def)

lemma set_rows_fields [simp, frame_simps]:
  "tm_host (set_rows rows s) = tm_host s" "tm_port (set_rows rows s) = tm_port s"
  "tm_log (set_rows rows s) = tm_log s" "tm_rows (set_rows rows s) = rows"
  "tm_abortTid (set_rows rows s) = tm_abortTid s" "tm_newMsg (set_rows rows s) = tm_newMsg s"
  "tm_rec (set_rows rows s) = tm_rec s" "tm_outbox (set_rows rows s) = tm_outbox s"
  "tm_clock (set_rows rows s) = tm_clock s" "tm_stateTab (set_rows rows s) = tm_stateTab s"
  "cc_vectorClock (tm_crashInfo (set_rows rows s)) = cc_vectorClock (tm_crashInfo s)"
  by (simp_all add: set_rows_def)

lemma log_fields [simp, frame_simps]:
  "tm_log (writeRecordToLog r s) = tm_log s @ [r]" "tm_host (writeRecordToLog r s) = tm_host s"
  "tm_port (writeRecordToLog r s) = tm_port s" "tm_crashInfo (writeRecordToLog r s) = tm_crashInfo s"
  "tm_newMsg (writeRecordToLog r s) = tm_newMsg s" "tm_outbox (writeRecordToLog r s) = tm_outbox s"
  "tm_clock (writeRecordToLog r s) = tm_clock s" "tm_rec (writeRecordToLog r s) = tm_rec s"
  "tm_abortTid (writeRecordToLog r s) = tm_abortTid s"
  "tm_log (set_rec a b c s) = tm_log s" "tm_host (set_rec a b c s) = tm_host s"
  "tm_port (set_rec a b c s) = tm_port s" "tm_crashInfo (set_rec a b c s) = tm_crashInfo s"
  "tm_newMsg (set_rec a b c s) = tm_newMsg s" "tm_outbox (set_rec a b c s) = tm_outbox s"
  "tm_clock (set_rec a b c s) = tm_clock s" "tm_abortTid (set_rec a b c s) = tm_abortTid s"
  "tm_rec (set_rec a b c s) = \<lparr>cr_msgID = a, cr_tid = b, cr_nodeId = c\<rparr>"
  by (simp_all add: writeRecordToLog_def set_rec_def)

lemma getCrash_cong: "tm_rows s = tm_rows t \<Longrightarrow> getCrash m s = getCrash m t"
  by (simp add: getCrash_def split: option.split)

lemma reply_fields [simp, frame_simps]:
  "tm_log (reply m k a s) = tm_log s" "tm_rows (reply m k a s) = tm_rows s"
  "tm_host (reply m k a s) = tm_host s" "tm_port (reply m k a s) = tm_port s"
  "tm_clock (reply m k a s) = tm_clock s" "tm_crashInfo (reply m k a s) = tm_crashInfo s"
  "tm_newMsg (reply m k a s) = constructMessage m (tm_newMsg s) k 0 s"
  by (simp_all add: reply_def Let_def)

subsection \<open>The invariant\<close>

definition wf_rows :: "trans_info list \<Rightarrow> bool" where
  "wf_rows rows \<longleftrightarrow> length rows = MAX_TRANS \<and> list_all (\<lambda>i. length (i_workers i) = MAX_NODES) rows"

definition wf_tm :: "tm_state \<Rightarrow> bool" where
  "wf_tm s \<longleftrightarrow>
     length (tm_clock s) = MAX_NODES \<and> wf_clock (tm_clock s) \<and>
     length (cc_vectorClock (tm_crashInfo s)) = MAX_NODES \<and>
     wf_clock (cc_vectorClock (tm_crashInfo s)) \<and>
     wf_rows (tm_rows s) \<and> wf_txMessage (tm_newMsg s)"

lemma wf_rows_upd_first:
  "wf_rows rows \<Longrightarrow> (\<And>i. length (i_workers (f i)) = length (i_workers i)) \<Longrightarrow>
    wf_rows (upd_first P f rows)"
  by (auto simp: wf_rows_def intro: list_all_upd_first)

lemma wf_rows_update:
  "wf_rows rows \<Longrightarrow> i < length rows \<Longrightarrow> length (i_workers row) = length (i_workers (rows ! i)) \<Longrightarrow>
    wf_rows (rows[i := row])"
  by (auto simp: wf_rows_def list_all_length nth_list_update)

lemma length_clean_row [simp]: "length (i_workers (clean_row i)) = length (i_workers i)"
  by (simp add: clean_row_def)

lemma length_add_worker [simp]: "length (i_workers (add_worker p n a i)) = length (i_workers i)"
  by (simp add: add_worker_def)

lemma length_record_vote [simp]: "length (i_workers (record_vote m i)) = length (i_workers i)"
  by (simp add: record_vote_def)

lemma wf_tm_clock_step:
  assumes "wf_tm s"
  shows "wf_tm (saveVectorTime (tickMyClock s))"
    and "wf_tm (saveVectorTime (mergeVectorClock m (tickMyClock s)))"
    and "wf_tm (writeEventToLog m b n s)" and "wf_tm (writeLocalEventToLog k s)"
    and "wf_tm (set_rec a c d s)" and "wf_tm (writeRecordToLog r s)"
  using assms by (simp_all add: wf_tm_def wf_merge_clocks)

lemma wf_constructMessage: "wf_tm s \<Longrightarrow> wf_txMessage (constructMessage m nm k n s)"
  by (simp add: wf_tm_def wf_txMessage_def constructMessage_def)

lemma wf_sendMsg [simp]: "wf_tm (sendMsg m a s) = wf_tm s"
  by (simp add: wf_tm_def)

lemma wf_set_rows: "wf_tm s \<Longrightarrow> wf_rows rows \<Longrightarrow> wf_tm (set_rows rows s)"
  by (simp add: wf_tm_def)

lemma wf_tm_rows: "wf_tm s \<Longrightarrow> wf_rows (tm_rows s)"
  by (simp add: wf_tm_def)

lemma wf_reply: "wf_tm s \<Longrightarrow> wf_tm (reply m k a s)"
  using wf_constructMessage [of s m "tm_newMsg s" k 0]
  by (simp add: wf_tm_def)

lemma wf_cleanWorkerInfo: "wf_tm s \<Longrightarrow> wf_tm (cleanWorkerInfo tid s)"
  by (auto simp: cleanWorkerInfo_def intro!: wf_set_rows wf_rows_upd_first wf_tm_rows)

lemma wf_setCrash: "wf_tm s \<Longrightarrow> wf_tm (setCrash m s)" "wf_tm s \<Longrightarrow> wf_tm (resetCrash m s)"
  by (auto simp: setCrash_def resetCrash_def intro!: wf_set_rows wf_rows_upd_first wf_tm_rows)

lemma wf_sendToWorker: "wf_tm (snd ns) \<Longrightarrow> wf_tm (snd (sendToWorker m k w ns))"
  by (cases ns) (simp add: sendToWorker_def Let_def wf_tm_clock_step)

lemma wf_fold_sendToWorker: "wf_tm (snd ns) \<Longrightarrow> wf_tm (snd (fold (sendToWorker m k) ws ns))"
  by (induction ws arbitrary: ns) (simp_all add: wf_sendToWorker)

lemma wf_sendToRows: "wf_tm (snd ns) \<Longrightarrow> wf_tm (snd (sendToRows m k rows ns))"
  by (induction rows arbitrary: ns) (simp_all add: wf_fold_sendToWorker)

lemma wf_sendToAllWorkers: "wf_tm s \<Longrightarrow> wf_tm (sendToAllWorkers m nm k s)"
  by (simp add: sendToAllWorkers_def wf_sendToRows)

lemma wf_saveWorkerInfo:
  "saveWorkerInfo p t k n a s = Some (err, s') \<Longrightarrow> wf_tm s \<Longrightarrow> wf_tm s'"
  by (auto simp: saveWorkerInfo_def Let_def dest!: first_indexD(1) split: option.splits if_splits
      intro!: wf_set_rows wf_rows_update wf_tm_rows)

lemma wf_collectVote: "collectVote c m s = Some (d, s') \<Longrightarrow> wf_tm s \<Longrightarrow> wf_tm s'"
  by (auto simp: collectVote_def Let_def bind_eq_Some_conv dest!: first_indexD(1)
      split: option.splits intro!: wf_set_rows wf_rows_update wf_tm_rows)

lemma wf_decide: "wf_tm s \<Longrightarrow> out_all wf_tm (decide m k s)"
  by (simp add: decide_def Let_def wf_cleanWorkerInfo wf_sendToAllWorkers wf_tm_clock_step
      wf_setCrash)

lemma wf_abortTid: "wf_tm (s\<lparr>tm_abortTid := t\<rparr>) = wf_tm s"
  by (simp add: wf_tm_def)

lemma wf_handle_timeout: "wf_tm s \<Longrightarrow> out_all wf_tm (handle_timeout om s)"
  by (auto simp: handle_timeout_def waitingForVotes_def bind_eq_Some_conv Let_def wf_abortTid
      split: option.splits
      intro!: wf_cleanWorkerInfo wf_sendToAllWorkers wf_tm_clock_step)

lemma wf_handle_begin: "wf_tm s \<Longrightarrow> out_all wf_tm (handle_begin m a s)"
  by (cases "saveWorkerInfo (ucast (sin_port a)) (tx_tid m) (tx_msgID m) (tx_nodeId m) a s")
    (auto simp: handle_begin_def Let_def dest!: wf_saveWorkerInfo intro!: wf_reply wf_tm_clock_step(1))

lemma wf_handle_join: "wf_tm s \<Longrightarrow> out_all wf_tm (handle_join m a s)"
  by (cases "saveWorkerInfo (ucast (sin_port a)) (tx_tid m) (tx_msgID m) (tx_nodeId m) a s")
    (auto simp: handle_join_def Let_def dest!: wf_saveWorkerInfo
      intro!: wf_reply wf_tm_clock_step(1,5,6))

lemma wf_handle_commit: "wf_tm s \<Longrightarrow> out_all wf_tm (handle_commit m s)"
  by (simp add: handle_commit_def Let_def wf_sendToAllWorkers wf_tm_clock_step(5,6))

lemma wf_handle_vote: "wf_tm s \<Longrightarrow> out_all wf_tm (handle_vote c m a s)"
proof -
  assume "wf_tm s"
  then have s: "wf_tm (if tx_isCrash m = 1 then setCrash m s else s)" by (simp add: wf_setCrash)
  show ?thesis
  proof (cases "collectVote c m (if tx_isCrash m = 1 then setCrash m s else s)")
    case None
    then show ?thesis by (simp add: handle_vote_def Let_def)
  next
    case (Some dt)
    then obtain d t where dt: "dt = (d, t)" and "wf_tm t"
      using s by (cases dt) (auto dest: wf_collectVote)
    then show ?thesis
      by (simp add: handle_vote_def act_on_decision_def Let_def Some dt wf_reply wf_tm_clock_step(1) wf_decide)
  qed
qed

lemma wf_handle_vote_abort: "wf_tm s \<Longrightarrow> out_all wf_tm (handle_vote_abort m s)"
  by (simp add: handle_vote_abort_def Let_def wf_setCrash wf_decide)

lemma wf_handle_msg: "wf_tm s \<Longrightarrow> out_all wf_tm (handle_msg c m a s)"
  by (simp add: handle_msg_def Let_def wf_handle_begin wf_handle_join wf_handle_commit
      wf_handle_vote wf_handle_vote_abort)

interpretation tm_machine: machine handleWorkerMsg wf_tm
proof unfold_locales
  fix s e
  assume wf: "wf_tm s"
  show "out_all wf_tm (handleWorkerMsg e s)"
  proof (cases e)
    case (PollTimeout m)
    with wf show ?thesis by (simp add: wf_handle_timeout)
  next
    case (Received a buf c)
    with wf show ?thesis
      by (auto simp: Let_def wf_tm_clock_step split: option.splits intro!: wf_handle_msg)
  qed (use wf in simp_all)
qed

subsection \<open>The log only grows\<close>

definition log_le :: "tm_state \<Rightarrow> tm_state \<Rightarrow> bool" where
  "log_le s t \<longleftrightarrow> prefix (tm_log s) (tm_log t) \<and> tm_host t = tm_host s \<and> tm_port t = tm_port s"

lemma log_saveWorkerInfo:
  "saveWorkerInfo p t k n a s = Some (err, s') \<Longrightarrow>
    tm_log s' = tm_log s \<and> tm_host s' = tm_host s \<and> tm_port s' = tm_port s"
  by (auto simp: saveWorkerInfo_def Let_def split: option.splits if_splits)

lemma log_collectVote:
  "collectVote c m s = Some (d, s') \<Longrightarrow>
    tm_log s' = tm_log s \<and> tm_host s' = tm_host s \<and> tm_port s' = tm_port s"
  by (auto simp: collectVote_def Let_def bind_eq_Some_conv split: option.splits)

lemma log_setCrash [simp]:
  "tm_log (setCrash m s) = tm_log s" "tm_log (resetCrash m s) = tm_log s"
  "tm_log (cleanWorkerInfo tid s) = tm_log s"
  "tm_host (setCrash m s) = tm_host s" "tm_host (resetCrash m s) = tm_host s"
  "tm_host (cleanWorkerInfo tid s) = tm_host s"
  "tm_port (setCrash m s) = tm_port s" "tm_port (resetCrash m s) = tm_port s"
  "tm_port (cleanWorkerInfo tid s) = tm_port s"
  "tm_outbox (setCrash m s) = tm_outbox s" "tm_outbox (resetCrash m s) = tm_outbox s"
  "tm_outbox (cleanWorkerInfo tid s) = tm_outbox s"
  "tm_newMsg (setCrash m s) = tm_newMsg s" "tm_newMsg (resetCrash m s) = tm_newMsg s"
  "tm_clock (setCrash m s) = tm_clock s" "tm_clock (resetCrash m s) = tm_clock s"
  by (simp_all add: setCrash_def resetCrash_def cleanWorkerInfo_def)

lemma log_decide:
  "out_all (\<lambda>t. tm_log t = tm_log s @ [\<lparr>cr_msgID = k, cr_tid = tx_tid m, cr_nodeId = tx_nodeId m\<rparr>] \<and>
     tm_host t = tm_host s \<and> tm_port t = tm_port s) (decide m k s)"
  by (simp add: decide_def Let_def)

lemma log_le_decide: "log_le s t \<Longrightarrow> out_all (log_le s) (decide m k t)"
  using log_decide [of t k m] by (cases "decide m k t") (auto simp: log_le_def prefix_def)

lemma log_le_handle_begin: "out_all (log_le s) (handle_begin m a s)"
  by (cases "saveWorkerInfo (ucast (sin_port a)) (tx_tid m) (tx_msgID m) (tx_nodeId m) a s")
    (auto simp: handle_begin_def Let_def log_le_def dest!: log_saveWorkerInfo)

lemma log_le_handle_join: "out_all (log_le s) (handle_join m a s)"
  by (cases "saveWorkerInfo (ucast (sin_port a)) (tx_tid m) (tx_msgID m) (tx_nodeId m) a s")
    (auto simp: handle_join_def Let_def log_le_def dest!: log_saveWorkerInfo)

lemma log_le_handle_commit: "out_all (log_le s) (handle_commit m s)"
  by (simp add: handle_commit_def Let_def log_le_def)

lemma log_le_handle_vote: "out_all (log_le s) (handle_vote c m a s)"
proof -
  let ?s = "if tx_isCrash m = 1 then setCrash m s else s"
  have s: "tm_log ?s = tm_log s \<and> tm_host ?s = tm_host s \<and> tm_port ?s = tm_port s" by simp
  show ?thesis
  proof (cases "collectVote c m ?s")
    case None
    then show ?thesis by (simp add: handle_vote_def Let_def)
  next
    case (Some dt)
    then obtain d t where dt: "dt = (d, t)" and t: "log_le s t"
      using s by (cases dt) (auto simp: log_le_def dest: log_collectVote)
    then show ?thesis
      by (simp add: handle_vote_def act_on_decision_def Let_def Some dt log_le_decide) (simp add: log_le_def)
  qed
qed

lemma log_le_handle_vote_abort: "out_all (log_le s) (handle_vote_abort m s)"
  by (simp add: handle_vote_abort_def Let_def log_le_decide log_le_def)

lemma log_le_handle_msg: "out_all (log_le s) (handle_msg c m a s)"
proof -
  have "log_le s s" by (simp add: log_le_def)
  then show ?thesis
    by (simp add: handle_msg_def Let_def log_le_handle_begin log_le_handle_join
        log_le_handle_commit log_le_handle_vote log_le_handle_vote_abort)
qed

interpretation tm_growing: growing handleWorkerMsg log_le
proof unfold_locales
  fix s :: tm_state and e
  show "log_le s s" by (simp add: log_le_def)
  show "log_le s t \<Longrightarrow> log_le t u \<Longrightarrow> log_le s u" for t u
    by (auto simp: log_le_def)
  show "out_all (log_le s) (handleWorkerMsg e s)"
  proof (cases e)
    case (PollTimeout m)
    then show ?thesis
      by (auto simp: handle_timeout_def waitingForVotes_def bind_eq_Some_conv log_le_def Let_def
          split: option.splits)
  next
    case (Received a buf c)
    show ?thesis
    proof (cases "deserializeWorkerMsg (tm_host s) buf")
      case None
      then show ?thesis using Received by simp
    next
      case (Some m)
      let ?t = "writeEventToLog m False (tx_nodeId m) (saveVectorTime (mergeVectorClock m (tickMyClock s)))"
      have "out_all (log_le ?t) (handle_msg c m a ?t)" by (rule log_le_handle_msg)
      then have "out_all (log_le s) (handle_msg c m a ?t)"
        by (rule out_all_mono) (simp add: log_le_def)
      then show ?thesis using Received Some by (simp add: Let_def)
    qed
  qed (simp_all add: log_le_def)
qed

end
