(* ===== verification/TManagerSpec.thy ===== *)
theory TManagerSpec
  imports TManagerFrame
begin

text \<open>
  What the transaction manager promises.  The abstract coordinator sees a transaction as the
  list of its members with their votes; its decision is the first vote in that list that is not
  yes.  The vote table of the code refines it.  The rest of the theory says which record each
  event appends to the log and which datagrams it sends.
\<close>

subsection \<open>The abstract coordinator\<close>

datatype vote = Pending | Yes | No
datatype decision = Commit | Abort | Undecided

fun spec_decide :: "vote list \<Rightarrow> decision" where
  "spec_decide [] = Commit"
| "spec_decide (Yes # vs) = spec_decide vs"
| "spec_decide (No # vs) = Abort"
| "spec_decide (Pending # vs) = Undecided"

definition spec_vote :: "u32 \<Rightarrow> vote \<Rightarrow> (u32 \<times> vote) list \<Rightarrow> (u32 \<times> vote) list" where
  "spec_vote n v ms = upd_first (\<lambda>m. fst m = n) (\<lambda>m. (fst m, v)) ms"

fun code_of :: "decision \<Rightarrow> u32" where
  "code_of Commit = DECIDE_COMMIT"
| "code_of Abort = DECIDE_ABORT"
| "code_of Undecided = WAIT"

definition vote_code :: "u32 \<Rightarrow> vote" where
  "vote_code k = (if k = VOTE_ABORT \<or> k = ABORT then No else if k = 0 then Pending else Yes)"

definition members :: "trans_info \<Rightarrow> (u32 \<times> vote) list" where
  "members i = map (\<lambda>w. (w_nodeId w, vote_code (w_voteYes w)))
     (filter (\<lambda>w. w_nodeId w \<noteq> 0) (i_workers i))"

definition find_row :: "u32 \<Rightarrow> tm_state \<Rightarrow> trans_info option" where
  "find_row tid s = find (\<lambda>i. i_tid i = tid) (tm_rows s)"

definition abs_tx :: "tm_state \<Rightarrow> u32 \<Rightarrow> (u32 \<times> vote) list option" where
  "abs_tx s tid = map_option members (find_row tid s)"

lemma spec_decide_Commit: "spec_decide vs = Commit \<longleftrightarrow> (\<forall>v \<in> set vs. v = Yes)"
  by (induction vs rule: spec_decide.induct) auto

lemma spec_decide_Abort_No: "spec_decide vs = Abort \<Longrightarrow> No \<in> set vs"
  by (induction vs rule: spec_decide.induct) auto

lemma code_of_inject [simp]: "code_of d = code_of d' \<longleftrightarrow> d = d'"
  by (cases d; cases d') simp_all

lemma tally_spec:
  "tally c ws =
    (if filter (\<lambda>w. w_nodeId w \<noteq> 0) ws = [] then c
     else code_of (spec_decide (map (\<lambda>w. vote_code (w_voteYes w)) (filter (\<lambda>w. w_nodeId w \<noteq> 0) ws))))"
  by (induction ws arbitrary: c) (auto simp: vote_code_def)

lemma record_vote_eq:
  "record_vote m i = i\<lparr>i_workers := upd_first (\<lambda>w. w_nodeId w = tx_nodeId m)
     (\<lambda>w. w\<lparr>w_voteYes := tx_msgID m\<rparr>) (i_workers i)\<rparr>"
  by (simp add: record_vote_def c_lor_def)

lemma record_vote_tid [simp]: "i_tid (record_vote m i) = i_tid i"
  by (simp add: record_vote_def)

lemma filter_upd_first:
  "(\<And>x. P x \<Longrightarrow> Q x) \<Longrightarrow> (\<And>x. P x \<Longrightarrow> Q (f x)) \<Longrightarrow>
    filter Q (upd_first P f xs) = upd_first P f (filter Q xs)"
  by (induction xs) auto

lemma map_upd_first_commute:
  "(\<And>x. P x \<longleftrightarrow> P' (g x)) \<Longrightarrow> (\<And>x. P x \<Longrightarrow> g (f x) = f' (g x)) \<Longrightarrow>
    map g (upd_first P f xs) = upd_first P' f' (map g xs)"
  by (induction xs) auto

lemma members_record_vote:
  assumes "tx_nodeId m \<noteq> 0"
  shows "members (record_vote m i) = spec_vote (tx_nodeId m) (vote_code (tx_msgID m)) (members i)"
  using assms
  by (auto simp: members_def record_vote_eq spec_vote_def filter_upd_first intro!: map_upd_first_commute)

lemma find_row_Some_index:
  "find_row tid s = Some row \<longleftrightarrow>
    (\<exists>i. first_index (\<lambda>i. i_tid i = tid) (tm_rows s) = Some i \<and> row = tm_rows s ! i)"
  by (auto simp: find_row_def find_first_index)

lemma find_row_None: "find_row tid s = None \<longleftrightarrow> (\<forall>i \<in> set (tm_rows s). i_tid i \<noteq> tid)"
  by (simp add: find_row_def find_first_index first_index_None)

lemma find_list_update:
  assumes "first_index P xs = Some i" and "P x"
  shows "find P (xs[i := x]) = Some x"
  using assms
  by (induction xs arbitrary: i) (auto split: if_splits)

definition contacts :: "trans_info list \<Rightarrow> (u32 \<times> (u32 \<times> u32 \<times> sockaddr_in) list) list" where
  "contacts rows =
     map (\<lambda>i. (i_tid i, map (\<lambda>w. (w_nodeId w, w_port w, w_workerAddr w)) (i_workers i))) rows"

lemma contacts_record_vote:
  "map (\<lambda>w. (w_nodeId w, w_port w, w_workerAddr w)) (i_workers (record_vote m row)) =
   map (\<lambda>w. (w_nodeId w, w_port w, w_workerAddr w)) (i_workers row)"
  by (simp add: record_vote_eq map_upd_first)

lemma contacts_tids: "contacts rows = contacts rows' \<Longrightarrow> map i_tid rows = map i_tid rows'"
  by (drule arg_cong [where f = "map fst"]) (simp add: contacts_def comp_def)

lemma collectVote_row:
  assumes "find_row (tx_tid m) s = Some row"
  shows "\<exists>s'. collectVote c m s = Some (tally c (i_workers (record_vote m row)), s') \<and>
     find_row (tx_tid m) s' = Some (record_vote m row) \<and> tm_log s' = tm_log s \<and>
     tm_host s' = tm_host s \<and> tm_port s' = tm_port s \<and> tm_newMsg s' = tm_newMsg s \<and>
     tm_outbox s' = tm_outbox s \<and> tm_clock s' = tm_clock s \<and>
     contacts (tm_rows s') = contacts (tm_rows s)"
proof -
  from assms obtain i where i: "first_index (\<lambda>i. i_tid i = tx_tid m) (tm_rows s) = Some i"
    and row: "row = tm_rows s ! i"
    by (auto simp: find_row_Some_index)
  let ?s' = "set_rows ((tm_rows s)[i := record_vote m row]) s"
  have "i_tid row = tx_tid m" using first_indexD(2) [OF i] row by simp
  then have "find_row (tx_tid m) ?s' = Some (record_vote m row)"
    using find_list_update [OF i, of "record_vote m row"] by (simp add: find_row_def)
  moreover have "collectVote c m s = Some (tally c (i_workers (record_vote m row)), ?s')"
    by (simp add: collectVote_def i row Let_def)
  moreover have "contacts ((tm_rows s)[i := record_vote m row]) = contacts (tm_rows s)"
    using first_indexD(1) [OF i]
    by (simp add: contacts_def map_update row list_update_same_conv contacts_record_vote)
  ultimately show ?thesis by (intro exI [of _ ?s']) simp
qed

subsection \<open>The records that an event appends\<close>

lemma commitFound_iff:
  "commitFound tid rs \<longleftrightarrow> (\<exists>r \<in> set rs. cr_tid r = tid \<and> cr_msgID r = DECIDE_COMMIT)"
  by (induction rs) auto

definition committed :: "u32 \<Rightarrow> tm_state \<Rightarrow> bool" where
  "committed tid s \<longleftrightarrow> (\<exists>r \<in> set (tm_log s). cr_tid r = tid \<and> cr_msgID r = DECIDE_COMMIT)"

lemma isCommit_eq:
  "isCommit tid s =
    (if tm_records s = None then None else Some (if committed tid s then 1 else 0))"
  by (auto simp: isCommit_def commitFound_iff committed_def tm_records_def)

lemma committed_mono: "log_le s t \<Longrightarrow> committed tid s \<Longrightarrow> committed tid t"
  by (auto simp: log_le_def committed_def prefix_def)

lemma committed_append:
  "tm_log t = tm_log s @ [r] \<Longrightarrow>
    committed tid t \<longleftrightarrow> committed tid s \<or> (cr_tid r = tid \<and> cr_msgID r = DECIDE_COMMIT)"
  by (auto simp: committed_def)

lemma committed_same: "tm_log t = tm_log s \<Longrightarrow> committed tid t = committed tid s"
  by (simp add: committed_def)

lemma log_begin: "out_all (\<lambda>t. tm_log t = tm_log s) (handle_begin m a s)"
  by (cases "saveWorkerInfo (ucast (sin_port a)) (tx_tid m) (tx_msgID m) (tx_nodeId m) a s")
    (auto simp: handle_begin_def Let_def dest!: log_saveWorkerInfo)

lemma log_join:
  "out_all (\<lambda>t. tm_log t = tm_log s \<or>
     tm_log t = tm_log s @ [\<lparr>cr_msgID = tx_msgID m, cr_tid = tx_tid m, cr_nodeId = tx_nodeId m\<rparr>])
   (handle_join m a s)"
  by (cases "saveWorkerInfo (ucast (sin_port a)) (tx_tid m) (tx_msgID m) (tx_nodeId m) a s")
    (auto simp: handle_join_def Let_def dest!: log_saveWorkerInfo)

lemma log_commit:
  "out_all (\<lambda>t. tm_log t = tm_log s @ [\<lparr>cr_msgID = COMMIT_REQ, cr_tid = tx_tid m, cr_nodeId = tx_nodeId m\<rparr>])
   (handle_commit m s)"
  by (simp add: handle_commit_def Let_def)

lemma log_vote_abort:
  "out_all (\<lambda>t. tm_log t = tm_log s @ [\<lparr>cr_msgID = DECIDE_ABORT, cr_tid = tx_tid m, cr_nodeId = tx_nodeId m\<rparr>])
   (handle_vote_abort m s)"
  using log_decide [of s DECIDE_ABORT m] log_decide [of "setCrash m s" DECIDE_ABORT m]
  by (auto simp: handle_vote_abort_def Let_def elim!: out_all_mono)

lemma log_timeout:
  "out_all (\<lambda>t. tm_log t = tm_log s \<or>
     (\<exists>r. tm_log t = tm_log s @ [r] \<and> cr_msgID r = DECIDE_ABORT)) (handle_timeout om s)"
  by (auto simp: handle_timeout_def waitingForVotes_def bind_eq_Some_conv Let_def split: option.splits)

definition after_setCrash :: "txMessage \<Rightarrow> tm_state \<Rightarrow> tm_state" where
  "after_setCrash m s = (if tx_isCrash m = 1 then setCrash m s else s)"

lemma after_setCrash_fields [simp]:
  "tm_log (after_setCrash m s) = tm_log s" "tm_host (after_setCrash m s) = tm_host s"
  "tm_port (after_setCrash m s) = tm_port s" "tm_newMsg (after_setCrash m s) = tm_newMsg s"
  "tm_clock (after_setCrash m s) = tm_clock s" "tm_outbox (after_setCrash m s) = tm_outbox s"
  by (simp_all add: after_setCrash_def)

lemma after_setCrash_wf: "wf_tm s \<Longrightarrow> wf_tm (after_setCrash m s)"
  by (simp add: after_setCrash_def wf_setCrash)

lemma after_setCrash_tids [simp]: "map i_tid (tm_rows (after_setCrash m s)) = map i_tid (tm_rows s)"
  by (simp add: after_setCrash_def setCrash_def map_upd_first)

lemma after_setCrash_workers:
  "map (\<lambda>i. (i_tid i, i_workers i)) (tm_rows (after_setCrash m s)) =
   map (\<lambda>i. (i_tid i, i_workers i)) (tm_rows s)"
  by (simp add: after_setCrash_def setCrash_def map_upd_first)

lemma after_setCrash_contacts: "contacts (tm_rows (after_setCrash m s)) = contacts (tm_rows s)"
  using arg_cong [OF after_setCrash_workers [of m s],
      of "map (apsnd (map (\<lambda>w. (w_nodeId w, w_port w, w_workerAddr w))))"]
  by (simp add: contacts_def comp_def)

lemma tm_records_log: "tm_log t = tm_log s \<Longrightarrow> tm_records t = tm_records s"
  by (simp add: tm_records_def)

lemma map_i_tid_find_row: "map i_tid (tm_rows s) = map i_tid (tm_rows t) \<Longrightarrow>
    find_row tid s = None \<longleftrightarrow> find_row tid t = None"
proof -
  assume "map i_tid (tm_rows s) = map i_tid (tm_rows t)"
  then have "set (map i_tid (tm_rows s)) = set (map i_tid (tm_rows t))" by simp
  then show ?thesis by (force simp: find_row_None)
qed

lemma map_pair_find_row:
  "map (\<lambda>i. (i_tid i, i_workers i)) rows = map (\<lambda>i. (i_tid i, i_workers i)) rows' \<Longrightarrow>
    map_option i_workers (find (\<lambda>i. i_tid i = tid) rows) =
    map_option i_workers (find (\<lambda>i. i_tid i = tid) rows')"
proof (induction rows arbitrary: rows')
  case Nil
  then show ?case by simp
next
  case (Cons i rows)
  then show ?case by (cases rows') auto
qed

lemma find_upd_first:
  "(\<And>x. P (f x) = P x) \<Longrightarrow> find P (upd_first P f xs) = map_option f (find P xs)"
  by (induction xs) auto

lemma find_row_after_setCrash:
  assumes "find_row tid s = Some row" and "tid = tx_tid m"
  shows "find_row tid (after_setCrash m s) =
    Some (if tx_isCrash m = 1 then row\<lparr>i_isCrash := i_isCrash row OR tx_isCrash m\<rparr> else row)"
  using assms
  by (simp add: after_setCrash_def setCrash_def find_row_def find_upd_first)

text \<open>The vote handler in terms of the row, when there is one.\<close>

lemma handle_vote_row:
  assumes "find_row (tx_tid m) s = Some row"
  shows "\<exists>t row'. handle_vote c m a s = act_on_decision (tally c (i_workers (record_vote m row))) m a t \<and>
    find_row (tx_tid m) t = Some row' \<and> i_workers row' = i_workers (record_vote m row) \<and>
    i_isCrash row' = (if tx_isCrash m = 1 then i_isCrash row OR tx_isCrash m else i_isCrash row) \<and>
    tm_log t = tm_log s \<and> tm_host t = tm_host s \<and> tm_port t = tm_port s \<and>
    tm_newMsg t = tm_newMsg s \<and> tm_outbox t = tm_outbox s \<and> tm_clock t = tm_clock s \<and>
    contacts (tm_rows t) = contacts (tm_rows s) \<and> (wf_tm s \<longrightarrow> wf_tm t)"
proof -
  from find_row_after_setCrash [OF assms refl] obtain row1
    where r1: "find_row (tx_tid m) (after_setCrash m s) = Some row1"
      and ws: "i_workers row1 = i_workers row"
      and crash: "i_isCrash row1 =
        (if tx_isCrash m = 1 then i_isCrash row OR tx_isCrash m else i_isCrash row)" by auto
  then have ws': "i_workers (record_vote m row1) = i_workers (record_vote m row)"
    by (simp add: record_vote_def)
  have crash': "i_isCrash (record_vote m row1) =
      (if tx_isCrash m = 1 then i_isCrash row OR tx_isCrash m else i_isCrash row)"
    using crash by (simp add: record_vote_def)
  from collectVote_row [OF r1, of c] obtain t where
    cv: "collectVote c m (after_setCrash m s) = Some (tally c (i_workers (record_vote m row)), t)"
    and t: "find_row (tx_tid m) t = Some (record_vote m row1)" "tm_log t = tm_log s"
      "tm_host t = tm_host s" "tm_port t = tm_port s" "tm_newMsg t = tm_newMsg s"
      "tm_outbox t = tm_outbox s" "tm_clock t = tm_clock s"
      "contacts (tm_rows t) = contacts (tm_rows s)"
    by (auto simp: ws' after_setCrash_contacts)
  have "handle_vote c m a s = act_on_decision (tally c (i_workers (record_vote m row))) m a t"
    using cv by (simp add: handle_vote_def Let_def after_setCrash_def)
  moreover have "wf_tm s \<longrightarrow> wf_tm t"
    using wf_collectVote [OF cv] after_setCrash_wf by blast
  ultimately show ?thesis using t ws' crash' by blast
qed

text \<open>The vote handler for a transaction that is not in the table: the log decides.\<close>

lemma handle_vote_no_row:
  assumes "find_row (tx_tid m) s = None" and "tm_records s \<noteq> None"
  shows "handle_vote c m a s =
    act_on_decision (if committed (tx_tid m) s then DECIDE_COMMIT else DECIDE_ABORT) m a
      (after_setCrash m s)"
proof -
  let ?t = "after_setCrash m s"
  have "first_index (\<lambda>i. i_tid i = tx_tid m) (tm_rows ?t) = None"
    using assms(1) map_i_tid_find_row [of ?t s "tx_tid m"]
    by (simp add: find_row_def find_first_index)
  moreover have "isCommit (tx_tid m) ?t = Some (if committed (tx_tid m) s then 1 else 0)"
    using assms(2) tm_records_log [of ?t s] committed_same [of ?t s "tx_tid m"]
    by (simp add: isCommit_eq)
  ultimately have "collectVote c m ?t =
      Some (if committed (tx_tid m) s then DECIDE_COMMIT else DECIDE_ABORT, ?t)"
    by (simp add: collectVote_def)
  then show ?thesis
    by (simp add: handle_vote_def Let_def flip: after_setCrash_def)
qed

lemma handle_vote_no_records:
  assumes "find_row (tx_tid m) s = None" and "tm_records s = None"
  shows "handle_vote c m a s = Undefined"
proof -
  let ?t = "after_setCrash m s"
  have "first_index (\<lambda>i. i_tid i = tx_tid m) (tm_rows ?t) = None"
    using assms(1) map_i_tid_find_row [of ?t s "tx_tid m"]
    by (simp add: find_row_def find_first_index)
  moreover have "isCommit (tx_tid m) ?t = None"
    using assms(2) tm_records_log [of ?t s] by (simp add: isCommit_eq)
  ultimately have "collectVote c m ?t = None" by (simp add: collectVote_def)
  then show ?thesis by (simp add: handle_vote_def Let_def flip: after_setCrash_def)
qed

subsection \<open>The datagrams\<close>

lemma reply_outbox:
  assumes "wf_tm s"
  shows "tm_outbox (reply m k a s) =
    tm_outbox s @ [(a, txBytes (constructMessage m (tm_newMsg s) k 0 s))]"
  using wf_constructMessage [OF assms, of m "tm_newMsg s" k 0]
  by (simp add: reply_def Let_def sendMsg_wf)

text \<open>The messages of a broadcast: one per member with a port, each with one more tick.\<close>

fun broadcast :: "u32 \<Rightarrow> txMessage \<Rightarrow> u32 \<Rightarrow> txMessage \<Rightarrow> clock list \<Rightarrow> worker list \<Rightarrow> (sockaddr_in \<times> txMessage) list"
where
  "broadcast port recvMsg kind newMsg vc [] = []"
| "broadcast port recvMsg kind newMsg vc (w # ws) =
     (w_workerAddr w,
      newMsg\<lparr>tx_msgID := kind, tx_tid := tx_tid recvMsg,
             tx_nodeId := (if w_nodeId w = 0 then tx_nodeId recvMsg else w_nodeId w),
             tx_vectorClock := tick port vc\<rparr>) #
     broadcast port recvMsg kind newMsg (tick port vc) ws"

fun ticks_of :: "u32 \<Rightarrow> nat \<Rightarrow> clock list \<Rightarrow> clock list" where
  "ticks_of port 0 vc = vc"
| "ticks_of port (Suc n) vc = ticks_of port n (tick port vc)"

lemma constructMessage_idem:
  "constructMessage m (constructMessage m nm k n s) k n' s' = constructMessage m nm k n' s'"
  by (simp add: constructMessage_def)

lemma broadcast_newMsg:
  "broadcast p m k (constructMessage m nm k n s) vc ws = broadcast p m k nm vc ws"
  by (induction ws arbitrary: vc) (simp_all add: constructMessage_def)

lemma length_ticks_of [simp]: "length (ticks_of p n vc) = length vc"
  by (induction n arbitrary: vc) simp_all

lemma fold_sendToWorker_outbox:
  assumes "wf_tm s"
  shows "\<exists>nm' t. fold (sendToWorker m k) ws (nm, s) = (nm', t) \<and>
    tm_outbox t = tm_outbox s @
      map (apsnd txBytes) (broadcast (tm_port s) m k nm (tm_clock s) (filter (\<lambda>w. w_port w \<noteq> 0) ws)) \<and>
    tm_clock t = ticks_of (tm_port s) (length (filter (\<lambda>w. w_port w \<noteq> 0) ws)) (tm_clock s) \<and>
    tm_port t = tm_port s \<and> wf_tm t \<and>
    (nm' = nm \<or> (\<exists>n u. nm' = constructMessage m nm k n u))"
  using assms
proof (induction ws arbitrary: nm s)
  case Nil
  then show ?case by simp
next
  case (Cons w ws)
  show ?case
  proof (cases "w_port w = 0")
    case True
    then have "sendToWorker m k w (nm, s) = (nm, s)" by (simp add: sendToWorker_def)
    with Cons True show ?thesis by simp
  next
    case False
    let ?s = "saveVectorTime (tickMyClock s)"
    let ?nm = "constructMessage m nm k (w_nodeId w) ?s"
    let ?t = "sendMsg ?nm (w_workerAddr w) (writeEventToLog ?nm True (tx_nodeId ?nm) ?s)"
    have one: "sendToWorker m k w (nm, s) = (?nm, ?t)"
      using False by (simp add: sendToWorker_def Let_def)
    have wfs: "wf_tm ?s" by (rule wf_tm_clock_step(1) [OF Cons.prems])
    then have wft: "wf_tm ?t" by (simp add: wf_tm_clock_step(3))
    have out: "tm_outbox ?t = tm_outbox s @ [(w_workerAddr w, txBytes ?nm)]"
      using wf_constructMessage [OF wfs] by (simp add: sendMsg_wf)
    from Cons.IH [OF wft, of ?nm] obtain nm' u where
      IH: "fold (sendToWorker m k) ws (?nm, ?t) = (nm', u)"
      "tm_outbox u = tm_outbox ?t @ map (apsnd txBytes)
         (broadcast (tm_port ?t) m k ?nm (tm_clock ?t) (filter (\<lambda>w. w_port w \<noteq> 0) ws))"
      "tm_clock u = ticks_of (tm_port ?t) (length (filter (\<lambda>w. w_port w \<noteq> 0) ws)) (tm_clock ?t)"
      "tm_port u = tm_port ?t" "wf_tm u" "nm' = ?nm \<or> (\<exists>n u. nm' = constructMessage m ?nm k n u)"
      by blast
    have "nm' = nm \<or> (\<exists>n u. nm' = constructMessage m nm k n u)"
      using IH(6) by (auto simp: constructMessage_idem)
    with IH False out one show ?thesis
      by (simp add: broadcast_newMsg) (simp add: constructMessage_def)
  qed
qed

lemma broadcast_append:
  "broadcast p m k nm vc (xs @ ys) =
    broadcast p m k nm vc xs @ broadcast p m k nm (ticks_of p (length xs) vc) ys"
  by (induction xs arbitrary: vc) simp_all

lemma ticks_of_add: "ticks_of p (i + j) vc = ticks_of p j (ticks_of p i vc)"
  by (induction i arbitrary: vc) simp_all

definition addressees :: "u32 \<Rightarrow> trans_info list \<Rightarrow> worker list" where
  "addressees tid rows =
     filter (\<lambda>w. w_port w \<noteq> 0) (concat (map i_workers (filter (\<lambda>i. i_tid i = tid) rows)))"

lemma addressees_simps [simp]:
  "addressees tid [] = []"
  "addressees tid (i # is) =
    (if i_tid i = tid then filter (\<lambda>w. w_port w \<noteq> 0) (i_workers i) else []) @ addressees tid is"
  by (simp_all add: addressees_def)

lemma sendToRows_outbox:
  assumes "wf_tm s"
  shows "\<exists>nm' t. sendToRows m k rows (nm, s) = (nm', t) \<and>
    tm_outbox t = tm_outbox s @
      map (apsnd txBytes) (broadcast (tm_port s) m k nm (tm_clock s) (addressees (tx_tid m) rows)) \<and>
    tm_clock t = ticks_of (tm_port s) (length (addressees (tx_tid m) rows)) (tm_clock s) \<and> wf_tm t \<and>
    tm_port t = tm_port s"
  using assms
proof (induction rows arbitrary: nm s)
  case Nil
  then show ?case by simp
next
  case (Cons i rows)
  show ?case
  proof (cases "i_tid i = tx_tid m")
    case True
    from fold_sendToWorker_outbox [OF Cons.prems, of m k "i_workers i" nm] obtain nm1 t1 where
      1: "fold (sendToWorker m k) (i_workers i) (nm, s) = (nm1, t1)"
      "tm_outbox t1 = tm_outbox s @ map (apsnd txBytes)
         (broadcast (tm_port s) m k nm (tm_clock s) (filter (\<lambda>w. w_port w \<noteq> 0) (i_workers i)))"
      "tm_clock t1 = ticks_of (tm_port s) (length (filter (\<lambda>w. w_port w \<noteq> 0) (i_workers i))) (tm_clock s)"
      "tm_port t1 = tm_port s" "wf_tm t1" "nm1 = nm \<or> (\<exists>n u. nm1 = constructMessage m nm k n u)"
      by blast
    have "broadcast p m k nm1 vc ws = broadcast p m k nm vc ws" for p vc ws
      using 1(6) by (auto simp: broadcast_newMsg)
    with True 1 Cons.IH [OF 1(5), of nm1] show ?thesis
      by (auto simp: broadcast_append ticks_of_add)
  next
    case False
    with Cons show ?thesis by simp
  qed
qed

lemma sendToAllWorkers_outbox:
  assumes "wf_tm s"
  shows "tm_outbox (sendToAllWorkers m nm k s) = tm_outbox s @
      map (apsnd txBytes) (broadcast (tm_port s) m k nm (tm_clock s) (addressees (tx_tid m) (tm_rows s)))"
    and "tm_clock (sendToAllWorkers m nm k s) =
      ticks_of (tm_port s) (length (addressees (tx_tid m) (tm_rows s))) (tm_clock s)"
  using sendToRows_outbox [OF assms, of m k "tm_rows s" nm] by (auto simp: sendToAllWorkers_def)

text \<open>A broadcast depends on the members' addresses and node ids only.\<close>

lemma broadcast_cong:
  "map (\<lambda>w. (w_workerAddr w, w_nodeId w)) ws = map (\<lambda>w. (w_workerAddr w, w_nodeId w)) ws' \<Longrightarrow>
    broadcast p m k nm vc ws = broadcast p m k nm vc ws'"
proof (induction ws arbitrary: vc ws')
  case Nil
  then show ?case by simp
next
  case (Cons w ws)
  then obtain w' ws1 where ws': "ws' = w' # ws1" by (cases ws') auto
  with Cons.prems have "map (\<lambda>w. (w_workerAddr w, w_nodeId w)) ws = map (\<lambda>w. (w_workerAddr w, w_nodeId w)) ws1"
    by simp
  then have "broadcast p m k nm (tick p vc) ws = broadcast p m k nm (tick p vc) ws1" by (rule Cons.IH)
  with Cons.prems show ?case by (simp add: ws')
qed

definition ports_of :: "(u32 \<times> u32 \<times> sockaddr_in) list \<Rightarrow> (sockaddr_in \<times> u32) list" where
  "ports_of cs = map (\<lambda>(n, p, a). (a, n)) (filter (\<lambda>(n, p, a). p \<noteq> 0) cs)"

lemma addressees_contacts:
  "map (\<lambda>w. (w_workerAddr w, w_nodeId w)) (addressees tid rows) =
    concat (map (\<lambda>(t, cs). ports_of cs) (filter (\<lambda>(t, cs). t = tid) (contacts rows)))"
  by (induction rows)
    (simp_all add: contacts_def ports_of_def filter_map comp_def)

lemma broadcast_contacts:
  "contacts rows = contacts rows' \<Longrightarrow>
    broadcast p m k nm vc (addressees tid rows) = broadcast p m k nm vc (addressees tid rows')"
  by (rule broadcast_cong) (simp add: addressees_contacts)

lemma broadcast_addrs: "map fst (broadcast p m k nm vc ws) = map w_workerAddr ws"
  by (induction ws arbitrary: vc) simp_all

lemma broadcast_kinds: "(a, m') \<in> set (broadcast p m k nm vc ws) \<Longrightarrow> tx_msgID m' = k \<and> tx_tid m' = tx_tid m"
  by (induction ws arbitrary: vc) auto

end
