(* ===== verification/TManagerSafe.thy ===== *)
theory TManagerSafe
  imports TManagerSpec
begin

text \<open>
  Safety of the transaction manager's decisions: when a commit record may appear in the log,
  which transactions an event may add to the table, and the two final states of a transaction
  (decided against, decided for) as invariants of the receive loop.
\<close>

subsection \<open>When a commit is logged\<close>

definition commit_vote :: "u32 \<Rightarrow> tm_event \<Rightarrow> tm_state \<Rightarrow> bool" where
  "commit_vote tid e s =
     (case e of
        Received a buf c \<Rightarrow>
          (case deserializeWorkerMsg (tm_host s) buf of
             None \<Rightarrow> False
           | Some m \<Rightarrow> tx_msgID m = VOTE_COMMIT \<and> tx_tid m = tid \<and>
               (case find_row tid s of
                  None \<Rightarrow> False
                | Some row \<Rightarrow> tally c (i_workers (record_vote m row)) = DECIDE_COMMIT))
      | _ \<Rightarrow> False)"

definition recv_state :: "txMessage \<Rightarrow> tm_state \<Rightarrow> tm_state" where
  "recv_state m s =
     writeEventToLog m False (tx_nodeId m) (saveVectorTime (mergeVectorClock m (tickMyClock s)))"

lemma recv_state_fields [simp]:
  "tm_log (recv_state m s) = tm_log s" "tm_host (recv_state m s) = tm_host s"
  "tm_port (recv_state m s) = tm_port s" "tm_newMsg (recv_state m s) = tm_newMsg s"
  "tm_rows (recv_state m s) = tm_rows s" "tm_outbox (recv_state m s) = tm_outbox s"
  "tm_clock (recv_state m s) = merge_clocks (tx_vectorClock m) (tick (tm_port s) (tm_clock s))"
  "tm_rec (recv_state m s) = tm_rec s" "tm_abortTid (recv_state m s) = tm_abortTid s"
  by (simp_all add: recv_state_def)

lemma recv_state_wf: "wf_tm s \<Longrightarrow> wf_tm (recv_state m s)"
  by (simp add: recv_state_def wf_tm_clock_step)

lemma recv_state_rows [simp]:
  "find_row tid (recv_state m s) = find_row tid s" "tm_records (recv_state m s) = tm_records s"
  "committed tid (recv_state m s) = committed tid s"
  by (simp_all add: find_row_def tm_records_def committed_def)

lemma handle_received:
  "deserializeWorkerMsg (tm_host s) buf = Some m \<Longrightarrow>
    handleWorkerMsg (Received a buf c) s = handle_msg c m a (recv_state m s)"
  by (simp add: Let_def recv_state_def)

lemma committed_vote:
  "out_all (\<lambda>t. committed tid t \<longrightarrow> committed tid s \<or>
      (tx_msgID m \<noteq> POLL_DECISION \<and> tx_tid m = tid \<and>
       (\<exists>row. find_row tid s = Some row \<and> tally c (i_workers (record_vote m row)) = DECIDE_COMMIT)))
    (handle_vote c m a s)"
proof (cases "find_row (tx_tid m) s")
  case (Some row)
  from handle_vote_row [OF Some, of c a] obtain t where
    hv: "handle_vote c m a s = act_on_decision (tally c (i_workers (record_vote m row))) m a t"
    and log: "tm_log t = tm_log s" by blast
  have "out_all (\<lambda>u. committed tid u \<longrightarrow> committed tid s \<or> tx_tid m = tid) (decide m DECIDE_COMMIT t)"
    using log_decide [of t DECIDE_COMMIT m] log
    by (auto elim!: out_all_mono simp: committed_def)
  then show ?thesis
    using Some log unfolding hv
    by (cases "decide m DECIDE_COMMIT t") (auto simp: act_on_decision_def committed_def)
next
  case None
  show ?thesis
  proof (cases "tm_records s")
    case None': None
    then show ?thesis using handle_vote_no_records [OF None] by simp
  next
    case (Some rs)
    have "out_all (\<lambda>u. committed tid u \<longrightarrow> committed tid (after_setCrash m s) \<or> tx_tid m = tid)
        (decide m DECIDE_COMMIT (after_setCrash m s))"
      using log_decide [of "after_setCrash m s" DECIDE_COMMIT m]
      by (auto elim!: out_all_mono simp: committed_def)
    then show ?thesis
      using handle_vote_no_row [OF None, of c a] Some
      by (cases "decide m DECIDE_COMMIT (after_setCrash m s)")
        (auto simp: act_on_decision_def committed_def)
  qed
qed

lemma committed_msg:
  assumes "k = tx_msgID m"
  shows "out_all (\<lambda>t. committed tid t \<longrightarrow> committed tid s \<or>
      (k = VOTE_COMMIT \<and> tx_tid m = tid \<and>
       (\<exists>row. find_row tid s = Some row \<and> tally c (i_workers (record_vote m row)) = DECIDE_COMMIT)))
    (handle_msg c m a s)"
proof -
  have b: "out_all (\<lambda>t. committed tid t \<longrightarrow> committed tid s) (handle_begin m a s)"
    using log_begin [of s m a] by (rule out_all_mono) (simp add: committed_def)
  have j: "out_all (\<lambda>t. committed tid t \<longrightarrow> committed tid s) (handle_join m a s)" if "k = JOINTX"
    using log_join [of s m a] by (rule out_all_mono) (use that assms in \<open>auto simp: committed_def\<close>)
  have r: "out_all (\<lambda>t. committed tid t \<longrightarrow> committed tid s) (handle_commit m s)"
    using log_commit [of s m] by (rule out_all_mono) (auto simp: committed_def)
  have va: "out_all (\<lambda>t. committed tid t \<longrightarrow> committed tid s) (handle_vote_abort m s)"
    using log_vote_abort [of s m] by (rule out_all_mono) (auto simp: committed_def)
  have "out_all (\<lambda>t. committed tid t \<longrightarrow> committed tid s) (handle_msg c m a s)"
    if "k \<noteq> POLL_DECISION" "k \<noteq> VOTE_COMMIT"
    using that b j r va assms by (simp add: handle_msg_def Let_def)
  moreover have ?thesis if "k = POLL_DECISION \<or> k = VOTE_COMMIT"
    using committed_vote [of tid s m c a] that assms
    by (auto simp: handle_msg_def Let_def elim!: out_all_mono)
  ultimately show ?thesis
    by (cases "k = POLL_DECISION \<or> k = VOTE_COMMIT") (auto elim!: out_all_mono)
qed

lemma commit_step:
  "out_all (\<lambda>t. committed tid t \<longrightarrow> committed tid s \<or> commit_vote tid e s) (handleWorkerMsg e s)"
proof (cases e)
  case (PollTimeout om)
  have "out_all (\<lambda>t. committed tid t \<longrightarrow> committed tid s) (handle_timeout om s)"
    using log_timeout [of s om] by (rule out_all_mono) (auto simp: committed_def)
  then show ?thesis using PollTimeout by (auto elim!: out_all_mono)
next
  case (Received a buf c)
  show ?thesis
  proof (cases "deserializeWorkerMsg (tm_host s) buf")
    case None
    then show ?thesis using Received by simp
  next
    case (Some m)
    show ?thesis
      using committed_msg [OF refl, of tid "recv_state m s" m c a] Received Some
      by (auto simp only: handle_received [OF Some] recv_state_rows commit_vote_def
          elim!: out_all_mono split: option.splits) (auto simp: commit_vote_def)
  qed
qed (simp_all)

subsection \<open>The transactions in the table\<close>

definition tids :: "tm_state \<Rightarrow> u32 set" where
  "tids s = i_tid ` set (tm_rows s)"

lemma tids_find_row: "find_row tid s = None \<longleftrightarrow> tid \<notin> tids s"
  by (auto simp: find_row_None tids_def)

lemma tids_map: "map i_tid (tm_rows s) = map i_tid (tm_rows t) \<Longrightarrow> tids s = tids t"
  unfolding tids_def by (metis list.set_map)

lemma tids_same_rows: "tm_rows s = tm_rows t \<Longrightarrow> tids s = tids t"
  by (simp add: tids_def)

lemma tids_clean: "tids (cleanWorkerInfo tid s) \<subseteq> insert 0 (tids s)"
  using set_upd_first [of "\<lambda>i. i_tid i = tid" clean_row "tm_rows s"]
  by (auto simp: tids_def cleanWorkerInfo_def clean_row_def)

lemma tids_saveWorkerInfo:
  assumes "saveWorkerInfo p t k n a s = Some (err, s')"
  shows "tids s' \<subseteq> tids s \<union> (if k = JOINTX then {} else {t})"
proof (cases "first_index (\<lambda>i. i_tid i = t \<or> i_tid i = 0) (tm_rows s)")
  case None
  with assms show ?thesis by (auto simp: saveWorkerInfo_def split: if_splits)
next
  case (Some index)
  have idx: "index < length (tm_rows s)" using first_indexD(1) [OF Some] .
  then have row: "i_tid (tm_rows s ! index) \<in> tids s" by (simp add: tids_def)
  show ?thesis
    using assms row idx
    by (auto simp: saveWorkerInfo_def Some Let_def tids_def add_worker_def
        dest!: set_update_subset_insert [THEN subsetD] split: if_splits)
qed

lemma tids_crash [simp]: "tids (setCrash m s) = tids s" "tids (resetCrash m s) = tids s"
  by (auto simp: setCrash_def resetCrash_def intro!: tids_map map_upd_first)

lemma tids_after_setCrash [simp]: "tids (after_setCrash m s) = tids s"
  by (simp add: after_setCrash_def)

lemma tids_frame [simp]:
  "tids (saveVectorTime s) = tids s" "tids (tickMyClock s) = tids s"
  "tids (writeLocalEventToLog k s) = tids s" "tids (writeRecordToLog r s) = tids s"
  "tids (set_rec x y z s) = tids s" "tids (sendToAllWorkers m nm k s) = tids s"
  "tids (reply m k a s) = tids s" "tids (recv_state m s) = tids s"
  "tids (s\<lparr>tm_abortTid := u\<rparr>) = tids s"
  by (simp_all add: tids_def)

lemma tids_decide: "out_all (\<lambda>t. tids t \<subseteq> insert 0 (tids s)) (decide m k s)"
  by (simp add: decide_def Let_def order_trans [OF tids_clean])

definition begins :: "u32 \<Rightarrow> tm_event \<Rightarrow> tm_state \<Rightarrow> bool" where
  "begins tid e s =
     (case e of
        Received a buf c \<Rightarrow>
          (case deserializeWorkerMsg (tm_host s) buf of
             None \<Rightarrow> False | Some m \<Rightarrow> tx_msgID m = BEGINTX \<and> tx_tid m = tid)
      | _ \<Rightarrow> False)"

lemma tids_vote: "out_all (\<lambda>t. tids t \<subseteq> insert 0 (tids s)) (handle_vote c m a s)"
proof (cases "find_row (tx_tid m) s")
  case (Some row)
  from handle_vote_row [OF Some, of c a] obtain t where
    hv: "handle_vote c m a s = act_on_decision (tally c (i_workers (record_vote m row))) m a t"
    and t: "contacts (tm_rows t) = contacts (tm_rows s)" by blast
  have "tids t = tids s" using contacts_tids [OF t] by (rule tids_map)
  then show ?thesis using tids_decide [of t m DECIDE_COMMIT] unfolding hv
    by (auto simp: act_on_decision_def)
next
  case None
  show ?thesis
  proof (cases "tm_records s")
    case None': None
    then show ?thesis using handle_vote_no_records [OF None] by simp
  next
    case (Some rs)
    then show ?thesis
      using handle_vote_no_row [OF None, of c a] tids_decide [of "after_setCrash m s" m DECIDE_COMMIT]
      by (auto simp: act_on_decision_def)
  qed
qed

lemma tids_msg:
  "out_all (\<lambda>t. tids t \<subseteq> insert 0 (tids s \<union> (if tx_msgID m = BEGINTX then {tx_tid m} else {})))
    (handle_msg c m a s)"
proof -
  let ?save = "saveWorkerInfo (ucast (sin_port a)) (tx_tid m) (tx_msgID m) (tx_nodeId m) a s"
  have b: "out_all (\<lambda>t. tids t \<subseteq> insert 0 (tids s \<union> {tx_tid m})) (handle_begin m a s)"
    by (cases ?save) (auto simp: handle_begin_def Let_def dest!: tids_saveWorkerInfo split: if_splits)
  have j: "out_all (\<lambda>t. tids t \<subseteq> insert 0 (tids s)) (handle_join m a s)" if "tx_msgID m = JOINTX"
    using that
    by (cases ?save) (auto simp: handle_join_def Let_def dest!: tids_saveWorkerInfo split: if_splits)
  have c: "out_all (\<lambda>t. tids t \<subseteq> insert 0 (tids s)) (handle_commit m s)"
    by (auto simp: handle_commit_def Let_def)
  have va: "out_all (\<lambda>t. tids t \<subseteq> insert 0 (tids s)) (handle_vote_abort m s)"
    using tids_decide [of "after_setCrash m s" m DECIDE_ABORT]
    by (simp add: handle_vote_abort_def Let_def flip: after_setCrash_def)
  show ?thesis
    using b j c va tids_vote [of s _ m a] by (auto simp: handle_msg_def Let_def)
qed

lemma tids_step:
  assumes "\<not> begins tid e s" and "tid \<noteq> 0" and "tid \<notin> tids s"
  shows "out_all (\<lambda>t. tid \<notin> tids t) (handleWorkerMsg e s)"
proof (cases e)
  case (PollTimeout om)
  then show ?thesis
    using assms tids_clean
    by (fastforce simp: handle_timeout_def waitingForVotes_def bind_eq_Some_conv Let_def
        split: option.splits)
next
  case (Received a buf c)
  show ?thesis
  proof (cases "deserializeWorkerMsg (tm_host s) buf")
    case None
    then show ?thesis using Received by simp
  next
    case (Some m)
    then have "\<not> (tx_msgID m = BEGINTX \<and> tx_tid m = tid)"
      using assms(1) Received by (auto simp: begins_def)
    then show ?thesis
      using tids_msg [of "recv_state m s" m c a] assms(2,3) unfolding Received
      by (auto simp only: handle_received [OF Some] elim!: out_all_mono)
        (auto split: if_splits)
  qed
qed (use assms in simp_all)

subsection \<open>Final states of a transaction\<close>

definition aborted :: "u32 \<Rightarrow> tm_state \<Rightarrow> bool" where
  "aborted tid s \<longleftrightarrow> tid \<noteq> 0 \<and> tid \<notin> tids s \<and> \<not> committed tid s"

definition settled :: "u32 \<Rightarrow> tm_state \<Rightarrow> bool" where
  "settled tid s \<longleftrightarrow> tid \<noteq> 0 \<and> tid \<notin> tids s \<and> committed tid s"

definition step_without :: "u32 \<Rightarrow> tm_event \<Rightarrow> tm_state \<Rightarrow> tm_state outcome" where
  "step_without tid e s = (if begins tid e s then Undefined else handleWorkerMsg e s)"

lemma commit_vote_row: "commit_vote tid e s \<Longrightarrow> tid \<in> tids s"
proof (rule ccontr)
  assume "commit_vote tid e s" and "tid \<notin> tids s"
  then show False
    by (auto simp: commit_vote_def tids_find_row [symmetric] split: tm_event.splits option.splits)
qed

interpretation tm_aborted: machine "step_without tid" "aborted tid" for tid
proof unfold_locales
  fix s e
  assume "aborted tid s"
  then show "out_all (aborted tid) (step_without tid e s)"
    using tids_step [of tid e s] commit_step [of tid s e] commit_vote_row [of tid e s]
    by (cases "handleWorkerMsg e s") (auto simp: step_without_def aborted_def)
qed

interpretation tm_settled: machine "step_without tid" "settled tid" for tid
proof unfold_locales
  fix s e
  assume "settled tid s"
  then show "out_all (settled tid) (step_without tid e s)"
    using tids_step [of tid e s] tm_growing.step_le [of s e] committed_mono [of s _ tid]
    by (cases "handleWorkerMsg e s") (auto simp: step_without_def settled_def)
qed

text \<open>A run in which no event begins the transaction anew is a run of \<open>step_without\<close>.\<close>

fun never_begins :: "u32 \<Rightarrow> tm_event list \<Rightarrow> endian \<Rightarrow> bool" where
  "never_begins tid [] h = True"
| "never_begins tid (Received a buf c # es) h =
     ((case deserializeWorkerMsg h buf of
         None \<Rightarrow> True | Some m \<Rightarrow> \<not> (tx_msgID m = BEGINTX \<and> tx_tid m = tid)) \<and>
      never_begins tid es h)"
| "never_begins tid (e # es) h = never_begins tid es h"

lemma run_step_without:
  "never_begins tid es (tm_host s) \<Longrightarrow> run (step_without tid) es s = run handleWorkerMsg es s"
proof (induction es arbitrary: s)
  case Nil
  show ?case by simp
next
  case (Cons e es)
  have nb: "\<not> begins tid e s"
    using Cons.prems by (cases e) (auto simp: begins_def split: option.splits)
  have rest: "never_begins tid es (tm_host s)"
    using Cons.prems by (cases e) auto
  show ?case
  proof (cases "handleWorkerMsg e s")
    case (Running t)
    then have "tm_host t = tm_host s"
      using tm_growing.step_le [of s e] by (simp add: log_le_def)
    with Running rest nb Cons.IH [of t] show ?thesis by (simp add: step_without_def)
  qed (use nb in \<open>simp_all add: step_without_def\<close>)
qed

end
