(* ===== verification/TManagerProps.thy ===== *)
theory TManagerProps
  imports TManagerSafe
begin

text \<open>
  The properties of the transaction manager.  Each comes with a concrete instance: a manager on
  port 1234 with one transaction, number 7, and workers 1111 and 2222.
\<close>

subsection \<open>A concrete manager\<close>

definition demo_worker :: "u32 \<Rightarrow> u16 \<Rightarrow> u32 \<Rightarrow> worker" where
  "demo_worker n p v = \<lparr>w_nodeId = n, w_port = ucast p, w_workerAddr = \<lparr>sin_addr = 0, sin_port = p\<rparr>,
     w_voteYes = v\<rparr>"

definition demo_row :: "u32 \<Rightarrow> u32 \<Rightarrow> u32 \<Rightarrow> trans_info" where
  "demo_row tid v1 v2 = \<lparr>i_tid = tid, i_isCrash = 0,
     i_workers = demo_worker 1111 5001 v1 # demo_worker 2222 5002 v2 # replicate 8 (demo_worker 0 0 0)\<rparr>"

definition empty_row :: trans_info where
  "empty_row = \<lparr>i_tid = 0, i_isCrash = 0, i_workers = replicate 10 (demo_worker 0 0 0)\<rparr>"

definition demo_clock :: "u32 \<Rightarrow> clock list" where
  "demo_clock n = \<lparr>c_nodeId = n, c_time = 1\<rparr> # replicate 9 no_clock"

definition demo_msg :: "u32 \<Rightarrow> u32 \<Rightarrow> u32 \<Rightarrow> txMessage" where
  "demo_msg k tid n = \<lparr>tx_msgID = k, tx_tid = tid, tx_nodeId = n, tx_isCrash = 0,
     tx_vectorClock = demo_clock n\<rparr>"

definition demo_addr :: sockaddr_in where
  "demo_addr = \<lparr>sin_addr = 0, sin_port = 5001\<rparr>"

definition demo_tm :: "coord_record list \<Rightarrow> trans_info list \<Rightarrow> tm_state" where
  "demo_tm log rows = \<lparr>tm_host = Little, tm_port = 1234, tm_log = log,
     tm_crashInfo = \<lparr>cc_vectorClock = demo_clock 1234, cc_workerInfo = rows\<rparr>,
     tm_clock = demo_clock 1234, tm_abortTid = 0, tm_stateTab = [],
     tm_newMsg = demo_msg 0 0 0, tm_rec = \<lparr>cr_msgID = 0, cr_tid = 0, cr_nodeId = 0\<rparr>,
     tm_shiviz = '''', tm_junk = '''', tm_outbox = []\<rparr>"

lemma demo_fields [simp]:
  "tm_log (demo_tm log rows) = log" "tm_rows (demo_tm log rows) = rows"
  "tm_host (demo_tm log rows) = Little" "tm_outbox (demo_tm log rows) = []"
  "tm_port (demo_tm log rows) = 1234" "tm_clock (demo_tm log rows) = demo_clock 1234"
  "tx_msgID (demo_msg k tid n) = k" "tx_tid (demo_msg k tid n) = tid"
  "tx_nodeId (demo_msg k tid n) = n" "tx_isCrash (demo_msg k tid n) = 0"
  "i_tid (demo_row tid v1 v2) = tid" "i_isCrash (demo_row tid v1 v2) = 0" "i_tid empty_row = 0"
  by (simp_all add: demo_tm_def demo_msg_def demo_row_def empty_row_def)

lemma wf_demo_msg [simp]: "wf_txMessage (demo_msg k tid n)"
  by (simp add: wf_txMessage_def demo_msg_def demo_clock_def)

lemma wf_demo_tm [simp]: "wf_rows rows \<Longrightarrow> wf_tm (demo_tm log rows)"
  by (simp add: wf_tm_def demo_tm_def demo_clock_def no_clock_def demo_msg_def wf_txMessage_def)

definition demo_rows :: "u32 \<Rightarrow> u32 \<Rightarrow> u32 \<Rightarrow> trans_info list" where
  "demo_rows tid v1 v2 = demo_row tid v1 v2 # replicate 4 empty_row"

lemma wf_demo_rows [simp]: "wf_rows (demo_rows tid v1 v2)"
  by (simp add: wf_rows_def demo_rows_def demo_row_def empty_row_def)

lemma demo_records [simp]: "length log \<le> 200 \<Longrightarrow> tm_records (demo_tm log rows) = Some log"
  by (simp add: tm_records_def sizeof_CoordCrashInfo_def sizeof_CoordRecord_def page_def)

lemma demo_find_row [simp]:
  "find_row tid (demo_tm log (demo_rows tid v1 v2)) = Some (demo_row tid v1 v2)"
  by (simp add: find_row_def demo_rows_def)

subsection \<open>The invariant\<close>

definition wf_boot :: "tm_boot \<Rightarrow> bool" where
  "wf_boot b \<longleftrightarrow> b_port b \<noteq> 0 \<and> wf_txMessage (b_newMsg b) \<and> wf_rows (cc_workerInfo (b_space b))"

lemma wf_first_start:
  assumes "wf_boot b" and "b_file b = None"
  shows "wf_tm (tm_first_start (boot_state b))"
proof -
  have "wf_rows (map init_row (cc_workerInfo (b_space b)))"
    using assms(1) by (auto simp: wf_boot_def wf_rows_def init_row_def list_all_iff)
  then show ?thesis
    using assms
    by (simp add: wf_tm_def tm_first_start_def boot_state_def Let_def saveVectorTime_def
        set_rows_def no_clock_def wf_boot_def)
qed

text \<open>
  C25: a transaction manager that starts on a fresh log keeps its tables well formed through
  every sequence of events: the vector clock has \<open>MAX_NODES\<close> entries with pairwise distinct node
  ids and all free slots at the end, the table has \<open>MAX_TRANS\<close> rows of \<open>MAX_NODES\<close> workers each,
  and so has the header saved in the log file.
\<close>

theorem manager_invariant:
  assumes "wf_boot b" and "b_file b = None" and "b_fileExist b = 0"
  shows "\<exists>s. tm_main b = Running s \<and> wf_tm s \<and> vtime (tm_clock s) (b_port b) = 1 \<and>
    out_all wf_tm (run handleWorkerMsg es s)"
proof -
  let ?s = "tm_first_start (boot_state b)"
  have "tm_main b = Running ?s" using assms by (simp add: tm_main_def Let_def)
  moreover have "wf_tm ?s" using assms by (intro wf_first_start)
  moreover have "vtime (tm_clock ?s) (b_port b) = 1"
    by (simp add: tm_first_start_def boot_state_def Let_def split: prod.split)
  ultimately show ?thesis using tm_machine.run_inv by blast
qed

definition demo_boot :: tm_boot where
  "demo_boot = \<lparr>b_host = Little, b_port = 1234, b_file = None, b_shiviz = '''', b_fileExist = 0,
     b_space = \<lparr>cc_vectorClock = [], cc_workerInfo = replicate 5 empty_row\<rparr>,
     b_msg = demo_msg 0 0 0, b_newMsg = demo_msg 0 0 0,
     b_rec = \<lparr>cr_msgID = 0, cr_tid = 0, cr_nodeId = 0\<rparr>, b_junk = ''''\<rparr>"

theorem manager_invariant_witness:
  "\<exists>s. tm_main demo_boot = Running s \<and> wf_tm s \<and>
     out_all wf_tm (run handleWorkerMsg [Received demo_addr (txBytes (demo_msg BEGINTX 7 1111)) 0] s)"
proof -
  have "wf_boot demo_boot"
    by (simp add: wf_boot_def demo_boot_def wf_rows_def empty_row_def)
  then show ?thesis
    using manager_invariant [of demo_boot "[Received demo_addr (txBytes (demo_msg BEGINTX 7 1111)) 0]"]
    by (auto simp: demo_boot_def)
qed

subsection \<open>When the manager commits\<close>

lemma tally_commit_members:
  assumes "tally c (i_workers (record_vote m row)) = DECIDE_COMMIT"
    and "w \<in> set (i_workers row)" and "w_nodeId w \<noteq> 0"
  shows "w_nodeId w = tx_nodeId m \<or> vote_code (w_voteYes w) = Yes"
proof -
  let ?ws = "i_workers (record_vote m row)"
  let ?used = "filter (\<lambda>w. w_nodeId w \<noteq> 0) ?ws"
  have keep: "w_nodeId w = tx_nodeId m \<or> w \<in> set (upd_first (\<lambda>w. w_nodeId w = tx_nodeId m) f ws)"
    if "w \<in> set ws" for ws :: "worker list" and f
    using that by (induction ws) auto
  show ?thesis
  proof (cases "w_nodeId w = tx_nodeId m")
    case False
    with keep [OF assms(2)] have used: "w \<in> set ?used"
      using assms(3) by (auto simp: record_vote_eq)
    then have "?used \<noteq> []" by (metis empty_iff list.set(1))
    then have "code_of (spec_decide (map (\<lambda>w. vote_code (w_voteYes w)) ?used)) = code_of Commit"
      using assms(1) by (simp add: tally_spec)
    then have "spec_decide (map (\<lambda>w. vote_code (w_voteYes w)) ?used) = Commit"
      by (simp only: code_of_inject)
    with used show ?thesis by (auto simp: spec_decide_Commit)
  qed simp
qed

text \<open>
  C2: the manager decides to commit only on unanimous votes.  If an event puts the first commit
  record of a transaction into the log, the event is a \<open>VOTE_COMMIT\<close> for that transaction, the
  transaction is in the table, and every registered worker other than the sender has a vote
  stored that is neither missing nor an abort.
\<close>

theorem commit_needs_votes:
  assumes "handleWorkerMsg e s = Running t \<or> handleWorkerMsg e s = Exited t"
    and "committed tid t" and "\<not> committed tid s"
  shows "\<exists>a buf c m row. e = Received a buf c \<and> deserializeWorkerMsg (tm_host s) buf = Some m \<and>
    tx_msgID m = VOTE_COMMIT \<and> tx_tid m = tid \<and> find_row tid s = Some row \<and>
    (\<forall>w \<in> set (i_workers row). w_nodeId w \<noteq> 0 \<longrightarrow>
       w_nodeId w = tx_nodeId m \<or> vote_code (w_voteYes w) = Yes)"
proof -
  have "commit_vote tid e s"
    using commit_step [of tid s e] assms by auto
  then obtain a buf c m row where e: "e = Received a buf c"
    and m: "deserializeWorkerMsg (tm_host s) buf = Some m" "tx_msgID m = VOTE_COMMIT" "tx_tid m = tid"
    and row: "find_row tid s = Some row"
    and t: "tally c (i_workers (record_vote m row)) = DECIDE_COMMIT"
    by (auto simp: commit_vote_def split: tm_event.splits option.splits)
  from tally_commit_members [OF t] have "\<forall>w \<in> set (i_workers row). w_nodeId w \<noteq> 0 \<longrightarrow>
       w_nodeId w = tx_nodeId m \<or> vote_code (w_voteYes w) = Yes" by blast
  with e m row show ?thesis by blast
qed

subsection \<open>What a unanimous vote does\<close>

lemma getCrash_find_row: "getCrash m s = (case find_row (tx_tid m) s of None \<Rightarrow> 0 | Some i \<Rightarrow> i_isCrash i)"
  by (simp add: getCrash_def find_row_def find_first_index split: option.split)

lemma decide_running:
  assumes "getCrash m s \<noteq> 1" and "wf_tm s"
  shows "\<exists>t. decide m k s = Running t \<and>
    tm_log t = tm_log s @ [\<lparr>cr_msgID = k, cr_tid = tx_tid m, cr_nodeId = tx_nodeId m\<rparr>] \<and>
    tm_outbox t = tm_outbox s @ map (apsnd txBytes)
      (broadcast (tm_port s) m k (tm_newMsg s) (tm_clock s) (addressees (tx_tid m) (tm_rows s))) \<and>
    tm_rows t = upd_first (\<lambda>i. i_tid i = tx_tid m) clean_row (tm_rows s)"
proof -
  let ?s = "writeRecordToLog \<lparr>cr_msgID = k, cr_tid = tx_tid m, cr_nodeId = tx_nodeId m\<rparr>
     (set_rec k (tx_tid m) (tx_nodeId m) s)"
  have "getCrash m ?s \<noteq> 1" using assms(1) getCrash_cong [of ?s s m] by simp
  moreover have "wf_tm ?s" using assms(2) by (simp add: wf_tm_clock_step)
  ultimately show ?thesis
    by (simp add: decide_def Let_def sendToAllWorkers_outbox cleanWorkerInfo_def)
qed

lemma decide_crash:
  assumes "getCrash m s = 1"
  shows "\<exists>t. decide m k s = Exited t \<and>
    tm_log t = tm_log s @ [\<lparr>cr_msgID = k, cr_tid = tx_tid m, cr_nodeId = tx_nodeId m\<rparr>] \<and>
    tm_outbox t = tm_outbox s"
proof -
  let ?s = "writeRecordToLog \<lparr>cr_msgID = k, cr_tid = tx_tid m, cr_nodeId = tx_nodeId m\<rparr>
     (set_rec k (tx_tid m) (tx_nodeId m) s)"
  have "getCrash m ?s = 1" using assms getCrash_cong [of ?s s m] by simp
  then show ?thesis by (simp add: decide_def Let_def)
qed

definition others_yes :: "txMessage \<Rightarrow> trans_info \<Rightarrow> bool" where
  "others_yes m row \<longleftrightarrow>
     (\<exists>pre w post. i_workers row = pre @ w # post \<and> w_nodeId w = tx_nodeId m \<and> tx_nodeId m \<noteq> 0 \<and>
        (\<forall>v \<in> set (pre @ post). w_nodeId v \<noteq> 0 \<longrightarrow>
           w_nodeId v \<noteq> tx_nodeId m \<and> vote_code (w_voteYes v) = Yes))"

lemma upd_first_append_skip:
  "(\<And>x. x \<in> set xs \<Longrightarrow> \<not> P x) \<Longrightarrow> upd_first P f (xs @ ys) = xs @ upd_first P f ys"
  by (induction xs) auto

lemma others_yes_tally:
  assumes "others_yes m row" and "vote_code (tx_msgID m) = Yes"
  shows "tally c (i_workers (record_vote m row)) = DECIDE_COMMIT"
proof -
  from assms(1) obtain pre w post where ws: "i_workers row = pre @ w # post"
    and w: "w_nodeId w = tx_nodeId m" "tx_nodeId m \<noteq> 0"
    and rest: "\<And>v. v \<in> set (pre @ post) \<Longrightarrow> w_nodeId v \<noteq> 0 \<Longrightarrow>
      w_nodeId v \<noteq> tx_nodeId m \<and> vote_code (w_voteYes v) = Yes"
    unfolding others_yes_def by blast
  have skip: "w_nodeId x \<noteq> tx_nodeId m" if "x \<in> set pre" for x
    using rest [of x] that w(2) by (cases "w_nodeId x = 0") auto
  have "i_workers (record_vote m row) = pre @ w\<lparr>w_voteYes := tx_msgID m\<rparr> # post"
    using w skip by (simp add: record_vote_eq ws upd_first_append_skip)
  then show ?thesis
    using w rest assms(2) by (auto simp: tally_spec spec_decide_Commit code_of_inject [of _ Commit, simplified])
qed

text \<open>The step in which the last missing vote arrives.\<close>

lemma unanimous_step:
  assumes "wf_tm s" and "wf_txMessage m" and "tx_msgID m = VOTE_COMMIT" and "tx_isCrash m \<noteq> 1"
    and "find_row (tx_tid m) s = Some row" and "i_isCrash row \<noteq> 1" and "others_yes m row"
  shows "\<exists>t t0. handleWorkerMsg (Received a (txBytes m @ rest) c) s = Running t \<and>
    tm_log t = tm_log s @
      [\<lparr>cr_msgID = DECIDE_COMMIT, cr_tid = tx_tid m, cr_nodeId = tx_nodeId m\<rparr>] \<and>
    tm_outbox t = tm_outbox s @ map (apsnd txBytes)
      (broadcast (tm_port s) m DECIDE_COMMIT (tm_newMsg s)
        (merge_clocks (tx_vectorClock m) (tick (tm_port s) (tm_clock s)))
        (addressees (tx_tid m) (tm_rows s))) \<and>
    contacts t0 = contacts (tm_rows s) \<and>
    tm_rows t = upd_first (\<lambda>i. i_tid i = tx_tid m) clean_row t0"
proof -
  let ?s = "recv_state m s"
  have d: "deserializeWorkerMsg (tm_host s) (txBytes m @ rest) = Some m"
    by (rule deserializeWorkerMsg_txBytes [OF assms(2)])
  have row: "find_row (tx_tid m) ?s = Some row" using assms(5) by simp
  have yes: "tally c (i_workers (record_vote m row)) = DECIDE_COMMIT"
    using assms(7) by (rule others_yes_tally) (simp add: assms(3) vote_code_def)
  from handle_vote_row [OF row, of c a] obtain t row' where
    hv: "handle_vote c m a ?s = act_on_decision DECIDE_COMMIT m a t"
    and row': "find_row (tx_tid m) t = Some row'"
      "i_isCrash row' = (if tx_isCrash m = 1 then i_isCrash row OR tx_isCrash m else i_isCrash row)"
    and t: "tm_log t = tm_log ?s" "tm_port t = tm_port ?s" "tm_newMsg t = tm_newMsg ?s"
      "tm_outbox t = tm_outbox ?s" "tm_clock t = tm_clock ?s"
      "contacts (tm_rows t) = contacts (tm_rows ?s)"
    and wf: "wf_tm ?s \<longrightarrow> wf_tm t"
    unfolding yes by blast
  have "getCrash m t \<noteq> 1" using row' assms(4,6) by (simp add: getCrash_find_row)
  moreover have "wf_tm t" using wf recv_state_wf [OF assms(1)] by blast
  ultimately have "\<exists>u. decide m DECIDE_COMMIT t = Running u \<and>
    tm_log u = tm_log t @ [\<lparr>cr_msgID = DECIDE_COMMIT, cr_tid = tx_tid m, cr_nodeId = tx_nodeId m\<rparr>] \<and>
    tm_outbox u = tm_outbox t @ map (apsnd txBytes)
      (broadcast (tm_port t) m DECIDE_COMMIT (tm_newMsg t) (tm_clock t) (addressees (tx_tid m) (tm_rows t))) \<and>
    tm_rows u = upd_first (\<lambda>i. i_tid i = tx_tid m) clean_row (tm_rows t)"
    by (rule decide_running)
  then
  obtain u where u: "decide m DECIDE_COMMIT t = Running u"
    "tm_log u = tm_log t @ [\<lparr>cr_msgID = DECIDE_COMMIT, cr_tid = tx_tid m, cr_nodeId = tx_nodeId m\<rparr>]"
    "tm_outbox u = tm_outbox t @ map (apsnd txBytes)
      (broadcast (tm_port t) m DECIDE_COMMIT (tm_newMsg t) (tm_clock t) (addressees (tx_tid m) (tm_rows t)))"
    "tm_rows u = upd_first (\<lambda>i. i_tid i = tx_tid m) clean_row (tm_rows t)"
    by blast
  have "handleWorkerMsg (Received a (txBytes m @ rest) c) s = Running u"
    unfolding handle_received [OF d] using hv u(1) assms(3) by (simp add: handle_msg_def act_on_decision_def)
  moreover have "tm_outbox u = tm_outbox s @ map (apsnd txBytes)
      (broadcast (tm_port s) m DECIDE_COMMIT (tm_newMsg s)
        (merge_clocks (tx_vectorClock m) (tick (tm_port s) (tm_clock s)))
        (addressees (tx_tid m) (tm_rows s)))"
    using u(3) t(2-5) broadcast_contacts [OF t(6)] by simp
  moreover have "contacts (tm_rows t) = contacts (tm_rows s)" using t(6) by simp
  ultimately show ?thesis using u(2,4) t(1) by auto
qed

lemma demo_others_yes: "others_yes (demo_msg k 7 1111) (demo_row 7 v VOTE_COMMIT)"
proof -
  have "i_workers (demo_row 7 v VOTE_COMMIT) =
      [] @ demo_worker 1111 5001 v # (demo_worker 2222 5002 VOTE_COMMIT # replicate 8 (demo_worker 0 0 0))"
    by (simp add: demo_row_def)
  moreover have "w_nodeId (demo_worker 1111 5001 v) = tx_nodeId (demo_msg k 7 1111)"
    by (simp add: demo_worker_def)
  ultimately show ?thesis
    unfolding others_yes_def by (fastforce simp: demo_worker_def vote_code_def)
qed

lemma demo_commit_step:
  "\<exists>t. handleWorkerMsg (Received demo_addr (txBytes (demo_msg VOTE_COMMIT 7 1111)) 0)
       (demo_tm [] (demo_rows 7 0 VOTE_COMMIT)) = Running t \<and>
     tm_log t = [\<lparr>cr_msgID = DECIDE_COMMIT, cr_tid = 7, cr_nodeId = 1111\<rparr>]"
  using unanimous_step [of "demo_tm [] (demo_rows 7 0 VOTE_COMMIT)" "demo_msg VOTE_COMMIT 7 1111"
      "demo_row 7 0 VOTE_COMMIT" demo_addr "[]" 0] demo_others_yes [of VOTE_COMMIT 0]
  by auto

theorem commit_needs_votes_witness:
  "\<exists>m row. deserializeWorkerMsg Little (txBytes (demo_msg VOTE_COMMIT 7 1111)) = Some m \<and>
     tx_tid m = 7 \<and> find_row 7 (demo_tm [] (demo_rows 7 0 VOTE_COMMIT)) = Some row \<and>
     (\<forall>w \<in> set (i_workers row). w_nodeId w \<noteq> 0 \<longrightarrow>
        w_nodeId w = tx_nodeId m \<or> vote_code (w_voteYes w) = Yes)"
proof -
  obtain t where t: "handleWorkerMsg (Received demo_addr (txBytes (demo_msg VOTE_COMMIT 7 1111)) 0)
       (demo_tm [] (demo_rows 7 0 VOTE_COMMIT)) = Running t"
    and log: "tm_log t = [\<lparr>cr_msgID = DECIDE_COMMIT, cr_tid = 7, cr_nodeId = 1111\<rparr>]"
    using demo_commit_step by blast
  show ?thesis
    using commit_needs_votes [OF disjI1 [OF t], of 7] log by (auto simp: committed_def)
qed

text \<open>
  C3: a unanimous vote commits.  When the \<open>VOTE_COMMIT\<close> that completes the votes of a transaction
  arrives, all other members having voted yes, the manager appends exactly one commit record to
  its log, then sends \<open>DECIDE_COMMIT\<close> to every member with a port, in the order of the table and
  with one clock tick per message, and frees the row.
\<close>

theorem unanimous_vote_commits:
  assumes "wf_tm s" and "wf_txMessage m" and "tx_msgID m = VOTE_COMMIT" and "tx_isCrash m \<noteq> 1"
    and "find_row (tx_tid m) s = Some row" and "i_isCrash row \<noteq> 1" and "others_yes m row"
  shows "\<exists>t t0. handleWorkerMsg (Received a (txBytes m @ rest) c) s = Running t \<and>
    tm_log t = tm_log s @
      [\<lparr>cr_msgID = DECIDE_COMMIT, cr_tid = tx_tid m, cr_nodeId = tx_nodeId m\<rparr>] \<and>
    tm_outbox t = tm_outbox s @ map (apsnd txBytes)
      (broadcast (tm_port s) m DECIDE_COMMIT (tm_newMsg s)
        (merge_clocks (tx_vectorClock m) (tick (tm_port s) (tm_clock s)))
        (addressees (tx_tid m) (tm_rows s))) \<and>
    contacts t0 = contacts (tm_rows s) \<and>
    tm_rows t = upd_first (\<lambda>i. i_tid i = tx_tid m) clean_row t0"
  using assms by (rule unanimous_step)

text \<open>In the concrete manager worker 2222 has voted yes and the vote of 1111 arrives.\<close>

theorem unanimous_vote_commits_witness:
  "\<exists>t. handleWorkerMsg (Received demo_addr (txBytes (demo_msg VOTE_COMMIT 7 1111) @ []) 0)
       (demo_tm [] (demo_rows 7 0 VOTE_COMMIT)) = Running t \<and>
     tm_log t = [\<lparr>cr_msgID = DECIDE_COMMIT, cr_tid = 7, cr_nodeId = 1111\<rparr>]"
  using unanimous_vote_commits [of "demo_tm [] (demo_rows 7 0 VOTE_COMMIT)" "demo_msg VOTE_COMMIT 7 1111"
      "demo_row 7 0 VOTE_COMMIT" demo_addr "[]" 0] demo_others_yes [of VOTE_COMMIT 0]
  by auto

end
