(* ===== verification/TManagerLife.thy ===== *)
theory TManagerLife
  imports TManagerProps
begin

text \<open>
  The transaction manager across crashes.  A node is up, with the state of the process, or down,
  with what is left on disk.  It handles an event, exits in one, dies between two of them, or is
  started again on its log file.  The theory shows that a decision is final along every such
  life and that the restart tells the members of the open transactions to abort.
\<close>

subsection \<open>Lives\<close>

datatype tm_node = Up tm_state | Down tm_state

fun node_state :: "tm_node \<Rightarrow> tm_state" where
  "node_state (Up s) = s"
| "node_state (Down s) = s"

definition boots_from :: "tm_boot \<Rightarrow> tm_state \<Rightarrow> bool" where
  "boots_from b s \<longleftrightarrow> b_host b = tm_host s \<and> b_port b = tm_port s \<and>
     b_file b = Some (tm_crashInfo s, tm_log s) \<and> b_shiviz b = tm_shiviz s"

text \<open>The parameter says which events may arrive.\<close>

inductive tm_step :: "(tm_event \<Rightarrow> tm_state \<Rightarrow> bool) \<Rightarrow> tm_node \<Rightarrow> tm_node \<Rightarrow> bool" for ok where
  handled: "ok e s \<Longrightarrow> handleWorkerMsg e s = Running t \<Longrightarrow> tm_step ok (Up s) (Up t)"
| exits: "ok e s \<Longrightarrow> handleWorkerMsg e s = Exited t \<Longrightarrow> tm_step ok (Up s) (Down t)"
| dies: "tm_step ok (Up s) (Down s)"
| restarts: "boots_from b s \<Longrightarrow> tm_main b = Running t \<Longrightarrow> tm_step ok (Down s) (Up t)"

inductive_cases tm_stepE: "tm_step ok n n'"

abbreviation tm_life :: "(tm_event \<Rightarrow> tm_state \<Rightarrow> bool) \<Rightarrow> tm_node \<Rightarrow> tm_node \<Rightarrow> bool" where
  "tm_life ok \<equiv> (tm_step ok)\<^sup>*\<^sup>*"

lemma life_inv:
  assumes "tm_life ok n n'" and "I (node_state n)"
    and "\<And>e s. ok e s \<Longrightarrow> I s \<Longrightarrow> out_all I (handleWorkerMsg e s)"
    and "\<And>b s t. boots_from b s \<Longrightarrow> tm_main b = Running t \<Longrightarrow> I s \<Longrightarrow> I t"
  shows "I (node_state n')"
  using assms(1,2)
proof (induction rule: rtranclp_induct)
  case (step m m')
  from step.hyps(2) step.IH [OF step.prems] assms(3,4) show ?case
    by (cases rule: tm_step.cases) (metis node_state.simps out_all.simps)+
qed

subsection \<open>What a restart keeps\<close>

lemma resend_aborts_core [simp]: "tm_core (resend_aborts m nm ts s) = tm_core s"
  by (induction ts arbitrary: s) simp_all

lemmas resend_aborts_fields [simp] = tm_core_fields [OF resend_aborts_core]

lemma restart_state:
  assumes "boots_from b s" and "tm_main b = Running t"
  shows "tm_log t = tm_log s \<and> tm_rows t = tm_rows s \<and> tm_host t = tm_host s \<and> tm_port t = tm_port s"
  using assms
  by (auto simp: boots_from_def tm_main_def tm_restart_def boot_state_def findStateFromRecord_def
      restoreVectorTime_def Let_def split: option.splits)

lemma restart_aborted: "boots_from b s \<Longrightarrow> tm_main b = Running t \<Longrightarrow> aborted tid s \<Longrightarrow> aborted tid t"
  by (drule (1) restart_state) (simp add: aborted_def tids_def committed_def)

lemma restart_settled: "boots_from b s \<Longrightarrow> tm_main b = Running t \<Longrightarrow> settled tid s \<Longrightarrow> settled tid t"
  by (drule (1) restart_state) (simp add: settled_def tids_def committed_def)

lemma event_aborted:
  "\<not> begins tid e s \<Longrightarrow> aborted tid s \<Longrightarrow> out_all (aborted tid) (handleWorkerMsg e s)"
  using tm_aborted.step_inv [of tid s e] by (simp add: step_without_def)

lemma event_settled:
  "\<not> begins tid e s \<Longrightarrow> settled tid s \<Longrightarrow> out_all (settled tid) (handleWorkerMsg e s)"
  using tm_settled.step_inv [of tid s e] by (simp add: step_without_def)

text \<open>
  C7: a decision is final.  A transaction that has left the table, with or without a commit
  record, stays so through every event, every exit, every crash between two events and every
  restart, as long as no \<open>BEGINTX\<close> opens its number again.
\<close>

theorem decision_is_final:
  assumes "tm_life (\<lambda>e s. \<not> begins tid e s) n n'"
  shows "(aborted tid (node_state n) \<longrightarrow> aborted tid (node_state n')) \<and>
    (settled tid (node_state n) \<longrightarrow> settled tid (node_state n'))"
  using life_inv [OF assms, of "aborted tid"] life_inv [OF assms, of "settled tid"]
    event_aborted event_settled restart_aborted restart_settled by blast

definition demo_committed :: tm_state where
  "demo_committed = demo_tm [\<lparr>cr_msgID = DECIDE_COMMIT, cr_tid = 7, cr_nodeId = 1111\<rparr>] (replicate 5 empty_row)"

definition demo_reboot :: tm_boot where
  "demo_reboot = demo_boot\<lparr>b_file := Some (tm_crashInfo demo_committed, tm_log demo_committed)\<rparr>"

lemma demo_reboot_runs: "\<exists>t. tm_main demo_reboot = Running t"
  by (simp add: tm_main_def demo_reboot_def demo_boot_def boot_state_def Let_def tm_restart_def
      findStateFromRecord_def restoreVectorTime_def tm_records_def demo_committed_def
      sizeof_CoordCrashInfo_def sizeof_CoordRecord_def page_def)

lemma demo_reboot_from: "boots_from demo_reboot demo_committed"
  by (simp add: boots_from_def demo_reboot_def demo_boot_def demo_committed_def)
    (simp add: demo_tm_def)

theorem decision_is_final_witness:
  "\<exists>t. tm_main demo_reboot = Running t \<and> settled 7 t"
proof -
  obtain t where t: "tm_main demo_reboot = Running t" using demo_reboot_runs by blast
  have "tm_step (\<lambda>e s. \<not> begins 7 e s) (Up demo_committed) (Down demo_committed)" by (rule dies)
  moreover have "tm_step (\<lambda>e s. \<not> begins 7 e s) (Down demo_committed) (Up t)"
    using demo_reboot_from t by (rule restarts)
  ultimately have life: "tm_life (\<lambda>e s. \<not> begins 7 e s) (Up demo_committed) (Up t)" by simp
  have "settled 7 demo_committed"
    by (simp add: settled_def tids_def committed_def demo_committed_def)
  with t decision_is_final [OF life] show ?thesis by simp
qed

subsection \<open>Aborting and answering polls\<close>

declare handleWorkerMsg.simps(4) [simp del]

lemma recv_bytes:
  assumes "wf_txMessage m"
  shows "handleWorkerMsg (Received a (txBytes m @ rest) c) s = handle_msg c m a (recv_state m s)"
  by (rule handle_received) (rule deserializeWorkerMsg_txBytes [OF assms])

lemma getCrash_recv [simp]: "getCrash m' (recv_state m s) = getCrash m' s"
  by (rule getCrash_cong) simp

lemma upd_first_clean_tids:
  assumes "length (filter (\<lambda>i. i_tid i = tid) rows) \<le> 1" and "tid \<noteq> 0"
  shows "tid \<notin> i_tid ` set (upd_first (\<lambda>i. i_tid i = tid) clean_row rows)"
  using assms by (induction rows) (auto simp: clean_row_def filter_empty_conv)

lemma abort_vote_step:
  assumes "wf_tm s" and "wf_txMessage m" and "tx_msgID m = VOTE_ABORT" and "tx_isCrash m \<noteq> 1"
    and "getCrash m s \<noteq> 1"
  shows "\<exists>t. handleWorkerMsg (Received a (txBytes m @ rest) c) s = Running t \<and>
    tm_log t = tm_log s @ [\<lparr>cr_msgID = DECIDE_ABORT, cr_tid = tx_tid m, cr_nodeId = tx_nodeId m\<rparr>] \<and>
    tm_outbox t = tm_outbox s @ map (apsnd txBytes)
      (broadcast (tm_port s) m DECIDE_ABORT (tm_newMsg s)
        (merge_clocks (tx_vectorClock m) (tick (tm_port s) (tm_clock s)))
        (addressees (tx_tid m) (tm_rows s))) \<and>
    tm_rows t = upd_first (\<lambda>i. i_tid i = tx_tid m) clean_row (tm_rows s)"
  using decide_running [of m "recv_state m s" DECIDE_ABORT] recv_state_wf [OF assms(1), of m] assms(3-5)
  by (simp add: recv_bytes [OF assms(2)] handle_msg_def handle_vote_abort_def)

text \<open>
  C17: one vote to abort aborts.  A \<open>VOTE_ABORT\<close> appends one abort record to the log, sends
  \<open>DECIDE_ABORT\<close> to every member with a port, the sender included, and frees the row, whatever
  the other members have voted; a transaction without a commit record that was in one row only is
  then decided against.
\<close>

theorem abort_vote_aborts:
  assumes "wf_tm s" and "wf_txMessage m" and "tx_msgID m = VOTE_ABORT" and "tx_isCrash m \<noteq> 1"
    and "getCrash m s \<noteq> 1"
  shows "\<exists>t. handleWorkerMsg (Received a (txBytes m @ rest) c) s = Running t \<and>
    tm_log t = tm_log s @ [\<lparr>cr_msgID = DECIDE_ABORT, cr_tid = tx_tid m, cr_nodeId = tx_nodeId m\<rparr>] \<and>
    tm_outbox t = tm_outbox s @ map (apsnd txBytes)
      (broadcast (tm_port s) m DECIDE_ABORT (tm_newMsg s)
        (merge_clocks (tx_vectorClock m) (tick (tm_port s) (tm_clock s)))
        (addressees (tx_tid m) (tm_rows s))) \<and>
    (tx_tid m \<noteq> 0 \<and> \<not> committed (tx_tid m) s \<and>
      length (filter (\<lambda>i. i_tid i = tx_tid m) (tm_rows s)) \<le> 1 \<longrightarrow> aborted (tx_tid m) t)"
proof -
  from abort_vote_step [OF assms, of a rest c] obtain t where t:
    "handleWorkerMsg (Received a (txBytes m @ rest) c) s = Running t"
    "tm_log t = tm_log s @ [\<lparr>cr_msgID = DECIDE_ABORT, cr_tid = tx_tid m, cr_nodeId = tx_nodeId m\<rparr>]"
    "tm_outbox t = tm_outbox s @ map (apsnd txBytes)
      (broadcast (tm_port s) m DECIDE_ABORT (tm_newMsg s)
        (merge_clocks (tx_vectorClock m) (tick (tm_port s) (tm_clock s)))
        (addressees (tx_tid m) (tm_rows s)))"
    "tm_rows t = upd_first (\<lambda>i. i_tid i = tx_tid m) clean_row (tm_rows s)" by blast
  have "aborted (tx_tid m) t"
    if "tx_tid m \<noteq> 0" "\<not> committed (tx_tid m) s" "length (filter (\<lambda>i. i_tid i = tx_tid m) (tm_rows s)) \<le> 1"
    using that t(2,4) upd_first_clean_tids [OF that(3,1)]
    by (simp add: aborted_def tids_def committed_append)
  with t show ?thesis by blast
qed

theorem abort_vote_aborts_witness:
  "\<exists>t. handleWorkerMsg (Received demo_addr (txBytes (demo_msg VOTE_ABORT 7 1111) @ []) 0)
       (demo_tm [] (demo_rows 7 0 VOTE_COMMIT)) = Running t \<and> aborted 7 t"
proof -
  have "filter (\<lambda>i. i_tid i = 7) (demo_rows 7 0 VOTE_COMMIT) = [demo_row 7 0 VOTE_COMMIT]"
    by (simp add: demo_rows_def)
  then show ?thesis
    using abort_vote_aborts [of "demo_tm [] (demo_rows 7 0 VOTE_COMMIT)" "demo_msg VOTE_ABORT 7 1111"
        demo_addr "[]" 0]
    by (auto simp: getCrash_find_row committed_def)
qed

lemma length_records: "tm_records s \<noteq> None \<longleftrightarrow> length (tm_log s) \<le> 214"
  unfolding tm_records_def sizeof_CoordCrashInfo_def sizeof_CoordRecord_def page_def
  by (cases "length (tm_log s) \<le> 214") simp_all

lemma poll_closed_step:
  assumes "wf_tm s" and "wf_txMessage m" and "tx_msgID m = POLL_DECISION" and "tx_tid m \<notin> tids s"
    and "length (tm_log s) \<le> 214"
  shows "\<exists>t r. handleWorkerMsg (Received a (txBytes m @ rest) c) s = Running t \<and>
    tm_log t = tm_log s \<and> tm_rows t = tm_rows s \<and> tm_outbox t = tm_outbox s @ [(a, txBytes r)] \<and>
    tx_msgID r = (if committed (tx_tid m) s then DECIDE_COMMIT else DECIDE_ABORT) \<and>
    tx_tid r = tx_tid m \<and> tx_nodeId r = tx_nodeId m \<and> tx_vectorClock r = tm_clock t"
proof -
  let ?k = "if committed (tx_tid m) s then DECIDE_COMMIT else DECIDE_ABORT"
  let ?s = "after_setCrash m (recv_state m s)"
  let ?t = "reply m ?k a (saveVectorTime (tickMyClock ?s))"
  have row: "find_row (tx_tid m) (recv_state m s) = None" using assms(4) by (simp add: tids_find_row)
  have rec: "tm_records (recv_state m s) \<noteq> None" 
    using assms(5) by (subst length_records) simp
  have wf: "wf_tm (saveVectorTime (tickMyClock ?s))"
    by (intro wf_tm_clock_step after_setCrash_wf recv_state_wf assms(1))
  have "handle_vote c m a (recv_state m s) = Running ?t"
    using handle_vote_no_row [OF row rec, of c a] assms(3) by (simp add: act_on_decision_def)
  then have "handleWorkerMsg (Received a (txBytes m @ rest) c) s = Running ?t"
    using assms(3) by (simp add: recv_bytes [OF assms(2)] handle_msg_def)
  moreover have "tm_rows ?s = tm_rows s"
  proof -
    have "\<forall>i \<in> set (tm_rows s). i_tid i \<noteq> tx_tid m"
      using assms(4) unfolding tids_def by (metis imageI)
    then show ?thesis
      by (simp add: after_setCrash_def setCrash_def upd_first_none)
  qed
  ultimately show ?thesis
    using reply_outbox [OF wf, of m ?k a]
    by (intro exI [of _ ?t] exI [of _ "constructMessage m (tm_newMsg s) ?k 0 (saveVectorTime (tickMyClock ?s))"])
      (simp add: constructMessage_def)
qed

text \<open>
  Polls after the decision.  A worker that asks for the decision on a transaction that is no
  longer in the table gets exactly one datagram, which says commit if the log has a commit record
  for it and abort otherwise; the poll changes neither the log nor the table.
\<close>

theorem poll_answers_log:
  assumes "wf_tm s" and "wf_txMessage m" and "tx_msgID m = POLL_DECISION" and "tx_tid m \<notin> tids s"
    and "length (tm_log s) \<le> 214"
  shows "\<exists>t r. handleWorkerMsg (Received a (txBytes m @ rest) c) s = Running t \<and>
    tm_log t = tm_log s \<and> tm_rows t = tm_rows s \<and> tm_outbox t = tm_outbox s @ [(a, txBytes r)] \<and>
    tx_msgID r = (if committed (tx_tid m) s then DECIDE_COMMIT else DECIDE_ABORT) \<and>
    tx_tid r = tx_tid m \<and> tx_nodeId r = tx_nodeId m \<and> tx_vectorClock r = tm_clock t"
  using assms by (rule poll_closed_step)

lemma wf_demo_committed [simp]: "wf_tm demo_committed"
  by (simp add: demo_committed_def wf_rows_def empty_row_def)

lemma demo_committed_simps [simp]:
  "tids demo_committed = {0}" "committed 7 demo_committed" "\<not> committed 8 demo_committed"
  "length (tm_log demo_committed) = 1" "tm_outbox demo_committed = []"
  by (simp_all add: demo_committed_def tids_def committed_def)

theorem poll_answers_log_witness:
  "\<exists>t r. handleWorkerMsg (Received demo_addr (txBytes (demo_msg POLL_DECISION 7 2222) @ []) 0) demo_committed =
       Running t \<and> tm_outbox t = [(demo_addr, txBytes r)] \<and> tx_msgID r = DECIDE_COMMIT"
  using poll_answers_log [of demo_committed "demo_msg POLL_DECISION 7 2222" demo_addr "[]" 0]
  by auto

text \<open>
  The log is readable up to 214 records.  \<open>isCommit\<close> reads the records behind the mapped
  header, and only the first page of the file is mapped: with 215 or more records in the log a
  poll for a transaction that is not in the table reads outside the mapping.
\<close>

theorem poll_reads_past_mapping:
  assumes "wf_txMessage m" and "tx_msgID m = POLL_DECISION" and "tx_tid m \<notin> tids s"
    and "214 < length (tm_log s)"
  shows "handleWorkerMsg (Received a (txBytes m @ rest) c) s = Undefined"
proof -
  have row: "find_row (tx_tid m) (recv_state m s) = None" using assms(3) by (simp add: tids_find_row)
  have "tm_records (recv_state m s) = None"
    using assms(4) length_records [of "recv_state m s"] by simp
  from handle_vote_no_records [OF row this] show ?thesis
    using assms(2) by (simp add: recv_bytes [OF assms(1)] handle_msg_def)
qed

theorem poll_reads_past_mapping_witness:
  "handleWorkerMsg (Received demo_addr (txBytes (demo_msg POLL_DECISION 7 2222) @ []) 0)
     (demo_tm (replicate 215 \<lparr>cr_msgID = COMMIT_REQ, cr_tid = 9, cr_nodeId = 1\<rparr>) (replicate 5 empty_row)) =
   Undefined"
  by (rule poll_reads_past_mapping) (simp_all add: tids_def)

subsection \<open>The crash that a transaction asks for\<close>

lemma decide_crash_rows:
  assumes "getCrash m s = 1"
  shows "\<exists>t. decide m k s = Exited t \<and>
    tm_log t = tm_log s @ [\<lparr>cr_msgID = k, cr_tid = tx_tid m, cr_nodeId = tx_nodeId m\<rparr>] \<and>
    tm_outbox t = tm_outbox s \<and> map i_tid (tm_rows t) = map i_tid (upd_first (\<lambda>i. i_tid i = tx_tid m) clean_row (tm_rows s))"
proof -
  let ?s = "writeRecordToLog \<lparr>cr_msgID = k, cr_tid = tx_tid m, cr_nodeId = tx_nodeId m\<rparr>
     (set_rec k (tx_tid m) (tx_nodeId m) s)"
  have reset: "map i_tid (upd_first (\<lambda>i. i_tid i = tid) clean_row (upd_first (\<lambda>i. i_tid i = tid) (\<lambda>i. i\<lparr>i_isCrash := 0\<rparr>) rows)) =
      map i_tid (upd_first (\<lambda>i. i_tid i = tid) clean_row rows)" for tid and rows :: "trans_info list"
    by (induction rows) (auto simp: clean_row_def)
  have "getCrash m ?s = 1" using assms getCrash_cong [of ?s s m] by simp
  then show ?thesis
    by (simp add: decide_def Let_def cleanWorkerInfo_def resetCrash_def reset)
qed

lemma tids_of_map: "map i_tid (tm_rows t) = map i_tid rows \<Longrightarrow> tids t = i_tid ` set rows"
  unfolding tids_def by (metis list.set_map)

text \<open>
  The step in which the deciding vote arrives, a vote to abort or the last vote to commit, when the
  transaction asks for a crash: the decision is logged, the row freed, nothing sent.
\<close>

lemma crash_step:
  assumes "wf_txMessage m" and "tx_isCrash m \<noteq> 1" and "find_row (tx_tid m) s = Some row" and "i_isCrash row = 1"
    and "tx_tid m \<noteq> 0" and "length (filter (\<lambda>i. i_tid i = tx_tid m) (tm_rows s)) \<le> 1"
    and "tx_msgID m = VOTE_ABORT \<and> k = DECIDE_ABORT \<or> tx_msgID m = VOTE_COMMIT \<and> k = DECIDE_COMMIT \<and> others_yes m row"
  shows "\<exists>t. handleWorkerMsg (Received a (txBytes m @ rest) c) s = Exited t \<and> tm_outbox t = tm_outbox s \<and>
    tm_log t = tm_log s @ [\<lparr>cr_msgID = k, cr_tid = tx_tid m, cr_nodeId = tx_nodeId m\<rparr>] \<and> tx_tid m \<notin> tids t"
proof -
  let ?s = "recv_state m s"
  obtain u where u: "handle_msg c m a ?s = decide m k u" "getCrash m u = 1" "tm_log u = tm_log s"
    "tm_outbox u = tm_outbox s" "map i_tid (tm_rows u) = map i_tid (tm_rows s)"
  proof (cases "tx_msgID m = VOTE_ABORT")
    case True
    then have "handle_msg c m a ?s = decide m k ?s"
      using assms(2,7) by (simp add: handle_msg_def handle_vote_abort_def)
    then show ?thesis using assms(3,4) by (intro that [of ?s]) (simp_all add: getCrash_find_row)
  next
    case False
    then have m: "tx_msgID m = VOTE_COMMIT" "k = DECIDE_COMMIT" "others_yes m row" using assms(7) by simp_all
    have yes: "tally c (i_workers (record_vote m row)) = DECIDE_COMMIT"
      using m(3) by (rule others_yes_tally) (simp add: m(1) vote_code_def)
    have row: "find_row (tx_tid m) ?s = Some row" using assms(3) by simp
    from handle_vote_row [OF row, of c a] obtain t row' where
      t: "handle_vote c m a ?s = act_on_decision DECIDE_COMMIT m a t" "find_row (tx_tid m) t = Some row'"
        "i_isCrash row' = i_isCrash row" "tm_log t = tm_log ?s" "tm_outbox t = tm_outbox ?s"
        "contacts (tm_rows t) = contacts (tm_rows ?s)"
      unfolding yes using assms(2) by auto
    have "map i_tid rows = map fst (contacts rows)" for rows by (simp add: contacts_def comp_def)
    then have "map i_tid (tm_rows t) = map i_tid (tm_rows s)" using t(6) by simp
    then show ?thesis
      using t m assms(4) by (intro that [of t]) (simp_all add: handle_msg_def act_on_decision_def getCrash_find_row)
  qed
  from decide_crash_rows [OF u(2), of k] obtain t where t: "decide m k u = Exited t"
    "tm_log t = tm_log u @ [\<lparr>cr_msgID = k, cr_tid = tx_tid m, cr_nodeId = tx_nodeId m\<rparr>]" "tm_outbox t = tm_outbox u"
    "map i_tid (tm_rows t) = map i_tid (upd_first (\<lambda>i. i_tid i = tx_tid m) clean_row (tm_rows u))" by blast
  have count: "length (filter (\<lambda>i. i_tid i = tid) rows) = length (filter (\<lambda>x. x = tid) (map i_tid rows))" for tid rows
    by (simp add: filter_map comp_def)
  have "length (filter (\<lambda>i. i_tid i = tx_tid m) (tm_rows u)) \<le> 1" using assms(6) by (simp only: count u(5))
  then have "tx_tid m \<notin> tids t" using upd_first_clean_tids [OF _ assms(5)] tids_of_map [OF t(4)] by simp
  with t u show ?thesis by (intro exI [of _ t]) (simp add: recv_bytes [OF assms(1)])
qed

end
