(* ===== verification/TManagerOps.thy ===== *)
theory TManagerOps
  imports TManagerLife
begin

text \<open>
  The remaining operations of the transaction manager: opening and joining a transaction on every
  branch, the broadcast of \<open>PREPARE_COMMIT\<close>, the vote table as a refinement of the abstract
  coordinator, a poll while votes are missing, the idle timeout, and what the start and the
  restart do.
\<close>

subsection \<open>Opening and joining a transaction\<close>

definition free_or :: "u32 \<Rightarrow> trans_info list \<Rightarrow> nat option" where
  "free_or tid rows = first_index (\<lambda>i. i_tid i = tid \<or> i_tid i = 0) rows"

lemma saveWorkerInfo_begin:
  "saveWorkerInfo p tid BEGINTX n a s =
    (case free_or tid (tm_rows s) of
       None \<Rightarrow> Some (0, s)
     | Some i \<Rightarrow>
         if i_tid (tm_rows s ! i) = tid then Some (- 1, s)
         else Some (0, set_rows ((tm_rows s)[i := (tm_rows s ! i)\<lparr>i_tid := tid\<rparr>]) s))"
  by (simp add: saveWorkerInfo_def free_or_def Let_def split: option.splits)

lemma saveWorkerInfo_join:
  "saveWorkerInfo p tid JOINTX n a s =
    (case free_or tid (tm_rows s) of
       None \<Rightarrow> None
     | Some i \<Rightarrow>
         if i_tid (tm_rows s ! i) = tid
         then Some (0, set_rows ((tm_rows s)[i := add_worker p n a (tm_rows s ! i)]) s)
         else Some (- 1, s))"
  by (auto simp: saveWorkerInfo_def free_or_def Let_def split: option.splits)

lemma reply_received:
  assumes "wf_tm s"
  shows "tm_outbox (reply m k a (saveVectorTime (tickMyClock s))) = tm_outbox s @
    [(a, txBytes ((tm_newMsg s)\<lparr>tx_msgID := k, tx_tid := tx_tid m, tx_nodeId := tx_nodeId m,
       tx_vectorClock := tick (tm_port s) (tm_clock s)\<rparr>))]"
  using reply_outbox [OF wf_tm_clock_step(1) [OF assms]] by (simp add: constructMessage_def)

abbreviation answers :: "tm_state \<Rightarrow> tm_state \<Rightarrow> txMessage \<Rightarrow> sockaddr_in \<Rightarrow> u32 \<Rightarrow> bool" where
  "answers s t m a k \<equiv> (\<exists>r. tm_outbox t = tm_outbox s @ [(a, txBytes r)] \<and> tx_msgID r = k \<and>
     tx_tid r = tx_tid m \<and> tx_nodeId r = tx_nodeId m \<and> wf_txMessage r)"

lemma answersI:
  assumes "wf_tm u" and "tm_outbox u = tm_outbox s"
  shows "answers s (reply m k a (saveVectorTime (tickMyClock u))) m a k"
  by (rule exI [of _ "(tm_newMsg u)\<lparr>tx_msgID := k, tx_tid := tx_tid m, tx_nodeId := tx_nodeId m,
       tx_vectorClock := tick (tm_port u) (tm_clock u)\<rparr>"])
    (use assms(1) in \<open>simp add: reply_received [OF assms(1)] assms(2) wf_tm_def wf_txMessage_def\<close>)

lemma begin_step:
  assumes "wf_tm s" and "wf_txMessage m" and "tx_msgID m = BEGINTX"
  shows "\<exists>t. handleWorkerMsg (Received a (txBytes m @ rest) c) s = Running t \<and> tm_log t = tm_log s \<and>
    (case free_or (tx_tid m) (tm_rows s) of
       None \<Rightarrow> answers s t m a BEGIN_SUCCESS \<and> tm_rows t = tm_rows s
     | Some i \<Rightarrow>
         if i_tid (tm_rows s ! i) = tx_tid m
         then answers s t m a BEGIN_FAIL \<and> tm_rows t = tm_rows s
         else answers s t m a BEGIN_SUCCESS \<and>
           tm_rows t = (tm_rows s)[i := (tm_rows s ! i)\<lparr>i_tid := tx_tid m\<rparr>])"
proof -
  let ?s = "recv_state m s"
  let ?save = "saveWorkerInfo (ucast (sin_port a)) (tx_tid m) BEGINTX (tx_nodeId m) a ?s"
  have wf: "wf_tm ?s" by (rule recv_state_wf [OF assms(1)])
  have ev: "handleWorkerMsg (Received a (txBytes m @ rest) c) s = handle_begin m a ?s"
    using assms(3) by (simp add: recv_bytes [OF assms(2)] handle_msg_def)
  obtain err u where u: "?save = Some (err, u)"
    by (cases ?save) (auto simp: saveWorkerInfo_begin split: option.splits if_splits)
  have wfu: "wf_tm u" by (rule wf_saveWorkerInfo [OF u wf])
  have outu: "tm_outbox u = tm_outbox s"
    using u by (auto simp: saveWorkerInfo_begin split: option.splits if_splits)
  have "answers s (reply m k a (saveVectorTime (tickMyClock u))) m a k" for k
    using wfu outu by (rule answersI)
  then show ?thesis
    using u assms(3) unfolding ev
    by (auto simp: handle_begin_def Let_def saveWorkerInfo_begin split: option.splits if_splits)
qed

text \<open>
  Opening a transaction.  \<open>BEGINTX\<close> takes the first row that is free or has the number
  already.  In the second case the answer is \<open>BEGIN_FAIL\<close> and nothing changes; in the first the
  row gets the number and the answer is \<open>BEGIN_SUCCESS\<close>.  With all rows taken by other
  transactions the answer is \<open>BEGIN_SUCCESS\<close> too, although no row was given.
\<close>

theorem begin_opens_row:
  assumes "wf_tm s" and "wf_txMessage m" and "tx_msgID m = BEGINTX"
  shows "\<exists>t. handleWorkerMsg (Received a (txBytes m @ rest) c) s = Running t \<and> tm_log t = tm_log s \<and>
    (case free_or (tx_tid m) (tm_rows s) of
       None \<Rightarrow> answers s t m a BEGIN_SUCCESS \<and> tm_rows t = tm_rows s
     | Some i \<Rightarrow>
         if i_tid (tm_rows s ! i) = tx_tid m
         then answers s t m a BEGIN_FAIL \<and> tm_rows t = tm_rows s
         else answers s t m a BEGIN_SUCCESS \<and>
           tm_rows t = (tm_rows s)[i := (tm_rows s ! i)\<lparr>i_tid := tx_tid m\<rparr>])"
  using assms by (rule begin_step)

text \<open>All five rows are taken; the sixth transaction is told that it has begun.\<close>

theorem begin_opens_row_witness:
  "\<exists>t r. handleWorkerMsg (Received demo_addr (txBytes (demo_msg BEGINTX 6 1111) @ []) 0)
       (demo_tm [] (map (\<lambda>k. demo_row k 0 0) [1, 2, 3, 4, 5])) = Running t \<and>
     tm_outbox t = [(demo_addr, txBytes r)] \<and> tx_msgID r = BEGIN_SUCCESS \<and> 6 \<notin> tids t"
proof -
  let ?s = "demo_tm [] (map (\<lambda>k. demo_row k 0 0) [1, 2, 3, 4, 5])"
  have rows: "wf_rows (map (\<lambda>k. demo_row k 0 0) [1, 2, 3, 4, 5])"
    by (simp add: wf_rows_def demo_row_def)
  have "free_or 6 (tm_rows ?s) = None" by (simp add: free_or_def)
  with begin_opens_row [of ?s "demo_msg BEGINTX 6 1111" demo_addr "[]" 0] rows
  show ?thesis by (auto simp: tids_def)
qed

lemma join_step:
  assumes "wf_tm s" and "wf_txMessage m" and "tx_msgID m = JOINTX"
  shows "case free_or (tx_tid m) (tm_rows s) of
      None \<Rightarrow> handleWorkerMsg (Received a (txBytes m @ rest) c) s = Undefined
    | Some i \<Rightarrow> \<exists>t. handleWorkerMsg (Received a (txBytes m @ rest) c) s = Running t \<and>
        (if i_tid (tm_rows s ! i) = tx_tid m
         then answers s t m a JOIN_SUCCESS \<and>
           tm_log t = tm_log s @ [\<lparr>cr_msgID = JOINTX, cr_tid = tx_tid m, cr_nodeId = tx_nodeId m\<rparr>] \<and>
           tm_rows t = (tm_rows s)[i := add_worker (ucast (sin_port a)) (tx_nodeId m) a (tm_rows s ! i)]
         else answers s t m a JOIN_FAIL \<and> tm_log t = tm_log s \<and> tm_rows t = tm_rows s)"
proof -
  let ?s = "recv_state m s"
  let ?save = "saveWorkerInfo (ucast (sin_port a)) (tx_tid m) JOINTX (tx_nodeId m) a ?s"
  have wf: "wf_tm ?s" by (rule recv_state_wf [OF assms(1)])
  have ev: "handleWorkerMsg (Received a (txBytes m @ rest) c) s = handle_join m a ?s"
    using assms(3) by (simp add: recv_bytes [OF assms(2)] handle_msg_def)
  show ?thesis
  proof (cases ?save)
    case None
    then show ?thesis
      using assms(3) unfolding ev
      by (auto simp: handle_join_def saveWorkerInfo_join split: option.splits if_splits)
  next
    case (Some eu)
    obtain err u where u: "?save = Some (err, u)" using Some by (cases eu) auto
    have wfu: "wf_tm u" by (rule wf_saveWorkerInfo [OF u wf])
    have outu: "tm_outbox u = tm_outbox s"
      using u by (auto simp: saveWorkerInfo_join split: option.splits if_splits)
    have fail: "answers s (reply m k a (saveVectorTime (tickMyClock u))) m a k" for k
      using wfu outu by (rule answersI)
    let ?u = "\<lambda>u. writeRecordToLog \<lparr>cr_msgID = JOINTX, cr_tid = tx_tid m, cr_nodeId = tx_nodeId m\<rparr>
      (set_rec JOINTX (tx_tid m) (tx_nodeId m) (saveVectorTime (tickMyClock u)))"
    have wfv: "wf_tm (?u u)" using wfu by (intro wf_tm_clock_step)
    have succ: "answers s (reply m k a (?u u)) m a k" for k
      using reply_outbox [OF wfv, of m k a] outu wf_constructMessage [OF wfv, of m "tm_newMsg (?u u)" k 0]
      by (intro exI [of _ "constructMessage m (tm_newMsg (?u u)) k 0 (?u u)"]) (simp add: constructMessage_def)
    show ?thesis
      using u fail succ assms(3) unfolding ev
      by (auto simp: handle_join_def Let_def saveWorkerInfo_join split: option.splits if_splits)
  qed
qed

text \<open>
  Joining a transaction.  \<open>JOINTX\<close> stops at the first row that is free or has the number.  If
  it has the number, the worker is entered in the row's first place without a port, the join is
  logged and answered with \<open>JOIN_SUCCESS\<close>; if it is free the answer is \<open>JOIN_FAIL\<close> and nothing
  changes.  With all rows taken by other transactions the code reads an index it never set.
\<close>

theorem join_enters_worker:
  assumes "wf_tm s" and "wf_txMessage m" and "tx_msgID m = JOINTX"
  shows "case free_or (tx_tid m) (tm_rows s) of
      None \<Rightarrow> handleWorkerMsg (Received a (txBytes m @ rest) c) s = Undefined
    | Some i \<Rightarrow> \<exists>t. handleWorkerMsg (Received a (txBytes m @ rest) c) s = Running t \<and>
        (if i_tid (tm_rows s ! i) = tx_tid m
         then answers s t m a JOIN_SUCCESS \<and>
           tm_log t = tm_log s @ [\<lparr>cr_msgID = JOINTX, cr_tid = tx_tid m, cr_nodeId = tx_nodeId m\<rparr>] \<and>
           tm_rows t = (tm_rows s)[i := add_worker (ucast (sin_port a)) (tx_nodeId m) a (tm_rows s ! i)]
         else answers s t m a JOIN_FAIL \<and> tm_log t = tm_log s \<and> tm_rows t = tm_rows s)"
  using assms by (rule join_step)

text \<open>A free row in front of the transaction's row makes the join fail.\<close>

theorem join_enters_worker_witness:
  "\<exists>t r. handleWorkerMsg (Received demo_addr (txBytes (demo_msg JOINTX 7 3333) @ []) 0)
       (demo_tm [] (empty_row # demo_row 7 0 0 # replicate 3 empty_row)) = Running t \<and>
     tm_outbox t = [(demo_addr, txBytes r)] \<and> tx_msgID r = JOIN_FAIL \<and> 7 \<in> tids t"
proof -
  let ?s = "demo_tm [] (empty_row # demo_row 7 0 0 # replicate 3 empty_row)"
  have rows: "wf_rows (empty_row # demo_row 7 0 0 # replicate 3 empty_row)"
    by (simp add: wf_rows_def demo_row_def empty_row_def)
  have "free_or 7 (tm_rows ?s) = Some 0" by (simp add: free_or_def)
  with join_enters_worker [of ?s "demo_msg JOINTX 7 3333" demo_addr "[]" 0] rows
  show ?thesis by (auto simp: tids_def)
qed

text \<open>
  One number can occupy two rows.  When a row in front of a running transaction's row has
  been freed, a second \<open>BEGINTX\<close> for the running transaction is answered with \<open>BEGIN_SUCCESS\<close> and
  gives it a second row, in front of the one that has its members.
\<close>

theorem begin_duplicates_row:
  assumes "wf_tm s" and "wf_txMessage m" and "tx_msgID m = BEGINTX" and "tx_tid m \<noteq> 0"
    and "tm_rows s = pre @ hole # mid @ row # post" and "i_tid hole = 0" and "i_tid row = tx_tid m"
    and "\<forall>i \<in> set pre. i_tid i \<noteq> 0 \<and> i_tid i \<noteq> tx_tid m"
  shows "\<exists>t. handleWorkerMsg (Received a (txBytes m @ rest) c) s = Running t \<and>
    answers s t m a BEGIN_SUCCESS \<and>
    tm_rows t = pre @ hole\<lparr>i_tid := tx_tid m\<rparr> # mid @ row # post \<and>
    find_row (tx_tid m) t = Some (hole\<lparr>i_tid := tx_tid m\<rparr>)"
proof -
  have "first_index P (xs @ y # ys) = Some (length xs)" if "\<forall>x \<in> set xs. \<not> P x" "P y"
    for P :: "trans_info \<Rightarrow> bool" and xs y ys
    using that by (induction xs) auto
  then have "free_or (tx_tid m) (tm_rows s) = Some (length pre)"
    unfolding free_or_def assms(5) using assms(6,8) by auto
  then obtain t where t: "handleWorkerMsg (Received a (txBytes m @ rest) c) s = Running t"
    "answers s t m a BEGIN_SUCCESS" "tm_rows t = pre @ hole\<lparr>i_tid := tx_tid m\<rparr> # mid @ row # post"
    using begin_step [OF assms(1-3), of a rest c] assms(4-6) by (auto simp: nth_append)
  have "find P (xs @ y # ys) = Some y" if "\<forall>x \<in> set xs. \<not> P x" "P y"
    for P :: "trans_info \<Rightarrow> bool" and xs y ys
    using that by (induction xs) auto
  then have "find_row (tx_tid m) t = Some (hole\<lparr>i_tid := tx_tid m\<rparr>)"
    unfolding find_row_def t(3) using assms(8) by simp
  with t show ?thesis by blast
qed

theorem begin_duplicates_row_witness:
  "\<exists>t. handleWorkerMsg (Received demo_addr (txBytes (demo_msg BEGINTX 7 1111) @ []) 0)
       (demo_tm [] (empty_row # demo_row 7 0 0 # replicate 3 empty_row)) = Running t \<and>
     tm_rows t = empty_row\<lparr>i_tid := 7\<rparr> # demo_row 7 0 0 # replicate 3 empty_row"
proof -
  have "wf_rows (empty_row # demo_row 7 0 0 # replicate 3 empty_row)"
    by (simp add: wf_rows_def demo_row_def empty_row_def)
  then show ?thesis
    using begin_duplicates_row [of "demo_tm [] (empty_row # demo_row 7 0 0 # replicate 3 empty_row)"
        "demo_msg BEGINTX 7 1111" "[]" empty_row "[]" "demo_row 7 0 0" "replicate 3 empty_row" demo_addr "[]" 0]
    by auto
qed

end
