(* ===== verification/TManagerVotes.thy ===== *)
theory TManagerVotes
  imports TManagerOps
begin

text \<open>
  The voting phase of the transaction manager: the broadcast of \<open>PREPARE_COMMIT\<close>, the vote table
  as a refinement of the abstract coordinator, a poll while votes are missing, the idle timeout,
  and what the first start and the restart leave behind.
\<close>

subsection \<open>Prepare\<close>

text \<open>
  A commit request starts the voting.  \<open>COMMIT\<close> appends one request record to the log and
  sends \<open>PREPARE_COMMIT\<close> to every member with a port, in the order of the table and with one
  clock tick per message; the table does not change.
\<close>

theorem commit_request_prepares:
  assumes "wf_tm s" and "wf_txMessage m" and "tx_msgID m = COMMIT"
  shows "\<exists>t. handleWorkerMsg (Received a (txBytes m @ rest) c) s = Running t \<and>
    tm_log t = tm_log s @ [\<lparr>cr_msgID = COMMIT_REQ, cr_tid = tx_tid m, cr_nodeId = tx_nodeId m\<rparr>] \<and>
    tm_rows t = tm_rows s \<and>
    tm_outbox t = tm_outbox s @ map (apsnd txBytes)
      (broadcast (tm_port s) m PREPARE_COMMIT (tm_newMsg s)
        (merge_clocks (tx_vectorClock m) (tick (tm_port s) (tm_clock s)))
        (addressees (tx_tid m) (tm_rows s)))"
proof -
  let ?u = "writeRecordToLog \<lparr>cr_msgID = COMMIT_REQ, cr_tid = tx_tid m, cr_nodeId = tx_nodeId m\<rparr>
     (set_rec COMMIT_REQ (tx_tid m) (tx_nodeId m) (recv_state m s))"
  have "wf_tm ?u" by (intro wf_tm_clock_step recv_state_wf assms(1))
  from sendToAllWorkers_outbox(1) [OF this] show ?thesis
    using assms(3) by (simp add: recv_bytes [OF assms(2)] handle_msg_def handle_commit_def Let_def)
qed

lemma addressees_empty: "tid \<noteq> 0 \<Longrightarrow> addressees tid (replicate n empty_row) = []"
  by (induction n) simp_all

theorem commit_request_prepares_witness:
  "\<exists>t. handleWorkerMsg (Received demo_addr (txBytes (demo_msg COMMIT 7 1111) @ []) 0)
       (demo_tm [] (demo_rows 7 0 0)) = Running t \<and> length (tm_outbox t) = 2"
proof -
  have len: "length (broadcast p m k nm vc ws) = length ws" for p m k nm vc ws
    by (induction ws arbitrary: vc) simp_all
  have "length (addressees 7 (demo_rows 7 0 0)) = 2"
    by (simp add: demo_rows_def addressees_empty) (simp add: demo_row_def demo_worker_def)
  then show ?thesis
    using commit_request_prepares [of "demo_tm [] (demo_rows 7 0 0)" "demo_msg COMMIT 7 1111" demo_addr "[]" 0]
    by (auto simp: len)
qed

subsection \<open>The vote table\<close>

lemma find_list_update_other:
  "\<not> P (xs ! i) \<Longrightarrow> \<not> P x \<Longrightarrow> find P (xs[i := x]) = find P xs"
proof (induction xs arbitrary: i)
  case (Cons y ys)
  then show ?case by (cases i) auto
qed simp

text \<open>
  C10: the vote table implements the abstract coordinator.  For a transaction in the table
  \<open>collectVote\<close> records the sender's vote as the abstract coordinator does, leaves the other
  transactions alone and returns the code of the abstract decision; with no member at all the
  result is what the uninitialised local held.
\<close>

theorem collectVote_refines:
  assumes "abs_tx s (tx_tid m) = Some ms" and "tx_nodeId m \<noteq> 0"
  shows "\<exists>d t. collectVote c m s = Some (d, t) \<and>
    abs_tx t (tx_tid m) = Some (spec_vote (tx_nodeId m) (vote_code (tx_msgID m)) ms) \<and>
    (\<forall>tid. tid \<noteq> tx_tid m \<longrightarrow> abs_tx t tid = abs_tx s tid) \<and>
    d = (if ms = [] then c
         else code_of (spec_decide (map snd (spec_vote (tx_nodeId m) (vote_code (tx_msgID m)) ms))))"
proof -
  from assms(1) obtain row where "find_row (tx_tid m) s = Some row" and ms: "ms = members row"
    by (auto simp: abs_tx_def)
  then obtain i where i: "first_index (\<lambda>i. i_tid i = tx_tid m) (tm_rows s) = Some i"
    and row: "row = tm_rows s ! i"
    by (auto simp: find_row_Some_index)
  have rtid: "i_tid row = tx_tid m" using first_indexD(2) [OF i] row by simp
  let ?row = "record_vote m row"
  let ?t = "set_rows ((tm_rows s)[i := ?row]) s"
  have cv: "collectVote c m s = Some (tally c (i_workers ?row), ?t)"
    by (simp add: collectVote_def i row Let_def)
  have mem: "members ?row = spec_vote (tx_nodeId m) (vote_code (tx_msgID m)) ms"
    using members_record_vote [OF assms(2)] ms by simp
  have "abs_tx ?t (tx_tid m) = Some (members ?row)"
    using find_list_update [OF i, of ?row] rtid by (simp add: abs_tx_def find_row_def)
  moreover have "abs_tx ?t tid = abs_tx s tid" if "tid \<noteq> tx_tid m" for tid
    using that rtid row find_list_update_other [of "\<lambda>i. i_tid i = tid" "tm_rows s" i ?row]
    by (simp add: abs_tx_def find_row_def)
  moreover have "filter (\<lambda>w. w_nodeId w \<noteq> 0) (i_workers ?row) = [] \<longleftrightarrow> ms = []"
    using arg_cong [OF mem, of length] by (simp add: members_def spec_vote_def flip: length_0_conv)
  then have "tally c (i_workers ?row) = (if ms = [] then c else code_of (spec_decide (map snd (members ?row))))"
    by (simp add: tally_spec members_def comp_def)
  ultimately show ?thesis using cv mem by auto
qed

theorem collectVote_refines_witness:
  "\<exists>t. collectVote 0 (demo_msg VOTE_COMMIT 7 1111) (demo_tm [] (demo_rows 7 0 VOTE_ABORT)) = Some (DECIDE_ABORT, t) \<and>
     abs_tx t 7 = Some [(1111, Yes), (2222, No)]"
proof -
  have "abs_tx (demo_tm [] (demo_rows 7 0 VOTE_ABORT)) 7 = Some [(1111, Pending), (2222, No)]"
    by (simp add: abs_tx_def members_def) (simp add: demo_row_def demo_worker_def vote_code_def)
  then show ?thesis
    using collectVote_refines [of "demo_tm [] (demo_rows 7 0 VOTE_ABORT)" "demo_msg VOTE_COMMIT 7 1111" _ 0]
    by (auto simp: spec_vote_def vote_code_def)
qed

subsection \<open>The idle timeout\<close>

definition log_kinds :: "tm_state \<Rightarrow> bool" where
  "log_kinds s \<longleftrightarrow>
     list_all (\<lambda>r. cr_msgID r \<in> {JOINTX, COMMIT_REQ, DECIDE_ABORT, DECIDE_COMMIT}) (tm_log s)"

lemma log_kinds_same: "tm_log t = tm_log s \<Longrightarrow> log_kinds s \<Longrightarrow> log_kinds t"
  by (simp add: log_kinds_def)

lemma log_kinds_append:
  "tm_log t = tm_log s @ [r] \<Longrightarrow> log_kinds s \<Longrightarrow>
    cr_msgID r \<in> {JOINTX, COMMIT_REQ, DECIDE_ABORT, DECIDE_COMMIT} \<Longrightarrow> log_kinds t"
  by (simp add: log_kinds_def)

lemma log_kinds_decide:
  "log_kinds s \<Longrightarrow> k \<in> {DECIDE_ABORT, DECIDE_COMMIT} \<Longrightarrow> out_all log_kinds (decide m k s)"
  using log_decide [of s k m] by (auto elim!: out_all_mono intro: log_kinds_append)

lemma log_kinds_vote: "log_kinds s \<Longrightarrow> out_all log_kinds (handle_vote c m a s)"
proof -
  assume s: "log_kinds s"
  let ?s = "after_setCrash m s"
  have s': "log_kinds ?s" using s by (simp add: log_kinds_def)
  show ?thesis
  proof (cases "collectVote c m ?s")
    case None
    then show ?thesis by (simp add: handle_vote_def Let_def flip: after_setCrash_def)
  next
    case (Some dt)
    then obtain d t where dt: "dt = (d, t)" and t: "log_kinds t"
      using s' by (cases dt) (auto dest!: log_collectVote intro: log_kinds_same)
    then have "out_all log_kinds (act_on_decision d m a t)"
      using log_kinds_decide [OF t, of DECIDE_COMMIT m] by (simp add: act_on_decision_def log_kinds_def)
    then show ?thesis
      by (simp add: handle_vote_def Let_def Some dt flip: after_setCrash_def)
  qed
qed

lemma log_kinds_msg: "log_kinds s \<Longrightarrow> out_all log_kinds (handle_msg c m a s)"
proof -
  assume s: "log_kinds s"
  have "out_all log_kinds (handle_begin m a s)"
    using log_begin [of s m a] s by (auto elim!: out_all_mono intro: log_kinds_same)
  moreover have "out_all log_kinds (handle_join m a s)" if "tx_msgID m = JOINTX"
    using log_join [of s m a] s that by (auto elim!: out_all_mono intro: log_kinds_same log_kinds_append)
  moreover have "out_all log_kinds (handle_commit m s)"
    using log_commit [of s m] s by (auto elim!: out_all_mono intro: log_kinds_append)
  moreover have "out_all log_kinds (handle_vote_abort m s)"
    using log_vote_abort [of s m] s by (auto elim!: out_all_mono intro: log_kinds_append)
  ultimately show ?thesis using log_kinds_vote [OF s] s by (simp add: handle_msg_def Let_def)
qed

interpretation tm_kinds: machine handleWorkerMsg log_kinds
proof unfold_locales
  fix s e
  assume s: "log_kinds s"
  show "out_all log_kinds (handleWorkerMsg e s)"
  proof (cases e)
    case (PollTimeout om)
    have "out_all log_kinds (handle_timeout om s)"
      using log_timeout [of s om] s by (auto elim!: out_all_mono intro: log_kinds_same log_kinds_append)
    then show ?thesis using PollTimeout by simp
  next
    case (Received a buf c)
    show ?thesis
    proof (cases "deserializeWorkerMsg (tm_host s) buf")
      case None
      then show ?thesis using Received by (simp add: handleWorkerMsg.simps)
    next
      case (Some m)
      have "log_kinds (recv_state m s)" using s by (simp add: log_kinds_def)
      then show ?thesis using Received handle_received [OF Some] log_kinds_msg by simp
    qed
  qed (use s in simp_all)
qed

definition requested :: "coord_record list \<Rightarrow> u32 \<Rightarrow> bool" where
  "requested recs tid \<longleftrightarrow> (\<exists>r \<in> set recs. cr_tid r = tid \<and> cr_msgID r = COMMIT_REQ)"

lemma waitingScan_requested:
  "list_all (\<lambda>r. cr_msgID r \<in> {JOINTX, COMMIT_REQ, DECIDE_ABORT, DECIDE_COMMIT}) recs \<Longrightarrow>
    waitingScan tid recs = requested recs tid"
  by (induction recs) (auto simp: requested_def c_lor_def)

lemma waitingRows_find:
  "waitingRows recs rows = map_option i_tid (find (\<lambda>i. waitingScan (i_tid i) recs) rows)"
  by (induction rows) auto

lemma requested_rev [simp]: "requested (rev recs) tid = requested recs tid"
  by (simp add: requested_def)

lemma waitingForVotes_spec:
  assumes "log_kinds s" and "length (tm_log s) \<le> 214"
  shows "waitingForVotes s = Some
    (case find (\<lambda>i. requested (tm_log s) (i_tid i)) (tm_rows s) of
       None \<Rightarrow> (0, s) | Some i \<Rightarrow> (1, s\<lparr>tm_abortTid := i_tid i\<rparr>))"
proof -
  have "tm_records s = Some (tm_log s)"
    using length_records [of s] assms(2) by (auto simp: tm_records_def split: if_splits)
  moreover have "waitingScan tid (rev (tm_log s)) = requested (tm_log s) tid" for tid
    using assms(1) waitingScan_requested [of "rev (tm_log s)" tid] by (simp add: log_kinds_def list_all_rev)
  ultimately show ?thesis
    by (simp add: waitingForVotes_def waitingRows_find split: option.split)
qed

lemma timeout_step:
  assumes "wf_tm s" and "log_kinds s" and "length (tm_log s) \<le> 214"
    and "find (\<lambda>i. requested (tm_log s) (i_tid i)) (tm_rows s) = Some i"
  shows "\<exists>t n. handleWorkerMsg (PollTimeout om) s = Running t \<and>
    tm_log t = tm_log s @ [\<lparr>cr_msgID = DECIDE_ABORT, cr_tid = i_tid i, cr_nodeId = n\<rparr>] \<and>
    tm_outbox t = tm_outbox s @ map (apsnd txBytes)
      (broadcast (tm_port s) (om\<lparr>tx_tid := i_tid i\<rparr>) DECIDE_ABORT (tm_newMsg s) (tm_clock s)
        (addressees (i_tid i) (tm_rows s))) \<and>
    tm_rows t = upd_first (\<lambda>j. i_tid j = i_tid i) clean_row (tm_rows s)"
proof -
  let ?s = "s\<lparr>tm_abortTid := i_tid i\<rparr>"
  let ?n = "cr_nodeId (tm_rec s)"
  let ?u = "writeRecordToLog \<lparr>cr_msgID = DECIDE_ABORT, cr_tid = i_tid i, cr_nodeId = ?n\<rparr>
     (set_rec DECIDE_ABORT (i_tid i) ?n ?s)"
  have "wf_tm ?u" using assms(1) by (intro wf_tm_clock_step) (simp add: wf_abortTid)
  from sendToAllWorkers_outbox(1) [OF this] show ?thesis
    using waitingForVotes_spec [OF assms(2,3)] assms(4)
    by (simp add: handle_timeout_def Let_def cleanWorkerInfo_def)
qed

text \<open>
  C28: the idle timeout.  After ten seconds without a datagram the manager aborts the first
  transaction of the table for which the log has a commit request, whatever other records
  follow the request: it logs the abort, sends \<open>DECIDE_ABORT\<close> to the members and frees the row.
  Without such a transaction nothing happens.  The records that mark a decision never end the
  wait, since the code compares with the value of \<open>DECIDE_ABORT || DECIDE_COMMIT\<close>, which is 1.
\<close>

theorem idle_timeout:
  assumes "wf_tm s" and "log_kinds s" and "length (tm_log s) \<le> 214"
  shows "case find (\<lambda>i. requested (tm_log s) (i_tid i)) (tm_rows s) of
      None \<Rightarrow> handleWorkerMsg (PollTimeout om) s = Running s
    | Some i \<Rightarrow> \<exists>t n. handleWorkerMsg (PollTimeout om) s = Running t \<and>
        tm_log t = tm_log s @ [\<lparr>cr_msgID = DECIDE_ABORT, cr_tid = i_tid i, cr_nodeId = n\<rparr>] \<and>
        tm_outbox t = tm_outbox s @ map (apsnd txBytes)
          (broadcast (tm_port s) (om\<lparr>tx_tid := i_tid i\<rparr>) DECIDE_ABORT (tm_newMsg s) (tm_clock s)
            (addressees (i_tid i) (tm_rows s))) \<and>
        tm_rows t = upd_first (\<lambda>j. i_tid j = i_tid i) clean_row (tm_rows s)"
proof (cases "find (\<lambda>i. requested (tm_log s) (i_tid i)) (tm_rows s)")
  case None
  then show ?thesis
    using waitingForVotes_spec [OF assms(2,3)] by (simp add: handle_timeout_def)
next
  case (Some i)
  with timeout_step [OF assms Some] show ?thesis by simp
qed

text \<open>
  Transaction 7 was committed and its number is in use again; nobody has asked to commit the
  new transaction, and the old request aborts it.
\<close>

theorem idle_timeout_witness:
  "\<exists>t n. handleWorkerMsg (PollTimeout (demo_msg 0 0 0))
       (demo_tm [\<lparr>cr_msgID = COMMIT_REQ, cr_tid = 7, cr_nodeId = 1\<rparr>, \<lparr>cr_msgID = DECIDE_COMMIT, cr_tid = 7, cr_nodeId = 1\<rparr>]
         (demo_rows 7 0 0)) = Running t \<and>
     last (tm_log t) = \<lparr>cr_msgID = DECIDE_ABORT, cr_tid = 7, cr_nodeId = n\<rparr>"
proof -
  let ?s = "demo_tm [\<lparr>cr_msgID = COMMIT_REQ, cr_tid = 7, cr_nodeId = 1\<rparr>, \<lparr>cr_msgID = DECIDE_COMMIT, cr_tid = 7, cr_nodeId = 1\<rparr>]
         (demo_rows 7 0 0)"
  have "find (\<lambda>i. requested (tm_log ?s) (i_tid i)) (tm_rows ?s) = Some (demo_row 7 0 0)"
    by (simp add: demo_rows_def requested_def)
  with idle_timeout [of ?s "demo_msg 0 0 0"] show ?thesis
    by (auto simp: log_kinds_def)
qed

end
