(* ===== verification/TManagerFaults.thy ===== *)
theory TManagerFaults
  imports TManagerVotes
begin

text \<open>
  Behaviour of the transaction manager at its edges: a poll that arrives while votes are
  missing, the restart with open transactions, and the clock after a first start.
\<close>

subsection \<open>A poll while votes are missing\<close>

lemma vote_code_poll: "vote_code POLL_DECISION = Yes"
  by (simp add: vote_code_def)

lemma poll_commit_step:
  assumes "wf_tm s" and "wf_txMessage m" and "tx_msgID m = POLL_DECISION"
    and "find_row (tx_tid m) s = Some row" and "others_yes m row"
  shows "\<exists>t r. handleWorkerMsg (Received a (txBytes m @ rest) c) s = Running t \<and>
    tm_log t = tm_log s \<and> contacts (tm_rows t) = contacts (tm_rows s) \<and> wf_tm t \<and>
    tm_outbox t = tm_outbox s @ [(a, txBytes r)] \<and> tx_msgID r = DECIDE_COMMIT \<and>
    tx_tid r = tx_tid m \<and> tx_nodeId r = tx_nodeId m \<and> wf_txMessage r"
proof -
  let ?s = "recv_state m s"
  have row: "find_row (tx_tid m) ?s = Some row" using assms(4) by simp
  have yes: "tally c (i_workers (record_vote m row)) = DECIDE_COMMIT"
    using assms(5) by (rule others_yes_tally) (simp add: assms(3) vote_code_poll)
  from handle_vote_row [OF row, of c a] obtain t where
    hv: "handle_vote c m a ?s = act_on_decision DECIDE_COMMIT m a t"
    and t: "tm_log t = tm_log s" "tm_outbox t = tm_outbox s" "contacts (tm_rows t) = contacts (tm_rows s)"
    and wf: "wf_tm ?s \<longrightarrow> wf_tm t"
    unfolding yes by auto
  have wft: "wf_tm t" using wf recv_state_wf [OF assms(1)] by blast
  let ?u = "reply m DECIDE_COMMIT a (saveVectorTime (tickMyClock t))"
  have "handleWorkerMsg (Received a (txBytes m @ rest) c) s = Running ?u"
    using hv assms(3) by (simp add: recv_bytes [OF assms(2)] handle_msg_def act_on_decision_def)
  moreover have "wf_tm ?u" by (intro wf_reply wf_tm_clock_step wft)
  moreover have wfs: "wf_tm (saveVectorTime (tickMyClock t))" by (intro wf_tm_clock_step wft)
  moreover note reply_outbox [OF wfs, of m DECIDE_COMMIT a]
    wf_constructMessage [OF wfs, of m "tm_newMsg t" DECIDE_COMMIT 0]
  ultimately show ?thesis
    using t by (intro exI [of _ ?u] exI [of _ "constructMessage m (tm_newMsg t) DECIDE_COMMIT 0 (saveVectorTime (tickMyClock t))"])
      (simp, simp add: constructMessage_def)
qed

text \<open>
  C20: a poll is counted as a vote to commit.  \<open>collectVote\<close> stores the message id of whatever
  it is called with, and every stored id other than \<open>VOTE_ABORT\<close> and \<open>ABORT\<close> counts as yes.
  When a member that has not voted, or was about to vote to abort, polls after all others have
  voted yes, it is told \<open>DECIDE_COMMIT\<close> and nothing is logged; an idle timeout then logs an abort
  and sends \<open>DECIDE_ABORT\<close> to all members.  The two decisions differ.
\<close>

theorem poll_splits_decision:
  assumes "wf_tm s" and "wf_txMessage m" and "tx_msgID m = POLL_DECISION"
    and "find_row (tx_tid m) s = Some row" and "others_yes m row"
    and "log_kinds s" and "length (tm_log s) \<le> 214"
    and "requested (tm_log s) (tx_tid m)"
    and "\<forall>i \<in> set (tm_rows s). requested (tm_log s) (i_tid i) \<longrightarrow> i_tid i = tx_tid m"
  shows "\<exists>u r n m' nm vc. run handleWorkerMsg [Received a (txBytes m @ rest) c, PollTimeout om] s = Running u \<and>
    tx_msgID r = DECIDE_COMMIT \<and> tx_tid r = tx_tid m \<and>
    tm_log u = tm_log s @ [\<lparr>cr_msgID = DECIDE_ABORT, cr_tid = tx_tid m, cr_nodeId = n\<rparr>] \<and>
    tm_outbox u = tm_outbox s @ (a, txBytes r) # map (apsnd txBytes)
      (broadcast (tm_port s) m' DECIDE_ABORT nm vc (addressees (tx_tid m) (tm_rows s))) \<and>
    tx_tid m' = tx_tid m"
proof -
  from poll_commit_step [OF assms(1-5), of a rest c] obtain t r where
    t: "handleWorkerMsg (Received a (txBytes m @ rest) c) s = Running t" "tm_log t = tm_log s"
      "contacts (tm_rows t) = contacts (tm_rows s)" "wf_tm t"
      "tm_outbox t = tm_outbox s @ [(a, txBytes r)]"
    and r: "tx_msgID r = DECIDE_COMMIT" "tx_tid r = tx_tid m"
    by blast
  have port: "tm_port t = tm_port s"
    using tm_growing.step_le [of s "Received a (txBytes m @ rest) c"] t(1) by (simp add: log_le_def)
  have tids: "map i_tid (tm_rows t) = map i_tid (tm_rows s)" using t(3) by (rule contacts_tids)
  have tset: "i_tid ` set (tm_rows t) = i_tid ` set (tm_rows s)" using tids by (metis list.set_map)
  have only: "i_tid i = tx_tid m" if "i \<in> set (tm_rows t)" "requested (tm_log t) (i_tid i)" for i
  proof -
    have "i_tid i \<in> i_tid ` set (tm_rows s)" using that(1) tset by blast
    then obtain j where "j \<in> set (tm_rows s)" "i_tid i = i_tid j" by blast
    then show ?thesis using that(2) assms(9) unfolding t(2) by simp
  qed
  have "tx_tid m \<in> i_tid ` set (tm_rows t)"
    using assms(4) tset tids_find_row [of "tx_tid m" s] by (simp add: tids_def)
  then obtain j where "j \<in> set (tm_rows t)" "i_tid j = tx_tid m" by auto
  then have "\<exists>j \<in> set (tm_rows t). requested (tm_log t) (i_tid j)"
    using assms(8) unfolding t(2) by (intro bexI [of _ j]) simp_all
  then obtain i where i: "find (\<lambda>i. requested (tm_log t) (i_tid i)) (tm_rows t) = Some i"
    by (cases "find (\<lambda>i. requested (tm_log t) (i_tid i)) (tm_rows t)") (auto simp: find_None_iff)
  have "i \<in> set (tm_rows t)" "requested (tm_log t) (i_tid i)"
    using i by (auto simp: find_Some_iff)
  then have itid: "i_tid i = tx_tid m" by (rule only)
  have kinds: "log_kinds t" "length (tm_log t) \<le> 214" using assms(6,7) t(2) by (simp_all add: log_kinds_def)
  from timeout_step [OF t(4) kinds i, of om] obtain u n where u:
    "handleWorkerMsg (PollTimeout om) t = Running u"
    "tm_log u = tm_log t @ [\<lparr>cr_msgID = DECIDE_ABORT, cr_tid = tx_tid m, cr_nodeId = n\<rparr>]"
    "tm_outbox u = tm_outbox t @ map (apsnd txBytes)
      (broadcast (tm_port t) (om\<lparr>tx_tid := tx_tid m\<rparr>) DECIDE_ABORT (tm_newMsg t) (tm_clock t)
        (addressees (tx_tid m) (tm_rows t)))"
    unfolding itid by blast
  have bc: "broadcast p m' k nm vc (addressees x (tm_rows t)) = broadcast p m' k nm vc (addressees x (tm_rows s))"
    for p m' k nm vc x using t(3) by (rule broadcast_contacts)
  have "run handleWorkerMsg [Received a (txBytes m @ rest) c, PollTimeout om] s = Running u"
    using t(1) u(1) by (simp del: handleWorkerMsg.simps)
  moreover have "tm_outbox u = tm_outbox s @ (a, txBytes r) # map (apsnd txBytes)
      (broadcast (tm_port s) (om\<lparr>tx_tid := tx_tid m\<rparr>) DECIDE_ABORT (tm_newMsg t) (tm_clock t)
        (addressees (tx_tid m) (tm_rows s)))"
    using u(3) t(5) port bc by simp
  ultimately show ?thesis
    using r u(2) t(2)
    by (intro exI [of _ u] exI [of _ r] exI [of _ n] exI [of _ "om\<lparr>tx_tid := tx_tid m\<rparr>"]
        exI [of _ "tm_newMsg t"] exI [of _ "tm_clock t"]) simp
qed

theorem poll_splits_decision_witness:
  "\<exists>u r n. run handleWorkerMsg [Received demo_addr (txBytes (demo_msg POLL_DECISION 7 1111) @ []) 0,
        PollTimeout (demo_msg 0 0 0)]
       (demo_tm [\<lparr>cr_msgID = COMMIT_REQ, cr_tid = 7, cr_nodeId = 1111\<rparr>] (demo_rows 7 0 VOTE_COMMIT)) = Running u \<and>
     tx_msgID r = DECIDE_COMMIT \<and> hd (tm_outbox u) = (demo_addr, txBytes r) \<and>
     last (tm_log u) = \<lparr>cr_msgID = DECIDE_ABORT, cr_tid = 7, cr_nodeId = n\<rparr>"
proof -
  let ?s = "demo_tm [\<lparr>cr_msgID = COMMIT_REQ, cr_tid = 7, cr_nodeId = 1111\<rparr>] (demo_rows 7 0 VOTE_COMMIT)"
  have "log_kinds ?s" "requested (tm_log ?s) 7" by (simp_all add: log_kinds_def requested_def)
  moreover have "\<forall>i \<in> set (tm_rows ?s). requested (tm_log ?s) (i_tid i) \<longrightarrow> i_tid i = 7"
    by (simp add: requested_def)
  ultimately show ?thesis
    using poll_splits_decision [of ?s "demo_msg POLL_DECISION 7 1111" "demo_row 7 0 VOTE_COMMIT" demo_addr "[]" 0
        "demo_msg 0 0 0"] demo_others_yes [of POLL_DECISION 0]
    by auto
qed

subsection \<open>The restart\<close>

lemma commitScan_map:
  "commitScan rs st =
    map (\<lambda>t. if \<exists>r \<in> set rs. cr_msgID r = DECIDE_COMMIT \<and> cr_tid r = ts_tid t
             then t\<lparr>ts_isCommit := 1\<rparr> else t) st"
proof (induction rs arbitrary: st)
  case Nil
  show ?case by simp
next
  case (Cons r rs)
  then show ?case by (auto simp: Cons.IH)
qed

definition undecided :: "tm_state \<Rightarrow> u32 list" where
  "undecided s = filter (\<lambda>tid. \<not> committed tid s) (map i_tid (tm_rows s))"

lemma findStateFromRecord_spec:
  assumes "length (tm_log s) \<le> 214"
  shows "findStateFromRecord s = Running (s\<lparr>tm_stateTab :=
    map (\<lambda>i. \<lparr>ts_tid = i_tid i, ts_isCommit = (if committed (i_tid i) s then 1 else 0)\<rparr>) (tm_rows s)\<rparr>)"
proof -
  have "tm_records s = Some (tm_log s)"
    using length_records [of s] assms by (auto simp: tm_records_def split: if_splits)
  then show ?thesis
    by (auto simp: findStateFromRecord_def commitScan_map committed_def intro!: arg_cong [where f = "\<lambda>x. s\<lparr>tm_stateTab := x\<rparr>"])
qed

text \<open>The kinds, transactions and addresses of a list of messages.\<close>

definition headers :: "(sockaddr_in \<times> txMessage) list \<Rightarrow> (sockaddr_in \<times> u32 \<times> u32) list" where
  "headers msgs = map (\<lambda>(a, r). (a, tx_msgID r, tx_tid r)) msgs"

lemma headers_simps [simp]: "headers [] = []" "headers (xs @ ys) = headers xs @ headers ys"
  by (simp_all add: headers_def)

lemma headers_broadcast:
  "headers (broadcast p m k nm vc ws) = map (\<lambda>w. (w_workerAddr w, k, tx_tid m)) ws"
  by (induction ws arbitrary: vc) (simp_all add: headers_def)

lemma wf_tm_newMsg: "wf_tm s \<Longrightarrow> wf_txMessage (tm_newMsg s)"
  by (simp add: wf_tm_def)

lemma resend_aborts_outbox:
  assumes "wf_tm s"
  shows "\<exists>msgs. tm_outbox (resend_aborts m nm ts s) = tm_outbox s @ map (apsnd txBytes) msgs \<and>
    headers msgs = concat (map (\<lambda>t. if ts_isCommit t = 0
      then map (\<lambda>w. (w_workerAddr w, DECIDE_ABORT, ts_tid t)) (addressees (ts_tid t) (tm_rows s)) else []) ts)"
  using assms
proof (induction ts arbitrary: s)
  case Nil
  then show ?case by (intro exI [of _ "[]"]) simp
next
  case (Cons t ts)
  show ?case
  proof (cases "ts_isCommit t = 0")
    case False
    with Cons.IH [OF Cons.prems] show ?thesis by simp
  next
    case True
    let ?m = "m\<lparr>tx_tid := ts_tid t\<rparr>"
    let ?s = "sendToAllWorkers ?m nm DECIDE_ABORT s"
    have rows: "tm_rows ?s = tm_rows s" by simp
    from Cons.IH [OF wf_sendToAllWorkers [OF Cons.prems, of ?m nm DECIDE_ABORT], unfolded rows] obtain msgs where
      "tm_outbox (resend_aborts m nm ts ?s) = tm_outbox ?s @ map (apsnd txBytes) msgs"
      "headers msgs = concat (map (\<lambda>t. if ts_isCommit t = 0
        then map (\<lambda>w. (w_workerAddr w, DECIDE_ABORT, ts_tid t)) (addressees (ts_tid t) (tm_rows s)) else []) ts)"
      by blast
    then show ?thesis
      using True sendToAllWorkers_outbox(1) [OF Cons.prems, of ?m nm DECIDE_ABORT]
      by (intro exI [of _ "broadcast (tm_port s) ?m DECIDE_ABORT nm (tm_clock s)
            (addressees (ts_tid t) (tm_rows s)) @ msgs"])
        (simp add: headers_broadcast)
  qed
qed

text \<open>
  The restart.  On its old files the manager comes up with the log and the table it had and
  sends \<open>DECIDE_ABORT\<close> to every member of every transaction of the table without a commit record,
  the open ones included that nobody has asked to commit.  It logs no abort and frees no row, so
  such a transaction can still collect votes and commit afterwards.
\<close>

lemma restart_aborts:
  assumes "boots_from b s" and "wf_tm s" and "wf_txMessage (b_newMsg b)"
    and "length (tm_log s) \<le> 214"
  shows "\<exists>t msgs. tm_main b = Running t \<and> tm_log t = tm_log s \<and> tm_rows t = tm_rows s \<and> wf_tm t \<and>
    tm_outbox t = map (apsnd txBytes) msgs \<and>
    headers msgs = concat (map (\<lambda>tid. map (\<lambda>w. (w_workerAddr w, DECIDE_ABORT, tid)) (addressees tid (tm_rows s)))
      (undecided s))"
proof -
  let ?s0 = "restoreVectorTime (boot_state b)"
  let ?s = "writeLocalEventToLog RESTARTED (saveVectorTime (tickMyClock ?s0))"
  have boot: "tm_log (boot_state b) = tm_log s" "tm_rows (boot_state b) = tm_rows s"
    "tm_crashInfo (boot_state b) = tm_crashInfo s" "tm_outbox (boot_state b) = []"
    "tm_newMsg (boot_state b) = b_newMsg b"
    using assms(1) by (simp_all add: boots_from_def boot_state_def)
  have "wf_tm ?s0"
    using assms(2,3) boot by (simp add: wf_tm_def restoreVectorTime_def)
  then have wf: "wf_tm ?s" by (simp only: wf_tm_clock_step)
  have s: "tm_log ?s = tm_log s" "tm_rows ?s = tm_rows s" "tm_outbox ?s = []"
    using boot by (simp_all add: restoreVectorTime_def)
  have "findStateFromRecord ?s = Running (?s\<lparr>tm_stateTab :=
      map (\<lambda>i. \<lparr>ts_tid = i_tid i, ts_isCommit = (if committed (i_tid i) s then 1 else 0)\<rparr>) (tm_rows s)\<rparr>)"
    (is "_ = Running ?u")
    using findStateFromRecord_spec [of ?s] assms(4) s committed_same [OF s(1)] by simp
  then have main: "tm_main b = Running (resend_aborts (b_msg b) (b_newMsg b) (tm_stateTab ?u) ?u)"
    using assms(1) by (simp add: tm_main_def tm_restart_def Let_def boots_from_def)
  have wfu: "wf_tm ?u" using wf by (simp add: wf_tm_def)
  have wfr: "wf_tm (resend_aborts m nm ts t)" if "wf_tm t" for m nm ts t
    using that by (induction ts arbitrary: t) (simp_all add: wf_sendToAllWorkers)
  have "concat (map (\<lambda>t. if ts_isCommit t = 0
        then map (\<lambda>w. (w_workerAddr w, DECIDE_ABORT, ts_tid t)) (addressees (ts_tid t) (tm_rows s)) else [])
      (tm_stateTab ?u)) =
    concat (map (\<lambda>tid. map (\<lambda>w. (w_workerAddr w, DECIDE_ABORT, tid)) (addressees tid (tm_rows s))) (undecided s))"
  proof -
    have "concat (map (\<lambda>t. if ts_isCommit t = 0 then f (ts_tid t) else [])
        (map (\<lambda>i. \<lparr>ts_tid = i_tid i, ts_isCommit = (if committed (i_tid i) s then 1 else 0)\<rparr>) rows)) =
      concat (map f (filter (\<lambda>tid. \<not> committed tid s) (map i_tid rows)))"
      for f :: "u32 \<Rightarrow> (sockaddr_in \<times> u32 \<times> u32) list" and rows :: "trans_info list"
      by (induction rows) simp_all
    then show ?thesis by (simp add: undecided_def)
  qed
  moreover have rowsu: "tm_rows ?u = tm_rows s" using s by simp
  from resend_aborts_outbox [OF wfu, of "b_msg b" "b_newMsg b" "tm_stateTab ?u", unfolded rowsu] obtain msgs where
    "tm_outbox (resend_aborts (b_msg b) (b_newMsg b) (tm_stateTab ?u) ?u) = tm_outbox ?u @ map (apsnd txBytes) msgs"
    "headers msgs = concat (map (\<lambda>t. if ts_isCommit t = 0
        then map (\<lambda>w. (w_workerAddr w, DECIDE_ABORT, ts_tid t)) (addressees (ts_tid t) (tm_rows s)) else [])
      (tm_stateTab ?u))"
    by blast
  ultimately show ?thesis
    using main s wfr [OF wfu]
    by (intro exI [of _ "resend_aborts (b_msg b) (b_newMsg b) (tm_stateTab ?u) ?u"] exI [of _ msgs]) simp
qed

text \<open>
  C18: a crash after the decision loses nothing.  When the vote that decides a transaction arrives, a
  vote to abort or the last vote to commit, and the transaction asks for a crash, the manager logs
  the decision, sends nothing and exits.  Started again on its files it comes up with that log and
  without a row for the transaction, and answers a poll of any member with the logged decision.
\<close>

theorem crash_keeps_decision:
  assumes "wf_tm s" and "wf_txMessage m" and "tx_isCrash m \<noteq> 1" and "find_row (tx_tid m) s = Some row"
    and "i_isCrash row = 1" and "tx_tid m \<noteq> 0" and "\<not> committed (tx_tid m) s"
    and "length (filter (\<lambda>i. i_tid i = tx_tid m) (tm_rows s)) \<le> 1" and "length (tm_log s) < 214"
    and "tx_msgID m = VOTE_ABORT \<and> k = DECIDE_ABORT \<or> tx_msgID m = VOTE_COMMIT \<and> k = DECIDE_COMMIT \<and> others_yes m row"
    and "wf_txMessage p" and "tx_msgID p = POLL_DECISION" and "tx_tid p = tx_tid m"
  shows "\<exists>t. handleWorkerMsg (Received a (txBytes m @ rest) c) s = Exited t \<and> tm_outbox t = tm_outbox s \<and>
    tm_log t = tm_log s @ [\<lparr>cr_msgID = k, cr_tid = tx_tid m, cr_nodeId = tx_nodeId m\<rparr>] \<and>
    (\<forall>b. boots_from b t \<and> wf_txMessage (b_newMsg b) \<longrightarrow>
      (\<exists>u v r. tm_main b = Running u \<and> tm_log u = tm_log t \<and> tx_tid m \<notin> tids u \<and>
         handleWorkerMsg (Received a' (txBytes p @ rest') c') u = Running v \<and>
         tm_outbox v = tm_outbox u @ [(a', txBytes r)] \<and> tx_msgID r = k \<and> tx_tid r = tx_tid m \<and>
         tx_nodeId r = tx_nodeId p \<and> tm_log v = tm_log t))"
proof -
  obtain t where t: "handleWorkerMsg (Received a (txBytes m @ rest) c) s = Exited t" "tm_outbox t = tm_outbox s"
    "tm_log t = tm_log s @ [\<lparr>cr_msgID = k, cr_tid = tx_tid m, cr_nodeId = tx_nodeId m\<rparr>]" "tx_tid m \<notin> tids t"
    using crash_step [OF assms(2-6,8,10), of a rest c] by blast
  have wf: "wf_tm t" using tm_machine.step_inv [OF assms(1), of "Received a (txBytes m @ rest) c"] by (simp only: t(1) out_all.simps)
  have len: "length (tm_log t) \<le> 214" using t(3) assms(9) by simp
  have k: "(if committed (tx_tid m) t then DECIDE_COMMIT else DECIDE_ABORT) = k"
    using t(3) assms(7,10) by (auto simp: committed_append)
  have "\<exists>u v r. tm_main b = Running u \<and> tm_log u = tm_log t \<and> tx_tid m \<notin> tids u \<and>
         handleWorkerMsg (Received a' (txBytes p @ rest') c') u = Running v \<and>
         tm_outbox v = tm_outbox u @ [(a', txBytes r)] \<and> tx_msgID r = k \<and> tx_tid r = tx_tid m \<and>
         tx_nodeId r = tx_nodeId p \<and> tm_log v = tm_log t" if b: "boots_from b t \<and> wf_txMessage (b_newMsg b)" for b
  proof -
    obtain u where u: "tm_main b = Running u" "tm_log u = tm_log t" "tm_rows u = tm_rows t" "wf_tm u"
      using restart_aborts [OF conjunct1 [OF b] wf conjunct2 [OF b] len] by blast
    have p: "tx_tid p \<notin> tids u" "length (tm_log u) \<le> 214" using t(4) u(2,3) assms(13) len by (simp_all add: tids_def)
    have "(if committed (tx_tid p) u then DECIDE_COMMIT else DECIDE_ABORT) = k"
      using k committed_same [OF u(2)] assms(13) by simp
    with poll_closed_step [OF u(4) assms(11,12) p, of a' rest' c'] obtain v r where
      "handleWorkerMsg (Received a' (txBytes p @ rest') c') u = Running v" "tm_log v = tm_log u"
      "tm_outbox v = tm_outbox u @ [(a', txBytes r)]" "tx_msgID r = k" "tx_tid r = tx_tid p" "tx_nodeId r = tx_nodeId p"
      by auto
    then show ?thesis using u(1,2) p(1) assms(13) by (intro exI [of _ u] exI [of _ v] exI [of _ r]) simp
  qed
  then show ?thesis using t by blast
qed

definition demo_crash_row :: trans_info where
  "demo_crash_row = (demo_row 7 0 VOTE_COMMIT)\<lparr>i_isCrash := 1\<rparr>"

lemma demo_crash_row:
  "i_tid demo_crash_row = 7" "i_isCrash demo_crash_row = 1" "others_yes (demo_msg k 7 1111) demo_crash_row"
  "wf_tm (demo_tm [] (demo_crash_row # replicate 4 empty_row))"
proof -
  have ws: "i_workers demo_crash_row = i_workers (demo_row 7 0 VOTE_COMMIT)" by (simp add: demo_crash_row_def)
  show "others_yes (demo_msg k 7 1111) demo_crash_row"
    using demo_others_yes [of k 0] by (simp only: others_yes_def ws)
  have "length (i_workers demo_crash_row) = 10" by (simp add: ws demo_row_def)
  then show "wf_tm (demo_tm [] (demo_crash_row # replicate 4 empty_row))"
    by (simp add: wf_rows_def empty_row_def)
qed (simp_all add: demo_crash_row_def demo_row_def)

theorem crash_keeps_decision_witness:
  "\<exists>t u v r. handleWorkerMsg (Received demo_addr (txBytes (demo_msg VOTE_COMMIT 7 1111) @ []) 0)
       (demo_tm [] (demo_crash_row # replicate 4 empty_row)) = Exited t \<and>
     tm_log t = [\<lparr>cr_msgID = DECIDE_COMMIT, cr_tid = 7, cr_nodeId = 1111\<rparr>] \<and>
     tm_main (demo_boot\<lparr>b_file := Some (tm_crashInfo t, tm_log t), b_host := tm_host t, b_port := tm_port t,
       b_shiviz := tm_shiviz t\<rparr>) = Running u \<and>
     handleWorkerMsg (Received demo_addr (txBytes (demo_msg POLL_DECISION 7 2222) @ []) 0) u = Running v \<and>
     tm_outbox v = tm_outbox u @ [(demo_addr, txBytes r)] \<and> tx_msgID r = DECIDE_COMMIT"
proof -
  let ?s = "demo_tm [] (demo_crash_row # replicate 4 empty_row)"
  let ?m = "demo_msg VOTE_COMMIT 7 1111" and ?p = "demo_msg POLL_DECISION 7 2222"
  let ?b = "\<lambda>t. demo_boot\<lparr>b_file := Some (tm_crashInfo t, tm_log t), b_host := tm_host t, b_port := tm_port t,
       b_shiviz := tm_shiviz t\<rparr>"
  have k: "wf_tm ?s" "wf_txMessage ?m" "tx_isCrash ?m \<noteq> 1" "find_row (tx_tid ?m) ?s = Some demo_crash_row"
    "i_isCrash demo_crash_row = 1" "tx_tid ?m \<noteq> 0" "\<not> committed (tx_tid ?m) ?s"
    "length (filter (\<lambda>i. i_tid i = tx_tid ?m) (tm_rows ?s)) \<le> 1" "length (tm_log ?s) < 214"
    "tx_msgID ?m = VOTE_ABORT \<and> DECIDE_COMMIT = DECIDE_ABORT \<or>
      tx_msgID ?m = VOTE_COMMIT \<and> DECIDE_COMMIT = DECIDE_COMMIT \<and> others_yes ?m demo_crash_row"
    "wf_txMessage ?p" "tx_msgID ?p = POLL_DECISION" "tx_tid ?p = tx_tid ?m"
    by (simp_all add: committed_def demo_crash_row find_row_def)
  from crash_keeps_decision [OF k, of demo_addr "[]" 0 demo_addr "[]" 0] obtain t where
    t: "handleWorkerMsg (Received demo_addr (txBytes ?m @ []) 0) ?s = Exited t"
    "tm_log t = tm_log ?s @ [\<lparr>cr_msgID = DECIDE_COMMIT, cr_tid = tx_tid ?m, cr_nodeId = tx_nodeId ?m\<rparr>]"
    "\<forall>b. boots_from b t \<and> wf_txMessage (b_newMsg b) \<longrightarrow>
      (\<exists>u v r. tm_main b = Running u \<and> tm_log u = tm_log t \<and> tx_tid ?m \<notin> tids u \<and>
         handleWorkerMsg (Received demo_addr (txBytes ?p @ []) 0) u = Running v \<and>
         tm_outbox v = tm_outbox u @ [(demo_addr, txBytes r)] \<and> tx_msgID r = DECIDE_COMMIT \<and> tx_tid r = tx_tid ?m \<and>
         tx_nodeId r = tx_nodeId ?p \<and> tm_log v = tm_log t)" by blast
  have "boots_from (?b t) t" by (simp add: boots_from_def)
  moreover have "wf_txMessage (b_newMsg (?b t))" by (simp add: demo_boot_def)
  ultimately obtain u v r where "tm_main (?b t) = Running u"
    "handleWorkerMsg (Received demo_addr (txBytes ?p @ []) 0) u = Running v"
    "tm_outbox v = tm_outbox u @ [(demo_addr, txBytes r)]" "tx_msgID r = DECIDE_COMMIT"
    using t(3) by blast
  then show ?thesis using t(1,2) by (intro exI [of _ t] exI [of _ u] exI [of _ v] exI [of _ r]) simp
qed

text \<open>
  C36: a restart splits the decision.  The manager goes down while the last vote of a transaction is
  on its way.  Started again on its files it tells every member to abort, but it logs no abort and
  frees no row, its log and its table being those before it went down; the vote then arrives, the
  manager logs the commit and tells every member to commit.
\<close>

theorem restart_splits_decision:
  assumes "boots_from b s" and "wf_tm s" and "wf_txMessage (b_newMsg b)" and "length (tm_log s) \<le> 214"
    and "wf_txMessage v" and "tx_msgID v = VOTE_COMMIT" and "tx_isCrash v \<noteq> 1"
    and "find_row (tx_tid v) s = Some row" and "i_isCrash row \<noteq> 1" and "others_yes v row"
    and "\<not> committed (tx_tid v) s"
  shows "\<exists>t msgs u out. tm_main b = Running t \<and> tm_log t = tm_log s \<and> tm_rows t = tm_rows s \<and>
    tm_outbox t = map (apsnd txBytes) msgs \<and>
    (\<forall>w \<in> set (addressees (tx_tid v) (tm_rows s)). (w_workerAddr w, DECIDE_ABORT, tx_tid v) \<in> set (headers msgs)) \<and>
    handleWorkerMsg (Received a (txBytes v @ rest) c) t = Running u \<and> committed (tx_tid v) u \<and>
    tm_outbox u = tm_outbox t @ map (apsnd txBytes) out \<and>
    headers out = map (\<lambda>w. (w_workerAddr w, DECIDE_COMMIT, tx_tid v)) (addressees (tx_tid v) (tm_rows s))"
proof -
  obtain t msgs where t: "tm_main b = Running t" "tm_log t = tm_log s" "tm_rows t = tm_rows s" "wf_tm t"
    "tm_outbox t = map (apsnd txBytes) msgs"
    and h: "headers msgs = concat (map (\<lambda>tid. map (\<lambda>w. (w_workerAddr w, DECIDE_ABORT, tid)) (addressees tid (tm_rows s)))
      (undecided s))"
    using restart_aborts [OF assms(1-4)] by blast
  have "tx_tid v \<in> set (map i_tid (tm_rows s))" 
    using assms(8) by (metis (mono_tags, lifting) find_row_None image_eqI list.set_map option.distinct(1))
  then have "tx_tid v \<in> set (undecided s)" using assms(11) unfolding undecided_def by simp
  then have ab: "\<forall>w \<in> set (addressees (tx_tid v) (tm_rows s)). (w_workerAddr w, DECIDE_ABORT, tx_tid v) \<in> set (headers msgs)"
    unfolding h by auto
  have fr: "find_row (tx_tid v) t = Some row" using assms(8) t(3) by (simp add: find_row_def)
  obtain u where "handleWorkerMsg (Received a (txBytes v @ rest) c) t = Running u"
    "tm_log u = tm_log t @ [\<lparr>cr_msgID = DECIDE_COMMIT, cr_tid = tx_tid v, cr_nodeId = tx_nodeId v\<rparr>]"
    "tm_outbox u = tm_outbox t @ map (apsnd txBytes) (broadcast (tm_port t) v DECIDE_COMMIT (tm_newMsg t)
        (merge_clocks (tx_vectorClock v) (tick (tm_port t) (tm_clock t))) (addressees (tx_tid v) (tm_rows t)))"
    using unanimous_step [OF t(4) assms(5-7) fr assms(9,10), of a rest c] by blast
  then show ?thesis using t(1-3,5) ab
    by (intro exI [of _ t] exI [of _ msgs] exI [of _ u] exI conjI) (assumption | simp add: t(3) committed_append headers_broadcast)+
qed

theorem restart_splits_decision_witness:
  "\<exists>b t u. boots_from b (demo_tm [] (demo_rows 7 0 VOTE_COMMIT)) \<and> tm_main b = Running t \<and>
     (\<exists>m. (\<lparr>sin_addr = 0, sin_port = 5001\<rparr>, txBytes m) \<in> set (tm_outbox t) \<and> tx_msgID m = DECIDE_ABORT \<and> tx_tid m = 7) \<and>
     handleWorkerMsg (Received demo_addr (txBytes (demo_msg VOTE_COMMIT 7 1111) @ []) 0) t = Running u \<and> committed 7 u"
proof -
  let ?s = "demo_tm [] (demo_rows 7 0 VOTE_COMMIT)"
  let ?b = "demo_boot\<lparr>b_file := Some (tm_crashInfo ?s, tm_log ?s)\<rparr>"
  let ?v = "demo_msg VOTE_COMMIT 7 1111" and ?a = "\<lparr>sin_addr = 0, sin_port = 5001\<rparr> :: sockaddr_in"
  have b: "boots_from ?b ?s"
    by (simp add: boots_from_def demo_boot_def) (simp add: demo_tm_def)
  have nm: "wf_txMessage (b_newMsg ?b)" by (simp add: demo_boot_def)
  have k: "wf_tm ?s" "length (tm_log ?s) \<le> 214" "wf_txMessage ?v" "tx_msgID ?v = VOTE_COMMIT" "tx_isCrash ?v \<noteq> 1"
    "find_row (tx_tid ?v) ?s = Some (demo_row 7 0 VOTE_COMMIT)" "i_isCrash (demo_row 7 0 VOTE_COMMIT) \<noteq> 1"
    "others_yes ?v (demo_row 7 0 VOTE_COMMIT)" "\<not> committed (tx_tid ?v) ?s"
    by (simp_all add: committed_def demo_others_yes)
  obtain t msgs u where t: "tm_main ?b = Running t" "tm_outbox t = map (apsnd txBytes) msgs"
    "\<forall>w \<in> set (addressees (tx_tid ?v) (tm_rows ?s)). (w_workerAddr w, DECIDE_ABORT, tx_tid ?v) \<in> set (headers msgs)"
    "handleWorkerMsg (Received demo_addr (txBytes ?v @ []) 0) t = Running u" "committed (tx_tid ?v) u"
    using restart_splits_decision [OF b k(1) nm k(2-9), of demo_addr "[]" 0] by blast
  have "map w_workerAddr (addressees 7 (demo_rows 7 0 VOTE_COMMIT)) = [?a, \<lparr>sin_addr = 0, sin_port = 5002\<rparr>]"
    by (simp add: demo_rows_def addressees_empty) (simp add: demo_row_def demo_worker_def)
  then have "?a \<in> w_workerAddr ` set (addressees 7 (demo_rows 7 0 VOTE_COMMIT))"
    by (metis list.set_intros(1) list.set_map)
  with t(3) have "(?a, DECIDE_ABORT, 7) \<in> set (headers msgs)" by auto
  then obtain m where "(?a, m) \<in> set msgs" "tx_msgID m = DECIDE_ABORT" "tx_tid m = 7" by (auto simp: headers_def)
  then have "\<exists>m. (?a, txBytes m) \<in> set (tm_outbox t) \<and> tx_msgID m = DECIDE_ABORT \<and> tx_tid m = 7"
    unfolding t(2) by force
  with b t(1,4,5) show ?thesis by (intro exI [of _ ?b] exI [of _ t] exI [of _ u]) simp
qed

subsection \<open>The clock after a first start\<close>

lemma sendToRows_no_ports:
  "\<forall>i \<in> set rows. \<forall>w \<in> set (i_workers i). w_port w = 0 \<Longrightarrow> sendToRows m k rows ns = ns"
proof (induction rows)
  case (Cons i rows)
  have "fold (sendToWorker m k) ws ns = ns" if "\<forall>w \<in> set ws. w_port w = 0" for ws
    using that by (induction ws) (auto simp: sendToWorker_def split: prod.split)
  with Cons show ?case by simp
qed simp

lemma resend_aborts_no_ports:
  "\<forall>i \<in> set (tm_rows s). \<forall>w \<in> set (i_workers i). w_port w = 0 \<Longrightarrow> resend_aborts m nm ts s = s"
  by (induction ts) (simp_all add: sendToAllWorkers_def sendToRows_no_ports)

lemma tick_no_clocks: "p \<noteq> 0 \<Longrightarrow> tick p (replicate n no_clock) = replicate n no_clock"
  by (induction n) (simp_all add: tick_Cons no_clock_def)

text \<open>
  A crash before the first datagram loses the manager's clock.  The first start saves the
  vector clock before it initialises it, so the header on disk holds only zeros; a manager that
  dies before an event saves the clock again restarts with a clock without an entry for itself,
  and its ticks then change nothing.
\<close>

theorem first_start_clock_lost:
  assumes "b_file b = None" and "b_fileExist b = 0" and "b_port b \<noteq> 0"
    and "tm_main b = Running s" and "boots_from b' s" and "tm_main b' = Running t"
  shows "vtime (tm_clock s) (b_port b) = 1 \<and> tm_clock t = replicate MAX_NODES no_clock \<and>
    tick (b_port b) (tm_clock t) = tm_clock t"
proof -
  have s: "s = tm_first_start (boot_state b)"
    using assms(1,2,4) by (simp add: tm_main_def Let_def)
  have saved: "cc_vectorClock (tm_crashInfo s) = replicate MAX_NODES no_clock" and port: "tm_port s = b_port b"
    and clk: "vtime (tm_clock s) (b_port b) = 1"
    using assms(1) by (simp_all add: s tm_first_start_def boot_state_def Let_def saveVectorTime_def set_rows_def)
  have ports: "\<forall>i \<in> set (tm_rows s). \<forall>w \<in> set (i_workers i). w_port w = 0"
    by (simp add: s tm_first_start_def Let_def init_row_def clean_worker_def)
  let ?s0 = "restoreVectorTime (boot_state b')"
  have boot: "tm_crashInfo (boot_state b') = tm_crashInfo s" "tm_port (boot_state b') = tm_port s"
    using assms(5) by (simp_all add: boots_from_def boot_state_def)
  have z: "tm_clock (tickMyClock ?s0) = replicate MAX_NODES no_clock"
    using tick_no_clocks [OF assms(3), of 10] saved port boot by (simp add: restoreVectorTime_def)
  have "tm_clock t = tm_clock (tickMyClock ?s0)"
    using assms(5,6) ports boot
    by (auto simp: tm_main_def tm_restart_def Let_def boots_from_def findStateFromRecord_def
        resend_aborts_no_ports restoreVectorTime_def split: option.splits)
  then show ?thesis using z clk tick_no_clocks [OF assms(3)] by simp
qed

theorem first_start_clock_lost_witness:
  "\<exists>s b' t. tm_main demo_boot = Running s \<and> boots_from b' s \<and> tm_main b' = Running t \<and>
     tm_clock t = replicate 10 no_clock"
proof -
  let ?s = "tm_first_start (boot_state demo_boot)"
  let ?b = "demo_boot\<lparr>b_file := Some (tm_crashInfo ?s, tm_log ?s), b_shiviz := tm_shiviz ?s\<rparr>"
  have s: "tm_main demo_boot = Running ?s" by (simp add: tm_main_def demo_boot_def Let_def)
  have log: "tm_log ?s = []" "tm_host ?s = Little" "tm_port ?s = 1234"
    by (simp_all add: tm_first_start_def boot_state_def demo_boot_def Let_def)
  have b: "boots_from ?b ?s" using log by (simp add: boots_from_def) (simp add: demo_boot_def)
  have "findStateFromRecord u \<noteq> Undefined" if "tm_log u = []" for u
    using findStateFromRecord_spec [of u] that by simp
  moreover have "tm_log (writeLocalEventToLog RESTARTED (saveVectorTime (tickMyClock
      (restoreVectorTime (boot_state ?b))))) = []"
    using log by (simp add: restoreVectorTime_def boot_state_def)
  ultimately obtain t where t: "tm_main ?b = Running t"
    using findStateFromRecord_spec [of "writeLocalEventToLog RESTARTED (saveVectorTime (tickMyClock
      (restoreVectorTime (boot_state ?b))))"]
    by (simp add: tm_main_def tm_restart_def Let_def)
  show ?thesis
    using first_start_clock_lost [OF _ _ _ s b t] s b t by (auto simp: demo_boot_def)
qed

end
