(* ===== verification/TManagerEffect.thy ===== *)
theory TManagerEffect
  imports TManagerLife
begin

text \<open>
  What one event can do to one transaction, as seen from outside the manager: whether the
  transaction is in the table, whether a decision about it is in the log, whether it has members,
  and which datagrams about it leave the process.  These are the facts that the composition with
  the workers and the network rests on.
\<close>

subsection \<open>The view of one transaction\<close>

definition rows_of :: "u32 \<Rightarrow> tm_state \<Rightarrow> trans_info list" where
  "rows_of tid s = filter (\<lambda>i. i_tid i = tid) (tm_rows s)"

definition decided :: "u32 \<Rightarrow> tm_state \<Rightarrow> bool" where
  "decided tid s \<longleftrightarrow>
     (\<exists>r \<in> set (tm_log s). cr_tid r = tid \<and> (cr_msgID r = DECIDE_COMMIT \<or> cr_msgID r = DECIDE_ABORT))"

definition has_port :: "u32 \<Rightarrow> tm_state \<Rightarrow> bool" where
  "has_port tid s \<longleftrightarrow> addressees tid (tm_rows s) \<noteq> []"

text \<open>A member that can be written to has a node id, and no vote in the table is a no.\<close>

definition row_ok :: "trans_info \<Rightarrow> bool" where
  "row_ok i \<longleftrightarrow> (\<forall>w \<in> set (i_workers i). (w_port w \<noteq> 0 \<longrightarrow> w_nodeId w \<noteq> 0) \<and>
     w_voteYes w \<noteq> VOTE_ABORT \<and> w_voteYes w \<noteq> ABORT)"

definition tm_ok :: "tm_state \<Rightarrow> bool" where
  "tm_ok s \<longleftrightarrow> wf_tm s \<and> list_all row_ok (tm_rows s)"

definition manager_kinds :: "u32 set" where
  "manager_kinds = {BEGIN_FAIL, BEGIN_SUCCESS, JOIN_FAIL, JOIN_SUCCESS, PREPARE_COMMIT, DECIDE_COMMIT, DECIDE_ABORT}"

definition tm_receives :: "u32 \<Rightarrow> u32 \<Rightarrow> endian \<Rightarrow> tm_event \<Rightarrow> bool" where
  "tm_receives k tid h e =
     (case e of
        Received a buf c \<Rightarrow>
          (case deserializeWorkerMsg h buf of None \<Rightarrow> False | Some m \<Rightarrow> tx_msgID m = k \<and> tx_tid m = tid)
      | _ \<Rightarrow> False)"

text \<open>A yes or a poll.\<close>

definition tm_asked :: "u32 \<Rightarrow> endian \<Rightarrow> tm_event \<Rightarrow> bool" where
  "tm_asked tid h e \<longleftrightarrow> tm_receives VOTE_COMMIT tid h e \<or> tm_receives POLL_DECISION tid h e"

lemma begins_receives: "begins tid e s = tm_receives BEGINTX tid (tm_host s) e"
  by (simp add: begins_def tm_receives_def)

lemma tids_rows_of: "tid \<in> tids s \<longleftrightarrow> rows_of tid s \<noteq> []"
  by (auto simp: tids_def rows_of_def filter_empty_conv)

lemma addressees_rows_of:
  "addressees tid (tm_rows s) = filter (\<lambda>w. w_port w \<noteq> 0) (concat (map i_workers (rows_of tid s)))"
  by (simp add: addressees_def rows_of_def)

lemma has_port_tids: "has_port tid s \<Longrightarrow> tid \<in> tids s"
  by (auto simp: has_port_def addressees_rows_of tids_rows_of)

lemma committed_decided: "committed tid s \<Longrightarrow> decided tid s"
  by (auto simp: committed_def decided_def)

lemma decided_append:
  "tm_log t = tm_log s @ [r] \<Longrightarrow> decided tid t \<longleftrightarrow>
    decided tid s \<or> (cr_tid r = tid \<and> (cr_msgID r = DECIDE_COMMIT \<or> cr_msgID r = DECIDE_ABORT))"
  by (auto simp: decided_def)

lemma decided_same: "tm_log t = tm_log s \<Longrightarrow> decided tid t = decided tid s"
  by (simp add: decided_def)

lemma has_port_rows: "rows_of tid t = rows_of tid s \<Longrightarrow> has_port tid t = has_port tid s"
  by (simp add: has_port_def addressees_rows_of)

subsection \<open>Effects\<close>

text \<open>
  The datagrams \<open>out\<close> leave the process while its state goes from \<open>s\<close> to \<open>t\<close>; \<open>voted\<close> says that the
  event brought a vote or a poll for the transaction.
\<close>

definition out_ok :: "u32 \<Rightarrow> bool \<Rightarrow> tm_state \<Rightarrow> tm_state \<Rightarrow> txMessage \<Rightarrow> bool" where
  "out_ok tid voted s t m \<longleftrightarrow> wf_txMessage m \<and> tx_msgID m \<in> manager_kinds \<and>
     (tx_tid m = tid \<longrightarrow>
       (tx_msgID m = DECIDE_COMMIT \<longrightarrow> committed tid t \<and> tid \<notin> tids t) \<and>
       (tx_msgID m = DECIDE_ABORT \<longrightarrow> \<not> committed tid t \<and> tid \<notin> tids t \<and> (tid \<in> tids s \<or> voted)) \<and>
       (tx_msgID m = PREPARE_COMMIT \<longrightarrow> tid \<in> tids t \<and> has_port tid t))"

definition effect :: "u32 \<Rightarrow> bool \<Rightarrow> tm_state \<Rightarrow> tm_state \<Rightarrow> bool" where
  "effect tid voted s t \<longleftrightarrow> tm_ok t \<and> length (rows_of tid t) \<le> 1 \<and>
     (tid \<in> tids s \<and> tid \<notin> tids t \<longrightarrow> decided tid t) \<and>
     (tid \<in> tids t \<and> decided tid t \<longrightarrow> decided tid s) \<and>
     (tid \<in> tids t \<and> has_port tid s \<longrightarrow> has_port tid t) \<and>
     (\<exists>out. tm_outbox t = tm_outbox s @ map (apsnd txBytes) out \<and>
        (\<forall>(a, m) \<in> set out. out_ok tid voted s t m))"

definition tx_inv :: "u32 \<Rightarrow> tm_state \<Rightarrow> bool" where
  "tx_inv tid s \<longleftrightarrow> tm_ok s \<and> length (rows_of tid s) \<le> 1 \<and> (tid \<in> tids s \<longrightarrow> \<not> decided tid s)"

text \<open>A change that only the clock, the votes and the crash flags see.\<close>

definition same_view :: "u32 \<Rightarrow> tm_state \<Rightarrow> tm_state \<Rightarrow> bool" where
  "same_view tid s t \<longleftrightarrow> tm_ok t \<and> contacts (tm_rows t) = contacts (tm_rows s) \<and>
     tm_log t = tm_log s \<and> tm_outbox t = tm_outbox s"

lemma contacts_rows_of:
  assumes "contacts (tm_rows t) = contacts (tm_rows s)"
  shows "length (rows_of tid t) = length (rows_of tid s)" and "tids t = tids s"
    and "has_port tid t = has_port tid s"
proof -
  have ids: "map i_tid (tm_rows t) = map i_tid (tm_rows s)" by (rule contacts_tids [OF assms])
  have len: "length (rows_of tid u) = length (filter (\<lambda>x. x = tid) (map i_tid (tm_rows u)))" for u
    by (simp add: rows_of_def filter_map comp_def)
  show "length (rows_of tid t) = length (rows_of tid s)" by (simp only: len ids)
  show "tids t = tids s" by (rule tids_map [OF ids])
  have "map (\<lambda>w. (w_workerAddr w, w_nodeId w)) (addressees tid (tm_rows t)) =
      map (\<lambda>w. (w_workerAddr w, w_nodeId w)) (addressees tid (tm_rows s))"
    by (simp only: addressees_contacts assms)
  then have "length (addressees tid (tm_rows t)) = length (addressees tid (tm_rows s))"
    by (rule map_eq_imp_length_eq)
  then show "has_port tid t = has_port tid s" unfolding has_port_def by (metis length_0_conv)
qed

lemma same_viewD:
  assumes "same_view tid s t"
  shows "tids t = tids s" "length (rows_of tid t) = length (rows_of tid s)"
    "has_port tid t = has_port tid s" "committed tid t = committed tid s"
    "decided tid t = decided tid s" "tm_outbox t = tm_outbox s" "tm_ok t"
  using assms contacts_rows_of [of t s]
  by (simp_all add: same_view_def committed_def decided_def)

lemma same_view_inv: "same_view tid s t \<Longrightarrow> tx_inv tid s \<Longrightarrow> tx_inv tid t"
  by (simp add: tx_inv_def same_viewD)

lemma effect_after: "same_view tid s s' \<Longrightarrow> effect tid v s' t \<Longrightarrow> effect tid v s t"
  unfolding effect_def out_ok_def by (simp add: same_viewD)

lemma same_view_trans: "same_view tid s t \<Longrightarrow> same_view tid t u \<Longrightarrow> same_view tid s u"
  by (simp add: same_view_def)

lemma effect_quiet:
  assumes "same_view tid s t" and "length (rows_of tid s) \<le> 1"
  shows "effect tid v s t"
  using assms by (auto simp: effect_def same_viewD intro: exI [of _ "[]"])

subsection \<open>Operations that keep the view\<close>

lemma row_ok_record_vote:
  "row_ok i \<Longrightarrow> tx_msgID m \<noteq> VOTE_ABORT \<Longrightarrow> tx_msgID m \<noteq> ABORT \<Longrightarrow> row_ok (record_vote m i)"
  using set_upd_first [of "\<lambda>w. w_nodeId w = tx_nodeId m" "\<lambda>w. w\<lparr>w_voteYes := tx_msgID m\<rparr>" "i_workers i"]
  by (fastforce simp: row_ok_def record_vote_eq)

lemma rows_ok_crash:
  "list_all row_ok (tm_rows s) \<Longrightarrow> list_all row_ok (tm_rows (setCrash m s))"
  "list_all row_ok (tm_rows s) \<Longrightarrow> list_all row_ok (tm_rows (resetCrash m s))"
  by (auto simp: setCrash_def resetCrash_def row_ok_def intro!: list_all_upd_first)

lemma row_ok_clean: "row_ok i \<Longrightarrow> row_ok (clean_row i)"
  by (auto simp: row_ok_def clean_row_def clean_worker_def)

lemma rows_ok_clean: "list_all row_ok (tm_rows s) \<Longrightarrow> list_all row_ok (tm_rows (cleanWorkerInfo tid s))"
  by (auto simp: cleanWorkerInfo_def intro!: list_all_upd_first row_ok_clean)

lemma contacts_crash [simp]:
  "contacts (tm_rows (setCrash m s)) = contacts (tm_rows s)"
  "contacts (tm_rows (resetCrash m s)) = contacts (tm_rows s)"
  by (simp_all add: setCrash_def resetCrash_def contacts_def map_upd_first)

lemma tm_ok_recv: "tm_ok s \<Longrightarrow> tm_ok (recv_state m s)"
  by (simp add: tm_ok_def recv_state_wf)

lemma same_view_recv: "tm_ok s \<Longrightarrow> same_view tid s (recv_state m s)"
  by (simp add: same_view_def tm_ok_recv)

lemma same_view_after_setCrash: "tm_ok s \<Longrightarrow> same_view tid s (after_setCrash m s)"
  by (simp add: same_view_def tm_ok_def after_setCrash_wf after_setCrash_contacts)
    (simp add: after_setCrash_def rows_ok_crash)

lemma same_view_tick: "tm_ok s \<Longrightarrow> same_view tid s (saveVectorTime (tickMyClock s))"
  by (simp add: same_view_def tm_ok_def wf_tm_clock_step(1))

lemma collectVote_facts:
  assumes "collectVote c m s = Some (d, t)" and "tm_ok s" and "tx_msgID m \<noteq> VOTE_ABORT" and "tx_msgID m \<noteq> ABORT"
  shows "same_view tid s t \<and>
    d = (case find_row (tx_tid m) s of
           Some row \<Rightarrow> tally c (i_workers (record_vote m row))
         | None \<Rightarrow> if committed (tx_tid m) s then DECIDE_COMMIT else DECIDE_ABORT)"
proof (cases "find_row (tx_tid m) s")
  case (Some row)
  then obtain i where i: "first_index (\<lambda>i. i_tid i = tx_tid m) (tm_rows s) = Some i" and row: "row = tm_rows s ! i"
    by (auto simp: find_row_Some_index)
  from collectVote_row [OF Some, of c] assms(1) have t: "d = tally c (i_workers (record_vote m row))"
    "tm_log t = tm_log s" "tm_outbox t = tm_outbox s" "contacts (tm_rows t) = contacts (tm_rows s)" by auto
  have "t = set_rows ((tm_rows s)[i := record_vote m row]) s"
    using assms(1) by (simp add: collectVote_def i row Let_def)
  moreover have "row_ok (record_vote m row)"
    using assms(2-4) first_indexD(1) [OF i] by (simp add: row tm_ok_def list_all_length row_ok_record_vote)
  ultimately have "list_all row_ok (tm_rows t)"
    using assms(2) set_update_subset_insert [of "tm_rows s" i "record_vote m row"]
    by (auto simp: tm_ok_def list_all_iff)
  moreover have "wf_tm t" using wf_collectVote [OF assms(1)] assms(2) by (simp add: tm_ok_def)
  ultimately show ?thesis using t Some by (simp add: same_view_def tm_ok_def)
next
  case None
  then have "first_index (\<lambda>i. i_tid i = tx_tid m) (tm_rows s) = None"
    by (simp add: find_row_def find_first_index)
  with assms(1) have "t = s \<and> d = (if committed (tx_tid m) s then DECIDE_COMMIT else DECIDE_ABORT)"
    by (auto simp: collectVote_def isCommit_eq split: if_splits)
  with None assms(2) show ?thesis by (simp add: same_view_def)
qed

subsection \<open>The handlers\<close>

lemma broadcast_wf:
  "wf_txMessage nm \<Longrightarrow> length vc = MAX_NODES \<Longrightarrow> (a, m') \<in> set (broadcast p m k nm vc ws) \<Longrightarrow> wf_txMessage m'"
proof (induction ws arbitrary: vc)
  case (Cons w ws)
  have "wf_txMessage (nm\<lparr>tx_msgID := x, tx_tid := y, tx_nodeId := z, tx_vectorClock := tick p vc\<rparr>)" for x y z
    using Cons.prems(2) by (simp add: wf_txMessage_def)
  with Cons.prems Cons.IH [of "tick p vc"] show ?case by auto
qed simp

lemma send_to_all:
  assumes "wf_tm s" and "wf_txMessage nm"
  shows "\<exists>out. tm_outbox (sendToAllWorkers m nm k s) = tm_outbox s @ map (apsnd txBytes) out \<and>
    (\<forall>(a, m') \<in> set out. wf_txMessage m' \<and> tx_msgID m' = k \<and> tx_tid m' = tx_tid m \<and> has_port (tx_tid m) s)"
proof -
  let ?out = "broadcast (tm_port s) m k nm (tm_clock s) (addressees (tx_tid m) (tm_rows s))"
  have wf: "wf_tm s" "wf_txMessage nm" "length (tm_clock s) = MAX_NODES"
    using assms by (simp_all add: wf_tm_def)
  have "wf_txMessage m' \<and> tx_msgID m' = k \<and> tx_tid m' = tx_tid m \<and> has_port (tx_tid m) s"
    if "(a, m') \<in> set ?out" for a m'
  proof -
    have "has_port (tx_tid m) s" using that unfolding has_port_def by (metis broadcast.simps(1) empty_iff list.set(1))
    with broadcast_wf [OF wf(2,3) that] broadcast_kinds [OF that] show ?thesis by blast
  qed
  then show ?thesis
    by (intro exI [of _ ?out] conjI) (rule sendToAllWorkers_outbox(1) [OF wf(1)], blast)
qed

lemma send_all:
  assumes "tm_ok s"
  shows "\<exists>out. tm_outbox (sendToAllWorkers m (tm_newMsg s) k s) = tm_outbox s @ map (apsnd txBytes) out \<and>
    (\<forall>(a, m') \<in> set out. wf_txMessage m' \<and> tx_msgID m' = k \<and> tx_tid m' = tx_tid m \<and> has_port (tx_tid m) s)"
  using assms by (intro send_to_all) (simp_all add: tm_ok_def wf_tm_def)

lemma filter_upd_first_other:
  "(\<And>x. P x \<Longrightarrow> \<not> Q x) \<Longrightarrow> (\<And>x. P x \<Longrightarrow> \<not> Q (f x)) \<Longrightarrow> filter Q (upd_first P f xs) = filter Q xs"
  by (induction xs) auto

lemma filter_upd_first_gone:
  assumes "length (filter P xs) \<le> 1" and "\<And>x. P x \<Longrightarrow> \<not> P (f x)"
  shows "filter P (upd_first P f xs) = []"
  using assms(1)
proof (induction xs)
  case (Cons x xs)
  then show ?case using assms(2) [of x] by (cases "P x") simp_all
qed simp

lemma rows_of_clean:
  assumes "tid \<noteq> 0"
  shows "tid' \<noteq> tid \<Longrightarrow> rows_of tid (cleanWorkerInfo tid' s) = rows_of tid s"
    and "length (rows_of tid s) \<le> 1 \<Longrightarrow> rows_of tid (cleanWorkerInfo tid s) = []"
  using assms
  by (auto simp: rows_of_def cleanWorkerInfo_def clean_row_def intro!: filter_upd_first_other filter_upd_first_gone)

lemma rows_of_send [simp]:
  "rows_of tid (sendToAllWorkers m nm k s) = rows_of tid s" "rows_of tid (set_rec x y z s) = rows_of tid s"
  "rows_of tid (writeRecordToLog r s) = rows_of tid s" "rows_of tid (saveVectorTime s) = rows_of tid s"
  "rows_of tid (tickMyClock s) = rows_of tid s" "rows_of tid (writeLocalEventToLog j s) = rows_of tid s"
  by (simp_all add: rows_of_def)

lemma tm_ok_ops:
  assumes "tm_ok s"
  shows "tm_ok (saveVectorTime (tickMyClock s))" "tm_ok (writeLocalEventToLog k s)"
    "tm_ok (set_rec x y z s)" "tm_ok (writeRecordToLog r s)" "tm_ok (sendToAllWorkers m nm k s)"
    "tm_ok (cleanWorkerInfo tid s)" "tm_ok (resetCrash m s)" "tm_ok (setCrash m s)" "tm_ok (reply m k a s)"
  using assms
  by (simp_all add: tm_ok_def wf_tm_clock_step wf_sendToAllWorkers wf_cleanWorkerInfo wf_setCrash rows_ok_clean
      rows_ok_crash wf_reply)

text \<open>The record of a decision, the crash or the broadcast, and the end of the row.\<close>

lemma effect_close:
  assumes "tx_inv tid s" and "tid \<noteq> 0" and "k = DECIDE_COMMIT \<or> k = DECIDE_ABORT"
    and "tm_log t = tm_log s @ [r]" and "cr_msgID r = k" and "cr_tid r = tid'"
    and "tm_ok t" and "tid' \<noteq> tid \<Longrightarrow> rows_of tid t = rows_of tid s" and "tid' = tid \<Longrightarrow> rows_of tid t = []"
    and "tm_outbox t = tm_outbox s @ map (apsnd txBytes) out"
    and "\<And>a m. (a, m) \<in> set out \<Longrightarrow> wf_txMessage m \<and> tx_msgID m = k \<and> tx_tid m = tid' \<and> has_port tid' s"
  shows "effect tid v s t"
proof -
  have "\<forall>(a, m) \<in> set out. out_ok tid v s t m"
  proof safe
    fix a m
    assume "(a, m) \<in> set out"
    from assms(11) [OF this] have m: "wf_txMessage m" "tx_msgID m = k" "tx_tid m = tid'" "has_port tid' s" by simp_all
    have "tid \<in> tids s" "tid \<notin> tids t" "\<not> decided tid s" if "tid' = tid"
      using that m(4) assms(1,9) by (auto simp: has_port_tids tids_rows_of tx_inv_def dest: has_port_tids)
    then show "out_ok tid v s t m"
      using m assms(3-6) committed_decided [of tid s]
      by (auto simp: out_ok_def manager_kinds_def committed_append)
  qed
  moreover have "tid \<in> tids t \<Longrightarrow> tid' \<noteq> tid" using assms(9) by (auto simp: tids_rows_of)
  ultimately show ?thesis
    using assms(1,3-10) has_port_rows [of tid t s]
    unfolding effect_def tx_inv_def
    by (cases "tid' = tid") (auto simp: decided_append tids_rows_of)
qed

lemma effect_decide:
  assumes "tx_inv tid s" and "tid \<noteq> 0" and "k = DECIDE_COMMIT \<or> k = DECIDE_ABORT"
  shows "out_all (effect tid v s) (decide m k s)"
proof -
  let ?r = "\<lparr>cr_msgID = k, cr_tid = tx_tid m, cr_nodeId = tx_nodeId m\<rparr>"
  let ?s = "writeRecordToLog ?r (set_rec k (tx_tid m) (tx_nodeId m) s)"
  have ok: "tm_ok ?s" and uniq: "length (rows_of tid s) \<le> 1" using assms(1) by (simp_all add: tx_inv_def tm_ok_ops)
  show ?thesis
  proof (cases "getCrash m ?s = 1")
    case True
    let ?u = "writeLocalEventToLog CRASH (saveVectorTime (tickMyClock (resetCrash m ?s)))"
    let ?t = "cleanWorkerInfo (tx_tid m) ?u"
    have d: "decide m k s = Exited ?t" using True by (simp add: decide_def Let_def)
    have "rows_of tid ?u = rows_of tid s" if "tid \<noteq> tx_tid m"
      using that by (simp add: rows_of_def resetCrash_def filter_upd_first_other)
    moreover have "length (rows_of tid ?u) = length (rows_of tid s)"
      using contacts_rows_of(1) [of "resetCrash m ?s" ?s] by simp
    ultimately have rows: "tx_tid m \<noteq> tid \<Longrightarrow> rows_of tid ?t = rows_of tid s" "tx_tid m = tid \<Longrightarrow> rows_of tid ?t = []"
      using rows_of_clean(1) [OF assms(2), of "tx_tid m" ?u] rows_of_clean(2) [OF assms(2), of ?u] uniq by auto
    have "effect tid v s ?t"
      by (rule effect_close [OF assms, where tid' = "tx_tid m" and r = ?r and out = "[]"])
        (use rows ok in \<open>simp_all add: tm_ok_ops\<close>)
    then show ?thesis by (simp add: d)
  next
    case False
    let ?t = "cleanWorkerInfo (tx_tid m) (sendToAllWorkers m (tm_newMsg ?s) k ?s)"
    have d: "decide m k s = Running ?t" using False by (simp add: decide_def Let_def)
    obtain out where out: "tm_outbox (sendToAllWorkers m (tm_newMsg ?s) k ?s) = tm_outbox ?s @ map (apsnd txBytes) out"
      "\<forall>(a, m') \<in> set out. wf_txMessage m' \<and> tx_msgID m' = k \<and> tx_tid m' = tx_tid m \<and> has_port (tx_tid m) ?s"
      using send_all [OF ok, of m k] by blast
    have hp: "has_port (tx_tid m) ?s = has_port (tx_tid m) s" by (rule has_port_rows) simp
    have "effect tid v s ?t"
      by (rule effect_close [OF assms, where tid' = "tx_tid m" and r = ?r and out = out])
        (use out hp ok uniq rows_of_clean [OF assms(2)] in \<open>auto simp: tm_ok_ops\<close>)
    then show ?thesis by (simp add: d)
  qed
qed

text \<open>Begin and join.\<close>

lemma filter_update_other: "\<not> P (xs ! i) \<Longrightarrow> \<not> P y \<Longrightarrow> filter P (xs[i := y]) = filter P xs"
proof (induction xs arbitrary: i)
  case (Cons x xs)
  then show ?case by (cases i) auto
qed simp

lemma filter_update_new: "filter P xs = [] \<Longrightarrow> length (filter P (xs[i := y])) \<le> 1"
proof (induction xs arbitrary: i)
  case (Cons x xs)
  then show ?case by (cases i) (auto split: if_splits)
qed simp

lemma filter_update_sole:
  "length (filter P xs) \<le> 1 \<Longrightarrow> i < length xs \<Longrightarrow> P (xs ! i) \<Longrightarrow> P y \<Longrightarrow>
    filter P xs = [xs ! i] \<and> filter P (xs[i := y]) = [y]"
proof (induction xs arbitrary: i)
  case (Cons x xs)
  show ?case
  proof (cases i)
    case 0
    with Cons.prems show ?thesis by simp
  next
    case (Suc j)
    with Cons.prems have "xs ! j \<in> set (filter P xs)" by simp
    then have "filter P xs \<noteq> []" by force
    with Cons.prems(1) have "\<not> P x" by (cases "P x") simp_all
    with Suc Cons.prems Cons.IH [of j] show ?thesis by simp
  qed
qed simp

lemma row_ok_add_worker:
  assumes "row_ok i" and "n \<noteq> 0"
  shows "row_ok (add_worker p n a i)"
proof -
  have "list_all (\<lambda>w. (w_port w \<noteq> 0 \<longrightarrow> w_nodeId w \<noteq> 0) \<and> w_voteYes w \<noteq> VOTE_ABORT \<and> w_voteYes w \<noteq> ABORT)
      (i_workers (add_worker p n a i))"
    using assms by (simp add: row_ok_def add_worker_def) (rule list_all_upd_first; simp add: list_all_iff)
  then show ?thesis by (simp add: row_ok_def list_all_iff)
qed

lemma port_kept:
  "filter (\<lambda>w. w_port w \<noteq> 0) ws \<noteq> [] \<Longrightarrow> filter (\<lambda>w. w_port w \<noteq> 0) (upd_first (\<lambda>w. w_port w = 0) f ws) \<noteq> []"
  by (induction ws) auto

lemma save_row:
  assumes "tm_ok s" and "tid \<noteq> 0" and "length (rows_of tid s) \<le> 1" and "i < length (tm_rows s)"
    and "i_tid (tm_rows s ! i) = t \<or> i_tid (tm_rows s ! i) = 0" and "i_tid row = t" and "row_ok row"
    and "length (i_workers row) = length (i_workers (tm_rows s ! i))"
    and "t = tid \<Longrightarrow> tid \<notin> tids s \<or> (i_tid (tm_rows s ! i) = tid \<and>
      (filter (\<lambda>w. w_port w \<noteq> 0) (i_workers (tm_rows s ! i)) \<noteq> [] \<longrightarrow> filter (\<lambda>w. w_port w \<noteq> 0) (i_workers row) \<noteq> []))"
  shows "tm_ok (set_rows ((tm_rows s)[i := row]) s) \<and> length (rows_of tid (set_rows ((tm_rows s)[i := row]) s)) \<le> 1 \<and>
    (tid \<in> tids s \<longrightarrow> tid \<in> tids (set_rows ((tm_rows s)[i := row]) s)) \<and>
    (has_port tid s \<longrightarrow> has_port tid (set_rows ((tm_rows s)[i := row]) s))"
proof -
  let ?t = "set_rows ((tm_rows s)[i := row]) s"
  have "tm_ok ?t"
    using assms(1,4,7,8) set_update_subset_insert [of "tm_rows s" i row]
    by (auto simp: tm_ok_def list_all_iff intro!: wf_set_rows wf_rows_update wf_tm_rows)
  moreover have "length (rows_of tid ?t) \<le> 1 \<and> (tid \<in> tids s \<longrightarrow> tid \<in> tids ?t) \<and> (has_port tid s \<longrightarrow> has_port tid ?t)"
  proof (cases "t = tid")
    case False
    then have "rows_of tid ?t = rows_of tid s"
      using assms(2,5,6) by (auto simp: rows_of_def intro!: filter_update_other)
    with has_port_rows [OF this] assms(3) show ?thesis by (simp add: tids_rows_of)
  next
    case True
    show ?thesis
    proof (cases "tid \<in> tids s")
      case False
      then have "filter (\<lambda>i. i_tid i = tid) (tm_rows s) = []" by (simp add: tids_rows_of rows_of_def)
      from filter_update_new [OF this, of i row] have "length (rows_of tid ?t) \<le> 1" by (simp add: rows_of_def)
      with False show ?thesis using has_port_tids [of tid s] by blast
    next
      case in_table: True
      have sole: "rows_of tid s = [tm_rows s ! i] \<and> rows_of tid ?t = [row]"
        using filter_update_sole [of "\<lambda>i. i_tid i = tid" "tm_rows s" i row] assms(3,4,6,9) True in_table
        by (simp add: rows_of_def)
      then have "has_port tid s \<longleftrightarrow> filter (\<lambda>w. w_port w \<noteq> 0) (i_workers (tm_rows s ! i)) \<noteq> []"
        "has_port tid ?t \<longleftrightarrow> filter (\<lambda>w. w_port w \<noteq> 0) (i_workers row) \<noteq> []"
        "tid \<in> tids ?t" "length (rows_of tid ?t) \<le> 1"
        unfolding has_port_def addressees_rows_of tids_rows_of by simp_all
      then show ?thesis using assms(9) [OF True] in_table by blast
    qed
  qed
  ultimately show ?thesis by blast
qed

lemma save_facts:
  assumes "saveWorkerInfo p t k n a s = Some (err, s')" and "tm_ok s" and "tid \<noteq> 0" and "length (rows_of tid s) \<le> 1"
    and "k = JOINTX \<longrightarrow> n \<noteq> 0" and "k = BEGINTX \<or> k = JOINTX" and "k = BEGINTX \<and> t = tid \<longrightarrow> tid \<notin> tids s"
  shows "tm_ok s' \<and> length (rows_of tid s') \<le> 1 \<and> (tid \<in> tids s \<longrightarrow> tid \<in> tids s') \<and> (has_port tid s \<longrightarrow> has_port tid s')"
    and "tm_log s' = tm_log s" and "tm_outbox s' = tm_outbox s"
proof -
  show "tm_log s' = tm_log s" using log_saveWorkerInfo [OF assms(1)] by simp
  show "tm_outbox s' = tm_outbox s" using assms(1)
    by (auto simp: saveWorkerInfo_def Let_def split: option.splits if_splits)
  show "tm_ok s' \<and> length (rows_of tid s') \<le> 1 \<and> (tid \<in> tids s \<longrightarrow> tid \<in> tids s') \<and> (has_port tid s \<longrightarrow> has_port tid s')"
  proof (cases "s' = s")
    case True
    then show ?thesis using assms(2,4) by simp
  next
    case False
    then obtain i where i: "first_index (\<lambda>i. i_tid i = t \<or> i_tid i = 0) (tm_rows s) = Some i"
      using assms(1) by (cases "first_index (\<lambda>i. i_tid i = t \<or> i_tid i = 0) (tm_rows s)")
        (auto simp: saveWorkerInfo_def split: if_splits)
    let ?r = "(tm_rows s ! i)\<lparr>i_tid := t\<rparr>"
    let ?row = "if k = JOINTX then add_worker p n a ?r else ?r"
    have s': "s' = set_rows ((tm_rows s)[i := ?row]) s"
      "k = BEGINTX \<Longrightarrow> i_tid (tm_rows s ! i) \<noteq> t" "k = JOINTX \<Longrightarrow> i_tid (tm_rows s ! i) = t"
      using assms(1) False by (auto simp: saveWorkerInfo_def i Let_def split: if_splits)
    have r: "row_ok ?r" using assms(2) first_indexD(1) [OF i] by (simp add: tm_ok_def list_all_length row_ok_def)
    show ?thesis unfolding s'(1)
    proof (rule save_row [OF assms(2-4) first_indexD(1) [OF i] first_indexD(2) [OF i]])
      show "i_tid ?row = t" by (simp add: add_worker_def)
      show "row_ok ?row" using r assms(5) by (auto intro: row_ok_add_worker)
      show "length (i_workers ?row) = length (i_workers (tm_rows s ! i))" by simp
      show "tid \<notin> tids s \<or> (i_tid (tm_rows s ! i) = tid \<and>
          (filter (\<lambda>w. w_port w \<noteq> 0) (i_workers (tm_rows s ! i)) \<noteq> [] \<longrightarrow> filter (\<lambda>w. w_port w \<noteq> 0) (i_workers ?row) \<noteq> []))"
        if "t = tid"
        using that assms(6,7) s'(3) port_kept [of "i_workers ?r"] by (auto simp: add_worker_def)
    qed
  qed
qed

lemma effect_answer:
  assumes "tm_ok s'" and "length (rows_of tid s') \<le> 1" and "tid \<in> tids s \<longrightarrow> tid \<in> tids s'"
    and "has_port tid s \<longrightarrow> has_port tid s'" and "decided tid s' = decided tid s" and "tm_outbox s' = tm_outbox s"
    and "k \<in> {BEGIN_FAIL, BEGIN_SUCCESS, JOIN_FAIL, JOIN_SUCCESS}"
  shows "effect tid v s (reply m k a s')"
proof -
  let ?m = "constructMessage m (tm_newMsg s') k 0 s'"
  have wf: "wf_tm s'" using assms(1) by (simp add: tm_ok_def)
  have "wf_txMessage ?m" using wf by (rule wf_constructMessage)
  then have "out_ok tid v s (reply m k a s') ?m"
    using assms(7) by (auto simp: out_ok_def manager_kinds_def constructMessage_def)
  moreover have "rows_of tid (reply m k a s') = rows_of tid s'" by (simp add: rows_of_def)
  moreover have "decided tid (reply m k a s') = decided tid s'" by (simp add: decided_def)
  moreover have "tm_outbox (reply m k a s') = tm_outbox s @ map (apsnd txBytes) [(a, ?m)]"
    by (simp add: reply_outbox [OF wf] assms(6))
  ultimately show ?thesis
    using assms(1-5) has_port_rows [of tid "reply m k a s'" s'] unfolding effect_def
    by (intro conjI exI [of _ "[(a, ?m)]"]) (auto simp: tm_ok_ops)
qed

lemma save_tick:
  assumes "saveWorkerInfo p t k n a s = Some (err, s')" and "tx_inv tid s" and "tid \<noteq> 0"
    and "k = JOINTX \<longrightarrow> n \<noteq> 0" and "k = BEGINTX \<or> k = JOINTX" and "k = BEGINTX \<and> t = tid \<longrightarrow> tid \<notin> tids s"
  defines "u \<equiv> saveVectorTime (tickMyClock s')"
  shows "tm_ok u" "length (rows_of tid u) \<le> 1" "tid \<in> tids s \<longrightarrow> tid \<in> tids u" "has_port tid s \<longrightarrow> has_port tid u"
    "tm_log u = tm_log s" "tm_outbox u = tm_outbox s"
proof -
  have inv: "tm_ok s" "length (rows_of tid s) \<le> 1" using assms(2) by (simp_all add: tx_inv_def)
  note f = save_facts [OF assms(1) inv(1) assms(3) inv(2) assms(4-6)]
  have hp: "has_port tid u = has_port tid s'" unfolding u_def by (rule has_port_rows) simp
  show "tm_ok u" unfolding u_def using f(1) by (blast intro: tm_ok_ops)
  show "length (rows_of tid u) \<le> 1" unfolding u_def using f(1) by simp
  show "tid \<in> tids s \<longrightarrow> tid \<in> tids u" unfolding u_def using f(1) by simp
  show "has_port tid s \<longrightarrow> has_port tid u" unfolding hp using f(1) by blast
  show "tm_log u = tm_log s" "tm_outbox u = tm_outbox s" unfolding u_def using f(2,3) by simp_all
qed

lemma effect_begin:
  assumes "tx_inv tid s" and "tid \<noteq> 0" and "tx_msgID m = BEGINTX" and "tx_tid m = tid \<Longrightarrow> tid \<notin> tids s"
  shows "out_all (effect tid v s) (handle_begin m a s)"
proof (cases "saveWorkerInfo (ucast (sin_port a)) (tx_tid m) (tx_msgID m) (tx_nodeId m) a s")
  case (Some es)
  obtain err s' where es: "es = (err, s')" by (cases es)
  let ?u = "saveVectorTime (tickMyClock s')"
  have k: "tx_msgID m = JOINTX \<longrightarrow> tx_nodeId m \<noteq> 0" "tx_msgID m = BEGINTX \<or> tx_msgID m = JOINTX"
    "tx_msgID m = BEGINTX \<and> tx_tid m = tid \<longrightarrow> tid \<notin> tids s" using assms(3,4) by simp_all
  note f = save_tick [OF Some [unfolded es] assms(1,2) k]
  have "effect tid v s (reply m j a ?u)" if "j \<in> {BEGIN_FAIL, BEGIN_SUCCESS, JOIN_FAIL, JOIN_SUCCESS}" for j
    by (rule effect_answer [OF f(1-4) decided_same [OF f(5)] f(6) that])
  then show ?thesis by (simp add: handle_begin_def Some es Let_def)
qed (simp add: handle_begin_def)

lemma effect_join:
  assumes "tx_inv tid s" and "tid \<noteq> 0" and "tx_msgID m = JOINTX" and "tx_nodeId m \<noteq> 0"
  shows "out_all (effect tid v s) (handle_join m a s)"
proof (cases "saveWorkerInfo (ucast (sin_port a)) (tx_tid m) (tx_msgID m) (tx_nodeId m) a s")
  case (Some es)
  obtain err s' where es: "es = (err, s')" by (cases es)
  let ?u = "saveVectorTime (tickMyClock s')"
  let ?w = "writeRecordToLog \<lparr>cr_msgID = tx_msgID m, cr_tid = tx_tid m, cr_nodeId = tx_nodeId m\<rparr>
    (set_rec (tx_msgID m) (tx_tid m) (tx_nodeId m) ?u)"
  have k: "tx_msgID m = JOINTX \<longrightarrow> tx_nodeId m \<noteq> 0" "tx_msgID m = BEGINTX \<or> tx_msgID m = JOINTX"
    "tx_msgID m = BEGINTX \<and> tx_tid m = tid \<longrightarrow> tid \<notin> tids s" using assms(3,4) by simp_all
  note f = save_tick [OF Some [unfolded es] assms(1,2) k]
  have fail: "effect tid v s (reply m JOIN_FAIL a ?u)"
    by (rule effect_answer [OF f(1-4) decided_same [OF f(5)] f(6)]) simp
  have hp: "has_port tid ?w = has_port tid ?u" by (rule has_port_rows) simp
  have "decided tid ?w = decided tid ?u" using assms(3) by (simp add: decided_def)
  then have dec: "decided tid ?w = decided tid s" using decided_same [OF f(5)] by blast
  have "effect tid v s (reply m JOIN_SUCCESS a ?w)"
  proof (rule effect_answer [OF _ _ _ _ dec])
    show "tm_ok ?w" by (rule tm_ok_ops(4) [OF tm_ok_ops(3) [OF f(1)]])
    show "length (rows_of tid ?w) \<le> 1" using f(2) by (simp only: rows_of_send)
    show "tid \<in> tids s \<longrightarrow> tid \<in> tids ?w" using f(3) by (simp only: tids_frame)
    show "has_port tid s \<longrightarrow> has_port tid ?w" using f(4) hp by blast
    show "tm_outbox ?w = tm_outbox s" using f(6) by (simp only: log_fields)
  qed simp
  with fail show ?thesis by (simp add: handle_join_def Some es Let_def)
qed (simp add: handle_join_def)

lemma effect_commit:
  assumes "tx_inv tid s"
  shows "out_all (effect tid v s) (handle_commit m s)"
proof -
  let ?s = "writeRecordToLog \<lparr>cr_msgID = COMMIT_REQ, cr_tid = tx_tid m, cr_nodeId = tx_nodeId m\<rparr>
    (set_rec COMMIT_REQ (tx_tid m) (tx_nodeId m) s)"
  let ?t = "sendToAllWorkers m (tm_newMsg ?s) PREPARE_COMMIT ?s"
  have ok: "tm_ok ?s" using assms by (simp add: tx_inv_def tm_ok_ops)
  from send_all [OF ok, of m PREPARE_COMMIT] obtain out where
    out: "tm_outbox ?t = tm_outbox ?s @ map (apsnd txBytes) out"
    "\<forall>(b, m') \<in> set out. wf_txMessage m' \<and> tx_msgID m' = PREPARE_COMMIT \<and> tx_tid m' = tx_tid m \<and> has_port (tx_tid m) ?s"
    by blast
  have hp: "has_port x ?t = has_port x s" "has_port x ?s = has_port x s" for x by (rule has_port_rows, simp)+
  have "out_ok tid v s ?t m'" if "(b, m') \<in> set out" for b m'
    using out(2) that hp has_port_tids [of tid s] by (auto simp: out_ok_def manager_kinds_def)
  then have "\<forall>(b, m') \<in> set out. out_ok tid v s ?t m'" by blast
  moreover have "decided tid ?t = decided tid s" by (simp add: decided_def)
  ultimately have "effect tid v s ?t"
    using assms out(1) hp ok unfolding effect_def tx_inv_def
    by (intro conjI exI [of _ out]) (simp_all add: tm_ok_ops)
  then show ?thesis by (simp add: handle_commit_def Let_def)
qed

lemma effect_timeout:
  assumes "tx_inv tid s" and "tid \<noteq> 0"
  shows "out_all (effect tid v s) (handle_timeout om s)"
proof (cases "waitingForVotes s")
  case (Some ws)
  obtain w u where ws: "ws = (w, u)" by (cases ws)
  have u: "u = s \<and> w = 0 \<or> (\<exists>t. u = s\<lparr>tm_abortTid := t\<rparr>)"
    using Some ws by (auto simp: waitingForVotes_def bind_eq_Some_conv split: option.splits)
  have inv: "tm_ok s" "length (rows_of tid s) \<le> 1" using assms(1) by (simp_all add: tx_inv_def)
  show ?thesis
  proof (cases "w = 1")
    case False
    have "rows_of tid u = rows_of tid s" "tm_ok u" "same_view tid s u"
      using u inv by (auto simp: rows_of_def tm_ok_def wf_abortTid same_view_def)
    then have "effect tid v s u" using inv by (intro effect_quiet) simp_all
    then show ?thesis using False by (simp add: handle_timeout_def Some ws)
  next
    case True
    let ?r = "\<lparr>cr_msgID = DECIDE_ABORT, cr_tid = tm_abortTid u, cr_nodeId = cr_nodeId (tm_rec u)\<rparr>"
    let ?s = "writeRecordToLog ?r (set_rec DECIDE_ABORT (tm_abortTid u) (cr_nodeId (tm_rec u)) u)"
    let ?m = "om\<lparr>tx_tid := tm_abortTid u\<rparr>"
    let ?t = "cleanWorkerInfo (tm_abortTid u) (sendToAllWorkers ?m (tm_newMsg ?s) DECIDE_ABORT ?s)"
    have eq: "tm_rows u = tm_rows s" "tm_log u = tm_log s" "tm_outbox u = tm_outbox s" "tm_ok u"
      using u inv by (auto simp: tm_ok_def wf_abortTid)
    have ok: "tm_ok ?s" using eq by (simp add: tm_ok_ops)
    have rows: "rows_of tid ?s = rows_of tid s" using eq by (simp add: rows_of_def)
    obtain out where out: "tm_outbox (sendToAllWorkers ?m (tm_newMsg ?s) DECIDE_ABORT ?s) = tm_outbox ?s @ map (apsnd txBytes) out"
      "\<forall>(b, m') \<in> set out. wf_txMessage m' \<and> tx_msgID m' = DECIDE_ABORT \<and> tx_tid m' = tx_tid ?m \<and> has_port (tx_tid ?m) ?s"
      using send_all [OF ok, of ?m DECIDE_ABORT] by blast
    have hp: "has_port x ?s = has_port x s" for x by (rule has_port_rows) (simp add: rows_of_def eq)
    have "effect tid v s ?t"
      by (rule effect_close [OF assms, where k = DECIDE_ABORT and tid' = "tm_abortTid u" and r = ?r and out = out])
        (use out hp ok inv rows eq rows_of_clean [OF assms(2)] in \<open>auto simp: tm_ok_ops\<close>)
    then show ?thesis using True by (simp add: handle_timeout_def Some ws Let_def)
  qed
qed (simp add: handle_timeout_def)

text \<open>Votes and polls.\<close>

lemma effect_reply:
  assumes "tm_ok s" and "length (rows_of tid s) \<le> 1" and "k \<in> manager_kinds"
    and "tx_tid m = tid \<longrightarrow> tid \<notin> tids s \<and>
      (k = DECIDE_ABORT \<and> \<not> committed tid s \<and> v \<or> k = DECIDE_COMMIT \<and> committed tid s)"
  shows "effect tid v s (reply m k a (saveVectorTime (tickMyClock s)))"
proof -
  let ?u = "saveVectorTime (tickMyClock s)"
  let ?m = "constructMessage m (tm_newMsg ?u) k 0 ?u"
  let ?t = "reply m k a ?u"
  have wf: "wf_tm ?u" using assms(1) by (simp add: tm_ok_def wf_tm_clock_step(1))
  have same: "rows_of tid ?t = rows_of tid s" "tids ?t = tids s" "tm_log ?t = tm_log s" by (simp_all add: rows_of_def)
  have hp: "has_port tid ?t = has_port tid s" by (rule has_port_rows [OF same(1)])
  have "wf_txMessage ?m" using wf by (rule wf_constructMessage)
  then have "out_ok tid v s ?t ?m"
    using assms(3,4) same by (auto simp: out_ok_def constructMessage_def committed_def)
  moreover have "tm_outbox ?t = tm_outbox s @ map (apsnd txBytes) [(a, ?m)]" by (simp add: reply_outbox [OF wf])
  moreover have "tm_ok ?t" by (rule tm_ok_ops(9) [OF tm_ok_ops(1) [OF assms(1)]])
  ultimately show ?thesis
    using assms(2) same hp decided_same [OF same(3)] unfolding effect_def
    by (intro conjI exI [of _ "[(a, ?m)]"]) simp_all
qed

lemma tally_not_abort:
  assumes "row_ok i" and "\<exists>w \<in> set (i_workers i). w_nodeId w \<noteq> 0"
  shows "tally c (i_workers i) \<noteq> DECIDE_ABORT"
proof
  let ?vs = "map (\<lambda>w. vote_code (w_voteYes w)) (filter (\<lambda>w. w_nodeId w \<noteq> 0) (i_workers i))"
  assume "tally c (i_workers i) = DECIDE_ABORT"
  then have "code_of (spec_decide ?vs) = code_of Abort"
    using assms(2) by (auto simp: tally_spec filter_empty_conv split: if_splits)
  then have "No \<in> set ?vs" by (intro spec_decide_Abort_No) (simp only: code_of_inject)
  then obtain w where "w \<in> set (i_workers i)" "vote_code (w_voteYes w) = No" by auto
  with assms(1) show False by (auto simp: row_ok_def vote_code_def split: if_splits)
qed

lemma member_of_port:
  assumes "has_port tid s" and "find_row tid s = Some row" and "tm_ok s" and "length (rows_of tid s) \<le> 1"
  shows "row_ok row \<and> (\<exists>w \<in> set (i_workers row). w_nodeId w \<noteq> 0)"
proof -
  obtain i where i: "first_index (\<lambda>i. i_tid i = tid) (tm_rows s) = Some i" "row = tm_rows s ! i"
    using assms(2) by (auto simp: find_row_Some_index)
  have row: "row \<in> set (tm_rows s)" "row \<in> set (rows_of tid s)"
    using first_indexD [OF i(1)] i(2) by (simp_all add: rows_of_def)
  then have "rows_of tid s = [row]" using assms(4) by (cases "rows_of tid s") auto
  with assms(1) obtain w where "w \<in> set (i_workers row)" "w_port w \<noteq> 0"
    by (auto simp: has_port_def addressees_rows_of filter_empty_conv)
  moreover have "row_ok row" using row(1) assms(3) by (simp add: tm_ok_def list_all_iff)
  ultimately show ?thesis by (auto simp: row_ok_def)
qed

lemma record_vote_member:
  "(\<exists>w \<in> set (i_workers i). w_nodeId w \<noteq> 0) \<Longrightarrow> \<exists>w \<in> set (i_workers (record_vote m i)). w_nodeId w \<noteq> 0"
proof -
  have "map w_nodeId (i_workers (record_vote m i)) = map w_nodeId (i_workers i)"
    by (simp add: record_vote_eq map_upd_first)
  then have "w_nodeId ` set (i_workers (record_vote m i)) = w_nodeId ` set (i_workers i)" by (metis list.set_map)
  then show "(\<exists>w \<in> set (i_workers i). w_nodeId w \<noteq> 0) \<Longrightarrow> ?thesis" by (metis (no_types, lifting) imageE imageI)
qed

lemma effect_vote:
  assumes inv: "tx_inv tid s" and "tid \<noteq> 0" and k: "tx_msgID m = VOTE_COMMIT \<or> tx_msgID m = POLL_DECISION \<and> (tx_tid m = tid \<longrightarrow> tid \<notin> tids s)"
    and port: "tx_tid m = tid \<longrightarrow> tid \<in> tids s \<longrightarrow> has_port tid s" and v: "tx_tid m = tid \<longrightarrow> v"
  shows "out_all (effect tid v s) (handle_vote c m a s)"
proof (cases "collectVote c m (after_setCrash m s)")
  case None
  then show ?thesis by (simp add: handle_vote_def Let_def flip: after_setCrash_def)
next
  case (Some dt)
  obtain d t where dt: "dt = (d, t)" by (cases dt)
  let ?s = "after_setCrash m s"
  have s: "tm_ok s" "length (rows_of tid s) \<le> 1" using inv by (simp_all add: tx_inv_def)
  have v1: "same_view tid s ?s" by (rule same_view_after_setCrash [OF s(1)])
  have km: "tx_msgID m \<noteq> VOTE_ABORT" "tx_msgID m \<noteq> ABORT" using k by auto
  from collectVote_facts [OF Some [unfolded dt] same_viewD(7) [OF v1] km, of tid]
  have v2: "same_view tid ?s t" and d: "d = (case find_row (tx_tid m) ?s of
           Some row \<Rightarrow> tally c (i_workers (record_vote m row))
         | None \<Rightarrow> if committed (tx_tid m) ?s then DECIDE_COMMIT else DECIDE_ABORT)" by blast+
  have view: "same_view tid s t" by (rule same_view_trans [OF v1 v2])
  note tt = same_viewD [OF view] and ss = same_viewD [OF v1]
  have tinv: "tx_inv tid t" by (rule same_view_inv [OF view inv])
  have len: "length (rows_of tid t) \<le> 1" using tt(2) s(2) by simp
  have none: "find_row tid ?s = None" if e: "tx_tid m = tid" and da: "d = DECIDE_ABORT"
  proof (rule ccontr)
    assume "find_row tid ?s \<noteq> None"
    then obtain row where row: "find_row tid ?s = Some row" by blast
    then have "tid \<in> tids ?s" using tids_find_row [of tid ?s] by simp
    then have hp: "has_port tid ?s" using port e ss by simp
    have l: "length (rows_of tid ?s) \<le> 1" using ss(2) s(2) by simp
    from member_of_port [OF hp row ss(7) l] have "tally c (i_workers (record_vote m row)) \<noteq> DECIDE_ABORT"
      using km by (intro tally_not_abort row_ok_record_vote record_vote_member) blast+
    with d e row da show False by simp
  qed
  have ab: "tx_tid m = tid \<longrightarrow> tid \<notin> tids t \<and> (DECIDE_ABORT = DECIDE_ABORT \<and> \<not> committed tid t \<and> v \<or>
      DECIDE_ABORT = DECIDE_COMMIT \<and> committed tid t)" if "d = DECIDE_ABORT"
  proof
    assume e: "tx_tid m = tid"
    from none [OF e that] have n: "find_row tid ?s = None" .
    then have "\<not> committed tid ?s" using d e that by (auto split: if_splits)
    moreover have "tid \<notin> tids ?s" using n tids_find_row by blast
    ultimately show "tid \<notin> tids t \<and> (DECIDE_ABORT = DECIDE_ABORT \<and> \<not> committed tid t \<and> v \<or>
        DECIDE_ABORT = DECIDE_COMMIT \<and> committed tid t)"
      using tt ss v e by simp
  qed
  have co: "tx_tid m = tid \<longrightarrow> tid \<notin> tids t \<and> (DECIDE_COMMIT = DECIDE_ABORT \<and> \<not> committed tid t \<and> v \<or>
      DECIDE_COMMIT = DECIDE_COMMIT \<and> committed tid t)" if "tx_msgID m = POLL_DECISION" "d = DECIDE_COMMIT"
  proof
    assume e: "tx_tid m = tid"
    with k that(1) have "tid \<notin> tids s" by simp
    then have n: "find_row tid ?s = None" "tid \<notin> tids t" using ss(1) tt(1) tids_find_row [of tid ?s] by auto
    then have "committed tid ?s" using d e that(2) by (auto split: if_splits)
    then show "tid \<notin> tids t \<and> (DECIDE_COMMIT = DECIDE_ABORT \<and> \<not> committed tid t \<and> v \<or>
        DECIDE_COMMIT = DECIDE_COMMIT \<and> committed tid t)"
      using n(2) tt ss by simp
  qed
  have "out_all (effect tid v t) (act_on_decision d m a t)"
  proof -
    have "out_all (effect tid v t) (decide m DECIDE_COMMIT t)"
      by (rule effect_decide [OF tinv assms(2)]) simp
    moreover have "effect tid v t (reply m DECIDE_ABORT a (saveVectorTime (tickMyClock t)))" if "d = DECIDE_ABORT"
      by (rule effect_reply [OF tt(7) len _ ab [OF that]]) (simp add: manager_kinds_def)
    moreover have "effect tid v t (reply m DECIDE_COMMIT a (saveVectorTime (tickMyClock t)))"
      if "tx_msgID m = POLL_DECISION" "d = DECIDE_COMMIT"
      by (rule effect_reply [OF tt(7) len _ co [OF that]]) (simp add: manager_kinds_def)
    moreover have "effect tid v t t"
      using tt(7) len by (intro effect_quiet) (simp_all add: same_view_def)
    ultimately show ?thesis by (simp add: act_on_decision_def)
  qed
  then have "out_all (effect tid v s) (act_on_decision d m a t)"
    by (rule out_all_mono) (rule effect_after [OF view])
  then show ?thesis by (simp add: handle_vote_def Let_def Some dt flip: after_setCrash_def)
qed

lemma effect_vote_abort:
  assumes "tx_inv tid s" and "tid \<noteq> 0"
  shows "out_all (effect tid v s) (handle_vote_abort m s)"
proof -
  have view: "same_view tid s (after_setCrash m s)"
    using assms(1) by (intro same_view_after_setCrash) (simp add: tx_inv_def)
  have "out_all (effect tid v (after_setCrash m s)) (decide m DECIDE_ABORT (after_setCrash m s))"
    by (rule effect_decide [OF same_view_inv [OF view assms(1)] assms(2)]) simp
  then have "out_all (effect tid v s) (decide m DECIDE_ABORT (after_setCrash m s))"
    by (rule out_all_mono) (rule effect_after [OF view])
  then show ?thesis by (simp add: handle_vote_abort_def Let_def flip: after_setCrash_def)
qed

subsection \<open>One event\<close>

text \<open>
  The events that are looked at: a \<open>JOINTX\<close> carries a node id, the transaction is polled for after the
  decision only, it begins only when it is new, and a yes for a transaction in the table comes after
  somebody joined.
\<close>

definition msg_ok :: "u32 \<Rightarrow> tm_state \<Rightarrow> txMessage \<Rightarrow> bool" where
  "msg_ok tid s m \<longleftrightarrow>
     (tx_msgID m = JOINTX \<longrightarrow> tx_nodeId m \<noteq> 0) \<and>
     (tx_tid m = tid \<longrightarrow> (tx_msgID m = POLL_DECISION \<longrightarrow> tid \<notin> tids s \<and> decided tid s) \<and>
        (tx_msgID m = BEGINTX \<longrightarrow> tid \<notin> tids s \<and> \<not> decided tid s) \<and>
        (tx_msgID m = VOTE_COMMIT \<longrightarrow> tid \<in> tids s \<longrightarrow> has_port tid s))"

definition event_ok :: "u32 \<Rightarrow> tm_state \<Rightarrow> tm_event \<Rightarrow> bool" where
  "event_ok tid s e =
     (case e of Received a buf c \<Rightarrow>
        (case deserializeWorkerMsg (tm_host s) buf of None \<Rightarrow> True | Some m \<Rightarrow> msg_ok tid s m)
      | _ \<Rightarrow> True)"

lemma effect_msg:
  assumes "tx_inv tid s" and "tid \<noteq> 0" and "msg_ok tid s m"
  shows "out_all (effect tid ((tx_msgID m = VOTE_COMMIT \<or> tx_msgID m = POLL_DECISION) \<and> tx_tid m = tid) s) (handle_msg c m a s)"
proof -
  have inv: "tm_ok s" "length (rows_of tid s) \<le> 1" using assms(1) by (simp_all add: tx_inv_def)
  have "effect tid v s s" for v by (rule effect_quiet [OF _ inv(2)]) (simp add: same_view_def inv)
  then show ?thesis
    using effect_begin [OF assms(1,2), of m] effect_join [OF assms(1,2), of m] effect_commit [OF assms(1)]
      effect_vote_abort [OF assms(1,2)] effect_vote [OF assms(1,2), of m] assms(3)
    by (auto simp: handle_msg_def Let_def msg_ok_def)
qed

theorem effect_event:
  assumes "tx_inv tid s" and "tid \<noteq> 0" and "event_ok tid s e"
  shows "out_all (effect tid (tm_asked tid (tm_host s) e) s) (handleWorkerMsg e s)"
proof (cases e)
  case (PollTimeout om)
  then show ?thesis using effect_timeout [OF assms(1,2)] by simp
next
  case (Received a buf c)
  show ?thesis
  proof (cases "deserializeWorkerMsg (tm_host s) buf")
    case (Some m)
    have view: "same_view tid s (recv_state m s)" using assms(1) by (intro same_view_recv) (simp add: tx_inv_def)
    have v: "tm_asked tid (tm_host s) e = ((tx_msgID m = VOTE_COMMIT \<or> tx_msgID m = POLL_DECISION) \<and> tx_tid m = tid)"
      by (auto simp: tm_asked_def tm_receives_def Received Some)
    have "msg_ok tid (recv_state m s) m"
      using assms(3) same_viewD [OF view] by (simp add: event_ok_def Received Some msg_ok_def)
    from effect_msg [OF same_view_inv [OF view assms(1)] assms(2) this, of c a]
    have "out_all (effect tid ((tx_msgID m = VOTE_COMMIT \<or> tx_msgID m = POLL_DECISION) \<and> tx_tid m = tid) s) (handle_msg c m a (recv_state m s))"
      by (rule out_all_mono) (rule effect_after [OF view])
    then show ?thesis by (simp only: v) (simp only: Received handle_received [OF Some])
  qed (simp add: Received handleWorkerMsg.simps(4))
qed (use assms(1) in \<open>auto simp: tx_inv_def same_view_def intro!: effect_quiet\<close>)

text \<open>The invariant of the transaction is kept.\<close>

lemma tx_inv_event:
  assumes "tx_inv tid s" and "tid \<noteq> 0" and "event_ok tid s e"
  shows "out_all (tx_inv tid) (handleWorkerMsg e s)"
proof -
  have "tid \<in> tids s \<or> \<not> decided tid s \<or> out_all (\<lambda>t. tid \<notin> tids t) (handleWorkerMsg e s)"
  proof (cases "begins tid e s")
    case True
    then show ?thesis using assms(3)
      by (auto simp: begins_def event_ok_def msg_ok_def split: tm_event.splits option.splits)
  next
    case False
    then show ?thesis using tids_step [OF False assms(2)] by blast
  qed
  then show ?thesis
    using effect_event [OF assms] assms(1)
    by (cases "handleWorkerMsg e s") (auto simp: effect_def tx_inv_def)
qed

subsection \<open>A restart\<close>

lemma resend_aborts_sends:
  assumes "wf_tm s" and "wf_txMessage nm"
  shows "wf_tm (resend_aborts m nm ts s) \<and> (\<exists>out. tm_outbox (resend_aborts m nm ts s) = tm_outbox s @ map (apsnd txBytes) out \<and>
    (\<forall>(a, m') \<in> set out. wf_txMessage m' \<and> tx_msgID m' = DECIDE_ABORT \<and> tx_tid m' \<in> tids s))"
  using assms(1)
proof (induction ts arbitrary: s)
  case Nil
  then show ?case by (auto intro: exI [of _ "[]"])
next
  case (Cons t ts)
  show ?case
  proof (cases "ts_isCommit t = 0")
    case False
    with Cons show ?thesis by simp
  next
    case True
    let ?s = "sendToAllWorkers (m\<lparr>tx_tid := ts_tid t\<rparr>) nm DECIDE_ABORT s"
    obtain o1 where 1: "tm_outbox ?s = tm_outbox s @ map (apsnd txBytes) o1"
      "\<forall>(a, m') \<in> set o1. wf_txMessage m' \<and> tx_msgID m' = DECIDE_ABORT \<and> tx_tid m' = ts_tid t \<and> has_port (ts_tid t) s"
      using send_to_all [OF Cons.prems assms(2), of "m\<lparr>tx_tid := ts_tid t\<rparr>" DECIDE_ABORT] by auto
    obtain o2 where 2: "tm_outbox (resend_aborts m nm ts ?s) = tm_outbox ?s @ map (apsnd txBytes) o2"
      "\<forall>(a, m') \<in> set o2. wf_txMessage m' \<and> tx_msgID m' = DECIDE_ABORT \<and> tx_tid m' \<in> tids s"
      "wf_tm (resend_aborts m nm ts ?s)"
      using Cons.IH [OF wf_sendToAllWorkers [OF Cons.prems, of "m\<lparr>tx_tid := ts_tid t\<rparr>" nm DECIDE_ABORT]]
      by (auto simp only: tids_frame)
    show ?thesis
    proof -
      have "\<forall>(a, m') \<in> set (o1 @ o2). wf_txMessage m' \<and> tx_msgID m' = DECIDE_ABORT \<and> tx_tid m' \<in> tids s"
        using 1(2) 2(2) has_port_tids by fastforce
      then show ?thesis using True 1(1) 2(1,3) by (intro conjI exI [of _ "o1 @ o2"]) simp_all
    qed
  qed
qed

lemma restart_sends:
  assumes "boots_from b s" and "tm_main b = Running t" and "wf_tm s" and "wf_txMessage (b_newMsg b)"
  shows "wf_tm t \<and> (\<exists>out. tm_outbox t = map (apsnd txBytes) out \<and>
    (\<forall>(a, m) \<in> set out. wf_txMessage m \<and> tx_msgID m = DECIDE_ABORT \<and> tx_tid m \<in> tids s))"
proof -
  let ?r = "restoreVectorTime (boot_state b)"
  let ?s = "writeLocalEventToLog RESTARTED (saveVectorTime (tickMyClock ?r))"
  have boot: "tm_rows (boot_state b) = tm_rows s" "tm_outbox (boot_state b) = []"
    "tm_crashInfo (boot_state b) = tm_crashInfo s" "tm_newMsg (boot_state b) = b_newMsg b"
    using assms(1) by (simp_all add: boots_from_def boot_state_def)
  have wfr: "wf_tm ?r" using assms(3,4) boot by (simp add: wf_tm_def restoreVectorTime_def)
  have wf: "wf_tm ?s" by (rule wf_tm_clock_step(4) [OF wf_tm_clock_step(1) [OF wfr]])
  have fields: "tm_outbox ?s = []" "tm_rows ?s = tm_rows s"
    using boot by (simp_all add: restoreVectorTime_def)
  obtain tab where t: "t = resend_aborts (b_msg b) (b_newMsg b) tab (?s\<lparr>tm_stateTab := tab\<rparr>)"
    using assms(1,2)
    by (auto simp: tm_main_def tm_restart_def Let_def boots_from_def findStateFromRecord_def split: option.splits)
  have "wf_tm (?s\<lparr>tm_stateTab := tab\<rparr>)" using wf by (simp add: wf_tm_def)
  from resend_aborts_sends [OF this assms(4), of "b_msg b" tab] show ?thesis
    using fields unfolding t by (simp add: tids_def)
qed

end
