(* ===== verification/TWorker.thy ===== *)
theory TWorker
  imports TxWire ShiViz
begin

text \<open>
  The worker's data and operations (tworker.c up to \<open>sendMsg\<close>).

  The state is one record: the globals of tworker.c, the log file (its header, mapped at
  \<open>crashInfo\<close>, and the records behind it), the mapped data object, the ShiViz log, the locals of
  \<open>handleCmdMsg\<close> that live across rounds (\<open>rec\<close>, \<open>newMsg\<close>, \<open>toAddr\<close>), the place where the
  process waits (\<open>tw_pc\<close>), and the datagrams handed to \<open>sendto\<close>.  Indeterminate contents are
  explicit: \<open>tw_junkRec\<close>, \<open>tw_junkID\<close> and \<open>tw_junk\<close> are what an uninitialised \<open>Record\<close>,
  \<open>oldID\<close> and \<open>logBuf\<close> hold.  \<open>None\<close> marks a read or write outside an object.
\<close>

subsection \<open>Data\<close>

type_synonym u64 = "64 word"

record timeval =
  tv_sec :: u64
  tv_usec :: u64

record objectData =
  o_IDstring :: "u8 list"
  o_lastUpdateTime :: timeval
  o_A :: u32
  o_B :: u32
  o_vectorClock :: "clock list"

record wrecord =
  r_msgID :: u32
  r_tid :: u32
  r_oldValue :: u32
  r_oldID :: "u8 list"
  r_vectorClock :: "clock list"
  r_lastUpdateTime :: timeval

record crash_info =
  ci_sys_port :: u64
  ci_managerAddr :: sockaddr_in
  ci_vectorClock :: "clock list"

text \<open>The two \<open>poll\<close> loops: \<open>handleCmdMsg\<close>, and \<open>waitingForCoordResponse\<close> with its local
  \<open>managerAddr\<close>.\<close>

datatype tw_pc = MainLoop | Waiting sockaddr_in

record tw_state =
  tw_host :: endian
  tw_nodeId :: u32
  tw_log :: "wrecord list"
  tw_crashInfo :: crash_info
  tw_objData :: objectData
  tw_clock :: "clock list"
  tw_curTid :: u32
  tw_isTXRun :: u32
  tw_delay :: u32
  tw_isCrash :: u32
  tw_vote :: u32
  tw_firstTimeWaiting :: u32
  tw_rec :: wrecord
  tw_newMsg :: txMessage
  tw_toAddr :: sockaddr_in
  tw_pc :: tw_pc
  tw_shiviz :: string
  tw_junkRec :: wrecord
  tw_junkID :: "u8 list"
  tw_junk :: string
  tw_outbox :: "(sockaddr_in \<times> u8 list) list"

subsection \<open>The log records behind the mapped header\<close>

text \<open>
  As in the manager, only the first page of the log file is mapped.  The header takes 104 bytes, a
  record 176.
\<close>

definition tw_page :: nat where "tw_page = 4096"
definition sizeof_CrashInfo :: nat where "sizeof_CrashInfo = 104"
definition sizeof_Record :: nat where "sizeof_Record = 176"

definition tw_records :: "tw_state \<Rightarrow> wrecord list option" where
  "tw_records s =
     (if sizeof_CrashInfo + sizeof_Record * length (tw_log s) \<le> tw_page
      then Some (tw_log s) else None)"

definition tw_findStateFromRecord :: "tw_state \<Rightarrow> (u32 \<times> tw_state) option" where
  "tw_findStateFromRecord s =
     do { records \<leftarrow> tw_records s;
          Some (if records \<noteq> [] then (r_msgID (last records), s\<lparr>tw_curTid := r_tid (last records)\<rparr>)
                else (0, s)) }"

fun localAbortScan :: "u32 \<Rightarrow> wrecord list \<Rightarrow> u32" where
  "localAbortScan cur [] = 0"
| "localAbortScan cur (r # rs) =
     (if r_tid r = cur \<and> r_msgID r = ABORT then 1 else localAbortScan cur rs)"

definition isLocalAbort :: "tw_state \<Rightarrow> u32 option" where
  "isLocalAbort s =
     do { records \<leftarrow> tw_records s; Some (localAbortScan (tw_curTid s) (rev records)) }"

text \<open>The loop of \<open>readValFromRecord\<close>, from the newest record to the oldest.\<close>

fun readVals :: "u32 \<Rightarrow> wrecord list \<Rightarrow> u32 \<Rightarrow> u32 \<Rightarrow> u8 list \<Rightarrow> objectData \<Rightarrow> objectData option" where
  "readVals cur [] oldA oldB oldID obj = Some obj"
| "readVals cur (r # rs) oldA oldB oldID obj =
     (if r_tid r = cur then
        (if r_msgID r = NEW_A then readVals cur rs (r_oldValue r) oldB oldID obj
         else if r_msgID r = NEW_B then readVals cur rs oldA (r_oldValue r) oldID obj
         else if r_msgID r = NEW_IDSTR then
           do { oldID \<leftarrow> strcpy oldID (r_oldID r); readVals cur rs oldA oldB oldID obj }
         else if r_msgID r = JOINTX then
           do { str \<leftarrow> strcpy (o_IDstring obj) oldID;
                readVals cur rs oldA oldB oldID
                  (obj\<lparr>o_A := oldA, o_B := oldB, o_IDstring := str,
                       o_vectorClock := r_vectorClock r, o_lastUpdateTime := r_lastUpdateTime r\<rparr>) }
         else readVals cur rs oldA oldB oldID obj)
      else Some obj)"

definition readValFromRecord :: "tw_state \<Rightarrow> tw_state option" where
  "readValFromRecord s =
     do { records \<leftarrow> tw_records s;
          oldID \<leftarrow> strcpy (tw_junkID s) (o_IDstring (tw_objData s));
          obj \<leftarrow> readVals (tw_curTid s) (rev records) (o_A (tw_objData s)) (o_B (tw_objData s)) oldID (tw_objData s);
          Some (s\<lparr>tw_objData := obj\<rparr>) }"

definition tw_writeRecordToLog :: "wrecord \<Rightarrow> tw_state \<Rightarrow> tw_state" where
  "tw_writeRecordToLog r s = s\<lparr>tw_log := tw_log s @ [r]\<rparr>"

subsection \<open>Ports and clocks\<close>

definition savePort :: "u16 \<Rightarrow> tw_state \<Rightarrow> tw_state" where
  "savePort port s = s\<lparr>tw_crashInfo := (tw_crashInfo s)\<lparr>ci_sys_port := ucast port\<rparr>\<rparr>"

definition getPortfromLogFile :: "tw_state \<Rightarrow> u64" where
  "getPortfromLogFile s = ci_sys_port (tw_crashInfo s)"

definition tw_restoreVectorTime :: "tw_state \<Rightarrow> tw_state" where
  "tw_restoreVectorTime s = s\<lparr>tw_clock := ci_vectorClock (tw_crashInfo s)\<rparr>"

definition tw_saveVectorTime :: "tw_state \<Rightarrow> tw_state" where
  "tw_saveVectorTime s = s\<lparr>tw_crashInfo := (tw_crashInfo s)\<lparr>ci_vectorClock := tw_clock s\<rparr>\<rparr>"

definition tw_mergeVectorClock :: "txMessage \<Rightarrow> tw_state \<Rightarrow> tw_state" where
  "tw_mergeVectorClock m s = s\<lparr>tw_clock := merge_clocks (tx_vectorClock m) (tw_clock s)\<rparr>"

definition tw_tick :: "u32 \<Rightarrow> tw_state \<Rightarrow> tw_state" where
  "tw_tick n s = s\<lparr>tw_clock := tick n (tw_clock s)\<rparr>"

abbreviation tw_tickMyClock :: "tw_state \<Rightarrow> tw_state" where
  "tw_tickMyClock s \<equiv> tw_tick (tw_nodeId s) s"

subsection \<open>ShiViz log\<close>

definition string_of_bytes :: "u8 list \<Rightarrow> string" where
  "string_of_bytes bs = map (\<lambda>b. char_of (unat b)) bs"

definition tw_localText :: "string \<Rightarrow> msgType \<Rightarrow> string" where
  "tw_localText junk m =
     (let k = m_msgID m in
      if k = NEW_A then ''Update A value to '' @ show_d (m_newValue m)
      else if k = NEW_B then ''Update B value to '' @ show_d (m_newValue m)
      else if k = NEW_IDSTR then ''Update ID String to '' @ string_of_bytes (c_string (newID m)) @ '' ''
      else if k = ABORT then ''Locally ABORT''
      else if k = ABORT_CRASH then ''Locally ABORT_CRASH''
      else if k = CRASH then ''Locally CRASH''
      else if k = RESTARTED then ''Worker RESTARTED''
      else junk)"

definition tw_writeLocalEventToLog :: "msgType \<Rightarrow> tw_state \<Rightarrow> tw_state" where
  "tw_writeLocalEventToLog m s =
     s\<lparr>tw_shiviz := writeToFile (tw_shiviz s)
        (tw_localText (tw_junk s) m @ newline @ writeVectorTime (tw_clock s) (tw_nodeId s))\<rparr>"

definition tw_eventText :: "string \<Rightarrow> txMessage \<Rightarrow> bool \<Rightarrow> string" where
  "tw_eventText junk m isSend =
     (let k = tx_msgID m; t = show_u (tx_tid m);
          to = (\<lambda>w. w @ '' Transaction '' @ t @ '' to '');
          fr = (\<lambda>w. w @ '' Transaction '' @ t @ '' from '') in
      if k = BEGIN_SUCCESS \<or> k = BEGINTX
      then (if isSend then to ''Send BEGIN'' else ''Receive BEGIN_SUCCESS '' @ t @ '' from '')
      else if k = JOIN_SUCCESS \<or> k = JOINTX
      then (if isSend then to ''Send JOIN'' else ''Receive JOIN_SUCCESS '' @ t @ '' from '')
      else if k = JOIN_FAIL then (if isSend then to ''SEND JOIN_FAIL'' else fr ''Receive JOIN_FAIL'')
      else if k = BEGIN_FAIL then (if isSend then to ''SEND BEGIN_FAIL'' else fr ''Receive BEGIN_FAIL'')
      else if k = PREPARE_COMMIT \<or> k = COMMIT then (if isSend then to ''SEND COMMIT'' else fr ''Receive PREPARE_COMMIT'')
      else if k = COMMIT_CRASH then (if isSend then to ''SEND COMMIT_CRASH'' else fr ''Receive PREPARE_COMMIT'')
      else if k = DECIDE_COMMIT \<or> k = VOTE_COMMIT then (if isSend then to ''SEND VOTE_COMMIT'' else fr ''Receive DECIDE_COMMIT'')
      else if k = DECIDE_ABORT \<or> k = VOTE_ABORT then (if isSend then to ''SEND VOTE_ABORT'' else fr ''Receive DECIDE_ABORT'')
      else if k = POLL_DECISION then (if isSend then to ''SEND POLL_DECISION'' else fr ''Receive POLL_DECISION'')
      else junk)"

definition tw_writeEventToLog :: "txMessage \<Rightarrow> bool \<Rightarrow> u16 \<Rightarrow> tw_state \<Rightarrow> tw_state" where
  "tw_writeEventToLog m isSend toFrom s =
     s\<lparr>tw_shiviz := writeToFile (tw_shiviz s)
        (tw_eventText (tw_junk s) m isSend @ ''N'' @ show_u (ucast toFrom) @ newline @
         writeVectorTime (tw_clock s) (tw_nodeId s))\<rparr>"

subsection \<open>Messages\<close>

text \<open>\<open>isCrash\<close> is not written: the message keeps what \<open>newMsg\<close> held.\<close>

definition tw_constructMessage :: "msgType \<Rightarrow> txMessage \<Rightarrow> u32 \<Rightarrow> tw_state \<Rightarrow> txMessage" where
  "tw_constructMessage m newMsg msgKind s =
     newMsg\<lparr>tx_msgID := (if msgKind = 0 then m_msgID m else msgKind), tx_tid := m_tid m,
            tx_nodeId := tw_nodeId s, tx_vectorClock := tw_clock s\<rparr>"

text \<open>All five members are written.\<close>

definition constructTxMessage :: "u32 \<Rightarrow> u32 \<Rightarrow> u32 \<Rightarrow> tw_state \<Rightarrow> txMessage" where
  "constructTxMessage tid nodeId msgKind s =
     \<lparr>tx_msgID = msgKind, tx_tid = tid, tx_nodeId = nodeId, tx_isCrash = tw_isCrash s,
      tx_vectorClock = tw_clock s\<rparr>"

text \<open>A local message of which only the id is set.\<close>

definition local_msg :: "u32 \<Rightarrow> msgType" where
  "local_msg k = \<lparr>m_msgID = k, m_tid = 0, m_port = 0, m_newValue = 0, m_delay = 0, m_strData = []\<rparr>"

definition tw_crash :: "txMessage \<Rightarrow> tw_state \<Rightarrow> tw_state" where
  "tw_crash m s = tw_writeLocalEventToLog (local_msg CRASH) (tw_saveVectorTime (tw_tick (tx_nodeId m) s))"

text \<open>
  \<open>sent\<close> says whether \<open>sendto\<close> takes all the bytes.  Sleeping has no effect on the state.
\<close>

definition tw_sendMsg :: "bool \<Rightarrow> txMessage \<Rightarrow> sockaddr_in \<Rightarrow> tw_state \<Rightarrow> tw_state outcome" where
  "tw_sendMsg sent m addr s =
     (case serializeWorkerMsg (tw_host s) (replicate sizeof_txMessage 0) m of
        None \<Rightarrow> Undefined
      | Some msgBuf \<Rightarrow>
          if tw_delay s = - 1000 then Exited (tw_crash m s)
          else if \<not> sent then Running s
          else
            let s = s\<lparr>tw_outbox := tw_outbox s @ [(addr, msgBuf)]\<rparr>
            in if sint (tw_delay s) < 0 then Exited (tw_crash m s) else Running s)"

end
