(* ===== verification/TWorkerLoop.thy ===== *)
theory TWorkerLoop
  imports TWorker
begin

text \<open>
  The worker's event handling: \<open>waitingForCoordResponse\<close>, \<open>handleManagerMsg\<close>, \<open>handleCmdMsg\<close> and
  \<open>main\<close>.

  An event is the result of one \<open>poll\<close> with what the calls after it return: for the command
  socket the 512 bytes of \<open>recvBuf\<close>, the address that \<open>gethostbyname\<close> finds (\<open>None\<close> for the null
  pointer) and the time of day; for the manager socket the sender and the bytes, or \<open>None\<close> when
  \<open>recvfrom\<close> does not return a positive size; \<open>mi_empty\<close> is then the sender of the empty datagram,
  or \<open>None\<close> when \<open>recvfrom\<close> fails.  The booleans say whether a \<open>sendto\<close> succeeds.
  \<open>waitingForCoordResponse\<close> is a second event loop, entered by setting \<open>tw_pc\<close>; it polls the
  manager socket only.
\<close>

record cmd_in =
  ci_buf :: "u8 list"
  ci_host :: "u32 option"
  ci_time :: timeval
  ci_sent :: bool

record man_in =
  mi_recv :: "(sockaddr_in \<times> u8 list) option"
  mi_empty :: "sockaddr_in option"
  mi_sent :: bool

datatype tw_event =
    WPollError
  | WPollTimeout bool
  | WReady "cmd_in option" "man_in option"

subsection \<open>Waiting for the decision\<close>

definition waiting_timeout :: "bool \<Rightarrow> sockaddr_in \<Rightarrow> tw_state \<Rightarrow> tw_state outcome" where
  "waiting_timeout sent managerAddr s =
     (let s = s\<lparr>tw_firstTimeWaiting := 0\<rparr>;
          s = tw_saveVectorTime (tw_tickMyClock s);
          newMsg = constructTxMessage (tw_curTid s) (tw_nodeId s) POLL_DECISION s;
          s = tw_writeEventToLog newMsg True (sin_port managerAddr) s
      in tw_sendMsg sent newMsg managerAddr s)"

definition log_decision :: "txMessage \<Rightarrow> tw_state \<Rightarrow> tw_state" where
  "log_decision msg s =
     (tw_writeRecordToLog ((tw_junkRec s)\<lparr>r_msgID := tx_msgID msg, r_tid := tx_tid msg\<rparr>) s)\<lparr>tw_isTXRun := 0\<rparr>"

definition waiting_recv :: "sockaddr_in \<Rightarrow> u8 list \<Rightarrow> tw_state \<Rightarrow> tw_state outcome" where
  "waiting_recv managerAddr recvBuf s =
     (case deserializeWorkerMsg (tw_host s) recvBuf of
        None \<Rightarrow> Undefined
      | Some msg \<Rightarrow>
          let s = tw_saveVectorTime (tw_tickMyClock (tw_mergeVectorClock msg s));
              s = tw_writeEventToLog msg False (sin_port managerAddr) s;
              done = (\<lambda>s. Running (s\<lparr>tw_pc := MainLoop\<rparr>))
          in if tx_msgID msg = DECIDE_COMMIT then done (log_decision msg s)
             else if tx_msgID msg = DECIDE_ABORT then
               (case readValFromRecord s of None \<Rightarrow> Undefined | Some s \<Rightarrow> done (log_decision msg s))
             else done s)"

text \<open>
  The loop keeps the address of the manager in its parameter \<open>managerAddr\<close>, which every \<open>recvfrom\<close>
  that returns overwrites: after an empty datagram the loop goes on and polls the sender of that.
  In the main loop the parameter of \<open>handleManagerMsg\<close> is a copy, and nothing is left of it.
\<close>

fun waitingForCoordResponse :: "tw_event \<Rightarrow> sockaddr_in \<Rightarrow> tw_state \<Rightarrow> tw_state outcome" where
  "waitingForCoordResponse WPollError managerAddr s = Running s"
| "waitingForCoordResponse (WPollTimeout sent) managerAddr s = waiting_timeout sent managerAddr s"
| "waitingForCoordResponse (WReady c m) managerAddr s =
     (case m of None \<Rightarrow> Running s
      | Some m \<Rightarrow>
          (case mi_recv m of
             None \<Rightarrow> Running (case mi_empty m of None \<Rightarrow> s | Some addr \<Rightarrow> s\<lparr>tw_pc := Waiting addr\<rparr>)
           | Some (addr, buf) \<Rightarrow> waiting_recv addr buf s))"

subsection \<open>Messages from the manager\<close>

definition handle_join_answer :: "txMessage \<Rightarrow> sockaddr_in \<Rightarrow> tw_state \<Rightarrow> tw_state" where
  "handle_join_answer msg managerAddr s =
     (let s = (if tx_msgID msg = JOIN_SUCCESS
               then s\<lparr>tw_curTid := tx_tid msg, tw_isTXRun := 1,
                      tw_crashInfo := (tw_crashInfo s)\<lparr>ci_managerAddr := managerAddr\<rparr>\<rparr>
               else s)
      in tw_writeRecordToLog
           ((tw_junkRec s)\<lparr>r_msgID := JOINTX, r_tid := tx_tid msg,
              r_vectorClock := o_vectorClock (tw_objData s),
              r_lastUpdateTime := o_lastUpdateTime (tw_objData s)\<rparr>) s)"

definition handle_prepare :: "bool \<Rightarrow> txMessage \<Rightarrow> sockaddr_in \<Rightarrow> tw_state \<Rightarrow> tw_state outcome" where
  "handle_prepare sent msg managerAddr s =
     (let rec = (tw_junkRec s)\<lparr>r_msgID := tx_msgID msg, r_tid := tx_tid msg\<rparr>;
          s = tw_writeRecordToLog rec s;
          s = tw_saveVectorTime (tw_tickMyClock s)
      in case isLocalAbort s of
           None \<Rightarrow> Undefined
         | Some localAbort \<Rightarrow>
             let abort = (localAbort = 1 \<or> tw_vote s = VOTE_ABORT);
                 newMsg = constructTxMessage (tx_tid msg) (tx_nodeId msg)
                   (if abort then VOTE_ABORT else VOTE_COMMIT) s;
                 s = (if abort then s\<lparr>tw_vote := 0\<rparr> else s);
                 s = tw_writeEventToLog newMsg True (sin_port managerAddr) s
             in seq (tw_sendMsg sent newMsg managerAddr s)
                  (\<lambda>s. let rec = rec\<lparr>r_msgID := VOTE_COMMIT, r_tid := tx_tid msg\<rparr>;
                           s = tw_writeRecordToLog rec s
                       in Running (s\<lparr>tw_firstTimeWaiting := 1, tw_pc := Waiting managerAddr\<rparr>)))"

definition handle_man_msg :: "bool \<Rightarrow> txMessage \<Rightarrow> sockaddr_in \<Rightarrow> tw_state \<Rightarrow> tw_state outcome" where
  "handle_man_msg sent msg managerAddr s =
     (let k = tx_msgID msg in
      if k = JOIN_FAIL \<or> k = JOIN_SUCCESS then Running (handle_join_answer msg managerAddr s)
      else if k = DECIDE_COMMIT then Running (log_decision msg s)
      else if k = PREPARE_COMMIT then handle_prepare sent msg managerAddr s
      else if k = DECIDE_ABORT then
        (case readValFromRecord s of None \<Rightarrow> Undefined | Some s \<Rightarrow> Running (log_decision msg s))
      else Running s)"

definition handleManagerMsg :: "man_in \<Rightarrow> tw_state \<Rightarrow> tw_state outcome" where
  "handleManagerMsg m s =
     (case mi_recv m of
        None \<Rightarrow> Running s
      | Some (managerAddr, recvBuf) \<Rightarrow>
          (case deserializeWorkerMsg (tw_host s) recvBuf of
             None \<Rightarrow> Undefined
           | Some msg \<Rightarrow>
               let s = tw_saveVectorTime (tw_tickMyClock (tw_mergeVectorClock msg s));
                   s = tw_writeEventToLog msg False (sin_port managerAddr) s
               in handle_man_msg (mi_sent m) msg managerAddr s))"

subsection \<open>Commands\<close>

text \<open>
  The end of the two value updates: tick, save, log, take the time, and copy the own clock entry
  into the data object at the index that \<open>updateMyVectorClock\<close> returned.  The index is one past
  the array when the clock has no entry for the node.
\<close>

definition finish_update :: "timeval \<Rightarrow> msgType \<Rightarrow> tw_state \<Rightarrow> tw_state outcome" where
  "finish_update now msg s =
     (let (myTime, vc) = updateMyVectorClock (tw_nodeId s) (tw_clock s);
          s = tw_saveVectorTime (s\<lparr>tw_clock := vc\<rparr>);
          s = tw_writeLocalEventToLog msg s;
          obj = (tw_objData s)\<lparr>o_lastUpdateTime := now\<rparr>;
          ovc = o_vectorClock obj
      in if myTime < MAX_NODES
         then Running (s\<lparr>tw_objData := obj\<lparr>o_vectorClock :=
                ovc[myTime := (ovc ! myTime)\<lparr>c_time := c_time (vc ! myTime)\<rparr>]\<rparr>\<rparr>)
         else Undefined)"

definition log_old :: "msgType \<Rightarrow> (wrecord \<Rightarrow> wrecord) \<Rightarrow> tw_state \<Rightarrow> tw_state" where
  "log_old msg old s =
     (if tw_isTXRun s \<noteq> 0 then
        let rec = old ((tw_rec s)\<lparr>r_msgID := m_msgID msg, r_tid := tw_curTid s\<rparr>)
        in tw_writeRecordToLog rec (s\<lparr>tw_rec := rec\<rparr>)
      else s)"

definition cmd_new_A :: "timeval \<Rightarrow> msgType \<Rightarrow> tw_state \<Rightarrow> tw_state outcome" where
  "cmd_new_A now msg s =
     (let s = log_old msg (\<lambda>r. r\<lparr>r_oldValue := o_A (tw_objData s)\<rparr>) s;
          s = s\<lparr>tw_objData := (tw_objData s)\<lparr>o_A := m_newValue msg\<rparr>\<rparr>
      in finish_update now msg s)"

definition cmd_new_B :: "timeval \<Rightarrow> msgType \<Rightarrow> tw_state \<Rightarrow> tw_state outcome" where
  "cmd_new_B now msg s =
     (let s = log_old msg (\<lambda>r. r\<lparr>r_oldValue := o_B (tw_objData s)\<rparr>) s;
          s = s\<lparr>tw_objData := (tw_objData s)\<lparr>o_B := m_newValue msg\<rparr>\<rparr>
      in finish_update now msg s)"

text \<open>Unlike the other two, this case does not copy the clock entry.\<close>

definition cmd_new_id :: "timeval \<Rightarrow> msgType \<Rightarrow> tw_state \<Rightarrow> tw_state option" where
  "cmd_new_id now msg s =
     do { s \<leftarrow> (if tw_isTXRun s \<noteq> 0 then
                  do { old \<leftarrow> strcpy (r_oldID (tw_rec s)) (o_IDstring (tw_objData s));
                       Some (log_old msg (\<lambda>r. r\<lparr>r_oldID := old\<rparr>) s) }
                else Some s);
          str \<leftarrow> strcpy (o_IDstring (tw_objData s)) (newID msg);
          let s = s\<lparr>tw_objData := (tw_objData s)\<lparr>o_IDstring := str\<rparr>\<rparr>;
              s = tw_saveVectorTime (tw_tickMyClock s);
              s = tw_writeLocalEventToLog msg s
          in Some (s\<lparr>tw_objData := (tw_objData s)\<lparr>o_lastUpdateTime := now\<rparr>\<rparr>) }"

definition cmd_crash :: "msgType \<Rightarrow> tw_state \<Rightarrow> tw_state" where
  "cmd_crash msg s = tw_writeLocalEventToLog msg (tw_saveVectorTime (tw_tickMyClock s))"

text \<open>\<open>COMMIT\<close> and \<open>COMMIT_CRASH\<close>: the first switch logs the request, the second sends it to
  \<open>toAddr\<close>, the address the last \<open>BEGINTX\<close> or \<open>JOINTX\<close> command left there.\<close>

definition cmd_commit :: "bool \<Rightarrow> u32 \<Rightarrow> msgType \<Rightarrow> tw_state \<Rightarrow> tw_state outcome" where
  "cmd_commit sent crash msg s =
     (let s = s\<lparr>tw_isCrash := crash\<rparr>;
          rec = (tw_rec s)\<lparr>r_msgID := m_msgID msg, r_tid := tw_curTid s\<rparr>;
          msg = msg\<lparr>m_tid := tw_curTid s\<rparr>;
          s = tw_writeRecordToLog rec (s\<lparr>tw_rec := rec\<rparr>);
          s = tw_saveVectorTime (tw_tickMyClock s);
          msg = msg\<lparr>m_msgID := COMMIT\<rparr>;
          newMsg = tw_constructMessage msg (tw_newMsg s) 0 s;
          s = s\<lparr>tw_newMsg := newMsg\<rparr>;
          s = tw_writeEventToLog newMsg True (sin_port (tw_toAddr s)) s
      in tw_sendMsg sent newMsg (tw_toAddr s) s)"

definition cmd_abort :: "u32 \<Rightarrow> msgType \<Rightarrow> tw_state \<Rightarrow> tw_state outcome" where
  "cmd_abort crash msg s =
     (case readValFromRecord (s\<lparr>tw_isCrash := crash\<rparr>) of
        None \<Rightarrow> Undefined
      | Some s \<Rightarrow>
          let s = tw_writeLocalEventToLog msg (tw_tickMyClock s);
              s = tw_saveVectorTime s;
              rec = (tw_rec s)\<lparr>r_msgID := ABORT, r_tid := tw_curTid s\<rparr>
          in Running (tw_writeRecordToLog rec (s\<lparr>tw_rec := rec\<rparr>)))"

text \<open>
  \<open>memcpy(toIP->h_addr, &toAddr.sin_addr, toIP->h_length)\<close> copies from the cleared \<open>toAddr\<close> into
  the resolver's buffer.  The pair holds both objects after the call.
\<close>

definition memcpy_host :: "u32 \<Rightarrow> sockaddr_in \<Rightarrow> u32 \<times> sockaddr_in" where
  "memcpy_host h_addr toAddr = (sin_addr toAddr, toAddr)"

definition cmd_begin_join :: "bool \<Rightarrow> u32 option \<Rightarrow> msgType \<Rightarrow> tw_state \<Rightarrow> tw_state outcome" where
  "cmd_begin_join sent toIP msg s =
     (case toIP of
        None \<Rightarrow> Undefined
      | Some h_addr \<Rightarrow>
          let toAddr = \<lparr>sin_addr = 0, sin_port = 0\<rparr>;
              (h_addr, toAddr) = memcpy_host h_addr toAddr;
              toAddr = toAddr\<lparr>sin_port := ucast (m_port msg)\<rparr>;
              s = s\<lparr>tw_toAddr := toAddr\<rparr>;
              s = tw_saveVectorTime (tw_tickMyClock s);
              newMsg = tw_constructMessage msg (tw_newMsg s) 0 s;
              s = s\<lparr>tw_newMsg := newMsg\<rparr>;
              s = tw_writeEventToLog newMsg True (sin_port toAddr) s
          in tw_sendMsg sent newMsg toAddr s)"

definition handle_cmd :: "cmd_in \<Rightarrow> msgType \<Rightarrow> tw_state \<Rightarrow> tw_state outcome" where
  "handle_cmd c msg s =
     (let k = m_msgID msg in
      if k = BEGINTX \<or> k = JOINTX then cmd_begin_join (ci_sent c) (ci_host c) msg s
      else if k = NEW_A then cmd_new_A (ci_time c) msg s
      else if k = NEW_B then cmd_new_B (ci_time c) msg s
      else if k = NEW_IDSTR then
        (case cmd_new_id (ci_time c) msg s of None \<Rightarrow> Undefined | Some s \<Rightarrow> Running s)
      else if k = DELAY_RESPONSE then Running (s\<lparr>tw_delay := m_delay msg\<rparr>)
      else if k = CRASH then Exited (cmd_crash msg s)
      else if k = COMMIT_CRASH then cmd_commit (ci_sent c) 1 msg s
      else if k = COMMIT then cmd_commit (ci_sent c) 0 msg s
      else if k = ABORT_CRASH then cmd_abort 1 msg s
      else if k = ABORT then cmd_abort 0 msg s
      else if k = VOTE_ABORT then Running (s\<lparr>tw_vote := VOTE_ABORT\<rparr>)
      else Running s)"

definition cmd_round :: "cmd_in \<Rightarrow> tw_state \<Rightarrow> tw_state outcome" where
  "cmd_round c s =
     (case deserializeMsg (tw_host s) (ci_buf c) of
        None \<Rightarrow> Undefined | Some msg \<Rightarrow> handle_cmd c msg s)"

text \<open>One round of the loop: the command socket first, then the manager socket.\<close>

fun handleCmdMsg :: "tw_event \<Rightarrow> tw_state \<Rightarrow> tw_state outcome" where
  "handleCmdMsg WPollError s = Running s"
| "handleCmdMsg (WPollTimeout sent) s = Running s"
| "handleCmdMsg (WReady c m) s =
     seq (case c of None \<Rightarrow> Running s | Some c \<Rightarrow> cmd_round c s)
       (\<lambda>s. case m of None \<Rightarrow> Running s | Some m \<Rightarrow> handleManagerMsg m s)"

definition tw_step :: "tw_event \<Rightarrow> tw_state \<Rightarrow> tw_state outcome" where
  "tw_step e s =
     (case tw_pc s of
        MainLoop \<Rightarrow> handleCmdMsg e s
      | Waiting managerAddr \<Rightarrow> waitingForCoordResponse e managerAddr s)"

subsection \<open>Start and restart\<close>

record tw_boot =
  wb_host :: endian
  wb_port :: u32
  wb_file :: "(crash_info \<times> wrecord list) option"
  wb_data :: "objectData option"
  wb_shiviz :: string
  wb_fileExist :: int
  wb_sysport :: u16
  wb_now :: timeval
  wb_space :: crash_info
  wb_objspace :: objectData
  wb_rec :: wrecord
  wb_newMsg :: txMessage
  wb_toAddr :: sockaddr_in
  wb_junkRec :: wrecord
  wb_junkID :: "u8 list"
  wb_junk :: string

definition tw_boot_state :: "tw_boot \<Rightarrow> tw_state" where
  "tw_boot_state b =
     (let (hdr, recs) = (case wb_file b of None \<Rightarrow> (wb_space b, []) | Some f \<Rightarrow> f) in
      \<lparr>tw_host = wb_host b, tw_nodeId = wb_port b, tw_log = recs, tw_crashInfo = hdr,
       tw_objData = (case wb_data b of None \<Rightarrow> wb_objspace b | Some d \<Rightarrow> d),
       tw_clock = replicate MAX_NODES no_clock, tw_curTid = 0, tw_isTXRun = 0, tw_delay = 0,
       tw_isCrash = 0, tw_vote = 0, tw_firstTimeWaiting = 0, tw_rec = wb_rec b,
       tw_newMsg = wb_newMsg b, tw_toAddr = wb_toAddr b, tw_pc = MainLoop, tw_shiviz = wb_shiviz b,
       tw_junkRec = wb_junkRec b, tw_junkID = wb_junkID b, tw_junk = wb_junk b, tw_outbox = []\<rparr>)"

definition first_clock :: "u32 \<Rightarrow> clock list" where
  "first_clock port = \<lparr>c_nodeId = port, c_time = 1\<rparr> # replicate (MAX_NODES - 1) no_clock"

definition tw_first_start :: "timeval \<Rightarrow> tw_state \<Rightarrow> tw_state" where
  "tw_first_start now s =
     (let s = s\<lparr>tw_objData := (tw_objData s)\<lparr>o_lastUpdateTime := now, o_vectorClock := first_clock (tw_nodeId s)\<rparr>,
                tw_clock := first_clock (tw_nodeId s),
                tw_shiviz := writeStartToLog (tw_shiviz s) (tw_nodeId s) 1\<rparr>
      in tw_saveVectorTime s)"

definition in_doubt :: "u32 \<Rightarrow> bool" where
  "in_doubt state \<longleftrightarrow>
     \<not> (state \<noteq> ABORT \<and> state \<noteq> DECIDE_ABORT \<and> state \<noteq> PREPARE_COMMIT \<and> state \<noteq> VOTE_COMMIT \<and>
        state \<noteq> DECIDE_COMMIT)"

text \<open>The local abort of a worker that has not been asked to prepare.\<close>

definition recover_abort :: "tw_state \<Rightarrow> tw_state outcome" where
  "recover_abort s =
     (case readValFromRecord s of
        None \<Rightarrow> Undefined
      | Some s \<Rightarrow>
          let s = tw_writeLocalEventToLog (local_msg ABORT) (tw_tickMyClock s);
              s = tw_saveVectorTime s;
              s = tw_writeRecordToLog ((tw_junkRec s)\<lparr>r_msgID := ABORT, r_tid := tw_curTid s\<rparr>) s
          in Running (s\<lparr>tw_isTXRun := 0\<rparr>))"

definition tw_restart :: "tw_state \<Rightarrow> tw_state outcome" where
  "tw_restart s =
     (let s = tw_restoreVectorTime s;
          s = tw_saveVectorTime (tw_tickMyClock s);
          s = tw_writeLocalEventToLog (local_msg RESTARTED) s
      in case tw_findStateFromRecord s of
           None \<Rightarrow> Undefined
         | Some (state, s) \<Rightarrow>
             if \<not> in_doubt state then recover_abort s
             else Running (s\<lparr>tw_pc := Waiting (ci_managerAddr (tw_crashInfo s))\<rparr>))"

definition tw_main :: "tw_boot \<Rightarrow> tw_state outcome" where
  "tw_main b =
     (let fileExist = (if wb_file b \<noteq> None then 1 else wb_fileExist b);
          s = tw_boot_state b;
          sys_port = (if fileExist \<noteq> 0 then getPortfromLogFile s else 0);
          s = (if sys_port = 0 then savePort (wb_sysport b) s else s)
      in if fileExist = 0 then Running (tw_first_start (wb_now b) s) else tw_restart s)"

end
