(* ===== verification/TWorkerFrame.thy ===== *)
theory TWorkerFrame
  imports TWorkerLoop
begin

text \<open>
  What the worker's operations leave alone, the well-formedness invariant \<open>wf_tw\<close> of its state,
  and the two facts about every run of the worker: the invariant holds throughout, and the
  transaction log only grows.
\<close>

subsection \<open>Frames\<close>

lemmas tw_defs = tw_saveVectorTime_def tw_tick_def tw_mergeVectorClock_def tw_restoreVectorTime_def
  tw_writeEventToLog_def tw_writeLocalEventToLog_def tw_writeRecordToLog_def

definition tw_core where
  "tw_core s = (tw_host s, tw_nodeId s, tw_objData s, tw_curTid s, tw_isTXRun s, tw_delay s,
     tw_isCrash s, tw_vote s, tw_toAddr s, tw_pc s, tw_junkRec s, tw_junkID s)"

lemma tw_core_fields:
  assumes "tw_core s = tw_core t"
  shows "tw_host s = tw_host t" "tw_nodeId s = tw_nodeId t" "tw_objData s = tw_objData t"
    "tw_curTid s = tw_curTid t" "tw_isTXRun s = tw_isTXRun t" "tw_delay s = tw_delay t"
    "tw_isCrash s = tw_isCrash t" "tw_vote s = tw_vote t" "tw_toAddr s = tw_toAddr t"
    "tw_pc s = tw_pc t" "tw_junkRec s = tw_junkRec t" "tw_junkID s = tw_junkID t"
  using assms by (simp_all add: tw_core_def)

lemma tw_small_core [simp]:
  "tw_core (tw_saveVectorTime s) = tw_core s" "tw_core (tw_tick n s) = tw_core s"
  "tw_core (tw_mergeVectorClock m s) = tw_core s" "tw_core (tw_writeEventToLog m b p s) = tw_core s"
  "tw_core (tw_writeLocalEventToLog k s) = tw_core s" "tw_core (tw_writeRecordToLog r s) = tw_core s"
  by (simp_all add: tw_core_def tw_defs)

lemmas tw_small_fields [simp, frame_simps] =
  tw_core_fields [OF tw_small_core(1)] tw_core_fields [OF tw_small_core(2)]
  tw_core_fields [OF tw_small_core(3)] tw_core_fields [OF tw_small_core(4)]
  tw_core_fields [OF tw_small_core(5)] tw_core_fields [OF tw_small_core(6)]

lemma tw_log_frame [simp, frame_simps]:
  "tw_log (tw_saveVectorTime s) = tw_log s" "tw_log (tw_tick n s) = tw_log s"
  "tw_log (tw_mergeVectorClock m s) = tw_log s" "tw_log (tw_writeEventToLog m b p s) = tw_log s"
  "tw_log (tw_writeLocalEventToLog k s) = tw_log s"
  "tw_log (tw_writeRecordToLog r s) = tw_log s @ [r]"
  by (simp_all add: tw_defs)

lemma tw_outbox_frame [simp, frame_simps]:
  "tw_outbox (tw_saveVectorTime s) = tw_outbox s" "tw_outbox (tw_tick n s) = tw_outbox s"
  "tw_outbox (tw_mergeVectorClock m s) = tw_outbox s" "tw_outbox (tw_writeEventToLog m b p s) = tw_outbox s"
  "tw_outbox (tw_writeLocalEventToLog k s) = tw_outbox s"
  "tw_outbox (tw_writeRecordToLog r s) = tw_outbox s"
  by (simp_all add: tw_defs)

lemma tw_locals_frame [simp, frame_simps]:
  "tw_rec (tw_saveVectorTime s) = tw_rec s" "tw_rec (tw_tick n s) = tw_rec s"
  "tw_rec (tw_mergeVectorClock m s) = tw_rec s" "tw_rec (tw_writeEventToLog m b p s) = tw_rec s"
  "tw_rec (tw_writeLocalEventToLog k s) = tw_rec s" "tw_rec (tw_writeRecordToLog r s) = tw_rec s"
  "tw_newMsg (tw_saveVectorTime s) = tw_newMsg s" "tw_newMsg (tw_tick n s) = tw_newMsg s"
  "tw_newMsg (tw_mergeVectorClock m s) = tw_newMsg s" "tw_newMsg (tw_writeEventToLog m b p s) = tw_newMsg s"
  "tw_newMsg (tw_writeLocalEventToLog k s) = tw_newMsg s" "tw_newMsg (tw_writeRecordToLog r s) = tw_newMsg s"
  by (simp_all add: tw_defs)

lemma tw_clock_frame [simp, frame_simps]:
  "tw_clock (tw_saveVectorTime s) = tw_clock s" "tw_clock (tw_tick n s) = tick n (tw_clock s)"
  "tw_clock (tw_mergeVectorClock m s) = merge_clocks (tx_vectorClock m) (tw_clock s)"
  "tw_clock (tw_writeEventToLog m b p s) = tw_clock s"
  "tw_clock (tw_writeLocalEventToLog k s) = tw_clock s" "tw_clock (tw_writeRecordToLog r s) = tw_clock s"
  "ci_vectorClock (tw_crashInfo (tw_saveVectorTime s)) = tw_clock s"
  "ci_managerAddr (tw_crashInfo (tw_saveVectorTime s)) = ci_managerAddr (tw_crashInfo s)"
  "ci_sys_port (tw_crashInfo (tw_saveVectorTime s)) = ci_sys_port (tw_crashInfo s)"
  "tw_crashInfo (tw_tick n s) = tw_crashInfo s" "tw_crashInfo (tw_mergeVectorClock m s) = tw_crashInfo s"
  "tw_crashInfo (tw_writeEventToLog m b p s) = tw_crashInfo s"
  "tw_crashInfo (tw_writeLocalEventToLog k s) = tw_crashInfo s"
  "tw_crashInfo (tw_writeRecordToLog r s) = tw_crashInfo s"
  by (simp_all add: tw_defs)

lemma tw_crash_frame [simp, frame_simps]:
  "tw_log (tw_crash m s) = tw_log s" "tw_outbox (tw_crash m s) = tw_outbox s"
  "tw_core (tw_crash m s) = tw_core s" "tw_rec (tw_crash m s) = tw_rec s"
  "tw_newMsg (tw_crash m s) = tw_newMsg s" "tw_clock (tw_crash m s) = tick (tx_nodeId m) (tw_clock s)"
  "ci_vectorClock (tw_crashInfo (tw_crash m s)) = tick (tx_nodeId m) (tw_clock s)"
  "ci_managerAddr (tw_crashInfo (tw_crash m s)) = ci_managerAddr (tw_crashInfo s)"
  "ci_sys_port (tw_crashInfo (tw_crash m s)) = ci_sys_port (tw_crashInfo s)"
  by (simp_all add: tw_crash_def)

lemmas tw_crash_fields [simp, frame_simps] = tw_core_fields [OF tw_crash_frame(3)]

text \<open>Sending, for a message with a full clock.\<close>

lemma tw_sendMsg_wf:
  assumes "wf_txMessage m"
  shows "tw_sendMsg sent m a s =
    (if tw_delay s = - 1000 then Exited (tw_crash m s)
     else if \<not> sent then Running s
     else if sint (tw_delay s) < 0
          then Exited (tw_crash m (s\<lparr>tw_outbox := tw_outbox s @ [(a, txBytes m)]\<rparr>))
     else Running (s\<lparr>tw_outbox := tw_outbox s @ [(a, txBytes m)]\<rparr>))"
  using assms by (simp add: tw_sendMsg_def serializeWorkerMsg_fits overlay_all length_txBytes Let_def)

subsection \<open>The invariant\<close>

definition wf_wrec :: "wrecord \<Rightarrow> bool" where
  "wf_wrec r \<longleftrightarrow> length (r_oldID r) = IDLEN \<and> length (r_vectorClock r) = MAX_NODES"

definition wf_obj :: "objectData \<Rightarrow> bool" where
  "wf_obj d \<longleftrightarrow> length (o_IDstring d) = IDLEN \<and> length (o_vectorClock d) = MAX_NODES"

definition wf_tw :: "tw_state \<Rightarrow> bool" where
  "wf_tw s \<longleftrightarrow>
     length (tw_clock s) = MAX_NODES \<and> wf_clock (tw_clock s) \<and>
     length (ci_vectorClock (tw_crashInfo s)) = MAX_NODES \<and>
     wf_clock (ci_vectorClock (tw_crashInfo s)) \<and>
     wf_obj (tw_objData s) \<and> wf_txMessage (tw_newMsg s) \<and> wf_wrec (tw_rec s) \<and>
     wf_wrec (tw_junkRec s) \<and> length (tw_junkID s) = IDLEN \<and> list_all wf_wrec (tw_log s)"

lemma wf_tw_small:
  assumes "wf_tw s"
  shows "wf_tw (tw_saveVectorTime s)" "wf_tw (tw_tick n s)" "wf_tw (tw_mergeVectorClock m s)"
    "wf_tw (tw_writeEventToLog m b p s)" "wf_tw (tw_writeLocalEventToLog k s)"
    "wf_wrec r \<Longrightarrow> wf_tw (tw_writeRecordToLog r s)"
  using assms by (simp_all add: wf_tw_def wf_merge_clocks)

lemma wf_tw_fields:
  assumes "wf_tw s"
  shows "wf_tw (s\<lparr>tw_curTid := a\<rparr>)" "wf_tw (s\<lparr>tw_isTXRun := a\<rparr>)" "wf_tw (s\<lparr>tw_delay := a\<rparr>)"
    "wf_tw (s\<lparr>tw_isCrash := a\<rparr>)" "wf_tw (s\<lparr>tw_vote := a\<rparr>)" "wf_tw (s\<lparr>tw_firstTimeWaiting := a\<rparr>)"
    "wf_tw (s\<lparr>tw_toAddr := addr\<rparr>)" "wf_tw (s\<lparr>tw_pc := pc\<rparr>)" "wf_tw (s\<lparr>tw_outbox := out\<rparr>)"
    "wf_wrec r \<Longrightarrow> wf_tw (s\<lparr>tw_rec := r\<rparr>)" "wf_obj d \<Longrightarrow> wf_tw (s\<lparr>tw_objData := d\<rparr>)"
    "wf_txMessage m \<Longrightarrow> wf_tw (s\<lparr>tw_newMsg := m\<rparr>)"
  using assms by (simp_all add: wf_tw_def)

lemma wf_tw_parts:
  assumes "wf_tw s"
  shows "wf_obj (tw_objData s)" "wf_wrec (tw_rec s)" "wf_wrec (tw_junkRec s)"
    "wf_txMessage (tw_newMsg s)" "length (tw_junkID s) = IDLEN" "list_all wf_wrec (tw_log s)"
    "length (tw_clock s) = MAX_NODES" "wf_clock (tw_clock s)"
  using assms by (simp_all add: wf_tw_def)

lemma wf_wrec_upd [simp]:
  "wf_wrec (r\<lparr>r_msgID := a\<rparr>) = wf_wrec r" "wf_wrec (r\<lparr>r_tid := a\<rparr>) = wf_wrec r"
  "wf_wrec (r\<lparr>r_oldValue := a\<rparr>) = wf_wrec r"
  by (simp_all add: wf_wrec_def)

lemma wf_obj_upd [simp]:
  "wf_obj (d\<lparr>o_A := a\<rparr>) = wf_obj d" "wf_obj (d\<lparr>o_B := a\<rparr>) = wf_obj d"
  "wf_obj (d\<lparr>o_lastUpdateTime := t\<rparr>) = wf_obj d"
  by (simp_all add: wf_obj_def)

lemma wf_construct [simp]:
  "wf_tw s \<Longrightarrow> wf_txMessage (constructTxMessage t n k s)"
  "wf_tw s \<Longrightarrow> wf_txMessage (tw_constructMessage c nm k s)"
  by (simp_all add: wf_tw_def wf_txMessage_def constructTxMessage_def tw_constructMessage_def)

lemma wf_crash: "wf_tw s \<Longrightarrow> wf_tw (tw_crash m s)"
  by (simp add: tw_crash_def wf_tw_small)

lemma wf_send: "wf_tw s \<Longrightarrow> wf_txMessage m \<Longrightarrow> out_all wf_tw (tw_sendMsg sent m a s)"
  by (simp add: tw_sendMsg_wf wf_crash wf_tw_fields)

lemma readVals_wf:
  "list_all wf_wrec rs \<Longrightarrow> wf_obj d \<Longrightarrow> readVals cur rs x y i d = Some d' \<Longrightarrow> wf_obj d'"
proof (induction cur rs x y i d rule: readVals.induct)
  case (2 cur r rs x y i d)
  have "wf_obj (d\<lparr>o_A := x, o_B := y, o_IDstring := z, o_vectorClock := r_vectorClock r,
      o_lastUpdateTime := r_lastUpdateTime r\<rparr>)" if "strcpy (o_IDstring d) i = Some z" for z
    using that 2(6,7) strcpy_length [OF that] by (simp add: wf_obj_def wf_wrec_def)
  with 2 show ?case by (auto simp: bind_eq_Some_conv split: if_splits)
qed simp

lemma readVal_wf: "wf_tw s \<Longrightarrow> readValFromRecord s = Some t \<Longrightarrow> wf_tw t"
  by (auto simp: readValFromRecord_def bind_eq_Some_conv tw_records_def wf_tw_fields(11) wf_tw_parts
      intro!: wf_tw_fields(11) elim!: readVals_wf [rotated 2] split: if_splits)

lemma wf_log_decision: "wf_tw s \<Longrightarrow> wf_tw (log_decision m s)"
  by (simp add: log_decision_def wf_tw_fields wf_tw_small wf_tw_parts)

lemma wf_waiting_recv: "wf_tw s \<Longrightarrow> out_all wf_tw (waiting_recv a buf s)"
  by (auto simp: waiting_recv_def Let_def wf_tw_small intro!: wf_tw_fields wf_log_decision
      dest!: readVal_wf [rotated] split: option.split)

lemma wf_waiting: "wf_tw s \<Longrightarrow> out_all wf_tw (waitingForCoordResponse e a s)"
  by (cases e) (auto simp: waiting_timeout_def Let_def wf_tw_small wf_tw_fields wf_waiting_recv
      intro!: wf_send wf_construct split: option.split)

lemma wf_prepare: "wf_tw s \<Longrightarrow> out_all wf_tw (handle_prepare sent m a s)"
proof -
  assume s: "wf_tw s"
  let ?s = "tw_saveVectorTime (tw_tickMyClock (tw_writeRecordToLog ((tw_junkRec s)\<lparr>r_msgID := tx_msgID m, r_tid := tx_tid m\<rparr>) s))"
  have wf: "wf_tw ?s" using s by (simp add: wf_tw_small wf_tw_parts)
  show ?thesis
    using s wf
    by (auto simp: handle_prepare_def Let_def wf_tw_small wf_tw_fields wf_tw_parts
        intro!: out_all_seq [OF wf_send] split: option.split)
qed

lemma wf_handleManagerMsg: "wf_tw s \<Longrightarrow> out_all wf_tw (handleManagerMsg m s)"
proof -
  assume s: "wf_tw s"
  have j: "wf_tw (handle_join_answer msg a t)" if "wf_tw t" for msg a t
    using that by (auto simp: handle_join_answer_def Let_def wf_tw_def wf_wrec_def wf_obj_def)
  have "out_all wf_tw (handle_man_msg sent msg a t)" if "wf_tw t" for sent msg a t
    using that j wf_prepare wf_log_decision
    by (auto simp: handle_man_msg_def Let_def dest!: readVal_wf [rotated] split: option.split)
  then show ?thesis
    using s by (auto simp: handleManagerMsg_def Let_def wf_tw_small split: option.split)
qed

definition own_index :: "tw_state \<Rightarrow> nat" where
  "own_index s = fst (updateMyVectorClock (tw_nodeId s) (tw_clock s))"

definition touch_obj :: "timeval \<Rightarrow> tw_state \<Rightarrow> objectData \<Rightarrow> objectData" where
  "touch_obj now s d = d\<lparr>o_lastUpdateTime := now, o_vectorClock := (o_vectorClock d)[own_index s :=
     (o_vectorClock d ! own_index s)\<lparr>c_time := c_time (tick (tw_nodeId s) (tw_clock s) ! own_index s)\<rparr>]\<rparr>"

lemma finish_update_eq:
  "finish_update now m s =
    (if own_index s < MAX_NODES
     then Running ((tw_writeLocalEventToLog m (tw_saveVectorTime (tw_tickMyClock s)))
            \<lparr>tw_objData := touch_obj now s (tw_objData s)\<rparr>)
     else Undefined)"
  by (simp add: finish_update_def case_prod_beta Let_def own_index_def touch_obj_def tw_defs)

lemma wf_touch_obj [simp]: "wf_obj (touch_obj now s d) = wf_obj d"
  by (simp add: wf_obj_def touch_obj_def)

lemma touch_obj_values [simp]:
  "o_A (touch_obj now s d) = o_A d" "o_B (touch_obj now s d) = o_B d"
  "o_IDstring (touch_obj now s d) = o_IDstring d"
  by (simp_all add: touch_obj_def)

lemma wf_finish: "wf_tw s \<Longrightarrow> out_all wf_tw (finish_update now m s)"
  by (simp add: finish_update_eq wf_tw_small wf_tw_fields wf_tw_parts)

lemma wf_log_old: "wf_tw s \<Longrightarrow> (\<And>r. wf_wrec r \<Longrightarrow> wf_wrec (f r)) \<Longrightarrow> wf_tw (log_old m f s)"
  by (simp add: log_old_def Let_def wf_tw_small wf_tw_fields wf_tw_parts)

lemma wf_new_A: "wf_tw s \<Longrightarrow> out_all wf_tw (cmd_new_A now m s)"
  by (simp add: cmd_new_A_def Let_def wf_finish wf_tw_fields wf_tw_parts wf_log_old)

lemma wf_new_B: "wf_tw s \<Longrightarrow> out_all wf_tw (cmd_new_B now m s)"
  by (simp add: cmd_new_B_def Let_def wf_finish wf_tw_fields wf_tw_parts wf_log_old)

lemma wf_new_id:
  assumes "wf_tw s" and "cmd_new_id now m s = Some t"
  shows "wf_tw t"
proof -
  from assms(2) obtain u str where
    u: "u = s \<or> (\<exists>old. strcpy (r_oldID (tw_rec s)) (o_IDstring (tw_objData s)) = Some old \<and>
      u = log_old m (\<lambda>r. r\<lparr>r_oldID := old\<rparr>) s)"
    and str: "strcpy (o_IDstring (tw_objData u)) (newID m) = Some str"
    and t: "t = (tw_writeLocalEventToLog m (tw_saveVectorTime (tw_tickMyClock
        (u\<lparr>tw_objData := (tw_objData u)\<lparr>o_IDstring := str\<rparr>\<rparr>))))
        \<lparr>tw_objData := (tw_objData u)\<lparr>o_IDstring := str, o_lastUpdateTime := now\<rparr>\<rparr>"
    by (auto simp: cmd_new_id_def bind_eq_Some_conv Let_def split: if_splits)
  have "wf_tw u" using u
  proof
    assume "\<exists>old. strcpy (r_oldID (tw_rec s)) (o_IDstring (tw_objData s)) = Some old \<and>
      u = log_old m (\<lambda>r. r\<lparr>r_oldID := old\<rparr>) s"
    then obtain old where old: "strcpy (r_oldID (tw_rec s)) (o_IDstring (tw_objData s)) = Some old"
      and u: "u = log_old m (\<lambda>r. r\<lparr>r_oldID := old\<rparr>) s" by blast
    have "length old = IDLEN"
      using strcpy_length [OF old] wf_tw_parts(2) [OF assms(1)] by (simp add: wf_wrec_def)
    then show ?thesis unfolding u using assms(1) by (intro wf_log_old) (simp_all add: wf_wrec_def)
  qed (use assms(1) in simp)
  moreover have "wf_obj ((tw_objData u)\<lparr>o_IDstring := str, o_lastUpdateTime := now\<rparr>)"
    using wf_tw_parts(1) [OF \<open>wf_tw u\<close>] strcpy_length [OF str] by (simp add: wf_obj_def)
  ultimately show ?thesis unfolding t by (intro wf_tw_fields wf_tw_small) simp_all
qed

lemma wf_cmd_commit: "wf_tw s \<Longrightarrow> out_all wf_tw (cmd_commit sent c m s)"
  unfolding cmd_commit_def Let_def
  by (intro wf_send wf_tw_small wf_tw_fields wf_construct) (simp_all add: wf_tw_parts)

lemma wf_cmd_abort: "wf_tw s \<Longrightarrow> out_all wf_tw (cmd_abort c m s)"
proof (cases "readValFromRecord (s\<lparr>tw_isCrash := c\<rparr>)")
  case (Some t)
  assume "wf_tw s"
  then have "wf_tw t" using Some by (auto intro: readVal_wf wf_tw_fields)
  then show ?thesis
    by (simp add: cmd_abort_def Some Let_def wf_tw_small wf_tw_fields wf_tw_parts)
qed (simp add: cmd_abort_def)

lemma wf_begin_join: "wf_tw s \<Longrightarrow> out_all wf_tw (cmd_begin_join sent h m s)"
  unfolding cmd_begin_join_def Let_def
  by (auto split: option.split prod.split intro!: wf_send wf_tw_small wf_tw_fields wf_construct)

lemma wf_cmd_round: "wf_tw s \<Longrightarrow> out_all wf_tw (cmd_round c s)"
proof -
  assume s: "wf_tw s"
  have "wf_tw (cmd_crash m s)" for m using s by (simp add: cmd_crash_def wf_tw_small)
  then have "out_all wf_tw (handle_cmd c m s)" for m
    using s wf_new_A wf_new_B wf_cmd_commit wf_cmd_abort wf_begin_join wf_new_id
    by (auto simp: handle_cmd_def Let_def wf_tw_fields split: option.split)
  then show ?thesis by (simp add: cmd_round_def split: option.split)
qed

interpretation tw_machine: machine tw_step wf_tw
proof unfold_locales
  fix s e
  assume s: "wf_tw s"
  have "out_all wf_tw (handleCmdMsg e s)"
    using s by (cases e)
      (auto simp: wf_handleManagerMsg split: option.split intro!: out_all_seq [OF wf_cmd_round])
  then show "out_all wf_tw (tw_step e s)"
    using s by (simp add: tw_step_def wf_waiting split: tw_pc.split)
qed

subsection \<open>The log only grows, and the port in its header stays\<close>

abbreviation sys_port :: "tw_state \<Rightarrow> u64" where
  "sys_port s \<equiv> ci_sys_port (tw_crashInfo s)"

definition tw_le :: "tw_state \<Rightarrow> tw_state \<Rightarrow> bool" where
  "tw_le s t \<longleftrightarrow> prefix (tw_log s) (tw_log t) \<and> tw_host t = tw_host s \<and> tw_nodeId t = tw_nodeId s \<and>
     sys_port t = sys_port s"

lemma tw_le_same:
  "tw_log t = tw_log s \<Longrightarrow> tw_host t = tw_host s \<Longrightarrow> tw_nodeId t = tw_nodeId s \<Longrightarrow>
    sys_port t = sys_port s \<Longrightarrow> tw_le s t"
  by (simp add: tw_le_def)

lemma tw_le_refl: "tw_le s s"
  by (simp add: tw_le_def)

lemma tw_le_trans: "tw_le s t \<Longrightarrow> tw_le t u \<Longrightarrow> tw_le s u"
  by (auto simp: tw_le_def)

lemma tw_le_send: "tw_le s t \<Longrightarrow> out_all (tw_le s) (tw_sendMsg sent m a t)"
  by (auto simp: tw_sendMsg_def tw_le_def Let_def split: option.split)

lemma readVal_frame:
  assumes "readValFromRecord s = Some t"
  shows "\<exists>d. t = s\<lparr>tw_objData := d\<rparr>"
  using assms by (auto simp: readValFromRecord_def bind_eq_Some_conv)

lemma tw_le_readVal: "readValFromRecord s = Some t \<Longrightarrow> tw_le u s \<Longrightarrow> tw_le u t"
  by (auto dest!: readVal_frame simp: tw_le_def)

lemma tw_le_log_decision: "tw_le s t \<Longrightarrow> tw_le s (log_decision m t)"
  by (auto simp: log_decision_def tw_le_def prefix_def)

lemma tw_le_waiting_recv: "out_all (tw_le s) (waiting_recv a buf s)"
proof (cases "deserializeWorkerMsg (tw_host s) buf")
  case (Some m)
  let ?t = "tw_writeEventToLog m False (sin_port a) (tw_saveVectorTime (tw_tickMyClock (tw_mergeVectorClock m s)))"
  have t: "tw_le s ?t" by (simp add: tw_le_def)
  have pc: "tw_le s (u\<lparr>tw_pc := p\<rparr>) = tw_le s u" for u p by (simp add: tw_le_def)
  show ?thesis
    using Some t tw_le_log_decision [OF t, of m]
    by (auto simp: waiting_recv_def Let_def pc intro!: tw_le_log_decision dest!: tw_le_readVal split: option.split)
qed (simp add: waiting_recv_def)

lemma tw_le_waiting: "out_all (tw_le s) (waitingForCoordResponse e a s)"
proof (cases e)
  case (WPollTimeout sent)
  then show ?thesis
    by (auto simp: waiting_timeout_def Let_def intro!: tw_le_send) (simp add: tw_le_def)
next
  case (WReady c i)
  have "tw_le s (s\<lparr>tw_pc := p\<rparr>)" for p by (simp add: tw_le_def)
  then show ?thesis by (auto simp: WReady tw_le_refl tw_le_waiting_recv split: option.split)
qed (simp add: tw_le_refl)

lemma tw_le_prepare: "out_all (tw_le s) (handle_prepare sent m a s)"
proof -
  let ?s = "tw_saveVectorTime (tw_tickMyClock (tw_writeRecordToLog ((tw_junkRec s)\<lparr>r_msgID := tx_msgID m, r_tid := tx_tid m\<rparr>) s))"
  have "out_all (tw_le s) (seq (tw_sendMsg sent nm a u)
      (\<lambda>s. Running ((tw_writeRecordToLog r s)\<lparr>tw_firstTimeWaiting := 1, tw_pc := p\<rparr>)))"
    if "tw_log u = tw_log ?s" "tw_host u = tw_host ?s" "tw_nodeId u = tw_nodeId ?s"
      "sys_port u = sys_port ?s" for nm u r p
  proof (rule out_all_seq)
    show "out_all (tw_le s) (tw_sendMsg sent nm a u)"
      using that by (intro tw_le_send) (simp add: tw_le_def)
  qed (auto simp: tw_le_def prefix_def)
  then show ?thesis by (auto simp: handle_prepare_def Let_def split: option.split)
qed

lemma tw_le_manager: "out_all (tw_le s) (handleManagerMsg m s)"
proof (cases "mi_recv m")
  case (Some ab)
  obtain a buf where ab: "ab = (a, buf)" by (cases ab)
  show ?thesis
  proof (cases "deserializeWorkerMsg (tw_host s) buf")
    case (Some msg)
    let ?t = "tw_writeEventToLog msg False (sin_port a) (tw_saveVectorTime (tw_tickMyClock (tw_mergeVectorClock msg s)))"
    have t: "tw_le s ?t" by (simp add: tw_le_def)
    have "tw_le ?t (handle_join_answer msg a ?t)" by (simp add: handle_join_answer_def Let_def tw_le_def)
    then have "out_all (tw_le ?t) (handle_man_msg (mi_sent m) msg a ?t)"
      using tw_le_log_decision [OF tw_le_refl] tw_le_prepare
      by (auto simp: handle_man_msg_def Let_def tw_le_refl intro!: tw_le_log_decision
          dest!: tw_le_readVal [OF _ tw_le_refl] split: option.split)
    then show ?thesis
      using t \<open>mi_recv m = Some ab\<close> ab Some
      by (auto simp: handleManagerMsg_def Let_def elim!: out_all_mono intro: tw_le_trans)
  qed (simp add: handleManagerMsg_def \<open>mi_recv m = Some ab\<close> ab)
qed (simp add: handleManagerMsg_def tw_le_refl)

lemma tw_le_log_old: "tw_le s (log_old m f s)"
  by (simp add: log_old_def Let_def tw_le_def)

lemma tw_le_finish: "tw_le s t \<Longrightarrow> out_all (tw_le s) (finish_update now m t)"
  by (simp add: finish_update_eq tw_le_def)

lemma tw_le_cmd_round: "out_all (tw_le s) (cmd_round c s)"
proof -
  have obj: "tw_le s (u\<lparr>tw_objData := d\<rparr>) = tw_le s u" for u d by (simp add: tw_le_def)
  have "out_all (tw_le s) (cmd_new_A now m s)" "out_all (tw_le s) (cmd_new_B now m s)" for now m
    by (auto simp: cmd_new_A_def cmd_new_B_def Let_def obj tw_le_log_old intro!: tw_le_finish)
  moreover have "tw_le s t" if "cmd_new_id now m s = Some t" for now m t
    using that tw_le_log_old [of s m]
    by (auto simp: cmd_new_id_def bind_eq_Some_conv Let_def tw_le_def split: if_splits)
  moreover have "out_all (tw_le s) (cmd_commit sent cr m s)" for sent cr m
    by (auto simp: cmd_commit_def Let_def intro!: tw_le_send) (simp add: tw_le_def)
  moreover have "out_all (tw_le s) (cmd_abort cr m s)" for cr m
    by (cases "readValFromRecord (s\<lparr>tw_isCrash := cr\<rparr>)")
      (auto simp: cmd_abort_def Let_def tw_le_def dest!: readVal_frame)
  moreover have "out_all (tw_le s) (cmd_begin_join sent h m s)" for sent h m
    by (auto simp: cmd_begin_join_def Let_def split: option.split prod.split intro!: tw_le_send)
      (simp add: tw_le_def)
  moreover have "tw_le s (cmd_crash m s)" for m by (simp add: cmd_crash_def tw_le_def)
  moreover have "tw_le s (s\<lparr>tw_delay := x\<rparr>)" "tw_le s (s\<lparr>tw_vote := x\<rparr>)" for x by (simp_all add: tw_le_def)
  ultimately have "out_all (tw_le s) (handle_cmd c m s)" for m
    by (auto simp: handle_cmd_def Let_def tw_le_refl split: option.split)
  then show ?thesis by (simp add: cmd_round_def split: option.split)
qed

interpretation tw_growing: growing tw_step tw_le
proof unfold_locales
  fix s :: tw_state and e
  show "tw_le s s" by (rule tw_le_refl)
  show "tw_le s t \<Longrightarrow> tw_le t u \<Longrightarrow> tw_le s u" for t u by (rule tw_le_trans)
  have man: "out_all (tw_le s) (case m of None \<Rightarrow> Running t | Some m \<Rightarrow> handleManagerMsg m t)"
    if "tw_le s t" for m t
  proof (cases m)
    case (Some mi)
    have "out_all (tw_le s) (handleManagerMsg mi t)"
      by (rule out_all_mono [OF tw_le_manager]) (rule tw_le_trans [OF that])
    then show ?thesis using Some by simp
  qed (simp add: that)
  have cmd: "out_all (tw_le s) (case c of None \<Rightarrow> Running s | Some c \<Rightarrow> cmd_round c s)" for c
    by (simp add: tw_le_refl tw_le_cmd_round split: option.split)
  have "out_all (tw_le s) (handleCmdMsg e s)"
    using out_all_seq [OF cmd man] by (cases e) (simp_all add: tw_le_refl)
  then show "out_all (tw_le s) (tw_step e s)"
    by (simp add: tw_step_def tw_le_waiting split: tw_pc.split)
qed

end
