(* ===== verification/TWorkerUndo.thy ===== *)
theory TWorkerUndo
  imports TWorkerFrame
begin

text \<open>
  The worker's undo log.  The abstract store is the triple of the two integers and the string;
  \<open>undo\<close> rolls it back over the records of a transaction, newest first.  \<open>txn v s\<close> says that the
  worker is inside a transaction at whose start the store was \<open>v\<close>: the log ends in a join record
  and the transaction's records, and undoing them from the current store gives \<open>v\<close>.  Every update
  keeps it, and \<open>readValFromRecord\<close> then restores \<open>v\<close>.
\<close>

subsection \<open>The abstract store\<close>

type_synonym vals = "u32 \<times> u32 \<times> u8 list"

definition vals :: "objectData \<Rightarrow> vals" where
  "vals d = (o_A d, o_B d, c_string (o_IDstring d))"

fun undo1 :: "wrecord \<Rightarrow> vals \<Rightarrow> vals" where
  "undo1 r (a, b, i) =
     (if r_msgID r = NEW_A then (r_oldValue r, b, i)
      else if r_msgID r = NEW_B then (a, r_oldValue r, i)
      else if r_msgID r = NEW_IDSTR then (a, b, c_string (r_oldID r))
      else (a, b, i))"

definition undo :: "wrecord list \<Rightarrow> vals \<Rightarrow> vals" where
  "undo ups v = fold undo1 (rev ups) v"

lemma undo_snoc [simp]: "undo (ups @ [r]) v = undo ups (undo1 r v)"
  by (simp add: undo_def)

lemma undo_Nil [simp]: "undo [] v = v"
  by (simp add: undo_def)

definition tx_record :: "u32 \<Rightarrow> wrecord \<Rightarrow> bool" where
  "tx_record cur r \<longleftrightarrow> r_tid r = cur \<and> r_msgID r \<noteq> JOINTX \<and> wf_wrec r \<and>
     (r_msgID r = NEW_IDSTR \<longrightarrow> 0 \<in> set (r_oldID r))"

lemma readVals_ups:
  assumes "list_all (tx_record cur) ups" and "length i = IDLEN" and "0 \<in> set i"
  shows "\<exists>x' y' i'. readVals cur (rev ups @ rest) x y i d = readVals cur rest x' y' i' d \<and>
    (x', y', c_string i') = undo ups (x, y, c_string i) \<and> length i' = IDLEN \<and> 0 \<in> set i'"
  using assms
proof (induction ups arbitrary: x y i rule: rev_induct)
  case Nil
  then show ?case by auto
next
  case (snoc r ups)
  then have ups: "list_all (tx_record cur) ups" and r: "tx_record cur r" by simp_all
  show ?case
  proof (cases "r_msgID r = NEW_IDSTR")
    case True
    with r have "length (r_oldID r) = length i" "0 \<in> set (r_oldID r)"
      using snoc.prems(2) by (simp_all add: tx_record_def wf_wrec_def)
    then obtain j where j: "strcpy i (r_oldID r) = Some j"
      using strcpy_same_size by metis
    have "length j = IDLEN" "0 \<in> set j" "c_string j = c_string (r_oldID r)"
      using strcpy_length [OF j] strcpy_string [OF j] snoc.prems(2) by simp_all
    with snoc.IH [OF ups, of j x y] True r j show ?thesis
      by (simp add: tx_record_def)
  next
    case False
    then show ?thesis
      using snoc.IH [OF ups snoc.prems(2,3), of "r_oldValue r" y] r
        snoc.IH [OF ups snoc.prems(2,3), of x "r_oldValue r"] snoc.IH [OF ups snoc.prems(2,3), of x y]
      by (auto simp: tx_record_def)
  qed
qed

subsection \<open>Inside a transaction\<close>

definition txn :: "vals \<Rightarrow> clock list \<Rightarrow> timeval \<Rightarrow> tw_state \<Rightarrow> bool" where
  "txn v vc t s \<longleftrightarrow>
     (\<exists>old join ups. tw_log s = old @ join # ups \<and> r_tid join = tw_curTid s \<and> r_msgID join = JOINTX \<and>
        r_vectorClock join = vc \<and> r_lastUpdateTime join = t \<and>
        list_all (tx_record (tw_curTid s)) ups \<and> (old = [] \<or> r_tid (last old) \<noteq> tw_curTid s) \<and>
        undo ups (vals (tw_objData s)) = v \<and> 0 \<in> set (o_IDstring (tw_objData s)))"

lemma length_tw_records: "length (tw_log s) \<le> 22 \<Longrightarrow> tw_records s = Some (tw_log s)"
  by (simp add: tw_records_def sizeof_CrashInfo_def sizeof_Record_def tw_page_def)

lemma txn_restores:
  assumes "txn v vc t s" and "wf_tw s" and "length (tw_log s) \<le> 22"
  shows "\<exists>d. readValFromRecord s = Some (s\<lparr>tw_objData := d\<rparr>) \<and> vals d = v \<and> o_vectorClock d = vc \<and>
    o_lastUpdateTime d = t \<and> 0 \<in> set (o_IDstring d)"
proof -
  let ?d = "tw_objData s" and ?cur = "tw_curTid s"
  from assms(1) obtain old join ups where
    log: "tw_log s = old @ join # ups" and join: "r_tid join = ?cur" "r_msgID join = JOINTX"
      "r_vectorClock join = vc" "r_lastUpdateTime join = t"
    and ups: "list_all (tx_record ?cur) ups" and old: "old = [] \<or> r_tid (last old) \<noteq> ?cur"
    and v: "undo ups (vals ?d) = v" and z: "0 \<in> set (o_IDstring ?d)"
    unfolding txn_def by blast
  have len: "length (o_IDstring ?d) = IDLEN" "length (tw_junkID s) = IDLEN"
    using assms(2) by (simp_all add: wf_tw_def wf_obj_def)
  then obtain i where i: "strcpy (tw_junkID s) (o_IDstring ?d) = Some i"
    using z strcpy_same_size by metis
  then have iz: "length i = IDLEN" "0 \<in> set i" "c_string i = c_string (o_IDstring ?d)"
    using strcpy_length [OF i] strcpy_string [OF i] len by simp_all
  from readVals_ups [OF ups iz(1,2), of "[join] @ rev old" "o_A ?d" "o_B ?d" ?d] obtain x' y' i' where
    rv: "readVals ?cur (rev (tw_log s)) (o_A ?d) (o_B ?d) i ?d = readVals ?cur (join # rev old) x' y' i' ?d"
    and v': "(x', y', c_string i') = v" and i': "length i' = IDLEN" "0 \<in> set i'"
    using v iz(3) by (auto simp: log vals_def)
  obtain str where str: "strcpy (o_IDstring ?d) i' = Some str"
    using i' len strcpy_same_size [of i' "o_IDstring ?d"] by auto
  let ?r = "?d\<lparr>o_A := x', o_B := y', o_IDstring := str, o_vectorClock := vc, o_lastUpdateTime := t\<rparr>"
  have "readVals ?cur (rev old) x' y' i' d = Some d" for d
    using old by (cases "rev old") (auto simp: last_rev [symmetric] rev_swap)
  then have "readVals ?cur (rev (tw_log s)) (o_A ?d) (o_B ?d) i ?d = Some ?r"
    using join str by (simp add: rv)
  then have "readValFromRecord s = Some (s\<lparr>tw_objData := ?r\<rparr>)"
    by (simp add: readValFromRecord_def length_tw_records [OF assms(3)] i)
  moreover have "vals ?r = v" using v' strcpy_string(1) [OF str] by (simp add: vals_def)
  moreover have "0 \<in> set str" using strcpy_string(2) [OF str] .
  ultimately show ?thesis by (intro exI [of _ ?r]) simp
qed

text \<open>Joining starts a transaction.\<close>

lemma join_txn:
  assumes "wf_tw s" and "tx_msgID m = JOIN_SUCCESS"
    and "tw_log s = [] \<or> r_tid (last (tw_log s)) \<noteq> tx_tid m"
    and "0 \<in> set (o_IDstring (tw_objData s))"
  shows "txn (vals (tw_objData s)) (o_vectorClock (tw_objData s)) (o_lastUpdateTime (tw_objData s))
    (handle_join_answer m a s) \<and> tw_isTXRun (handle_join_answer m a s) \<noteq> 0"
  using assms(2-4) unfolding txn_def
  by (intro conjI exI [of _ "tw_log s"] exI [of _ "(tw_junkRec s)\<lparr>r_msgID := JOINTX, r_tid := tx_tid m,
              r_vectorClock := o_vectorClock (tw_objData s),
              r_lastUpdateTime := o_lastUpdateTime (tw_objData s)\<rparr>"] exI [of _ "[]"])
    (simp_all add: handle_join_answer_def Let_def)

text \<open>Appending a record of the transaction.\<close>

lemma txn_append:
  assumes "txn v vc t s" and "tw_log s' = tw_log s @ [r]" and "tw_curTid s' = tw_curTid s"
    and "tx_record (tw_curTid s) r" and "undo1 r (vals (tw_objData s')) = vals (tw_objData s)"
    and "0 \<in> set (o_IDstring (tw_objData s'))"
  shows "txn v vc t s'"
proof -
  from assms(1) obtain old join ups where
    "tw_log s = old @ join # ups" "r_tid join = tw_curTid s" "r_msgID join = JOINTX"
    "r_vectorClock join = vc" "r_lastUpdateTime join = t" "list_all (tx_record (tw_curTid s)) ups"
    "old = [] \<or> r_tid (last old) \<noteq> tw_curTid s" "undo ups (vals (tw_objData s)) = v"
    unfolding txn_def by blast
  with assms(2-6) show ?thesis
    unfolding txn_def by (intro exI [of _ old] exI [of _ join] exI [of _ "ups @ [r]"]) simp
qed

lemma txn_same:
  "txn v vc t s \<Longrightarrow> tw_log s' = tw_log s \<Longrightarrow> tw_curTid s' = tw_curTid s \<Longrightarrow>
    tw_objData s' = tw_objData s \<Longrightarrow> txn v vc t s'"
  by (simp add: txn_def)

definition is_update :: "u32 \<Rightarrow> bool" where
  "is_update k \<longleftrightarrow> k = NEW_A \<or> k = NEW_B \<or> k = NEW_IDSTR"

lemma log_old_log:
  "tw_isTXRun s \<noteq> 0 \<Longrightarrow>
    tw_log (log_old m f s) = tw_log s @ [f ((tw_rec s)\<lparr>r_msgID := m_msgID m, r_tid := tw_curTid s\<rparr>)]"
  by (simp add: log_old_def Let_def)

lemma log_old_fields [simp]:
  "tw_objData (log_old m f s) = tw_objData s" "tw_curTid (log_old m f s) = tw_curTid s"
  "tw_isTXRun (log_old m f s) = tw_isTXRun s"
  by (simp_all add: log_old_def Let_def)

text \<open>An update keeps the value to restore.\<close>

lemma update_txn:
  assumes "txn v vc t s" and "wf_tw s" and "tw_isTXRun s \<noteq> 0" and "is_update (m_msgID m)"
    and "handle_cmd c m s = Running s'"
  shows "txn v vc t s' \<and> tw_isTXRun s' \<noteq> 0 \<and> length (tw_log s') = Suc (length (tw_log s))"
proof -
  have z: "0 \<in> set (o_IDstring (tw_objData s))" using assms(1) unfolding txn_def by blast
  have rec: "wf_wrec (tw_rec s)" using wf_tw_parts(2) [OF assms(2)] .
  consider (A) "m_msgID m = NEW_A" | (B) "m_msgID m = NEW_B" | (I) "m_msgID m = NEW_IDSTR"
    using assms(4) by (auto simp: is_update_def)
  then show ?thesis
  proof cases
    case A
    let ?r = "(tw_rec s)\<lparr>r_msgID := m_msgID m, r_tid := tw_curTid s, r_oldValue := o_A (tw_objData s)\<rparr>"
    have s': "tw_log s' = tw_log s @ [?r]" "tw_curTid s' = tw_curTid s" "tw_isTXRun s' = tw_isTXRun s"
      "vals (tw_objData s') = (m_newValue m, o_B (tw_objData s), c_string (o_IDstring (tw_objData s)))"
      "o_IDstring (tw_objData s') = o_IDstring (tw_objData s)"
      using assms(3,5) A
      by (auto simp: handle_cmd_def cmd_new_A_def Let_def finish_update_eq log_old_log vals_def split: if_splits)
    have "txn v vc t s'"
      using assms(1) s'(1,2) by (rule txn_append) (use A rec z s'(4,5) in \<open>simp_all add: tx_record_def vals_def\<close>)
    with s' assms(3) show ?thesis by simp
  next
    case B
    let ?r = "(tw_rec s)\<lparr>r_msgID := m_msgID m, r_tid := tw_curTid s, r_oldValue := o_B (tw_objData s)\<rparr>"
    have s': "tw_log s' = tw_log s @ [?r]" "tw_curTid s' = tw_curTid s" "tw_isTXRun s' = tw_isTXRun s"
      "vals (tw_objData s') = (o_A (tw_objData s), m_newValue m, c_string (o_IDstring (tw_objData s)))"
      "o_IDstring (tw_objData s') = o_IDstring (tw_objData s)"
      using assms(3,5) B
      by (auto simp: handle_cmd_def cmd_new_B_def Let_def finish_update_eq log_old_log vals_def split: if_splits)
    have "txn v vc t s'"
      using assms(1) s'(1,2) by (rule txn_append) (use B rec z s'(4,5) in \<open>simp_all add: tx_record_def vals_def\<close>)
    with s' assms(3) show ?thesis by simp
  next
    case I
    from assms(3,5) I obtain old str where
      old: "strcpy (r_oldID (tw_rec s)) (o_IDstring (tw_objData s)) = Some old"
      and str: "strcpy (o_IDstring (tw_objData s)) (newID m) = Some str"
      and s': "tw_log s' = tw_log s @ [(tw_rec s)\<lparr>r_msgID := m_msgID m, r_tid := tw_curTid s, r_oldID := old\<rparr>]"
        "tw_curTid s' = tw_curTid s" "tw_isTXRun s' = tw_isTXRun s"
        "vals (tw_objData s') = (o_A (tw_objData s), o_B (tw_objData s), c_string str)"
        "o_IDstring (tw_objData s') = str"
      by (auto simp: handle_cmd_def cmd_new_id_def Let_def bind_eq_Some_conv log_old_log vals_def
          split: option.splits)
    have "tx_record (tw_curTid s) ((tw_rec s)\<lparr>r_msgID := m_msgID m, r_tid := tw_curTid s, r_oldID := old\<rparr>)"
      using I rec strcpy_string(2) [OF old] strcpy_length [OF old] by (simp add: tx_record_def wf_wrec_def)
    with assms(1) s'(1,2) have "txn v vc t s'"
      by (rule txn_append)
        (use I s'(4,5) strcpy_string(1) [OF old] strcpy_string(2) [OF str] in \<open>simp_all add: vals_def\<close>)
    with s' assms(3) show ?thesis by simp
  qed
qed

text \<open>A run of update commands.\<close>

definition update_round :: "cmd_in \<Rightarrow> tw_state \<Rightarrow> tw_state outcome" where
  "update_round c s =
     (case deserializeMsg (tw_host s) (ci_buf c) of
        None \<Rightarrow> Undefined
      | Some m \<Rightarrow> if is_update (m_msgID m) then handle_cmd c m s else Undefined)"

lemma updates_txn:
  assumes "txn v vc t s" and "wf_tw s" and "tw_isTXRun s \<noteq> 0" and "run update_round cs s = Running s'"
  shows "txn v vc t s' \<and> wf_tw s' \<and> tw_isTXRun s' \<noteq> 0 \<and> length (tw_log s') = length (tw_log s) + length cs"
  using assms
proof (induction cs arbitrary: s)
  case Nil
  then show ?case by simp
next
  case (Cons c cs)
  from Cons.prems(4) obtain u where u: "update_round c s = Running u" and rest: "run update_round cs u = Running s'"
    by (cases "update_round c s") auto
  then obtain m where m: "deserializeMsg (tw_host s) (ci_buf c) = Some m" "is_update (m_msgID m)"
    and h: "handle_cmd c m s = Running u"
    by (auto simp: update_round_def split: option.splits if_splits)
  have "wf_tw u"
    using wf_cmd_round [OF Cons.prems(2), of c] by (simp add: cmd_round_def m h)
  with update_txn [OF Cons.prems(1-3) m(2) h] Cons.IH [of u] rest show ?case by simp
qed

end
