(* ===== verification/TWorkerProps.thy ===== *)
theory TWorkerProps
  imports TWorkerUndo
begin

text \<open>
  The properties of the worker in normal operation: the invariant, the answers to the manager's
  messages, the updates of the data object and their rollback.  The concrete worker of the
  instances listens on port 5001.
\<close>

subsection \<open>A concrete worker\<close>

definition zero_time :: timeval where
  "zero_time = \<lparr>tv_sec = 0, tv_usec = 0\<rparr>"

definition demo_obj :: objectData where
  "demo_obj = \<lparr>o_IDstring = [104, 105] @ replicate 62 0, o_lastUpdateTime = zero_time, o_A = 1, o_B = 2,
     o_vectorClock = first_clock 5001\<rparr>"

definition demo_rec :: "u32 \<Rightarrow> u32 \<Rightarrow> wrecord" where
  "demo_rec k tid = \<lparr>r_msgID = k, r_tid = tid, r_oldValue = 0, r_oldID = replicate 64 0,
     r_vectorClock = first_clock 5001, r_lastUpdateTime = zero_time\<rparr>"

definition wdemo_addr :: sockaddr_in where
  "wdemo_addr = \<lparr>sin_addr = 0, sin_port = 1234\<rparr>"

definition demo_txmsg :: "u32 \<Rightarrow> u32 \<Rightarrow> txMessage" where
  "demo_txmsg k tid = \<lparr>tx_msgID = k, tx_tid = tid, tx_nodeId = 5001, tx_isCrash = 0,
     tx_vectorClock = first_clock 1234\<rparr>"

definition demo_tw :: "wrecord list \<Rightarrow> tw_pc \<Rightarrow> tw_state" where
  "demo_tw log pc = \<lparr>tw_host = Little, tw_nodeId = 5001, tw_log = log,
     tw_crashInfo = \<lparr>ci_sys_port = 40000, ci_managerAddr = wdemo_addr, ci_vectorClock = first_clock 5001\<rparr>,
     tw_objData = demo_obj, tw_clock = first_clock 5001, tw_curTid = 7, tw_isTXRun = 1, tw_delay = 0,
     tw_isCrash = 0, tw_vote = 0, tw_firstTimeWaiting = 0, tw_rec = demo_rec 0 0,
     tw_newMsg = demo_txmsg 0 0, tw_toAddr = wdemo_addr, tw_pc = pc, tw_shiviz = '''',
     tw_junkRec = demo_rec 0 0, tw_junkID = replicate 64 0, tw_junk = '''', tw_outbox = []\<rparr>"

lemma length_first_clock [simp]: "length (first_clock p) = 10"
  by (simp add: first_clock_def)

lemma wf_first_clock [simp]: "wf_clock (first_clock p)"
  by (simp add: first_clock_def no_clock_def)

lemma wf_demo [simp]:
  "wf_wrec (demo_rec k tid)" "wf_obj demo_obj" "wf_txMessage (demo_txmsg k tid)"
  "list_all wf_wrec log \<Longrightarrow> wf_tw (demo_tw log pc)"
  by (simp_all add: wf_wrec_def wf_obj_def wf_txMessage_def wf_tw_def demo_rec_def demo_obj_def
      demo_txmsg_def demo_tw_def)

lemma demo_tw_fields [simp]:
  "tw_log (demo_tw log pc) = log" "tw_pc (demo_tw log pc) = pc" "tw_outbox (demo_tw log pc) = []"
  "tw_objData (demo_tw log pc) = demo_obj" "tw_curTid (demo_tw log pc) = 7" "tw_delay (demo_tw log pc) = 0"
  "tw_vote (demo_tw log pc) = 0" "tw_host (demo_tw log pc) = Little" "tw_nodeId (demo_tw log pc) = 5001"
  "tw_isTXRun (demo_tw log pc) = 1" "tx_msgID (demo_txmsg k tid) = k" "tx_tid (demo_txmsg k tid) = tid"
  "r_msgID (demo_rec k tid) = k" "r_tid (demo_rec k tid) = tid"
  by (simp_all add: demo_tw_def demo_txmsg_def demo_rec_def)

lemma demo_obj_terminated [simp]: "0 \<in> set (o_IDstring demo_obj)"
  by (simp add: demo_obj_def)

subsection \<open>The invariant\<close>

definition wf_tw_boot :: "tw_boot \<Rightarrow> bool" where
  "wf_tw_boot b \<longleftrightarrow> wf_obj (wb_objspace b) \<and> (\<forall>d. wb_data b = Some d \<longrightarrow> wf_obj d) \<and>
     wf_txMessage (wb_newMsg b) \<and> wf_wrec (wb_rec b) \<and> wf_wrec (wb_junkRec b) \<and> length (wb_junkID b) = IDLEN \<and>
     (case wb_file b of
        None \<Rightarrow> wb_fileExist b = 0
      | Some (hdr, recs) \<Rightarrow> length (ci_vectorClock hdr) = MAX_NODES \<and> wf_clock (ci_vectorClock hdr) \<and>
          list_all wf_wrec recs)"

lemma wf_recover_abort: "wf_tw s \<Longrightarrow> out_all wf_tw (recover_abort s)"
proof (cases "readValFromRecord s")
  case (Some t)
  assume "wf_tw s"
  then have "wf_tw t" using Some by (auto intro: readVal_wf)
  then show ?thesis
    by (simp add: recover_abort_def Some Let_def wf_tw_small wf_tw_fields wf_tw_parts)
qed (simp add: recover_abort_def)

lemma findState_frame: "tw_findStateFromRecord s = Some (k, t) \<Longrightarrow> \<exists>c. t = s\<lparr>tw_curTid := c\<rparr>"
  by (auto simp: tw_findStateFromRecord_def bind_eq_Some_conv intro: exI [of _ "tw_curTid s"] split: if_splits)

lemma wf_restart: "wf_tw (tw_restoreVectorTime s) \<Longrightarrow> out_all wf_tw (tw_restart s)"
  by (auto simp: tw_restart_def Let_def wf_tw_small wf_tw_fields dest!: findState_frame
      intro!: wf_recover_abort wf_tw_fields wf_tw_small split: option.split)

lemma wf_tw_main:
  assumes "wf_tw_boot b"
  shows "out_all wf_tw (tw_main b)"
proof (cases "wb_file b")
  case None
  have "wf_tw (tw_first_start (wb_now b) (savePort (wb_sysport b) (tw_boot_state b)))"
    using assms None
    by (auto simp: wf_tw_boot_def tw_first_start_def tw_boot_state_def savePort_def Let_def wf_tw_def
        wf_obj_def split: option.split)
  then show ?thesis using assms None by (simp add: tw_main_def wf_tw_boot_def Let_def)
next
  case (Some f)
  have "wf_tw (tw_restoreVectorTime (tw_boot_state b))"
    "wf_tw (tw_restoreVectorTime (savePort p (tw_boot_state b)))" for p
    using assms Some
    by (auto simp: wf_tw_boot_def tw_boot_state_def savePort_def Let_def wf_tw_def tw_restoreVectorTime_def
        no_clock_def split: option.splits)
  then show ?thesis using Some by (simp add: tw_main_def Let_def wf_restart)
qed

text \<open>
  C26: the worker's state stays well formed.  From a first start, and from a restart on well formed
  files, every sequence of commands, datagrams and timeouts keeps both clocks well formed and
  the arrays of the data object, of the locals and of every logged record at their sizes.
\<close>

theorem worker_invariant:
  assumes "wf_tw_boot b"
  shows "out_all wf_tw (seq (tw_main b) (run tw_step es))"
  using wf_tw_main [OF assms] by (rule out_all_seq) (auto intro: tw_machine.run_inv)

definition demo_wboot :: tw_boot where
  "demo_wboot = \<lparr>wb_host = Little, wb_port = 5001, wb_file = None, wb_data = None, wb_shiviz = '''',
     wb_fileExist = 0, wb_sysport = 40000, wb_now = zero_time,
     wb_space = \<lparr>ci_sys_port = 0, ci_managerAddr = wdemo_addr, ci_vectorClock = []\<rparr>,
     wb_objspace = demo_obj, wb_rec = demo_rec 0 0, wb_newMsg = demo_txmsg 0 0, wb_toAddr = wdemo_addr,
     wb_junkRec = demo_rec 0 0, wb_junkID = replicate 64 0, wb_junk = ''''\<rparr>"

theorem worker_invariant_witness:
  "out_all wf_tw (seq (tw_main demo_wboot) (run tw_step [WPollTimeout True]))"
  by (rule worker_invariant) (simp add: wf_tw_boot_def demo_wboot_def)

subsection \<open>Datagrams from the manager\<close>

abbreviation from_manager :: "sockaddr_in \<Rightarrow> u8 list \<Rightarrow> bool \<Rightarrow> tw_event" where
  "from_manager a buf sent \<equiv> WReady None (Some \<lparr>mi_recv = Some (a, buf), mi_empty = None, mi_sent = sent\<rparr>)"

definition tw_received :: "txMessage \<Rightarrow> sockaddr_in \<Rightarrow> tw_state \<Rightarrow> tw_state" where
  "tw_received m a s =
     tw_writeEventToLog m False (sin_port a) (tw_saveVectorTime (tw_tickMyClock (tw_mergeVectorClock m s)))"

lemma tw_received_core [simp]: "tw_core (tw_received m a s) = tw_core s"
  by (simp add: tw_received_def)

lemmas tw_received_fields [simp] = tw_core_fields [OF tw_received_core]

lemma tw_received_more [simp]:
  "tw_log (tw_received m a s) = tw_log s" "tw_outbox (tw_received m a s) = tw_outbox s"
  "ci_managerAddr (tw_crashInfo (tw_received m a s)) = ci_managerAddr (tw_crashInfo s)"
  by (simp_all add: tw_received_def)

lemma wf_received: "wf_tw s \<Longrightarrow> wf_tw (tw_received m a s)"
  by (simp add: tw_received_def wf_tw_small)

lemma main_receives:
  assumes "wf_txMessage m" and "tw_pc s = MainLoop"
  shows "tw_step (from_manager a (txBytes m @ rest) sent) s = handle_man_msg sent m a (tw_received m a s)"
  using deserializeWorkerMsg_txBytes [OF assms(1), of "tw_host s" rest] assms(2)
  by (simp add: tw_step_def handleManagerMsg_def Let_def tw_received_def)

lemma waiting_receives:
  assumes "wf_txMessage m" and "tw_pc s = Waiting addr"
  shows "tw_step (from_manager a (txBytes m @ rest) sent) s =
    (let s = tw_received m a s in
     if tx_msgID m = DECIDE_COMMIT then Running ((log_decision m s)\<lparr>tw_pc := MainLoop\<rparr>)
     else if tx_msgID m = DECIDE_ABORT then
       (case readValFromRecord s of None \<Rightarrow> Undefined | Some s \<Rightarrow> Running ((log_decision m s)\<lparr>tw_pc := MainLoop\<rparr>))
     else Running (s\<lparr>tw_pc := MainLoop\<rparr>))"
  using deserializeWorkerMsg_txBytes [OF assms(1), of "tw_host s" rest] assms(2)
  by (simp add: tw_step_def waiting_recv_def Let_def tw_received_def)

lemma log_decision_fields [simp]:
  "tw_log (log_decision m s) = tw_log s @ [(tw_junkRec s)\<lparr>r_msgID := tx_msgID m, r_tid := tx_tid m\<rparr>]"
  "tw_objData (log_decision m s) = tw_objData s" "tw_isTXRun (log_decision m s) = 0"
  "tw_outbox (log_decision m s) = tw_outbox s" "tw_pc (log_decision m s) = tw_pc s"
  "tw_curTid (log_decision m s) = tw_curTid s"
  by (simp_all add: log_decision_def)

text \<open>
  A decision to commit keeps the updates.  In the main loop and while waiting, \<open>DECIDE_COMMIT\<close>
  appends one record with the decision to the log, leaves the data object as it is, ends the
  transaction and leaves the worker in the main loop.
\<close>

theorem commit_decision_kept:
  assumes "wf_txMessage m" and "tx_msgID m = DECIDE_COMMIT"
  shows "\<exists>t r. tw_step (from_manager a (txBytes m @ rest) sent) s = Running t \<and>
    tw_log t = tw_log s @ [r] \<and> r_msgID r = DECIDE_COMMIT \<and> r_tid r = tx_tid m \<and>
    tw_objData t = tw_objData s \<and> tw_isTXRun t = 0 \<and> tw_pc t = MainLoop \<and> tw_outbox t = tw_outbox s"
proof (cases "tw_pc s")
  case MainLoop
  then show ?thesis
    using main_receives [OF assms(1) MainLoop] assms(2) by (simp add: handle_man_msg_def)
next
  case (Waiting addr)
  then show ?thesis
    using waiting_receives [OF assms(1) Waiting] assms(2) by (simp add: Let_def)
qed

theorem commit_decision_kept_witness:
  "\<exists>t. tw_step (from_manager wdemo_addr (txBytes (demo_txmsg DECIDE_COMMIT 7) @ []) True)
     (demo_tw [demo_rec VOTE_COMMIT 7] (Waiting wdemo_addr)) = Running t \<and> tw_objData t = demo_obj"
  using commit_decision_kept [of "demo_txmsg DECIDE_COMMIT 7" wdemo_addr "[]" True
      "demo_tw [demo_rec VOTE_COMMIT 7] (Waiting wdemo_addr)"]
  by auto

lemma abort_decision_step:
  assumes "wf_tw s" and "txn v vc time s" and "length (tw_log s) \<le> 22"
    and "wf_txMessage m" and "tx_msgID m = DECIDE_ABORT"
  shows "\<exists>t r. tw_step (from_manager a (txBytes m @ rest) sent) s = Running t \<and>
    vals (tw_objData t) = v \<and> o_vectorClock (tw_objData t) = vc \<and> o_lastUpdateTime (tw_objData t) = time \<and>
    tw_log t = tw_log s @ [r] \<and> r_msgID r = DECIDE_ABORT \<and> r_tid r = tx_tid m \<and>
    tw_isTXRun t = 0 \<and> tw_pc t = MainLoop"
proof -
  let ?s = "tw_received m a s"
  have "txn v vc time ?s" by (rule txn_same [OF assms(2)]) simp_all
  with wf_received [OF assms(1)] assms(3) obtain d where
    d: "readValFromRecord ?s = Some (?s\<lparr>tw_objData := d\<rparr>)" "vals d = v" "o_vectorClock d = vc"
      "o_lastUpdateTime d = time"
    using txn_restores [of v vc time ?s] by auto
  show ?thesis
  proof (cases "tw_pc s")
    case MainLoop
    then show ?thesis
      using main_receives [OF assms(4) MainLoop] assms(5) d by (simp add: handle_man_msg_def)
  next
    case (Waiting addr)
    then show ?thesis
      using waiting_receives [OF assms(4) Waiting] assms(5) d by (simp add: Let_def)
  qed
qed

text \<open>
  A decision to abort rolls back.  In the main loop and while waiting, a worker that is inside
  a transaction which it entered with the store \<open>v\<close> restores \<open>v\<close>, the object's clock and its time
  of update on \<open>DECIDE_ABORT\<close>, logs the decision and is in the main loop afterwards.
\<close>

theorem abort_decision_restores:
  assumes "wf_tw s" and "txn v vc time s" and "length (tw_log s) \<le> 22"
    and "wf_txMessage m" and "tx_msgID m = DECIDE_ABORT"
  shows "\<exists>t r. tw_step (from_manager a (txBytes m @ rest) sent) s = Running t \<and>
    vals (tw_objData t) = v \<and> o_vectorClock (tw_objData t) = vc \<and> o_lastUpdateTime (tw_objData t) = time \<and>
    tw_log t = tw_log s @ [r] \<and> r_msgID r = DECIDE_ABORT \<and> r_tid r = tx_tid m \<and>
    tw_isTXRun t = 0 \<and> tw_pc t = MainLoop"
  using assms by (rule abort_decision_step)

definition demo_updated :: "tw_pc \<Rightarrow> tw_state" where
  "demo_updated pc = (demo_tw [demo_rec JOINTX 7, (demo_rec NEW_A 7)\<lparr>r_oldValue := 9\<rparr>] pc)"

lemma demo_updated_txn: "txn (9, 2, [104, 105]) (first_clock 5001) zero_time (demo_updated pc)"
  unfolding txn_def demo_updated_def
  by (intro exI [of _ "[]"] exI [of _ "demo_rec JOINTX 7"] exI [of _ "[(demo_rec NEW_A 7)\<lparr>r_oldValue := 9\<rparr>]"])
    (simp add: demo_tw_def demo_rec_def undo_def vals_def demo_obj_def c_string_def tx_record_def wf_wrec_def)

lemma wf_demo_updated [simp]: "wf_tw (demo_updated pc)"
  by (simp add: demo_updated_def)

theorem abort_decision_restores_witness:
  "\<exists>t. tw_step (from_manager wdemo_addr (txBytes (demo_txmsg DECIDE_ABORT 7) @ []) True)
     (demo_updated (Waiting wdemo_addr)) = Running t \<and> vals (tw_objData t) = (9, 2, [104, 105])"
  using abort_decision_restores [OF wf_demo_updated demo_updated_txn, of "Waiting wdemo_addr"
      "demo_txmsg DECIDE_ABORT 7" wdemo_addr "[]" True]
  by (auto simp: demo_updated_def)

text \<open>
  Joining.  \<open>JOIN_SUCCESS\<close> makes the transaction the current one, remembers the manager's
  address and logs a join record with the clock and the time of the data object.  \<open>JOIN_FAIL\<close>
  changes none of the worker's variables, but appends the same join record to the log.
\<close>

theorem join_answer_logged:
  assumes "wf_txMessage m" and "tw_pc s = MainLoop" and "tx_msgID m = JOIN_SUCCESS \<or> tx_msgID m = JOIN_FAIL"
  shows "\<exists>t r. tw_step (from_manager a (txBytes m @ rest) sent) s = Running t \<and>
    tw_log t = tw_log s @ [r] \<and> r_msgID r = JOINTX \<and> r_tid r = tx_tid m \<and>
    r_vectorClock r = o_vectorClock (tw_objData s) \<and> r_lastUpdateTime r = o_lastUpdateTime (tw_objData s) \<and>
    tw_objData t = tw_objData s \<and> tw_outbox t = tw_outbox s \<and>
    (if tx_msgID m = JOIN_SUCCESS
     then tw_curTid t = tx_tid m \<and> tw_isTXRun t = 1 \<and> ci_managerAddr (tw_crashInfo t) = a
     else tw_curTid t = tw_curTid s \<and> tw_isTXRun t = tw_isTXRun s \<and>
       ci_managerAddr (tw_crashInfo t) = ci_managerAddr (tw_crashInfo s))"
  using main_receives [OF assms(1,2)] assms(3)
  by (auto simp: handle_man_msg_def handle_join_answer_def Let_def)

theorem join_answer_logged_witness:
  "\<exists>t r. tw_step (from_manager wdemo_addr (txBytes (demo_txmsg JOIN_FAIL 8) @ []) True) (demo_tw [] MainLoop) = Running t \<and>
     tw_log t = [r] \<and> r_msgID r = JOINTX \<and> r_tid r = 8 \<and> tw_curTid t = 7"
  using join_answer_logged [of "demo_txmsg JOIN_FAIL 8" "demo_tw [] MainLoop" wdemo_addr "[]" True] by auto

subsection \<open>Updates and their rollback\<close>

abbreviation from_cmd :: "cmd_in \<Rightarrow> tw_event" where
  "from_cmd c \<equiv> WReady (Some c) None"

definition update_cmd :: "endian \<Rightarrow> cmd_in \<Rightarrow> bool" where
  "update_cmd h c \<longleftrightarrow>
     (case deserializeMsg h (ci_buf c) of None \<Rightarrow> False | Some m \<Rightarrow> is_update (m_msgID m))"

lemma from_cmd_step:
  "tw_pc s = MainLoop \<Longrightarrow> deserializeMsg (tw_host s) (ci_buf c) = Some m \<Longrightarrow>
    tw_step (from_cmd c) s = handle_cmd c m s"
  by (cases "handle_cmd c m s") (simp_all add: tw_step_def cmd_round_def)

lemma log_old_core [simp]: "tw_core (log_old m f s) = tw_core s"
  by (simp add: log_old_def Let_def) (simp add: tw_core_def)

lemmas log_old_core_fields [simp] = tw_core_fields [OF log_old_core]

lemma new_int_frame:
  "cmd_new_A now m s = Running t \<Longrightarrow> tw_pc t = tw_pc s \<and> tw_host t = tw_host s \<and> tw_curTid t = tw_curTid s"
  "cmd_new_B now m s = Running t \<Longrightarrow> tw_pc t = tw_pc s \<and> tw_host t = tw_host s \<and> tw_curTid t = tw_curTid s"
  by (auto simp: cmd_new_A_def cmd_new_B_def Let_def finish_update_eq split: if_splits)

lemma new_id_frame:
  "cmd_new_id now m s = Some t \<Longrightarrow> tw_pc t = tw_pc s \<and> tw_host t = tw_host s \<and> tw_curTid t = tw_curTid s"
  by (auto simp: cmd_new_id_def Let_def bind_eq_Some_conv split: if_splits)

lemma update_frame:
  assumes "is_update (m_msgID m)" and "handle_cmd c m s = Running t"
  shows "tw_pc t = tw_pc s \<and> tw_host t = tw_host s \<and> tw_curTid t = tw_curTid s"
proof -
  consider "m_msgID m = NEW_A" | "m_msgID m = NEW_B" | "m_msgID m = NEW_IDSTR"
    using assms(1) by (auto simp: is_update_def)
  then show ?thesis
  proof cases
    case 1
    then have "cmd_new_A (ci_time c) m s = Running t" using assms(2) by (simp add: handle_cmd_def)
    then show ?thesis by (rule new_int_frame)
  next
    case 2
    then have "cmd_new_B (ci_time c) m s = Running t" using assms(2) by (simp add: handle_cmd_def)
    then show ?thesis by (rule new_int_frame)
  next
    case 3
    then have "cmd_new_id (ci_time c) m s = Some t"
      using assms(2) by (simp add: handle_cmd_def split: option.splits)
    then show ?thesis by (rule new_id_frame)
  qed
qed

lemma update_round_frame:
  "update_round c s = Running t \<Longrightarrow> tw_pc t = tw_pc s \<and> tw_host t = tw_host s \<and> tw_curTid t = tw_curTid s"
  by (auto simp: update_round_def split: option.splits if_splits dest: update_frame)

lemma run_update_round_frame:
  "run update_round cs s = Running t \<Longrightarrow> tw_pc t = tw_pc s \<and> tw_host t = tw_host s \<and> tw_curTid t = tw_curTid s"
proof (induction cs arbitrary: s)
  case (Cons c cs)
  then obtain u where "update_round c s = Running u" "run update_round cs u = Running t"
    by (cases "update_round c s") auto
  with Cons.IH [of u] update_round_frame [of c s u] show ?case by simp
qed simp

lemma cmd_abort_restores:
  assumes "txn v vc time s" and "wf_tw s" and "length (tw_log s) \<le> 22"
  shows "\<exists>t r. cmd_abort x m s = Running t \<and> vals (tw_objData t) = v \<and> o_vectorClock (tw_objData t) = vc \<and>
    o_lastUpdateTime (tw_objData t) = time \<and> tw_log t = tw_log s @ [r] \<and> r_msgID r = ABORT \<and>
    r_tid r = tw_curTid s \<and> tw_curTid t = tw_curTid s \<and> tw_pc t = tw_pc s"
proof -
  have "txn v vc time (s\<lparr>tw_isCrash := x\<rparr>)" by (rule txn_same [OF assms(1)]) simp_all
  then obtain d where "readValFromRecord (s\<lparr>tw_isCrash := x\<rparr>) = Some (s\<lparr>tw_isCrash := x, tw_objData := d\<rparr>)"
    "vals d = v" "o_vectorClock d = vc" "o_lastUpdateTime d = time"
    using txn_restores [of v vc time "s\<lparr>tw_isCrash := x\<rparr>"] assms(2,3) by (auto simp: wf_tw_fields)
  then show ?thesis by (simp add: cmd_abort_def Let_def)
qed

lemma run_updates:
  assumes "tw_pc s = MainLoop" and "list_all (update_cmd (tw_host s)) cs"
  shows "run tw_step (map from_cmd cs) s = run update_round cs s"
  using assms
proof (induction cs arbitrary: s)
  case Nil
  then show ?case by simp
next
  case (Cons c cs)
  from Cons.prems obtain m where m: "deserializeMsg (tw_host s) (ci_buf c) = Some m" "is_update (m_msgID m)"
    by (auto simp: update_cmd_def split: option.splits)
  have step: "tw_step (from_cmd c) s = update_round c s"
    using from_cmd_step [OF Cons.prems(1) m(1)] m by (simp add: update_round_def)
  show ?case
  proof (cases "update_round c s")
    case (Running t)
    then have "handle_cmd c m s = Running t" using m by (simp add: update_round_def)
    with update_frame [OF m(2)] Cons.prems have t: "tw_pc t = MainLoop" "tw_host t = tw_host s" by auto
    with Cons.IH [of t] Cons.prems(2) Running step show ?thesis by simp
  qed (simp_all add: step)
qed

text \<open>
  C5: an abort undoes every update.  A worker joins a transaction, executes any number of updates
  of A, B and the string, and is told to abort: then A, B and the string, the object's clock and
  its time of update are what they were before the join.  The log must hold at most 22 records
  and must not end in a record of the same transaction when the worker joins.
\<close>

theorem abort_undoes_updates:
  assumes "wf_tw s" and "tw_pc s = MainLoop" and "0 \<in> set (o_IDstring (tw_objData s))"
    and "wf_txMessage m" and "tx_msgID m = JOIN_SUCCESS"
    and "tw_log s = [] \<or> r_tid (last (tw_log s)) \<noteq> tx_tid m"
    and "list_all (update_cmd (tw_host s)) cs" and "length (tw_log s) + length cs < 22"
    and "run tw_step (from_manager a (txBytes m @ rest) sent # map from_cmd cs) s = Running s'"
    and "deserializeMsg (tw_host s) (ci_buf c) = Some ab" and "m_msgID ab = ABORT \<or> m_msgID ab = ABORT_CRASH"
  shows "\<exists>t r. tw_step (from_cmd c) s' = Running t \<and>
    vals (tw_objData t) = vals (tw_objData s) \<and>
    o_vectorClock (tw_objData t) = o_vectorClock (tw_objData s) \<and>
    o_lastUpdateTime (tw_objData t) = o_lastUpdateTime (tw_objData s) \<and>
    tw_log t = tw_log s' @ [r] \<and> r_msgID r = ABORT \<and> r_tid r = tx_tid m"
proof -
  let ?r = "tw_received m a s"
  let ?j = "handle_join_answer m a ?r"
  let ?v = "vals (tw_objData s)" and ?vc = "o_vectorClock (tw_objData s)" and ?t = "o_lastUpdateTime (tw_objData s)"
  have join: "tw_step (from_manager a (txBytes m @ rest) sent) s = Running ?j"
    using main_receives [OF assms(4,2)] assms(5) by (simp add: handle_man_msg_def)
  have wfj: "wf_tw ?j"
    using tw_machine.step_inv [OF assms(1), of "from_manager a (txBytes m @ rest) sent"] by (simp add: join)
  have jf: "tw_pc ?j = MainLoop" "tw_host ?j = tw_host s" "length (tw_log ?j) = Suc (length (tw_log s))"
    "tw_curTid ?j = tx_tid m"
    using assms(2,5) by (simp_all add: handle_join_answer_def Let_def)
  have txj: "txn ?v ?vc ?t ?j" "tw_isTXRun ?j \<noteq> 0"
    using join_txn [OF wf_received [OF assms(1)] assms(5)] assms(3,6) by simp_all
  have "run tw_step (map from_cmd cs) ?j = Running s'" using assms(9) join by simp
  then have run: "run update_round cs ?j = Running s'"
    using run_updates [OF jf(1), of cs] assms(7) jf(2) by simp
  then have pc: "tw_pc s' = MainLoop" "tw_host s' = tw_host s"
    using run_update_round_frame [OF run] jf(1,2) by simp_all
  from updates_txn [OF txj(1) wfj txj(2) run] have s': "txn ?v ?vc ?t s'" "wf_tw s'"
    "length (tw_log s') = Suc (length (tw_log s)) + length cs" using jf(3) by auto
  have "tw_curTid s' = tx_tid m"
    using run_update_round_frame [OF run] jf(4) by simp
  then show ?thesis
    using from_cmd_step [OF pc(1), of c ab] assms(8,10,11) pc(2) s'(3)
      cmd_abort_restores [OF s'(1,2), of 1 ab] cmd_abort_restores [OF s'(1,2), of 0 ab]
    by (auto simp: handle_cmd_def)
qed

lemma own_index_less:
  "wf_tw s \<Longrightarrow> tw_nodeId s \<in> known (tw_clock s) \<Longrightarrow> own_index s < MAX_NODES"
  using tick_index(1) [of "tw_nodeId s" "tw_clock s"] wf_tw_parts(7) [of s]
  by (auto simp: own_index_def known_def)

definition demo_cmd :: "u32 \<Rightarrow> u32 \<Rightarrow> cmd_in" where
  "demo_cmd k v = \<lparr>ci_buf = msgBytes \<lparr>m_msgID = k, m_tid = 7, m_port = 0, m_newValue = v, m_delay = 0,
     m_strData = replicate 64 0\<rparr> @ [], ci_host = None, ci_time = zero_time, ci_sent = True\<rparr>"

lemma demo_cmd_parse [simp]:
  "deserializeMsg h (ci_buf (demo_cmd k v)) = Some \<lparr>m_msgID = k, m_tid = 7, m_port = 0, m_newValue = v,
     m_delay = 0, m_strData = replicate 64 0\<rparr>"
  unfolding demo_cmd_def by (simp del: append_Nil2 add: deserializeMsg_msgBytes wf_msgType_def)

lemma demo_join_update:
  "\<exists>s'. run tw_step (from_manager wdemo_addr (txBytes (demo_txmsg JOIN_SUCCESS 7) @ []) True #
      map from_cmd [demo_cmd NEW_A 77]) (demo_tw [] MainLoop) = Running s'"
proof -
  let ?m = "demo_txmsg JOIN_SUCCESS 7"
  let ?r = "tw_received ?m wdemo_addr (demo_tw [] MainLoop)"
  let ?j = "handle_join_answer ?m wdemo_addr ?r"
  have pc: "tw_pc (demo_tw [] MainLoop) = MainLoop" and wfm: "wf_txMessage ?m" by simp_all
  have join: "tw_step (from_manager wdemo_addr (txBytes ?m @ []) True) (demo_tw [] MainLoop) = Running ?j"
    using main_receives [OF wfm pc, of wdemo_addr "[]" True] by (simp add: handle_man_msg_def)
  have wf: "wf_tw ?j"
    using tw_machine.step_inv [of "demo_tw [] MainLoop" "from_manager wdemo_addr (txBytes ?m @ []) True"]
    by (simp only: join) simp
  have "tw_clock ?j = tick 5001 (merge_clocks (tx_vectorClock ?m) (first_clock 5001))"
    by (simp add: handle_join_answer_def Let_def tw_received_def) (simp add: demo_tw_def)
  moreover have "5001 \<in> known (first_clock 5001)" by (simp add: first_clock_def)
  ultimately have k: "5001 \<in> known (tw_clock ?j)"
    using known_merge_clocks_superset [of "first_clock 5001" "tx_vectorClock ?m"] by auto
  have jf: "tw_pc ?j = MainLoop" "tw_nodeId ?j = 5001"
    by (simp_all add: handle_join_answer_def Let_def)
  let ?l = "log_old \<lparr>m_msgID = NEW_A, m_tid = 7, m_port = 0, m_newValue = 77, m_delay = 0, m_strData = replicate 64 0\<rparr>
     (\<lambda>r. r\<lparr>r_oldValue := o_A (tw_objData ?j)\<rparr>) ?j"
  have "tw_clock ?l = tw_clock ?j" by (simp add: log_old_def Let_def)
  then have "own_index (?l\<lparr>tw_objData := d\<rparr>) < 10" for d
    using own_index_less [OF wf] k jf(2) by (simp add: own_index_def)
  then have "\<exists>s'. tw_step (from_cmd (demo_cmd NEW_A 77)) ?j = Running s'"
    using from_cmd_step [OF jf(1) demo_cmd_parse]
    by (simp add: handle_cmd_def cmd_new_A_def Let_def finish_update_eq)
  then show ?thesis using join by auto
qed

theorem abort_undoes_updates_witness:
  "\<exists>s' t. run tw_step (from_manager wdemo_addr (txBytes (demo_txmsg JOIN_SUCCESS 7) @ []) True #
      map from_cmd [demo_cmd NEW_A 77]) (demo_tw [] MainLoop) = Running s' \<and>
    tw_step (from_cmd (demo_cmd ABORT 0)) s' = Running t \<and> vals (tw_objData t) = vals demo_obj"
proof -
  obtain s' where s': "run tw_step (from_manager wdemo_addr (txBytes (demo_txmsg JOIN_SUCCESS 7) @ []) True #
      map from_cmd [demo_cmd NEW_A 77]) (demo_tw [] MainLoop) = Running s'"
    using demo_join_update by blast
  have cs: "list_all (update_cmd (tw_host (demo_tw [] MainLoop))) [demo_cmd NEW_A 77]"
    by (simp add: update_cmd_def is_update_def)
  show ?thesis
    using abort_undoes_updates [OF _ _ _ _ _ _ cs _ s' demo_cmd_parse] s' by auto
qed

text \<open>
  What an update does.  An update of A or B sets the value, takes the time and copies the
  worker's own clock entry into the object's clock; one of the string sets the string and takes
  the time, but leaves the object's clock alone.  Outside a transaction nothing is logged, inside
  one the old value is.
\<close>

theorem update_effect:
  assumes "wf_tw s" and "tw_pc s = MainLoop" and "tw_nodeId s \<in> known (tw_clock s)"
    and "deserializeMsg (tw_host s) (ci_buf c) = Some m"
    and "m_msgID m = NEW_A \<or> m_msgID m = NEW_B \<or>
      (m_msgID m = NEW_IDSTR \<and> 0 \<in> set (newID m) \<and> 0 \<in> set (o_IDstring (tw_objData s)))"
  shows "\<exists>t. tw_step (from_cmd c) s = Running t \<and> tw_outbox t = tw_outbox s \<and>
    vtime (tw_clock t) (tw_nodeId s) = vtime (tw_clock s) (tw_nodeId s) + 1 \<and>
    o_lastUpdateTime (tw_objData t) = ci_time c \<and>
    vals (tw_objData t) =
      (if m_msgID m = NEW_A then m_newValue m else o_A (tw_objData s),
       if m_msgID m = NEW_B then m_newValue m else o_B (tw_objData s),
       if m_msgID m = NEW_IDSTR then c_string (newID m) else c_string (o_IDstring (tw_objData s))) \<and>
    o_vectorClock (tw_objData t) =
      (if m_msgID m = NEW_IDSTR then o_vectorClock (tw_objData s)
       else (o_vectorClock (tw_objData s))[own_index s :=
         (o_vectorClock (tw_objData s) ! own_index s)\<lparr>c_time := c_time (tw_clock t ! own_index s)\<rparr>]) \<and>
    (if tw_isTXRun s = 0 then tw_log t = tw_log s
     else \<exists>r. tw_log t = tw_log s @ [r] \<and> r_msgID r = m_msgID m \<and> r_tid r = tw_curTid s \<and>
       undo1 r (vals (tw_objData t)) = vals (tw_objData s))"
proof -
  have clk: "tw_clock (log_old m f s) = tw_clock s" "tw_nodeId (log_old m f s) = tw_nodeId s" for f
    by (simp_all add: log_old_def Let_def)
  have idx: "own_index (u\<lparr>tw_objData := d\<rparr>) = own_index u" "own_index (log_old m f s) = own_index s" for u d f
    using clk by (simp_all add: own_index_def)
  have own: "own_index s < 10" using own_index_less [OF assms(1,3)] .
  have vt: "vtime (tick (tw_nodeId s) (tw_clock s)) (tw_nodeId s) = vtime (tw_clock s) (tw_nodeId s) + 1"
    using assms(3) by (simp add: vtime_tick known_def)
  have out: "tw_outbox (log_old m f s) = tw_outbox s" for f by (simp add: log_old_def Let_def)
  have nolog: "tw_isTXRun s = 0 \<Longrightarrow> tw_log (log_old m f s) = tw_log s" for f by (simp add: log_old_def)
  note step = from_cmd_step [OF assms(2,4)]
  consider (A) "m_msgID m = NEW_A" | (B) "m_msgID m = NEW_B"
    | (I) "m_msgID m = NEW_IDSTR" "0 \<in> set (newID m)" "0 \<in> set (o_IDstring (tw_objData s))"
    using assms(5) by blast
  then show ?thesis
  proof cases
    case A
    then show ?thesis
      unfolding step
      by (simp add: handle_cmd_def cmd_new_A_def Let_def finish_update_eq idx own clk vt out nolog log_old_log
          vals_def touch_obj_def)
  next
    case B
    then show ?thesis
      unfolding step
      by (simp add: handle_cmd_def cmd_new_B_def Let_def finish_update_eq idx own clk vt out nolog log_old_log
          vals_def touch_obj_def)
  next
    case I
    have "length (o_IDstring (tw_objData s)) = length (r_oldID (tw_rec s))"
      using assms(1) by (simp add: wf_tw_def wf_obj_def wf_wrec_def)
    then obtain old where old: "strcpy (r_oldID (tw_rec s)) (o_IDstring (tw_objData s)) = Some old"
      using I(3) strcpy_same_size by metis
    have "length (newID m) = length (o_IDstring (tw_objData s))"
      using assms(1) deserializeMsg_wf [OF assms(4)] by (simp add: wf_tw_def wf_obj_def wf_msgType_def)
    then obtain str where str: "strcpy (o_IDstring (tw_objData s)) (newID m) = Some str"
      using I(2) strcpy_same_size by metis
    show ?thesis
      unfolding step using I(1) old str strcpy_string(1) [OF old] strcpy_string(1) [OF str]
      by (simp add: handle_cmd_def cmd_new_id_def Let_def clk vt out nolog log_old_log vals_def)
  qed
qed

theorem update_effect_witness:
  "\<exists>t. tw_step (from_cmd (demo_cmd NEW_B 5)) (demo_tw [] MainLoop) = Running t \<and>
     vals (tw_objData t) = (1, 5, [104, 105])"
proof -
  have "5001 \<in> known (tw_clock (demo_tw [] MainLoop))" by (simp add: demo_tw_def first_clock_def)
  then show ?thesis
    using update_effect [OF _ _ _ demo_cmd_parse, of "demo_tw [] MainLoop" NEW_B 5]
    by (auto simp: demo_obj_def c_string_def)
qed

end
