(* ===== verification/TWorkerVotes.thy ===== *)
theory TWorkerVotes
  imports TWorkerProps
begin

text \<open>
  The worker's part in the commit protocol: the vote, the crashes that a delay command asks for,
  the uncertain period, the recovery after a crash, and the address to which a transaction is
  sent.
\<close>

subsection \<open>The vote\<close>

definition locally_aborted :: "tw_state \<Rightarrow> bool" where
  "locally_aborted s \<longleftrightarrow> (\<exists>r \<in> set (tw_log s). r_tid r = tw_curTid s \<and> r_msgID r = ABORT)"

lemma localAbortScan_iff: "localAbortScan cur rs = (if \<exists>r \<in> set rs. r_tid r = cur \<and> r_msgID r = ABORT then 1 else 0)"
  by (induction rs) auto

lemma isLocalAbort_eq:
  "length (tw_log s) \<le> 22 \<Longrightarrow> isLocalAbort s = Some (if locally_aborted s then 1 else 0)"
  by (simp add: isLocalAbort_def length_tw_records localAbortScan_iff locally_aborted_def)

definition vote_kind :: "tw_state \<Rightarrow> u32" where
  "vote_kind s = (if locally_aborted s \<or> tw_vote s = VOTE_ABORT then VOTE_ABORT else VOTE_COMMIT)"

text \<open>The state just before the vote is sent, and the vote.\<close>

definition prepared :: "txMessage \<Rightarrow> sockaddr_in \<Rightarrow> tw_state \<Rightarrow> tw_state" where
  "prepared m a s =
     (let s = tw_received m a s;
          s = tw_writeRecordToLog ((tw_junkRec s)\<lparr>r_msgID := tx_msgID m, r_tid := tx_tid m\<rparr>) s;
          s = tw_saveVectorTime (tw_tickMyClock s);
          newMsg = constructTxMessage (tx_tid m) (tx_nodeId m) (vote_kind s) s;
          s = (if vote_kind s = VOTE_ABORT then s\<lparr>tw_vote := 0\<rparr> else s)
      in tw_writeEventToLog newMsg True (sin_port a) s)"

definition vote_msg :: "txMessage \<Rightarrow> sockaddr_in \<Rightarrow> tw_state \<Rightarrow> txMessage" where
  "vote_msg m a s = constructTxMessage (tx_tid m) (tx_nodeId m) (vote_kind s) (prepared m a s)"

lemma vote_kind_prep:
  assumes "tx_msgID m = PREPARE_COMMIT"
  shows "vote_kind (tw_saveVectorTime (tw_tickMyClock (tw_writeRecordToLog
      ((tw_junkRec s)\<lparr>r_msgID := tx_msgID m, r_tid := tx_tid m\<rparr>) (tw_received m a s)))) = vote_kind s"
  using assms by (auto simp: vote_kind_def locally_aborted_def)

lemma prepared_fields [simp]:
  "tw_outbox (prepared m a s) = tw_outbox s" "tw_objData (prepared m a s) = tw_objData s"
  "tw_delay (prepared m a s) = tw_delay s" "tw_curTid (prepared m a s) = tw_curTid s"
  "tw_junkRec (prepared m a s) = tw_junkRec s" "tw_nodeId (prepared m a s) = tw_nodeId s"
  "tw_log (prepared m a s) = tw_log s @ [(tw_junkRec s)\<lparr>r_msgID := tx_msgID m, r_tid := tx_tid m\<rparr>]"
  "tw_pc (prepared m a s) = tw_pc s" "tw_host (prepared m a s) = tw_host s"
  "tw_isCrash (prepared m a s) = tw_isCrash s"
  "ci_managerAddr (tw_crashInfo (prepared m a s)) = ci_managerAddr (tw_crashInfo s)"
  by (simp_all add: prepared_def Let_def)

lemma wf_prepared: "wf_tw s \<Longrightarrow> wf_tw (prepared m a s)"
proof -
  assume s: "wf_tw s"
  have u: "wf_tw (tw_saveVectorTime (tw_tickMyClock (tw_writeRecordToLog
      ((tw_junkRec s)\<lparr>r_msgID := tx_msgID m, r_tid := tx_tid m\<rparr>) (tw_received m a s))))"
    using wf_received [OF s] wf_tw_parts(3) [OF s] by (intro wf_tw_small) simp_all
  then show ?thesis by (simp add: prepared_def Let_def wf_tw_small wf_tw_fields)
qed

lemma wf_vote_msg: "wf_tw s \<Longrightarrow> wf_txMessage (vote_msg m a s)"
  by (simp add: vote_msg_def wf_prepared)

lemma vote_msg_fields [simp]:
  "tx_msgID (vote_msg m a s) = vote_kind s" "tx_tid (vote_msg m a s) = tx_tid m"
  "tx_nodeId (vote_msg m a s) = tx_nodeId m" "tx_isCrash (vote_msg m a s) = tw_isCrash s"
  by (simp_all add: vote_msg_def constructTxMessage_def)

lemma prepare_step:
  assumes "tw_pc s = MainLoop" and "length (tw_log s) < 22"
    and "wf_txMessage m" and "tx_msgID m = PREPARE_COMMIT"
  shows "tw_step (from_manager a (txBytes m @ rest) sent) s =
    seq (tw_sendMsg sent (vote_msg m a s) a (prepared m a s))
      (\<lambda>t. Running ((tw_writeRecordToLog ((tw_junkRec s)\<lparr>r_msgID := VOTE_COMMIT, r_tid := tx_tid m\<rparr>) t)
        \<lparr>tw_firstTimeWaiting := 1, tw_pc := Waiting a\<rparr>))"
proof -
  let ?u = "tw_saveVectorTime (tw_tickMyClock (tw_writeRecordToLog
      ((tw_junkRec s)\<lparr>r_msgID := tx_msgID m, r_tid := tx_tid m\<rparr>) (tw_received m a s)))"
  have la: "isLocalAbort ?u = Some (if locally_aborted ?u then 1 else 0)"
    using assms(2) by (intro isLocalAbort_eq) simp
  have vote: "tw_vote ?u = tw_vote s" by simp
  have vk: "vote_kind ?u = vote_kind s" using vote_kind_prep [OF assms(4)] .
  have clk: "tw_clock (prepared m a s) = tw_clock ?u" by (simp add: prepared_def Let_def)
  have msg: "constructTxMessage (tx_tid m) (tx_nodeId m) (vote_kind ?u) ?u = vote_msg m a s"
    using clk vk by (simp add: vote_msg_def constructTxMessage_def)
  have abort: "(if locally_aborted ?u then 1 else 0) = (1::u32) \<or> tw_vote ?u = VOTE_ABORT \<longleftrightarrow>
      vote_kind ?u = VOTE_ABORT" by (simp add: vote_kind_def)
  have kind: "(if vote_kind ?u = VOTE_ABORT then VOTE_ABORT else VOTE_COMMIT) = vote_kind ?u"
    by (simp add: vote_kind_def)
  have prep: "prepared m a s = tw_writeEventToLog (vote_msg m a s) True (sin_port a)
      (if vote_kind ?u = VOTE_ABORT then ?u\<lparr>tw_vote := 0\<rparr> else ?u)"
    using msg by (simp add: prepared_def Let_def)
  have "handle_man_msg sent m a (tw_received m a s) = handle_prepare sent m a (tw_received m a s)"
    using assms(4) by (simp add: handle_man_msg_def)
  also have "\<dots> = seq (tw_sendMsg sent (vote_msg m a s) a (prepared m a s))
      (\<lambda>t. Running ((tw_writeRecordToLog ((tw_junkRec s)\<lparr>r_msgID := VOTE_COMMIT, r_tid := tx_tid m\<rparr>) t)
        \<lparr>tw_firstTimeWaiting := 1, tw_pc := Waiting a\<rparr>))"
    unfolding handle_prepare_def Let_def tw_received_fields(11) la option.case abort kind msg prep [symmetric]
    by simp
  finally show ?thesis using main_receives [OF assms(3,1)] by simp
qed

text \<open>
  C16: the vote.  On \<open>PREPARE_COMMIT\<close> a worker without a delay answers with exactly one datagram to
  the sender: \<open>VOTE_ABORT\<close> if its log has an abort of the current transaction or the user has
  asked for one, \<open>VOTE_COMMIT\<close> otherwise, with the crash flag of the last commit or abort
  command.  It logs the request before and a \<open>VOTE_COMMIT\<close> record after the vote, whatever it
  voted, and waits for the decision with its data unchanged.
\<close>

theorem prepare_votes:
  assumes "wf_tw s" and "tw_pc s = MainLoop" and "tw_delay s = 0" and "length (tw_log s) < 22"
    and "wf_txMessage m" and "tx_msgID m = PREPARE_COMMIT"
  shows "\<exists>t v r1 r2. tw_step (from_manager a (txBytes m @ rest) True) s = Running t \<and>
    tw_outbox t = tw_outbox s @ [(a, txBytes v)] \<and> tx_tid v = tx_tid m \<and> tx_isCrash v = tw_isCrash s \<and>
    tx_msgID v = (if locally_aborted s \<or> tw_vote s = VOTE_ABORT then VOTE_ABORT else VOTE_COMMIT) \<and>
    tw_log t = tw_log s @ [r1, r2] \<and> r_msgID r1 = PREPARE_COMMIT \<and> r_tid r1 = tx_tid m \<and>
    r_msgID r2 = VOTE_COMMIT \<and> r_tid r2 = tx_tid m \<and>
    tw_pc t = Waiting a \<and> tw_objData t = tw_objData s"
  using prepare_step [OF assms(2,4,5,6)] assms(3,6)
  by (simp add: tw_sendMsg_wf wf_vote_msg [OF assms(1)] vote_kind_def [symmetric])
    (intro exI [of _ "vote_msg m a s"] conjI refl; simp)

theorem prepare_votes_witness:
  "\<exists>t v. tw_step (from_manager wdemo_addr (txBytes (demo_txmsg PREPARE_COMMIT 7) @ []) True)
       (demo_tw [demo_rec JOINTX 7, demo_rec ABORT 7] MainLoop) = Running t \<and>
     tw_outbox t = [(wdemo_addr, txBytes v)] \<and> tx_msgID v = VOTE_ABORT \<and>
     r_msgID (last (tw_log t)) = VOTE_COMMIT"
proof -
  let ?s = "demo_tw [demo_rec JOINTX 7, demo_rec ABORT 7] MainLoop"
  have "locally_aborted ?s" by (simp add: locally_aborted_def)
  with prepare_votes [of ?s "demo_txmsg PREPARE_COMMIT 7" wdemo_addr "[]"]
  show ?thesis by auto
qed

subsection \<open>Crashes around the vote\<close>

definition tw_boots_from :: "tw_boot \<Rightarrow> tw_state \<Rightarrow> bool" where
  "tw_boots_from b s \<longleftrightarrow> wb_host b = tw_host s \<and> wb_port b = tw_nodeId s \<and>
     wb_file b = Some (tw_crashInfo s, tw_log s) \<and> wb_data b = Some (tw_objData s) \<and>
     wb_shiviz b = tw_shiviz s"

definition restarting :: "tw_boot \<Rightarrow> tw_state" where
  "restarting b =
     (let s = tw_boot_state b;
          s = (if getPortfromLogFile s = 0 then savePort (wb_sysport b) s else s)
      in tw_writeLocalEventToLog (local_msg RESTARTED) (tw_saveVectorTime (tw_tickMyClock (tw_restoreVectorTime s))))"

lemma restarting_fields:
  assumes "tw_boots_from b s"
  shows "tw_log (restarting b) = tw_log s" "tw_objData (restarting b) = tw_objData s"
    "ci_managerAddr (tw_crashInfo (restarting b)) = ci_managerAddr (tw_crashInfo s)"
    "tw_outbox (restarting b) = []" "tw_junkRec (restarting b) = wb_junkRec b"
    "tw_pc (restarting b) = MainLoop" "tw_isTXRun (restarting b) = 0" "tw_delay (restarting b) = 0"
    "tw_host (restarting b) = tw_host s" "tw_nodeId (restarting b) = tw_nodeId s" "tw_vote (restarting b) = 0"
  using assms
  by (simp_all add: tw_boots_from_def restarting_def Let_def savePort_def tw_boot_state_def tw_restoreVectorTime_def)

lemma tw_main_restart:
  assumes "tw_boots_from b s"
  shows "tw_main b =
    (case tw_findStateFromRecord (restarting b) of
       None \<Rightarrow> Undefined
     | Some (state, s) \<Rightarrow>
         if \<not> in_doubt state then recover_abort s
         else Running (s\<lparr>tw_pc := Waiting (ci_managerAddr (tw_crashInfo s))\<rparr>))"
  using assms
  by (simp add: tw_boots_from_def tw_main_def tw_restart_def restarting_def Let_def)

lemma restart_in_doubt:
  assumes "tw_boots_from b s" and "length (tw_log s) \<le> 22" and "tw_log s \<noteq> []"
    and "in_doubt (r_msgID (last (tw_log s)))"
  shows "\<exists>t. tw_main b = Running t \<and> tw_pc t = Waiting (ci_managerAddr (tw_crashInfo s)) \<and>
    tw_log t = tw_log s \<and> tw_objData t = tw_objData s \<and> tw_curTid t = r_tid (last (tw_log s)) \<and>
    tw_outbox t = [] \<and> tw_delay t = 0 \<and> tw_host t = tw_host s \<and> tw_nodeId t = tw_nodeId s"
proof -
  note f = restarting_fields [OF assms(1)]
  have "tw_records (restarting b) = Some (tw_log s)"
    using length_tw_records [of "restarting b"] assms(2) f(1) by simp
  then show ?thesis
    using assms(3,4) f by (simp add: tw_main_restart [OF assms(1)] tw_findStateFromRecord_def)
qed

lemma send_negative:
  assumes "wf_txMessage m" and "sint (tw_delay s) < 0"
  shows "tw_sendMsg True m a s = Exited (tw_crash m
    (if tw_delay s = - 1000 then s else s\<lparr>tw_outbox := tw_outbox s @ [(a, txBytes m)]\<rparr>))"
  using assms by (simp add: tw_sendMsg_wf)

lemma vote_crash_step:
  assumes "wf_tw s" and "tw_pc s = MainLoop" and "sint (tw_delay s) < 0" and "length (tw_log s) < 22"
    and "wf_txMessage m" and "tx_msgID m = PREPARE_COMMIT"
  shows "\<exists>t. tw_step (from_manager a (txBytes m @ rest) True) s = Exited t \<and>
    tw_outbox t = (if tw_delay s = - 1000 then tw_outbox s else tw_outbox s @ [(a, txBytes (vote_msg m a s))]) \<and>
    (\<forall>b. tw_boots_from b t \<longrightarrow>
       (\<exists>u. tw_main b = Running u \<and> tw_pc u = Waiting (ci_managerAddr (tw_crashInfo s)) \<and>
          tw_curTid u = tx_tid m \<and> tw_objData u = tw_objData s \<and> tw_log u = tw_log t \<and>
          tw_outbox u = [] \<and> tw_delay u = 0 \<and> tw_nodeId u = tw_nodeId s))"
proof -
  let ?r = "(tw_junkRec s)\<lparr>r_msgID := tx_msgID m, r_tid := tx_tid m\<rparr>"
  obtain t where t: "tw_step (from_manager a (txBytes m @ rest) True) s = Exited t"
    "tw_outbox t = (if tw_delay s = - 1000 then tw_outbox s else tw_outbox s @ [(a, txBytes (vote_msg m a s))])"
    "tw_log t = tw_log s @ [?r]" "tw_objData t = tw_objData s"
    "ci_managerAddr (tw_crashInfo t) = ci_managerAddr (tw_crashInfo s)" "tw_nodeId t = tw_nodeId s"
    using prepare_step [OF assms(2,4,5,6), of a rest True] send_negative [OF wf_vote_msg [OF assms(1)]] assms(3)
    by (cases "tw_delay s = - 1000") simp_all
  have "\<exists>u. tw_main b = Running u \<and> tw_pc u = Waiting (ci_managerAddr (tw_crashInfo s)) \<and>
      tw_curTid u = tx_tid m \<and> tw_objData u = tw_objData s \<and> tw_log u = tw_log t \<and>
          tw_outbox u = [] \<and> tw_delay u = 0 \<and> tw_nodeId u = tw_nodeId s" if "tw_boots_from b t" for b
    using restart_in_doubt [OF that] assms(4,6) t(3-6) by (auto simp: in_doubt_def)
  with t show ?thesis by blast
qed

text \<open>
  A crash around the vote leaves the worker in doubt.  A worker with a negative delay crashes
  when it votes: with delay -1000 before the datagram is sent, with any other after.  In both
  cases its log ends with the request to prepare, and the restarted worker waits for the decision
  on that transaction, its data unchanged.
\<close>

theorem vote_crash_in_doubt:
  assumes "wf_tw s" and "tw_pc s = MainLoop" and "sint (tw_delay s) < 0" and "length (tw_log s) < 22"
    and "wf_txMessage m" and "tx_msgID m = PREPARE_COMMIT"
  shows "\<exists>t. tw_step (from_manager a (txBytes m @ rest) True) s = Exited t \<and>
    tw_outbox t = (if tw_delay s = - 1000 then tw_outbox s else tw_outbox s @ [(a, txBytes (vote_msg m a s))]) \<and>
    (\<forall>b. tw_boots_from b t \<longrightarrow>
       (\<exists>u. tw_main b = Running u \<and> tw_pc u = Waiting (ci_managerAddr (tw_crashInfo s)) \<and>
          tw_curTid u = tx_tid m \<and> tw_objData u = tw_objData s \<and> tw_log u = tw_log t))"
  using vote_crash_step [OF assms, of a rest] by blast

theorem vote_crash_in_doubt_witness:
  "\<exists>t. tw_step (from_manager wdemo_addr (txBytes (demo_txmsg PREPARE_COMMIT 7) @ []) True)
     ((demo_tw [demo_rec JOINTX 7] MainLoop)\<lparr>tw_delay := - 1000\<rparr>) = Exited t \<and> tw_outbox t = []"
  using vote_crash_in_doubt [of "(demo_tw [demo_rec JOINTX 7] MainLoop)\<lparr>tw_delay := - 1000\<rparr>"
      "demo_txmsg PREPARE_COMMIT 7" wdemo_addr "[]"]
  by (auto simp: wf_tw_fields)

end
