(* ===== verification/TWorkerRecovery.thy ===== *)
theory TWorkerRecovery
  imports TWorkerVotes
begin

text \<open>
  The worker in doubt and after a crash: how long it waits and what ends the wait, the local
  abort of a transaction that had not been prepared, the address a transaction is sent to, and
  the limit that the mapping sets to the log.
\<close>

subsection \<open>In doubt\<close>

text \<open>
  The events of a wait in which no message arrives: an error of \<open>poll\<close>, timeouts whose \<open>sendto\<close>
  succeeds, and \<open>recvfrom\<close> calls that fail or return an empty datagram.  The last overwrites the
  address that the worker polls: \<open>waits_for\<close> is the address after the events, \<open>polls_to\<close> has the
  address at each timeout.
\<close>

fun silent :: "tw_event \<Rightarrow> bool" where
  "silent WPollError = True"
| "silent (WPollTimeout sent) = sent"
| "silent (WReady c m) = (case m of None \<Rightarrow> True | Some m \<Rightarrow> mi_recv m = None)"

fun heard_addr :: "tw_event \<Rightarrow> sockaddr_in \<Rightarrow> sockaddr_in" where
  "heard_addr (WReady c (Some m)) a = (case mi_empty m of None \<Rightarrow> a | Some b \<Rightarrow> b)"
| "heard_addr e a = a"

definition waits_for :: "sockaddr_in \<Rightarrow> tw_event list \<Rightarrow> sockaddr_in" where
  "waits_for a es = fold heard_addr es a"

fun polls_to :: "sockaddr_in \<Rightarrow> tw_event list \<Rightarrow> sockaddr_in list" where
  "polls_to a [] = []"
| "polls_to a (WPollTimeout sent # es) = a # polls_to a es"
| "polls_to a (e # es) = polls_to (heard_addr e a) es"

definition poll_state :: "sockaddr_in \<Rightarrow> tw_state \<Rightarrow> tw_state" where
  "poll_state a s =
     (let s = tw_saveVectorTime (tw_tickMyClock (s\<lparr>tw_firstTimeWaiting := 0\<rparr>))
      in tw_writeEventToLog (constructTxMessage (tw_curTid s) (tw_nodeId s) POLL_DECISION s) True (sin_port a) s)"

definition poll_msg :: "tw_state \<Rightarrow> txMessage" where
  "poll_msg s = constructTxMessage (tw_curTid s) (tw_nodeId s) POLL_DECISION
     (tw_saveVectorTime (tw_tickMyClock (s\<lparr>tw_firstTimeWaiting := 0\<rparr>)))"

lemma waiting_timeout_eq:
  "waiting_timeout sent a s = tw_sendMsg sent (poll_msg s) a (poll_state a s)"
  by (simp add: waiting_timeout_def Let_def poll_msg_def poll_state_def)

lemma poll_state_fields [simp]:
  "tw_log (poll_state a s) = tw_log s" "tw_objData (poll_state a s) = tw_objData s"
  "tw_curTid (poll_state a s) = tw_curTid s" "tw_outbox (poll_state a s) = tw_outbox s"
  "tw_pc (poll_state a s) = tw_pc s" "tw_delay (poll_state a s) = tw_delay s"
  "tw_nodeId (poll_state a s) = tw_nodeId s" "tw_host (poll_state a s) = tw_host s"
  by (simp_all add: poll_state_def Let_def)

lemma poll_msg_fields [simp]:
  "tx_msgID (poll_msg s) = POLL_DECISION" "tx_tid (poll_msg s) = tw_curTid s"
  "tx_nodeId (poll_msg s) = tw_nodeId s" "tx_isCrash (poll_msg s) = tw_isCrash s"
  by (simp_all add: poll_msg_def constructTxMessage_def)

lemma wf_poll: "wf_tw s \<Longrightarrow> wf_tw (poll_state a s)" "wf_tw s \<Longrightarrow> wf_txMessage (poll_msg s)"
  by (simp_all add: poll_state_def poll_msg_def Let_def wf_tw_small wf_tw_fields)

lemma poll_step:
  assumes "wf_tw s" and "tw_pc s = Waiting a" and "0 \<le> sint (tw_delay s)"
  shows "tw_step (WPollTimeout True) s =
    Running ((poll_state a s)\<lparr>tw_outbox := tw_outbox s @ [(a, txBytes (poll_msg s))]\<rparr>)"
proof -
  have "tw_delay s \<noteq> - 1000" using assms(3) by auto
  then show ?thesis
    using assms by (simp add: tw_step_def waiting_timeout_eq tw_sendMsg_wf wf_poll)
qed

lemma silent_step:
  assumes "tw_pc s = Waiting a" and "silent e" and "\<forall>sent. e \<noteq> WPollTimeout sent"
  shows "tw_step e s = Running (s\<lparr>tw_pc := Waiting (heard_addr e a)\<rparr>)"
proof -
  have same: "s\<lparr>tw_pc := Waiting a\<rparr> = s" using assms(1) by (cases s) simp
  show ?thesis
  proof (cases e)
    case (WReady c i)
    then show ?thesis
      using assms(1,2) same by (cases i) (simp_all add: tw_step_def split: option.split)
  qed (use assms same in \<open>simp_all add: tw_step_def\<close>)
qed

text \<open>
  C27: a worker in doubt decides nothing.  As long as no message arrives, a worker that has voted
  stays in the wait with its log and its data unchanged, and sends one \<open>POLL_DECISION\<close> for the
  current transaction per timeout and nothing else.  The polls go to the address it waits for, which
  is the manager's until an empty datagram arrives and the sender's of that from then on.
\<close>

theorem in_doubt_waits:
  assumes "wf_tw s" and "tw_pc s = Waiting a" and "0 \<le> sint (tw_delay s)" and "list_all silent es"
  shows "\<exists>t msgs. run tw_step es s = Running t \<and> tw_pc t = Waiting (waits_for a es) \<and> tw_log t = tw_log s \<and>
    tw_objData t = tw_objData s \<and> tw_curTid t = tw_curTid s \<and>
    tw_outbox t = tw_outbox s @ map (apsnd txBytes) msgs \<and> map fst msgs = polls_to a es \<and>
    (\<forall>(addr, m) \<in> set msgs. tx_msgID m = POLL_DECISION \<and> tx_tid m = tw_curTid s \<and> tx_nodeId m = tw_nodeId s)"
  using assms
proof (induction es arbitrary: s a)
  case Nil
  then show ?case by (intro exI [of _ s] exI [of _ "[]"]) (simp add: waits_for_def)
next
  case (Cons e es)
  show ?case
  proof (cases "\<exists>sent. e = WPollTimeout sent")
    case True
    then have e: "e = WPollTimeout True" using Cons.prems(4) by auto
    let ?t = "(poll_state a s)\<lparr>tw_outbox := tw_outbox s @ [(a, txBytes (poll_msg s))]\<rparr>"
    have step: "tw_step e s = Running ?t" unfolding e using Cons.prems(1-3) by (rule poll_step)
    from Cons.IH [of ?t a] Cons.prems obtain t msgs where
      "run tw_step es ?t = Running t" "tw_pc t = Waiting (waits_for a es)" "tw_log t = tw_log s" "tw_objData t = tw_objData s"
      "tw_curTid t = tw_curTid s" "tw_outbox t = tw_outbox ?t @ map (apsnd txBytes) msgs"
      "map fst msgs = polls_to a es"
      "\<forall>(addr, m) \<in> set msgs. tx_msgID m = POLL_DECISION \<and> tx_tid m = tw_curTid s \<and> tx_nodeId m = tw_nodeId s"
      by (auto simp: wf_tw_fields wf_poll)
    then show ?thesis
      using step e by (intro exI [of _ t] exI [of _ "(a, poll_msg s) # msgs"]) (simp add: waits_for_def)
  next
    case False
    let ?t = "s\<lparr>tw_pc := Waiting (heard_addr e a)\<rparr>"
    have step: "tw_step e s = Running ?t" using Cons.prems(2,4) False by (intro silent_step) auto
    have "polls_to a (e # es) = polls_to (heard_addr e a) es" using False by (cases e) auto
    with Cons.IH [of ?t "heard_addr e a"] Cons.prems show ?thesis
      by (simp add: step wf_tw_fields waits_for_def)
  qed
qed

theorem in_doubt_waits_witness:
  "\<exists>t b b'. run tw_step [WPollTimeout True, WReady None (Some \<lparr>mi_recv = None, mi_empty = Some (wdemo_addr\<lparr>sin_port := 9\<rparr>), mi_sent = True\<rparr>),
       WPollError, WPollTimeout True] (demo_updated (Waiting wdemo_addr)) = Running t \<and>
     tw_outbox t = [(wdemo_addr, b), (wdemo_addr\<lparr>sin_port := 9\<rparr>, b')] \<and> tw_pc t = Waiting (wdemo_addr\<lparr>sin_port := 9\<rparr>)"
  using in_doubt_waits [of "demo_updated (Waiting wdemo_addr)" wdemo_addr
      "[WPollTimeout True, WReady None (Some \<lparr>mi_recv = None, mi_empty = Some (wdemo_addr\<lparr>sin_port := 9\<rparr>), mi_sent = True\<rparr>),
       WPollError, WPollTimeout True]"]
  by (auto simp: demo_updated_def waits_for_def map_eq_Cons_conv)

text \<open>
  Any datagram ends the wait.  A worker in doubt that receives a message of another kind than
  the two decisions, a repeated \<open>PREPARE_COMMIT\<close> for instance, goes back to the main loop without
  a decision: it logs nothing, keeps its updates and stays in the transaction.
\<close>

theorem other_message_ends_wait:
  assumes "tw_pc s = Waiting addr" and "wf_txMessage m"
    and "tx_msgID m \<noteq> DECIDE_COMMIT" and "tx_msgID m \<noteq> DECIDE_ABORT"
  shows "\<exists>t. tw_step (from_manager a (txBytes m @ rest) sent) s = Running t \<and> tw_pc t = MainLoop \<and>
    tw_log t = tw_log s \<and> tw_objData t = tw_objData s \<and> tw_isTXRun t = tw_isTXRun s \<and>
    tw_outbox t = tw_outbox s"
  using waiting_receives [OF assms(2,1)] assms(3,4) by (simp add: Let_def)

theorem other_message_ends_wait_witness:
  "\<exists>t. tw_step (from_manager wdemo_addr (txBytes (demo_txmsg PREPARE_COMMIT 7) @ []) True)
     (demo_updated (Waiting wdemo_addr)) = Running t \<and> tw_pc t = MainLoop \<and> tw_isTXRun t = 1"
  using other_message_ends_wait [of "demo_updated (Waiting wdemo_addr)" wdemo_addr
      "demo_txmsg PREPARE_COMMIT 7" wdemo_addr "[]" True]
  by (auto simp: demo_updated_def)

subsection \<open>Recovery\<close>

definition wf_reboot :: "tw_boot \<Rightarrow> bool" where
  "wf_reboot b \<longleftrightarrow> wf_txMessage (wb_newMsg b) \<and> wf_wrec (wb_rec b) \<and> wf_wrec (wb_junkRec b) \<and>
     length (wb_junkID b) = IDLEN"

lemma wf_restarting:
  assumes "tw_boots_from b s" and "wf_tw s" and "wf_reboot b"
  shows "wf_tw (restarting b)"
proof -
  have "wf_tw (tw_restoreVectorTime (tw_boot_state b))"
    "wf_tw (tw_restoreVectorTime (savePort p (tw_boot_state b)))" for p
    using assms
    by (simp_all add: tw_boots_from_def wf_reboot_def wf_tw_def tw_boot_state_def savePort_def tw_restoreVectorTime_def)
  then show ?thesis by (auto simp: restarting_def Let_def intro!: wf_tw_small)
qed

lemma wf_tw_restarted:
  assumes "tw_boots_from b s" and "wf_tw s" and "wf_reboot b"
  shows "out_all wf_tw (tw_main b)"
  using wf_restarting [OF assms]
  by (auto simp: tw_main_restart [OF assms(1)] wf_tw_fields dest!: findState_frame
      intro!: wf_recover_abort wf_tw_fields split: option.split)

lemma recover_abort_restores:
  assumes "txn v vc time s" and "wf_tw s" and "length (tw_log s) \<le> 22"
  shows "\<exists>t r. recover_abort s = Running t \<and> vals (tw_objData t) = v \<and> o_vectorClock (tw_objData t) = vc \<and>
    o_lastUpdateTime (tw_objData t) = time \<and> tw_log t = tw_log s @ [r] \<and> r_msgID r = ABORT \<and>
    r_tid r = tw_curTid s \<and> tw_isTXRun t = 0 \<and> tw_pc t = tw_pc s \<and> tw_outbox t = tw_outbox s"
  using txn_restores [OF assms] by (auto simp: recover_abort_def Let_def)

text \<open>The records after which a worker must not decide alone: it may have voted, or the decision is known.\<close>

lemma in_doubt_iff: "in_doubt k \<longleftrightarrow> k \<in> {ABORT, DECIDE_ABORT, PREPARE_COMMIT, VOTE_COMMIT, DECIDE_COMMIT}"
  by (auto simp: in_doubt_def)

lemma recovers:
  assumes "tw_boots_from b s" and "wf_tw s" and "wf_reboot b" and "length (tw_log s) \<le> 22"
    and "tw_log s \<noteq> []" and "txn v vc time (s\<lparr>tw_curTid := r_tid (last (tw_log s))\<rparr>)"
  shows "if in_doubt (r_msgID (last (tw_log s)))
    then \<exists>t. tw_main b = Running t \<and> tw_pc t = Waiting (ci_managerAddr (tw_crashInfo s)) \<and>
      tw_log t = tw_log s \<and> tw_objData t = tw_objData s
    else \<exists>t r. tw_main b = Running t \<and> tw_pc t = MainLoop \<and> tw_isTXRun t = 0 \<and>
      vals (tw_objData t) = v \<and> o_vectorClock (tw_objData t) = vc \<and> o_lastUpdateTime (tw_objData t) = time \<and>
      tw_log t = tw_log s @ [r] \<and> r_msgID r = ABORT \<and> r_tid r = r_tid (last (tw_log s))"
proof (cases "in_doubt (r_msgID (last (tw_log s)))")
  case True
  then show ?thesis using restart_in_doubt [OF assms(1,4,5) True] by auto
next
  case False
  note f = restarting_fields [OF assms(1)]
  let ?u = "(restarting b)\<lparr>tw_curTid := r_tid (last (tw_log s))\<rparr>"
  have "tw_records (restarting b) = Some (tw_log s)"
    using length_tw_records [of "restarting b"] assms(4) f(1) by simp
  then have main: "tw_main b = recover_abort ?u"
    using assms(5) False f by (simp add: tw_main_restart [OF assms(1)] tw_findStateFromRecord_def)
  have "txn v vc time ?u" by (rule txn_same [OF assms(6)]) (simp_all add: f)
  moreover have "wf_tw ?u" using wf_restarting [OF assms(1-3)] by (simp add: wf_tw_fields)
  ultimately show ?thesis
    using recover_abort_restores [of v vc time ?u] assms(4) False by (auto simp: main f)
qed

text \<open>
  C9: recovery.  A restarted worker takes its current transaction from the newest record of its
  log.  If the record is a request to prepare, a vote to commit, one of the two decisions or an
  abort, the worker waits for the decision with data and log as they were; after any other record,
  one of the transaction's begin, join, updates or request to commit for instance, it rolls the
  transaction back to the store it entered it with, logs an abort and is ready for commands.
\<close>

theorem recovery:
  assumes "tw_boots_from b s" and "wf_tw s" and "wf_reboot b" and "length (tw_log s) \<le> 22"
    and "tw_log s \<noteq> []" and "txn v vc time (s\<lparr>tw_curTid := r_tid (last (tw_log s))\<rparr>)"
  shows "if r_msgID (last (tw_log s)) \<in> {ABORT, DECIDE_ABORT, PREPARE_COMMIT, VOTE_COMMIT, DECIDE_COMMIT}
    then \<exists>t. tw_main b = Running t \<and> tw_pc t = Waiting (ci_managerAddr (tw_crashInfo s)) \<and>
      tw_log t = tw_log s \<and> tw_objData t = tw_objData s
    else \<exists>t r. tw_main b = Running t \<and> tw_pc t = MainLoop \<and> tw_isTXRun t = 0 \<and>
      vals (tw_objData t) = v \<and> o_vectorClock (tw_objData t) = vc \<and> o_lastUpdateTime (tw_objData t) = time \<and>
      tw_log t = tw_log s @ [r] \<and> r_msgID r = ABORT \<and> r_tid r = r_tid (last (tw_log s))"
  using recovers [OF assms] by (simp only: in_doubt_iff)

definition demo_reboot_of :: "tw_state \<Rightarrow> tw_boot" where
  "demo_reboot_of s = demo_wboot\<lparr>wb_host := tw_host s, wb_port := tw_nodeId s,
     wb_file := Some (tw_crashInfo s, tw_log s), wb_data := Some (tw_objData s), wb_shiviz := tw_shiviz s\<rparr>"

lemma demo_reboot_of [simp]: "tw_boots_from (demo_reboot_of s) s" "wf_reboot (demo_reboot_of s)"
  by (simp_all add: tw_boots_from_def demo_reboot_of_def wf_reboot_def demo_wboot_def)

theorem recovery_witness:
  "\<exists>t. tw_main (demo_reboot_of (demo_updated MainLoop)) = Running t \<and> vals (tw_objData t) = (9, 2, [104, 105])"
proof -
  have "txn (9, 2, [104, 105]) (first_clock 5001) zero_time
      ((demo_updated MainLoop)\<lparr>tw_curTid := r_tid (last (tw_log (demo_updated MainLoop)))\<rparr>)"
    by (rule txn_same [OF demo_updated_txn [of MainLoop]]) (simp_all add: demo_updated_def)
  from recovery [OF demo_reboot_of(1) _ demo_reboot_of(2) _ _ this] show ?thesis
    by (auto simp: demo_updated_def in_doubt_def)
qed

subsection \<open>The address of the manager\<close>

text \<open>
  A transaction always goes to address 0.  The code copies the cleared address over the
  resolved one instead of the other way round: whatever address the manager's host name resolves
  to, \<open>BEGINTX\<close> and \<open>JOINTX\<close> are sent to 0.0.0.0 at the port of the command, and so is every
  later \<open>COMMIT\<close>.  A name that does not resolve is a null pointer access.
\<close>

theorem begin_goes_to_any:
  assumes "wf_tw s" and "tw_pc s = MainLoop" and "tw_delay s = 0"
    and "deserializeMsg (tw_host s) (ci_buf c) = Some m" and "m_msgID m = BEGINTX \<or> m_msgID m = JOINTX"
    and "ci_sent c"
  shows "case ci_host c of
      None \<Rightarrow> tw_step (from_cmd c) s = Undefined
    | Some ip \<Rightarrow> \<exists>t r. tw_step (from_cmd c) s = Running t \<and>
        tw_outbox t = tw_outbox s @ [(\<lparr>sin_addr = 0, sin_port = ucast (m_port m)\<rparr>, txBytes r)] \<and>
        tx_msgID r = m_msgID m \<and> tx_tid r = m_tid m \<and> tx_nodeId r = tw_nodeId s \<and>
        tw_toAddr t = \<lparr>sin_addr = 0, sin_port = ucast (m_port m)\<rparr> \<and> tw_log t = tw_log s"
proof (cases "ci_host c")
  case None
  then show ?thesis
    using from_cmd_step [OF assms(2,4)] assms(5) by (auto simp: handle_cmd_def cmd_begin_join_def)
next
  case (Some ip)
  let ?a = "\<lparr>sin_addr = 0, sin_port = ucast (m_port m)\<rparr>"
  let ?u = "tw_saveVectorTime (tw_tickMyClock (s\<lparr>tw_toAddr := ?a\<rparr>))"
  let ?r = "tw_constructMessage m (tw_newMsg ?u) 0 ?u"
  let ?v = "tw_writeEventToLog ?r True (ucast (m_port m)) (?u\<lparr>tw_newMsg := ?r\<rparr>)"
  have wf: "wf_txMessage ?r" using assms(1) by (intro wf_construct wf_tw_small wf_tw_fields)
  have "tw_step (from_cmd c) s = cmd_begin_join True (Some ip) m s"
    using from_cmd_step [OF assms(2,4)] assms(5,6) Some by (auto simp: handle_cmd_def)
  also have "\<dots> = tw_sendMsg True ?r ?a ?v"
    by (simp add: cmd_begin_join_def memcpy_host_def Let_def)
  also have "\<dots> = Running (?v\<lparr>tw_outbox := tw_outbox s @ [(?a, txBytes ?r)]\<rparr>)"
    using assms(3) by (subst tw_sendMsg_wf [OF wf]) simp
  finally have ev: "tw_step (from_cmd c) s = Running (?v\<lparr>tw_outbox := tw_outbox s @ [(?a, txBytes ?r)]\<rparr>)" .
  have r: "tx_msgID ?r = m_msgID m" "tx_tid ?r = m_tid m" "tx_nodeId ?r = tw_nodeId s"
    by (simp_all add: tw_constructMessage_def)
  show ?thesis
    unfolding Some option.case using ev r
    by (intro exI [of _ "?v\<lparr>tw_outbox := tw_outbox s @ [(?a, txBytes ?r)]\<rparr>"] exI [of _ ?r]) simp
qed

theorem begin_goes_to_any_witness:
  "\<exists>t r. tw_step (from_cmd ((demo_cmd BEGINTX 0)\<lparr>ci_host := Some 0x0A000001\<rparr>)) (demo_tw [] MainLoop) = Running t \<and>
     tw_outbox t = [(\<lparr>sin_addr = 0, sin_port = 0\<rparr>, txBytes r)] \<and> tx_msgID r = BEGINTX"
  using begin_goes_to_any [of "demo_tw [] MainLoop" "(demo_cmd BEGINTX 0)\<lparr>ci_host := Some 0x0A000001\<rparr>"]
    demo_cmd_parse [of Little BEGINTX 0]
  by (auto simp: demo_cmd_def)

subsection \<open>The length of the log\<close>

lemma no_tw_records: "22 < length (tw_log s) \<Longrightarrow> tw_records s = None"
  by (simp add: tw_records_def sizeof_CrashInfo_def sizeof_Record_def tw_page_def)

text \<open>
  The log is readable up to 22 records.  The records behind the mapped header lie outside the
  mapping from the 23rd on: an abort command, a request to prepare and a decision to abort then
  read outside it.
\<close>

theorem worker_log_limit:
  assumes "22 < length (tw_log s)" and "wf_txMessage m"
    and "tx_msgID m = DECIDE_ABORT \<or> (tx_msgID m = PREPARE_COMMIT \<and> tw_pc s = MainLoop)"
  shows "tw_step (from_manager a (txBytes m @ rest) sent) s = Undefined"
proof -
  have rv: "readValFromRecord (tw_received m a s) = None"
    using no_tw_records [of "tw_received m a s"] assms(1) by (simp add: readValFromRecord_def)
  have la: "handle_prepare sent m a (tw_received m a s) = Undefined"
    using no_tw_records assms(1) by (simp add: handle_prepare_def Let_def isLocalAbort_def)
  show ?thesis
  proof (cases "tw_pc s")
    case MainLoop
    show ?thesis
      using main_receives [OF assms(2) MainLoop] rv la assms(3) by (auto simp: handle_man_msg_def)
  next
    case (Waiting addr)
    show ?thesis
      using waiting_receives [OF assms(2) Waiting] rv assms(3) Waiting by (auto simp: Let_def)
  qed
qed

theorem worker_log_limit_witness:
  "tw_step (from_manager wdemo_addr (txBytes (demo_txmsg DECIDE_ABORT 7) @ []) True)
     (demo_tw (replicate 23 (demo_rec NEW_A 7)) (Waiting wdemo_addr)) = Undefined"
  by (rule worker_log_limit) simp_all

end
