(* ===== verification/TxSystem.thy ===== *)
theory TxSystem
  imports TManagerFaults TManagerEffect TWorkerRecovery
begin

text \<open>
  Worker and manager together: the datagram that one process hands to \<open>sendto\<close> is the one the
  other receives.  The protocol as intended, a unanimous commit and an abort, and the run in
  which a worker that voted to abort ends up committed.
\<close>

subsection \<open>Decisions that reach the workers\<close>

text \<open>
  C4: the commit protocol commits.  A worker that has not aborted votes on \<open>PREPARE_COMMIT\<close>; when
  its vote is the last one missing, the manager that receives it logs the commit and sends one
  datagram to each member.  The worker that voted, and every other worker in whatever state it is,
  waiting or not, that receives any of these datagrams keeps its data object with the updates, logs
  the commit and leaves the transaction.
\<close>

theorem commit_end_to_end:
  assumes "wf_tw s" and "tw_pc s = MainLoop" and "tw_delay s = 0" and "length (tw_log s) < 22"
    and "\<not> locally_aborted s" and "tw_vote s \<noteq> VOTE_ABORT" and "tw_isCrash s = 0"
    and "wf_txMessage pm" and "tx_msgID pm = PREPARE_COMMIT"
    and "wf_tm ms" and "find_row (tx_tid pm) ms = Some row" and "i_isCrash row \<noteq> 1"
    and "\<forall>v. tx_nodeId v = tx_nodeId pm \<longrightarrow> others_yes v row"
  shows "\<exists>s1 v ms1 out. tw_step (from_manager a (txBytes pm @ rest) True) s = Running s1 \<and>
    tw_outbox s1 = tw_outbox s @ [(a, txBytes v)] \<and> tw_objData s1 = tw_objData s \<and>
    handleWorkerMsg (Received wa (txBytes v @ rest') c) ms = Running ms1 \<and>
    committed (tx_tid pm) ms1 \<and> tm_outbox ms1 = tm_outbox ms @ out \<and>
    map fst out = map w_workerAddr (addressees (tx_tid pm) (tm_rows ms)) \<and>
    (\<forall>(addr, bytes) \<in> set out. \<forall>w. \<exists>w' r. tw_step (from_manager ma (bytes @ rest'') sent) w = Running w' \<and>
       tw_objData w' = tw_objData w \<and> tw_isTXRun w' = 0 \<and> tw_pc w' = MainLoop \<and>
       tw_log w' = tw_log w @ [r] \<and> r_msgID r = DECIDE_COMMIT \<and> r_tid r = tx_tid pm)"
proof -
  let ?v = "vote_msg pm a s"
  let ?s1 = "(tw_writeRecordToLog ((tw_junkRec s)\<lparr>r_msgID := VOTE_COMMIT, r_tid := tx_tid pm\<rparr>)
      ((prepared pm a s)\<lparr>tw_outbox := tw_outbox s @ [(a, txBytes ?v)]\<rparr>))\<lparr>tw_firstTimeWaiting := 1, tw_pc := Waiting a\<rparr>"
  have vk: "vote_kind s = VOTE_COMMIT" using assms(5,6) by (simp add: vote_kind_def)
  have wfv: "wf_txMessage ?v" by (rule wf_vote_msg [OF assms(1)])
  have s1: "tw_step (from_manager a (txBytes pm @ rest) True) s = Running ?s1"
    using prepare_step [OF assms(2,4,8,9)] assms(3) by (simp add: tw_sendMsg_wf [OF wfv])
  have fr: "find_row (tx_tid ?v) ms = Some row" using assms(11) by simp
  have oy: "others_yes ?v row" using assms(13) by simp
  let ?vc = "merge_clocks (tx_vectorClock ?v) (tick (tm_port ms) (tm_clock ms))"
  let ?bc = "broadcast (tm_port ms) ?v DECIDE_COMMIT (tm_newMsg ms) ?vc (addressees (tx_tid pm) (tm_rows ms))"
  obtain ms1 where ms1: "handleWorkerMsg (Received wa (txBytes ?v @ rest') c) ms = Running ms1"
    "tm_log ms1 = tm_log ms @ [\<lparr>cr_msgID = DECIDE_COMMIT, cr_tid = tx_tid pm, cr_nodeId = tx_nodeId ?v\<rparr>]"
    "tm_outbox ms1 = tm_outbox ms @ map (apsnd txBytes) ?bc"
    using unanimous_step [OF assms(10) wfv _ _ fr assms(12) oy, of wa rest' c] vk assms(7) by auto
  have len: "length ?vc = 10" using assms(10) by (simp add: wf_tm_def)
  have step: "case x of (addr, bytes) \<Rightarrow> \<forall>w. \<exists>w' r. tw_step (from_manager ma (bytes @ rest'') sent) w = Running w' \<and>
       tw_objData w' = tw_objData w \<and> tw_isTXRun w' = 0 \<and> tw_pc w' = MainLoop \<and>
       tw_log w' = tw_log w @ [r] \<and> r_msgID r = DECIDE_COMMIT \<and> r_tid r = tx_tid pm"
    if "x \<in> set (map (apsnd txBytes) ?bc)" for x
  proof -
    from that obtain addr m' where m': "(addr, m') \<in> set ?bc" and x: "x = (addr, txBytes m')" by auto
    have wfm: "wf_txMessage m'" by (rule broadcast_wf [OF wf_tm_newMsg [OF assms(10)] len m'])
    have k: "tx_msgID m' = DECIDE_COMMIT" "tx_tid m' = tx_tid pm" using broadcast_kinds [OF m'] by simp_all
    show ?thesis unfolding x prod.case
      using commit_decision_kept [OF wfm k(1), of ma rest'' sent] unfolding k(2) by blast
  qed
  then have "\<forall>(addr, bytes) \<in> set (map (apsnd txBytes) ?bc). \<forall>w. \<exists>w' r.
       tw_step (from_manager ma (bytes @ rest'') sent) w = Running w' \<and>
       tw_objData w' = tw_objData w \<and> tw_isTXRun w' = 0 \<and> tw_pc w' = MainLoop \<and>
       tw_log w' = tw_log w @ [r] \<and> r_msgID r = DECIDE_COMMIT \<and> r_tid r = tx_tid pm"
    by (rule ballI)
  moreover have "map fst (map (apsnd txBytes) ?bc) = map w_workerAddr (addressees (tx_tid pm) (tm_rows ms))"
    by (simp add: comp_def broadcast_addrs)
  moreover have "committed (tx_tid pm) ms1" using ms1(2) by (simp add: committed_append)
  ultimately show ?thesis
    using s1 ms1 by (intro exI [of _ ?s1] exI [of _ ?v] exI [of _ ms1] exI [of _ "map (apsnd txBytes) ?bc"] conjI)
      (assumption | simp)+
qed

lemma demo_row_others:
  "\<forall>v. tx_nodeId v = 1111 \<longrightarrow> others_yes v (demo_row 7 x VOTE_COMMIT)"
  using demo_others_yes [of 0 x] by (simp add: others_yes_def)

definition demo_prepare :: txMessage where
  "demo_prepare = (demo_txmsg PREPARE_COMMIT 7)\<lparr>tx_nodeId := 1111\<rparr>"

lemma demo_prepare_simps [simp]:
  "wf_txMessage demo_prepare" "tx_msgID demo_prepare = PREPARE_COMMIT" "tx_tid demo_prepare = 7"
  "tx_nodeId demo_prepare = 1111"
  by (simp_all add: demo_prepare_def wf_txMessage_def) (simp_all add: demo_txmsg_def)

theorem commit_end_to_end_witness:
  "\<exists>s1 v ms1. tw_step (from_manager wdemo_addr (txBytes demo_prepare @ []) True) (demo_tw [] MainLoop) = Running s1 \<and>
     tw_outbox s1 = [(wdemo_addr, txBytes v)] \<and>
     handleWorkerMsg (Received demo_addr (txBytes v @ []) 0) (demo_tm [] (demo_rows 7 0 VOTE_COMMIT)) = Running ms1 \<and>
     committed 7 ms1"
proof -
  have c: "tw_isCrash (demo_tw [] MainLoop) = 0" by (simp add: demo_tw_def)
  have r: "find_row (tx_tid demo_prepare) (demo_tm [] (demo_rows 7 0 VOTE_COMMIT)) = Some (demo_row 7 0 VOTE_COMMIT)"
    by simp
  have o: "\<forall>v. tx_nodeId v = tx_nodeId demo_prepare \<longrightarrow> others_yes v (demo_row 7 0 VOTE_COMMIT)"
    using demo_row_others by simp
  have p: "wf_tw (demo_tw [] MainLoop)" "tw_pc (demo_tw [] MainLoop) = MainLoop"
    "tw_delay (demo_tw [] MainLoop) = 0" "length (tw_log (demo_tw [] MainLoop)) < 22"
    "\<not> locally_aborted (demo_tw [] MainLoop)" "tw_vote (demo_tw [] MainLoop) \<noteq> VOTE_ABORT"
    "wf_tm (demo_tm [] (demo_rows 7 0 VOTE_COMMIT))" "i_isCrash (demo_row 7 0 VOTE_COMMIT) \<noteq> 1"
    by (simp_all add: locally_aborted_def)
  obtain s1 v ms1 where "tw_step (from_manager wdemo_addr (txBytes demo_prepare @ []) True) (demo_tw [] MainLoop) = Running s1"
    "tw_outbox s1 = tw_outbox (demo_tw [] MainLoop) @ [(wdemo_addr, txBytes v)]"
    "handleWorkerMsg (Received demo_addr (txBytes v @ []) 0) (demo_tm [] (demo_rows 7 0 VOTE_COMMIT)) = Running ms1"
    "committed (tx_tid demo_prepare) ms1"
    using commit_end_to_end [OF p(1-6) c demo_prepare_simps(1,2) p(7) r p(8) o, of wdemo_addr "[]" demo_addr "[]" 0]
    by blast
  then show ?thesis by (intro exI [of _ s1] exI [of _ v] exI [of _ ms1]) simp
qed

text \<open>
  C8: an abort reaches every member.  When a member's vote to abort arrives, the manager that is
  not asked to crash sends one datagram to each member, and any worker inside the transaction
  that receives one of them, waiting or not, restores the store it entered the transaction with.
\<close>

theorem abort_end_to_end:
  assumes "wf_tm ms" and "wf_txMessage v" and "tx_msgID v = VOTE_ABORT" and "tx_isCrash v \<noteq> 1"
    and "getCrash v ms \<noteq> 1"
    and "wf_tw s" and "txn val vc time s" and "length (tw_log s) \<le> 22"
  shows "\<exists>ms1 out. handleWorkerMsg (Received wa (txBytes v @ rest) c) ms = Running ms1 \<and>
    tm_outbox ms1 = tm_outbox ms @ out \<and>
    map fst out = map w_workerAddr (addressees (tx_tid v) (tm_rows ms)) \<and>
    (\<forall>(addr, bytes) \<in> set out. \<exists>s2 r. tw_step (from_manager ma (bytes @ rest') sent) s = Running s2 \<and>
       vals (tw_objData s2) = val \<and> o_vectorClock (tw_objData s2) = vc \<and> tw_isTXRun s2 = 0 \<and>
       tw_log s2 = tw_log s @ [r] \<and> r_msgID r = DECIDE_ABORT \<and> r_tid r = tx_tid v)"
proof -
  let ?mc = "merge_clocks (tx_vectorClock v) (tick (tm_port ms) (tm_clock ms))"
  let ?bc = "broadcast (tm_port ms) v DECIDE_ABORT (tm_newMsg ms) ?mc (addressees (tx_tid v) (tm_rows ms))"
  obtain ms1 where ms1: "handleWorkerMsg (Received wa (txBytes v @ rest) c) ms = Running ms1"
    "tm_outbox ms1 = tm_outbox ms @ map (apsnd txBytes) ?bc"
    using abort_vote_step [OF assms(1-5), of wa rest c] by blast
  have len: "length ?mc = 10" using assms(1) by (simp add: wf_tm_def)
  have step: "\<exists>s2 r. tw_step (from_manager ma (bytes @ rest') sent) s = Running s2 \<and>
       vals (tw_objData s2) = val \<and> o_vectorClock (tw_objData s2) = vc \<and> tw_isTXRun s2 = 0 \<and>
       tw_log s2 = tw_log s @ [r] \<and> r_msgID r = DECIDE_ABORT \<and> r_tid r = tx_tid v"
    if "(addr, bytes) \<in> set (map (apsnd txBytes) ?bc)" for addr bytes
  proof -
    from that obtain m' where m': "(addr, m') \<in> set ?bc" and bytes: "bytes = txBytes m'" by auto
    have wfm: "wf_txMessage m'" by (rule broadcast_wf [OF wf_tm_newMsg [OF assms(1)] len m'])
    have k: "tx_msgID m' = DECIDE_ABORT" "tx_tid m' = tx_tid v" using broadcast_kinds [OF m'] by simp_all
    show ?thesis
      using abort_decision_step [OF assms(6,7,8) wfm k(1), of ma rest' sent] k(2) bytes by auto
  qed
  have "\<forall>(addr, bytes) \<in> set (map (apsnd txBytes) ?bc). \<exists>s2 r.
       tw_step (from_manager ma (bytes @ rest') sent) s = Running s2 \<and>
       vals (tw_objData s2) = val \<and> o_vectorClock (tw_objData s2) = vc \<and> tw_isTXRun s2 = 0 \<and>
       tw_log s2 = tw_log s @ [r] \<and> r_msgID r = DECIDE_ABORT \<and> r_tid r = tx_tid v"
  proof (rule ballI)
    fix x
    assume "x \<in> set (map (apsnd txBytes) ?bc)"
    then have "(fst x, snd x) \<in> set (map (apsnd txBytes) ?bc)" by (simp only: prod.collapse)
    from step [OF this] show "case x of (addr, bytes) \<Rightarrow> \<exists>s2 r.
       tw_step (from_manager ma (bytes @ rest') sent) s = Running s2 \<and>
       vals (tw_objData s2) = val \<and> o_vectorClock (tw_objData s2) = vc \<and> tw_isTXRun s2 = 0 \<and>
       tw_log s2 = tw_log s @ [r] \<and> r_msgID r = DECIDE_ABORT \<and> r_tid r = tx_tid v"
      by (simp only: case_prod_beta)
  qed
  moreover have "map fst (map (apsnd txBytes) ?bc) = map w_workerAddr (addressees (tx_tid v) (tm_rows ms))"
    by (simp add: comp_def broadcast_addrs)
  ultimately show ?thesis
    using ms1 by (intro exI [of _ ms1] exI [of _ "map (apsnd txBytes) ?bc"]) blast
qed

theorem abort_end_to_end_witness:
  "\<exists>ms1 out. handleWorkerMsg (Received demo_addr (txBytes (demo_msg VOTE_ABORT 7 1111) @ []) 0)
      (demo_tm [] (demo_rows 7 0 0)) = Running ms1 \<and> tm_outbox ms1 = out \<and> length out = 2 \<and>
    (\<forall>(addr, bytes) \<in> set out. \<exists>s2. tw_step (from_manager wdemo_addr (bytes @ []) True) (demo_updated MainLoop) = Running s2 \<and>
       vals (tw_objData s2) = (9, 2, [104, 105]))"
proof -
  have two: "length (addressees 7 (demo_rows 7 0 0)) = 2"
    by (simp add: demo_rows_def addressees_empty) (simp add: demo_row_def demo_worker_def)
  have wf: "wf_tm (demo_tm [] (demo_rows 7 0 0))" by simp
  have cr: "getCrash (demo_msg VOTE_ABORT 7 1111) (demo_tm [] (demo_rows 7 0 0)) \<noteq> 1"
    by (simp add: getCrash_find_row)
  have k: "tx_msgID (demo_msg VOTE_ABORT 7 1111) = VOTE_ABORT" "tx_isCrash (demo_msg VOTE_ABORT 7 1111) \<noteq> 1"
    "length (tw_log (demo_updated MainLoop)) \<le> 22" by (simp_all add: demo_updated_def)
  obtain ms1 out where e: "handleWorkerMsg (Received demo_addr (txBytes (demo_msg VOTE_ABORT 7 1111) @ []) 0)
      (demo_tm [] (demo_rows 7 0 0)) = Running ms1"
    "tm_outbox ms1 = tm_outbox (demo_tm [] (demo_rows 7 0 0)) @ out"
    and addrs: "map fst out = map w_workerAddr (addressees (tx_tid (demo_msg VOTE_ABORT 7 1111)) (tm_rows (demo_tm [] (demo_rows 7 0 0))))"
    and w: "\<forall>(addr, bytes) \<in> set out. \<exists>s2. tw_step (from_manager wdemo_addr (bytes @ []) True) (demo_updated MainLoop) = Running s2 \<and>
       vals (tw_objData s2) = (9, 2, [104, 105])"
    using abort_end_to_end [OF wf wf_demo_msg k(1,2) cr wf_demo_updated demo_updated_txn k(3), of demo_addr "[]" 0 wdemo_addr "[]" True]
    by blast
  have e2: "tm_outbox ms1 = out" using e(2) by simp
  have "length out = 2" using arg_cong [OF addrs, of length] two by simp
  with e(1) e2 w show ?thesis by blast
qed

subsection \<open>The run that breaks the protocol\<close>

text \<open>
  C21: a worker that aborted can be told to commit.  The worker has aborted locally (or was told to
  vote abort) and crashes before its vote leaves it.  Restarted, it polls for the decision, the
  manager counts the poll as the missing yes and answers \<open>DECIDE_COMMIT\<close>, and the worker logs the
  commit of the transaction it has aborted.
\<close>

theorem aborted_worker_commits:
  assumes "wf_tw s" and "tw_pc s = MainLoop" and "tw_delay s = - 1000" and "length (tw_log s) < 22"
    and "locally_aborted s \<or> tw_vote s = VOTE_ABORT"
    and "wf_txMessage pm" and "tx_msgID pm = PREPARE_COMMIT"
    and "wf_tm ms" and "find_row (tx_tid pm) ms = Some row"
    and "\<forall>v. tx_nodeId v = tw_nodeId s \<longrightarrow> others_yes v row"
  shows "\<exists>t. tw_step (from_manager a (txBytes pm @ rest) True) s = Exited t \<and> tw_outbox t = tw_outbox s \<and>
    (\<forall>b. tw_boots_from b t \<and> wf_reboot b \<longrightarrow>
      (\<exists>u u1 p ms1 r u2. tw_main b = Running u \<and> tw_step (WPollTimeout True) u = Running u1 \<and>
        tw_outbox u1 = [(ci_managerAddr (tw_crashInfo s), txBytes p)] \<and>
        handleWorkerMsg (Received wa (txBytes p @ rest') c) ms = Running ms1 \<and>
        tm_outbox ms1 = tm_outbox ms @ [(wa, txBytes r)] \<and> tm_log ms1 = tm_log ms \<and>
        tw_step (from_manager ma (txBytes r @ rest'') True) u1 = Running u2 \<and>
        (\<exists>d. tw_log u2 = tw_log t @ [d] \<and> r_msgID d = DECIDE_COMMIT \<and> r_tid d = tx_tid pm)))"
proof -
  have neg: "sint (tw_delay s) < 0" using assms(3) by simp
  obtain t where t: "tw_step (from_manager a (txBytes pm @ rest) True) s = Exited t" "tw_outbox t = tw_outbox s"
    and doubt: "\<And>b. tw_boots_from b t \<Longrightarrow>
       \<exists>u. tw_main b = Running u \<and> tw_pc u = Waiting (ci_managerAddr (tw_crashInfo s)) \<and>
          tw_curTid u = tx_tid pm \<and> tw_objData u = tw_objData s \<and> tw_log u = tw_log t \<and> tw_outbox u = [] \<and>
          tw_delay u = 0 \<and> tw_nodeId u = tw_nodeId s"
    using vote_crash_step [OF assms(1,2) neg assms(4,6,7), of a rest] assms(3) by auto
  have "\<exists>u u1 p ms1 r u2. tw_main b = Running u \<and> tw_step (WPollTimeout True) u = Running u1 \<and>
        tw_outbox u1 = [(ci_managerAddr (tw_crashInfo s), txBytes p)] \<and>
        handleWorkerMsg (Received wa (txBytes p @ rest') c) ms = Running ms1 \<and>
        tm_outbox ms1 = tm_outbox ms @ [(wa, txBytes r)] \<and> tm_log ms1 = tm_log ms \<and>
        tw_step (from_manager ma (txBytes r @ rest'') True) u1 = Running u2 \<and>
        (\<exists>d. tw_log u2 = tw_log t @ [d] \<and> r_msgID d = DECIDE_COMMIT \<and> r_tid d = tx_tid pm)"
    if b: "tw_boots_from b t" "wf_reboot b" for b
  proof -
    let ?a = "ci_managerAddr (tw_crashInfo s)"
    from doubt [OF b(1)] obtain u where u: "tw_main b = Running u" "tw_pc u = Waiting ?a"
      "tw_curTid u = tx_tid pm" "tw_log u = tw_log t" "tw_outbox u = []" "tw_delay u = 0" "tw_nodeId u = tw_nodeId s"
      by blast
    have "wf_tw t"
      using tw_machine.step_inv [OF assms(1), of "from_manager a (txBytes pm @ rest) True"] by (simp only: t(1) out_all.simps)
    then have wfu: "wf_tw u" using wf_tw_restarted [OF b(1) _ b(2)] u(1) by (metis out_all.simps(1))
    let ?p = "poll_msg u"
    let ?u1 = "(poll_state ?a u)\<lparr>tw_outbox := tw_outbox u @ [(?a, txBytes ?p)]\<rparr>"
    have u1: "tw_step (WPollTimeout True) u = Running ?u1"
      using wfu u(2) by (rule poll_step) (simp add: u(6))
    have fr: "find_row (tx_tid ?p) ms = Some row" using assms(9) u(3) by simp
    have oy: "others_yes ?p row" using assms(10) u(7) by simp
    obtain ms1 r where ms1: "handleWorkerMsg (Received wa (txBytes ?p @ rest') c) ms = Running ms1"
      "tm_log ms1 = tm_log ms" "tm_outbox ms1 = tm_outbox ms @ [(wa, txBytes r)]"
      and r: "tx_msgID r = DECIDE_COMMIT" "tx_tid r = tx_tid ?p" "wf_txMessage r"
      using poll_commit_step [OF assms(8) wf_poll(2) [OF wfu] poll_msg_fields(1) fr oy, of wa rest' c] by blast
    have pc: "tw_pc ?u1 = Waiting ?a" using u(2) by simp
    obtain u2 where "tw_step (from_manager ma (txBytes r @ rest'') True) ?u1 = Running u2"
      "\<exists>d. tw_log u2 = tw_log t @ [d] \<and> r_msgID d = DECIDE_COMMIT \<and> r_tid d = tx_tid pm"
      using waiting_receives [OF r(3) pc, of ma rest'' True] r(1,2) u(3,4) by (simp add: Let_def)
    with u(1,5) u1 ms1 show ?thesis
      by (intro exI [of _ u] exI [of _ ?u1] exI [of _ ?p] exI [of _ ms1] exI [of _ r] exI [of _ u2]) simp
  qed
  with t show ?thesis by blast
qed

theorem aborted_worker_commits_witness:
  "\<exists>t p ms1 r u1 u2 d. tw_step (from_manager wdemo_addr (txBytes demo_prepare @ []) True)
       ((demo_tw [demo_rec ABORT 7] MainLoop)\<lparr>tw_delay := - 1000, tw_nodeId := 1111\<rparr>) = Exited t \<and>
     tw_outbox t = [] \<and>
     handleWorkerMsg (Received demo_addr (txBytes p @ []) 0) (demo_tm [] (demo_rows 7 0 VOTE_COMMIT)) = Running ms1 \<and>
     tm_outbox ms1 = [(demo_addr, txBytes r)] \<and>
     tw_step (from_manager wdemo_addr (txBytes r @ []) True) u1 = Running u2 \<and>
     tw_log u2 = tw_log t @ [d] \<and> r_msgID d = DECIDE_COMMIT \<and> r_tid d = 7"
proof -
  let ?s = "(demo_tw [demo_rec ABORT 7] MainLoop)\<lparr>tw_delay := - 1000, tw_nodeId := 1111\<rparr>"
  have wf: "wf_tw ?s"
  proof -
    have "wf_tw (demo_tw [demo_rec ABORT 7] MainLoop)" by simp
    then show ?thesis by (simp add: wf_tw_def)
  qed
  have p: "tw_pc ?s = MainLoop" "tw_delay ?s = - 1000" "length (tw_log ?s) < 22" "locally_aborted ?s \<or> tw_vote ?s = VOTE_ABORT"
    "wf_tm (demo_tm [] (demo_rows 7 0 VOTE_COMMIT))"
    "find_row (tx_tid demo_prepare) (demo_tm [] (demo_rows 7 0 VOTE_COMMIT)) = Some (demo_row 7 0 VOTE_COMMIT)"
    by (simp_all add: locally_aborted_def)
  have o: "\<forall>v. tx_nodeId v = tw_nodeId ?s \<longrightarrow> others_yes v (demo_row 7 0 VOTE_COMMIT)"
    using demo_row_others by simp
  obtain t where t: "tw_step (from_manager wdemo_addr (txBytes demo_prepare @ []) True) ?s = Exited t"
      "tw_outbox t = tw_outbox ?s"
    and rest: "\<And>b. tw_boots_from b t \<and> wf_reboot b \<Longrightarrow>
      \<exists>u u1 p ms1 r u2. tw_main b = Running u \<and> tw_step (WPollTimeout True) u = Running u1 \<and>
        tw_outbox u1 = [(ci_managerAddr (tw_crashInfo ?s), txBytes p)] \<and>
        handleWorkerMsg (Received demo_addr (txBytes p @ []) 0) (demo_tm [] (demo_rows 7 0 VOTE_COMMIT)) = Running ms1 \<and>
        tm_outbox ms1 = tm_outbox (demo_tm [] (demo_rows 7 0 VOTE_COMMIT)) @ [(demo_addr, txBytes r)] \<and>
        tm_log ms1 = tm_log (demo_tm [] (demo_rows 7 0 VOTE_COMMIT)) \<and>
        tw_step (from_manager wdemo_addr (txBytes r @ []) True) u1 = Running u2 \<and>
        (\<exists>d. tw_log u2 = tw_log t @ [d] \<and> r_msgID d = DECIDE_COMMIT \<and> r_tid d = tx_tid demo_prepare)"
    using aborted_worker_commits [OF wf p(1-4) demo_prepare_simps(1,2) p(5,6) o] by blast
  have "tw_boots_from (demo_reboot_of t) t \<and> wf_reboot (demo_reboot_of t)" by simp
  from rest [OF this] obtain u1 p ms1 r u2 d where
    "handleWorkerMsg (Received demo_addr (txBytes p @ []) 0) (demo_tm [] (demo_rows 7 0 VOTE_COMMIT)) = Running ms1"
    "tm_outbox ms1 = tm_outbox (demo_tm [] (demo_rows 7 0 VOTE_COMMIT)) @ [(demo_addr, txBytes r)]"
    "tw_step (from_manager wdemo_addr (txBytes r @ []) True) u1 = Running u2"
    "tw_log u2 = tw_log t @ [d]" "r_msgID d = DECIDE_COMMIT" "r_tid d = tx_tid demo_prepare"
    by (elim exE conjE) (rule that, assumption+)
  then show ?thesis
    using t by (intro exI [of _ t] exI [of _ p] exI [of _ ms1] exI [of _ r] exI [of _ u1] exI [of _ u2] exI [of _ d]) simp
qed

end
