(* ===== verification/TWorkerEffect.thy ===== *)
theory TWorkerEffect
  imports TWorkerRecovery
begin

text \<open>
  What one round of the worker adds to the network and to its log: requests and polls carry its own
  node id, a vote answers a \<open>PREPARE_COMMIT\<close> that the round received, and a decision is logged only
  when the round received it.
\<close>

subsection \<open>Additions\<close>

definition worker_sends :: "u32 \<Rightarrow> (u32 \<Rightarrow> bool) \<Rightarrow> txMessage \<Rightarrow> bool" where
  "worker_sends n prep m \<longleftrightarrow> wf_txMessage m \<and>
     ((tx_msgID m \<in> {BEGINTX, JOINTX, COMMIT, POLL_DECISION} \<and> tx_nodeId m = n) \<or>
      (tx_msgID m \<in> {VOTE_COMMIT, VOTE_ABORT} \<and> prep (tx_tid m)))"

definition worker_logs :: "(u32 \<Rightarrow> u32 \<Rightarrow> bool) \<Rightarrow> wrecord \<Rightarrow> bool" where
  "worker_logs dec r \<longleftrightarrow> (r_msgID r \<in> {DECIDE_COMMIT, DECIDE_ABORT} \<longrightarrow> dec (r_msgID r) (r_tid r))"

definition tw_adds :: "(u32 \<Rightarrow> bool) \<Rightarrow> (u32 \<Rightarrow> u32 \<Rightarrow> bool) \<Rightarrow> tw_state \<Rightarrow> tw_state \<Rightarrow> bool" where
  "tw_adds prep dec s t \<longleftrightarrow> tw_host t = tw_host s \<and> tw_nodeId t = tw_nodeId s \<and>
     (\<exists>out. tw_outbox t = tw_outbox s @ map (apsnd txBytes) out \<and>
        (\<forall>(a, m) \<in> set out. worker_sends (tw_nodeId s) prep m)) \<and>
     (\<exists>recs. tw_log t = tw_log s @ recs \<and> list_all (worker_logs dec) recs)"

lemma tw_adds_same:
  "tw_host t = tw_host s \<Longrightarrow> tw_nodeId t = tw_nodeId s \<Longrightarrow> tw_outbox t = tw_outbox s \<Longrightarrow> tw_log t = tw_log s \<Longrightarrow>
    tw_adds p d s t"
  by (auto simp: tw_adds_def intro: exI [of _ "[]"])

lemma tw_adds_refl: "tw_adds p d s s"
  by (rule tw_adds_same) simp_all

lemma tw_adds_trans:
  assumes "tw_adds p d s t" and "tw_adds p d t u"
  shows "tw_adds p d s u"
proof -
  from assms(1) obtain o1 r1 where 1: "tw_host t = tw_host s" "tw_nodeId t = tw_nodeId s"
    "tw_outbox t = tw_outbox s @ map (apsnd txBytes) o1" "\<forall>(a, m) \<in> set o1. worker_sends (tw_nodeId s) p m"
    "tw_log t = tw_log s @ r1" "list_all (worker_logs d) r1" by (auto simp: tw_adds_def)
  from assms(2) obtain o2 r2 where 2: "tw_host u = tw_host t" "tw_nodeId u = tw_nodeId t"
    "tw_outbox u = tw_outbox t @ map (apsnd txBytes) o2" "\<forall>(a, m) \<in> set o2. worker_sends (tw_nodeId t) p m"
    "tw_log u = tw_log t @ r2" "list_all (worker_logs d) r2" by (auto simp: tw_adds_def)
  show ?thesis unfolding tw_adds_def
  proof (intro conjI)
    show "tw_host u = tw_host s" "tw_nodeId u = tw_nodeId s" using 1 2 by simp_all
    show "\<exists>out. tw_outbox u = tw_outbox s @ map (apsnd txBytes) out \<and> (\<forall>(a, m) \<in> set out. worker_sends (tw_nodeId s) p m)"
      by (rule exI [of _ "o1 @ o2"]) (use 1 2 in auto)
    show "\<exists>recs. tw_log u = tw_log s @ recs \<and> list_all (worker_logs d) recs"
      by (rule exI [of _ "r1 @ r2"]) (use 1 2 in simp)
  qed
qed

lemma tw_adds_then: "tw_adds p d s t \<Longrightarrow> out_all (tw_adds p d t) m \<Longrightarrow> out_all (tw_adds p d s) m"
  by (erule out_all_mono) (rule tw_adds_trans)

lemma tw_adds_log:
  "tw_adds p d s t \<Longrightarrow> worker_logs d r \<Longrightarrow> tw_adds p d s (tw_writeRecordToLog r t)"
  by (erule tw_adds_trans) (auto simp: tw_adds_def intro: exI [of _ "[]"])

lemma tw_adds_set:
  assumes "tw_adds p d s t"
  shows "tw_adds p d s (tw_saveVectorTime t)" "tw_adds p d s (tw_tick n t)" "tw_adds p d s (tw_mergeVectorClock m t)"
    "tw_adds p d s (tw_writeEventToLog m b q t)" "tw_adds p d s (tw_writeLocalEventToLog k t)"
    "tw_adds p d s (t\<lparr>tw_curTid := x\<rparr>)" "tw_adds p d s (t\<lparr>tw_isTXRun := x\<rparr>)" "tw_adds p d s (t\<lparr>tw_delay := x\<rparr>)"
    "tw_adds p d s (t\<lparr>tw_isCrash := x\<rparr>)" "tw_adds p d s (t\<lparr>tw_vote := x\<rparr>)" "tw_adds p d s (t\<lparr>tw_firstTimeWaiting := x\<rparr>)"
    "tw_adds p d s (t\<lparr>tw_toAddr := addr\<rparr>)" "tw_adds p d s (t\<lparr>tw_pc := pc\<rparr>)" "tw_adds p d s (t\<lparr>tw_rec := r\<rparr>)"
    "tw_adds p d s (t\<lparr>tw_objData := obj\<rparr>)" "tw_adds p d s (t\<lparr>tw_newMsg := nm\<rparr>)" "tw_adds p d s (t\<lparr>tw_crashInfo := ci\<rparr>)"
    "tw_adds p d s (tw_crash m t)"
  by (rule tw_adds_trans [OF assms], rule tw_adds_same, simp_all)+

lemma tw_adds_send:
  assumes "tw_adds p d s t" and "worker_sends (tw_nodeId t) p m"
  shows "out_all (tw_adds p d s) (tw_sendMsg sent m a t)"
proof -
  have wf: "wf_txMessage m" using assms(2) by (simp add: worker_sends_def)
  let ?t = "t\<lparr>tw_outbox := tw_outbox t @ [(a, txBytes m)]\<rparr>"
  have "tw_adds p d t ?t"
    using assms(2) by (auto simp: tw_adds_def intro!: exI [of _ "[(a, m)]"])
  then have "tw_adds p d s ?t" by (rule tw_adds_trans [OF assms(1)])
  then show ?thesis using assms(1) by (simp add: tw_sendMsg_wf [OF wf] tw_adds_set)
qed

lemma sends_constructed:
  assumes "wf_tw s"
  shows "k = POLL_DECISION \<Longrightarrow> worker_sends (tw_nodeId s) p (constructTxMessage t (tw_nodeId s) k s)"
    and "k = VOTE_COMMIT \<or> k = VOTE_ABORT \<Longrightarrow> p t \<Longrightarrow> worker_sends (tw_nodeId s) p (constructTxMessage t n k s)"
    and "wf_txMessage nm \<Longrightarrow> m_msgID c \<in> {BEGINTX, JOINTX, COMMIT} \<Longrightarrow> worker_sends (tw_nodeId s) p (tw_constructMessage c nm 0 s)"
  using assms
  by (auto simp: worker_sends_def) (auto simp: constructTxMessage_def tw_constructMessage_def)

subsection \<open>The handlers\<close>

lemma adds_readVal: "readValFromRecord s = Some t \<Longrightarrow> tw_adds p d u s \<Longrightarrow> tw_adds p d u t"
  by (auto dest!: readVal_frame simp: tw_adds_set)

lemma adds_waiting_timeout:
  assumes "wf_tw s"
  shows "out_all (tw_adds p d s) (waiting_timeout sent a s)"
proof -
  let ?s = "tw_saveVectorTime (tw_tickMyClock (s\<lparr>tw_firstTimeWaiting := 0\<rparr>))"
  have "wf_tw ?s" using assms by (intro wf_tw_small wf_tw_fields)
  from sends_constructed(1) [OF this refl, of p "tw_curTid ?s"]
  show ?thesis unfolding waiting_timeout_def Let_def
    by (intro tw_adds_send tw_adds_set tw_adds_refl) simp
qed

lemma adds_log_decision:
  "tw_adds p d s t \<Longrightarrow> (tx_msgID m \<in> {DECIDE_COMMIT, DECIDE_ABORT} \<Longrightarrow> d (tx_msgID m) (tx_tid m)) \<Longrightarrow>
    tw_adds p d s (log_decision m t)"
  unfolding log_decision_def by (intro tw_adds_set tw_adds_log) (auto simp: worker_logs_def)

lemma adds_waiting_recv:
  assumes "\<And>m. deserializeWorkerMsg (tw_host s) buf = Some m \<Longrightarrow> d (tx_msgID m) (tx_tid m)"
  shows "out_all (tw_adds p d s) (waiting_recv a buf s)"
proof (cases "deserializeWorkerMsg (tw_host s) buf")
  case (Some m)
  let ?t = "tw_writeEventToLog m False (sin_port a) (tw_saveVectorTime (tw_tickMyClock (tw_mergeVectorClock m s)))"
  have t: "tw_adds p d s ?t" by (intro tw_adds_set tw_adds_refl)
  have dec: "tw_adds p d s (log_decision m u)" if "tw_adds p d s u" for u
    using assms [OF Some] by (intro adds_log_decision that)
  show ?thesis
    using Some t dec [OF t] adds_readVal [of ?t _ p d s] dec
    by (auto simp: waiting_recv_def Let_def split: option.split intro!: tw_adds_set)
qed (simp add: waiting_recv_def)

lemma adds_join_answer: "tw_adds p d s (handle_join_answer m a s)"
proof -
  let ?s = "if tx_msgID m = JOIN_SUCCESS
     then s\<lparr>tw_curTid := tx_tid m, tw_isTXRun := 1, tw_crashInfo := (tw_crashInfo s)\<lparr>ci_managerAddr := a\<rparr>\<rparr> else s"
  have "tw_adds p d s ?s" by (simp add: tw_adds_same)
  then show ?thesis unfolding handle_join_answer_def Let_def by (rule tw_adds_log) (simp add: worker_logs_def)
qed

lemma adds_prepare:
  assumes "wf_tw s" and "tx_msgID m = PREPARE_COMMIT" and "p (tx_tid m)"
  shows "out_all (tw_adds p d s) (handle_prepare sent m a s)"
proof -
  let ?rec = "(tw_junkRec s)\<lparr>r_msgID := tx_msgID m, r_tid := tx_tid m\<rparr>"
  let ?s = "tw_saveVectorTime (tw_tickMyClock (tw_writeRecordToLog ?rec s))"
  have wf: "wf_tw ?s" using assms(1) by (simp add: wf_tw_small wf_tw_parts)
  have s: "tw_adds p d s ?s" by (intro tw_adds_set tw_adds_log tw_adds_refl) (simp add: worker_logs_def assms(2))
  have snd: "out_all (tw_adds p d s) (seq (tw_sendMsg sent (constructTxMessage (tx_tid m) (tx_nodeId m) k ?s) a u)
      (\<lambda>t. Running ((tw_writeRecordToLog (?rec\<lparr>r_msgID := VOTE_COMMIT, r_tid := tx_tid m\<rparr>) t)
        \<lparr>tw_firstTimeWaiting := 1, tw_pc := Waiting a\<rparr>)))"
    if "tw_adds p d s u" "tw_nodeId u = tw_nodeId ?s" "k = VOTE_COMMIT \<or> k = VOTE_ABORT" for u k
  proof (rule out_all_seq)
    show "out_all (tw_adds p d s) (tw_sendMsg sent (constructTxMessage (tx_tid m) (tx_nodeId m) k ?s) a u)"
      using that sends_constructed(2) [OF wf, of k p "tx_tid m" "tx_nodeId m"] assms(3) by (intro tw_adds_send) simp_all
  next
    fix t assume "tw_adds p d s t"
    then show "out_all (tw_adds p d s) (Running ((tw_writeRecordToLog (?rec\<lparr>r_msgID := VOTE_COMMIT, r_tid := tx_tid m\<rparr>) t)
        \<lparr>tw_firstTimeWaiting := 1, tw_pc := Waiting a\<rparr>))"
      using tw_adds_log [of p d s t] by (auto simp: worker_logs_def tw_adds_set)
  qed
  let ?w = "\<lambda>k u. tw_writeEventToLog (constructTxMessage (tx_tid m) (tx_nodeId m) k ?s) True (sin_port a) u"
  have "tw_adds p d s (?w VOTE_ABORT (?s\<lparr>tw_vote := 0\<rparr>))" "tw_adds p d s (?w VOTE_COMMIT ?s)"
    by (intro tw_adds_set s)+
  from snd [OF this(1) _ disjI2 [OF refl]] snd [OF this(2) _ disjI1 [OF refl]] show ?thesis
    unfolding handle_prepare_def Let_def by (auto split: option.split)
qed

lemma adds_man_msg:
  assumes "wf_tw s" and "tx_msgID m = PREPARE_COMMIT \<Longrightarrow> p (tx_tid m)" and "d (tx_msgID m) (tx_tid m)"
  shows "out_all (tw_adds p d s) (handle_man_msg sent m a s)"
proof -
  have dec: "tw_adds p d s (log_decision m u)" if "tw_adds p d s u" for u
    using assms(3) by (intro adds_log_decision that)
  show ?thesis
    using adds_join_answer [of p d s m a] adds_prepare [OF assms(1), of m p d sent a] assms(2) dec tw_adds_refl [of p d s]
      adds_readVal [of s _ p d s]
    by (auto simp: handle_man_msg_def Let_def split: option.split)
qed

lemma adds_manager:
  assumes "wf_tw s"
    and "\<And>a buf m. mi_recv i = Some (a, buf) \<Longrightarrow> deserializeWorkerMsg (tw_host s) buf = Some m \<Longrightarrow>
      (tx_msgID m = PREPARE_COMMIT \<longrightarrow> p (tx_tid m)) \<and> d (tx_msgID m) (tx_tid m)"
  shows "out_all (tw_adds p d s) (handleManagerMsg i s)"
proof (cases "mi_recv i")
  case (Some ab)
  obtain a buf where ab: "ab = (a, buf)" by (cases ab)
  show ?thesis
  proof (cases "deserializeWorkerMsg (tw_host s) buf")
    case (Some m)
    let ?t = "tw_writeEventToLog m False (sin_port a) (tw_saveVectorTime (tw_tickMyClock (tw_mergeVectorClock m s)))"
    have t: "tw_adds p d s ?t" by (intro tw_adds_set tw_adds_refl)
    have wf: "wf_tw ?t" using assms(1) by (intro wf_tw_small)
    have "out_all (tw_adds p d ?t) (handle_man_msg (mi_sent i) m a ?t)"
      using assms(2) [OF _ Some] \<open>mi_recv i = Some ab\<close> ab by (intro adds_man_msg [OF wf]) auto
    from tw_adds_then [OF t this] show ?thesis
      using \<open>mi_recv i = Some ab\<close> ab Some by (simp add: handleManagerMsg_def Let_def)
  qed (simp add: handleManagerMsg_def \<open>mi_recv i = Some ab\<close> ab)
qed (simp add: handleManagerMsg_def tw_adds_refl)

text \<open>Commands.\<close>

lemma out_all_conj: "out_all P m \<Longrightarrow> out_all Q m \<Longrightarrow> out_all (\<lambda>s. P s \<and> Q s) m"
  by (cases m) auto

lemma adds_log_old: "tw_adds p d s t \<Longrightarrow> (\<And>r. r_msgID (f r) = r_msgID r) \<Longrightarrow>
    m_msgID c \<notin> {DECIDE_COMMIT, DECIDE_ABORT} \<Longrightarrow> tw_adds p d s (log_old c f t)"
  unfolding log_old_def Let_def by (auto simp: worker_logs_def intro!: tw_adds_log tw_adds_set)

lemma adds_finish: "tw_adds p d s t \<Longrightarrow> out_all (tw_adds p d s) (finish_update now c t)"
  by (simp add: finish_update_eq tw_adds_set)

lemma adds_new_id:
  assumes "m_msgID c = NEW_IDSTR" and "cmd_new_id now c s = Some t"
  shows "tw_adds p d s t"
proof -
  have "tw_adds p d s (log_old c (\<lambda>r. r\<lparr>r_oldID := old\<rparr>) s)" for old
    using assms(1) by (intro adds_log_old tw_adds_refl) simp_all
  then show ?thesis
    using assms(2) by (auto simp: cmd_new_id_def bind_eq_Some_conv Let_def tw_adds_refl split: if_splits intro!: tw_adds_set)
qed

lemma adds_commit:
  assumes "wf_tw s" and "m_msgID c \<in> {COMMIT, COMMIT_CRASH}"
  shows "out_all (tw_adds p d s) (cmd_commit sent crash c s)"
proof -
  let ?rec = "(tw_rec s)\<lparr>r_msgID := m_msgID c, r_tid := tw_curTid s\<rparr>"
  let ?s = "tw_saveVectorTime (tw_tickMyClock (tw_writeRecordToLog ?rec (s\<lparr>tw_isCrash := crash, tw_rec := ?rec\<rparr>)))"
  let ?m = "tw_constructMessage (c\<lparr>m_tid := tw_curTid s, m_msgID := COMMIT\<rparr>) (tw_newMsg s) 0 ?s"
  have "wf_tw (s\<lparr>tw_isCrash := crash, tw_rec := ?rec\<rparr>)" using assms(1) by (simp add: wf_tw_def)
  then have wf: "wf_tw ?s" using assms(1) by (intro wf_tw_small) (simp_all add: wf_tw_parts)
  have "tw_adds p d s (s\<lparr>tw_isCrash := crash, tw_rec := ?rec\<rparr>)" by (rule tw_adds_same) simp_all
  then have a: "tw_adds p d s ?s"
    by (rule tw_adds_set(1) [OF tw_adds_set(2) [OF tw_adds_log]]) (use assms(2) in \<open>auto simp: worker_logs_def\<close>)
  have "out_all (tw_adds p d s) (tw_sendMsg sent ?m (tw_toAddr s)
      (tw_writeEventToLog ?m True (sin_port (tw_toAddr s)) (?s\<lparr>tw_newMsg := ?m\<rparr>)))"
    using sends_constructed(3) [OF wf, of "tw_newMsg s"] assms(1)
    by (intro tw_adds_send tw_adds_set a) (simp add: wf_tw_parts)
  then show ?thesis by (simp add: cmd_commit_def Let_def)
qed

lemma adds_abort: "out_all (tw_adds p d s) (cmd_abort crash c s)"
proof (cases "readValFromRecord (s\<lparr>tw_isCrash := crash\<rparr>)")
  case (Some t)
  have "tw_adds p d s t" by (rule adds_readVal [OF Some]) (intro tw_adds_set tw_adds_refl)
  then have "tw_adds p d s (tw_writeRecordToLog r (t'\<lparr>tw_rec := r\<rparr>))"
    if "r_msgID r = ABORT" "t' = tw_saveVectorTime (tw_writeLocalEventToLog c (tw_tickMyClock t))" for r t'
    unfolding that(2) using that(1) by (intro tw_adds_log tw_adds_set) (simp_all add: worker_logs_def)
  then show ?thesis by (simp add: cmd_abort_def Some Let_def)
qed (simp add: cmd_abort_def)

lemma adds_begin_join:
  assumes "wf_tw s" and "m_msgID c \<in> {BEGINTX, JOINTX}"
  shows "out_all (tw_adds p d s) (cmd_begin_join sent h c s)"
proof (cases h)
  case (Some ha)
  let ?to = "\<lparr>sin_addr = 0, sin_port = ucast (m_port c)\<rparr>"
  let ?s = "tw_saveVectorTime (tw_tickMyClock (s\<lparr>tw_toAddr := ?to\<rparr>))"
  let ?m = "tw_constructMessage c (tw_newMsg s) 0 ?s"
  have wf: "wf_tw ?s" using assms(1) by (intro wf_tw_small wf_tw_fields)
  have "out_all (tw_adds p d s) (tw_sendMsg sent ?m ?to
      (tw_writeEventToLog ?m True (sin_port ?to) (?s\<lparr>tw_newMsg := ?m\<rparr>)))"
    using sends_constructed(3) [OF wf, of "tw_newMsg s" c p] assms
    by (intro tw_adds_send tw_adds_set tw_adds_refl) (auto simp: wf_tw_parts)
  then show ?thesis by (simp add: cmd_begin_join_def Some memcpy_host_def Let_def)
qed (simp add: cmd_begin_join_def)

lemma adds_cmd_round:
  assumes "wf_tw s"
  shows "out_all (tw_adds p d s) (cmd_round c s)"
proof -
  have A: "out_all (tw_adds p d s) (cmd_new_A now m s)" if "m_msgID m = NEW_A" for now m
    unfolding cmd_new_A_def Let_def using that by (intro adds_finish tw_adds_set adds_log_old tw_adds_refl) simp_all
  have B: "out_all (tw_adds p d s) (cmd_new_B now m s)" if "m_msgID m = NEW_B" for now m
    unfolding cmd_new_B_def Let_def using that by (intro adds_finish tw_adds_set adds_log_old tw_adds_refl) simp_all
  have C: "tw_adds p d s (cmd_crash m s)" for m unfolding cmd_crash_def by (intro tw_adds_set tw_adds_refl)
  have D: "tw_adds p d s (s\<lparr>tw_delay := x\<rparr>)" "tw_adds p d s (s\<lparr>tw_vote := x\<rparr>)" for x
    by (intro tw_adds_set tw_adds_refl)+
  have "out_all (tw_adds p d s) (handle_cmd c m s)" for m
    using A B C D adds_new_id [of m _ s _ p d] adds_commit [OF assms, of m p d] adds_abort [of p d s]
      adds_begin_join [OF assms, of m p d] tw_adds_refl [of p d s]
    by (auto simp: handle_cmd_def Let_def split: option.split)
  then show ?thesis by (simp add: cmd_round_def split: option.split)
qed

subsection \<open>One round\<close>

definition tw_receives :: "u32 \<Rightarrow> u32 \<Rightarrow> endian \<Rightarrow> tw_event \<Rightarrow> bool" where
  "tw_receives k tid h e =
     (case e of
        WReady c (Some i) \<Rightarrow>
          (case mi_recv i of
             Some (a, buf) \<Rightarrow>
               (case deserializeWorkerMsg h buf of None \<Rightarrow> False | Some m \<Rightarrow> tx_msgID m = k \<and> tx_tid m = tid)
           | None \<Rightarrow> False)
      | _ \<Rightarrow> False)"

theorem adds_step:
  assumes "wf_tw s"
  shows "out_all (tw_adds (\<lambda>tid. tw_receives PREPARE_COMMIT tid (tw_host s) e)
      (\<lambda>k tid. tw_receives k tid (tw_host s) e) s) (tw_step e s)"
    (is "out_all (tw_adds ?p ?d s) _")
proof (cases "tw_pc s")
  case (Waiting ma)
  have "out_all (tw_adds ?p ?d s) (waitingForCoordResponse e ma s)"
  proof (cases e)
    case (WReady c i)
    show ?thesis
    proof (cases i)
      case (Some mi)
      show ?thesis
      proof (cases "mi_recv mi")
        case (Some ab)
        then obtain a buf where ab: "mi_recv mi = Some (a, buf)" by (cases ab) simp
        have "out_all (tw_adds ?p ?d s) (waiting_recv a buf s)"
          by (rule adds_waiting_recv) (simp add: tw_receives_def WReady \<open>i = Some mi\<close> ab)
        then show ?thesis by (simp add: WReady \<open>i = Some mi\<close> ab)
      next
        case None
        have "tw_adds ?p ?d s (s\<lparr>tw_pc := p\<rparr>)" for p
          by (auto simp: tw_adds_def intro: exI [of _ "[]"])
        then show ?thesis by (simp add: WReady \<open>i = Some mi\<close> None tw_adds_refl split: option.split)
      qed
    qed (simp add: WReady tw_adds_refl)
  qed (simp_all add: tw_adds_refl adds_waiting_timeout [OF assms])
  then show ?thesis by (simp add: tw_step_def Waiting)
next
  case MainLoop
  have "out_all (tw_adds ?p ?d s) (handleCmdMsg e s)"
  proof (cases e)
    case (WReady c i)
    let ?P = "\<lambda>t. wf_tw t \<and> tw_adds ?p ?d s t"
    have "out_all ?P (case c of None \<Rightarrow> Running s | Some c \<Rightarrow> cmd_round c s)"
      using assms wf_cmd_round [OF assms] adds_cmd_round [OF assms, of ?p ?d]
      by (cases c) (simp_all add: tw_adds_refl out_all_conj)
    then have "out_all (tw_adds ?p ?d s) (seq (case c of None \<Rightarrow> Running s | Some c \<Rightarrow> cmd_round c s)
       (\<lambda>s. case i of None \<Rightarrow> Running s | Some m \<Rightarrow> handleManagerMsg m s))"
    proof (rule out_all_seq)
      fix t assume t: "?P t"
      then have h: "tw_host t = tw_host s" by (simp add: tw_adds_def)
      show "out_all (tw_adds ?p ?d s) (case i of None \<Rightarrow> Running t | Some m \<Rightarrow> handleManagerMsg m t)"
      proof (cases i)
        case (Some mi)
        have "out_all (tw_adds ?p ?d t) (handleManagerMsg mi t)"
        proof (rule adds_manager)
          show "wf_tw t" using t by blast
          fix a buf m
          assume "mi_recv mi = Some (a, buf)" "deserializeWorkerMsg (tw_host t) buf = Some m"
          then show "(tx_msgID m = PREPARE_COMMIT \<longrightarrow> ?p (tx_tid m)) \<and> ?d (tx_msgID m) (tx_tid m)"
            by (simp add: tw_receives_def WReady Some flip: h)
        qed
        from tw_adds_then [OF conjunct2 [OF t] this]
        have "out_all (tw_adds ?p ?d s) (handleManagerMsg mi t)" .
        then show ?thesis by (simp add: Some)
      qed (use t in simp)
    qed simp
    then show ?thesis by (simp add: WReady)
  qed (simp_all add: tw_adds_refl)
  then show ?thesis by (simp add: tw_step_def MainLoop)
qed

subsection \<open>A restart\<close>

text \<open>A restarted worker has sent nothing yet and has logged no decision.\<close>

lemma restart_adds:
  assumes "tw_boots_from b s" and "tw_main b = Running t"
  shows "tw_outbox t = [] \<and> tw_nodeId t = tw_nodeId s \<and> tw_host t = tw_host s \<and>
    (\<exists>recs. tw_log t = tw_log s @ recs \<and> list_all (worker_logs (\<lambda>k tid. False)) recs)"
proof -
  note u = restarting_fields [OF assms(1)]
  obtain k v where f: "tw_findStateFromRecord (restarting b) = Some (k, v)"
    using assms(2) by (auto simp: tw_main_restart [OF assms(1)] split: option.splits)
  then have v: "tw_outbox v = []" "tw_nodeId v = tw_nodeId s" "tw_host v = tw_host s" "tw_log v = tw_log s"
    using u by (auto simp: tw_findStateFromRecord_def bind_eq_Some_conv split: if_splits)
  show ?thesis
  proof (cases "in_doubt k")
    case True
    then have "t = v\<lparr>tw_pc := Waiting (ci_managerAddr (tw_crashInfo v))\<rparr>"
      using assms(2) f by (simp add: tw_main_restart [OF assms(1)])
    with v show ?thesis by simp
  next
    case False
    then have "recover_abort v = Running t" using assms(2) f by (simp add: tw_main_restart [OF assms(1)])
    with v show ?thesis
      by (auto simp: recover_abort_def Let_def worker_logs_def dest!: readVal_frame split: option.splits)
  qed
qed

end
