(* ===== verification/TxNetwork.thy ===== *)
theory TxNetwork
  imports TxSystem TWorkerEffect
begin

text \<open>
  The transaction system as a whole: one manager, any number of workers, their clients and the
  network between them, as a step relation.  The network loses, repeats, reorders and misdelivers
  datagrams but neither alters nor invents them; every process may exit, die between two rounds and
  be started again on its files.  The theory states which decisions the workers of one transaction
  can log.
\<close>

subsection \<open>States and steps\<close>

datatype tw_node = WUp tw_state | WDown tw_state

fun wnode_state :: "tw_node \<Rightarrow> tw_state" where
  "wnode_state (WUp s) = s"
| "wnode_state (WDown s) = s"

type_synonym tx_net = "(sockaddr_in \<times> u8 list) set"

record tx_sys =
  sy_tm :: tm_node
  sy_tw :: "tw_node list"
  sy_net :: tx_net

abbreviation sy_mgr :: "tx_sys \<Rightarrow> tm_state" where
  "sy_mgr S \<equiv> node_state (sy_tm S)"

text \<open>A receive buffer starts with a datagram that some process has sent; what is behind it is left over.\<close>

definition delivered :: "tx_net \<Rightarrow> u8 list \<Rightarrow> bool" where
  "delivered N buf \<longleftrightarrow> (\<exists>(dst, bytes) \<in> N. prefix bytes buf)"

fun tm_fed :: "tx_net \<Rightarrow> tm_event \<Rightarrow> bool" where
  "tm_fed N (Received a buf c) = delivered N buf"
| "tm_fed N e = True"

fun tw_fed :: "tx_net \<Rightarrow> tw_event \<Rightarrow> bool" where
  "tw_fed N (WReady c (Some i)) = (case mi_recv i of None \<Rightarrow> True | Some (a, buf) \<Rightarrow> delivered N buf)"
| "tw_fed N e = True"

fun after_tm :: "tm_state outcome \<Rightarrow> tm_node option" where
  "after_tm (Running t) = Some (Up t)"
| "after_tm (Exited t) = Some (Down t)"
| "after_tm Undefined = None"

fun after_tw :: "tw_state outcome \<Rightarrow> tw_node option" where
  "after_tw (Running t) = Some (WUp t)"
| "after_tw (Exited t) = Some (WDown t)"
| "after_tw Undefined = None"

definition put_tm :: "tm_node \<Rightarrow> tx_sys \<Rightarrow> tx_sys" where
  "put_tm n S = S\<lparr>sy_tm := n, sy_net := sy_net S \<union> set (tm_outbox (node_state n))\<rparr>"

definition put_tw :: "nat \<Rightarrow> tw_node \<Rightarrow> tx_sys \<Rightarrow> tx_sys" where
  "put_tw i n S = S\<lparr>sy_tw := (sy_tw S)[i := n], sy_net := sy_net S \<union> set (tw_outbox (wnode_state n))\<rparr>"

text \<open>The parameters say which events the manager may get and when it may be started again.\<close>

inductive tx_step :: "(tm_event \<Rightarrow> tm_state \<Rightarrow> bool) \<Rightarrow> (tm_state \<Rightarrow> bool) \<Rightarrow> tx_sys \<Rightarrow> tx_sys \<Rightarrow> bool"
  for ok again where
  tm_round: "sy_tm S = Up s \<Longrightarrow> tm_fed (sy_net S) e \<Longrightarrow> ok e s \<Longrightarrow> after_tm (handleWorkerMsg e s) = Some n \<Longrightarrow>
    tx_step ok again S (put_tm n S)"
| tm_dies: "sy_tm S = Up s \<Longrightarrow> tx_step ok again S (put_tm (Down s) S)"
| tm_again: "sy_tm S = Down s \<Longrightarrow> again s \<Longrightarrow> boots_from b s \<Longrightarrow> wf_txMessage (b_newMsg b) \<Longrightarrow> tm_main b = Running t \<Longrightarrow>
    tx_step ok again S (put_tm (Up t) S)"
| tw_round: "i < length (sy_tw S) \<Longrightarrow> sy_tw S ! i = WUp s \<Longrightarrow> tw_fed (sy_net S) e \<Longrightarrow>
    after_tw (TWorkerLoop.tw_step e s) = Some n \<Longrightarrow> tx_step ok again S (put_tw i n S)"
| tw_dies: "i < length (sy_tw S) \<Longrightarrow> sy_tw S ! i = WUp s \<Longrightarrow> tx_step ok again S (put_tw i (WDown s) S)"
| tw_again: "i < length (sy_tw S) \<Longrightarrow> sy_tw S ! i = WDown s \<Longrightarrow> tw_boots_from b s \<Longrightarrow> wf_reboot b \<Longrightarrow>
    tw_main b = Running t \<Longrightarrow> tx_step ok again S (put_tw i (WUp t) S)"

inductive_cases tx_stepE: "tx_step ok again S S'"

abbreviation tx_run :: "(tm_event \<Rightarrow> tm_state \<Rightarrow> bool) \<Rightarrow> (tm_state \<Rightarrow> bool) \<Rightarrow> tx_sys \<Rightarrow> tx_sys \<Rightarrow> bool" where
  "tx_run ok again \<equiv> (tx_step ok again)\<^sup>*\<^sup>*"

text \<open>All processes have been started for the first time and nothing has been sent.\<close>

definition tm_fresh :: "tm_state \<Rightarrow> bool" where
  "tm_fresh s \<longleftrightarrow> (\<exists>b. wf_boot b \<and> b_file b = None \<and> b_fileExist b = 0 \<and> tm_main b = Running s)"

definition tw_fresh :: "tw_state \<Rightarrow> bool" where
  "tw_fresh s \<longleftrightarrow> (\<exists>b. wf_tw_boot b \<and> wb_port b \<noteq> 0 \<and> wb_file b = None \<and> tw_main b = Running s)"

definition tx_init :: "tx_sys \<Rightarrow> bool" where
  "tx_init S \<longleftrightarrow> (\<exists>s. sy_tm S = Up s \<and> tm_fresh s) \<and>
     list_all (\<lambda>n. \<exists>s. n = WUp s \<and> tw_fresh s) (sy_tw S) \<and> sy_net S = {}"

text \<open>What a worker has logged about a transaction.\<close>

definition tw_logged :: "u32 \<Rightarrow> u32 \<Rightarrow> tw_state \<Rightarrow> bool" where
  "tw_logged k tid s \<longleftrightarrow> (\<exists>r \<in> set (tw_log s). r_msgID r = k \<and> r_tid r = tid)"

subsection \<open>The invariant\<close>

definition net_ok :: "u32 \<Rightarrow> tm_state \<Rightarrow> txMessage \<Rightarrow> bool" where
  "net_ok tid s m \<longleftrightarrow> wf_txMessage m \<and> (tx_msgID m = JOINTX \<longrightarrow> tx_nodeId m \<noteq> 0) \<and>
     (tx_tid m = tid \<longrightarrow>
        (tx_msgID m = DECIDE_COMMIT \<longrightarrow> committed tid s \<and> tid \<notin> tids s) \<and>
        (tx_msgID m = DECIDE_ABORT \<longrightarrow> \<not> committed tid s \<and> tid \<notin> tids s \<and> decided tid s) \<and>
        (tx_msgID m \<in> {PREPARE_COMMIT, VOTE_COMMIT, VOTE_ABORT} \<longrightarrow> has_port tid s \<or> decided tid s))"

definition tm_part :: "u32 \<Rightarrow> tx_net \<Rightarrow> tm_state \<Rightarrow> bool" where
  "tm_part tid N s \<longleftrightarrow> tx_inv tid s \<and> set (tm_outbox s) \<subseteq> N \<and>
     (\<forall>(dst, bytes) \<in> N. \<exists>m. bytes = txBytes m \<and> net_ok tid s m)"

definition tw_part :: "u32 \<Rightarrow> tx_net \<Rightarrow> tw_state \<Rightarrow> bool" where
  "tw_part tid N s \<longleftrightarrow> wf_tw s \<and> tw_nodeId s \<noteq> 0 \<and> set (tw_outbox s) \<subseteq> N \<and>
     (\<forall>k \<in> {DECIDE_COMMIT, DECIDE_ABORT}. tw_logged k tid s \<longrightarrow>
        (\<exists>(dst, bytes) \<in> N. \<exists>m. wf_txMessage m \<and> bytes = txBytes m \<and> tx_msgID m = k \<and> tx_tid m = tid))"

definition sys_inv :: "u32 \<Rightarrow> tx_sys \<Rightarrow> bool" where
  "sys_inv tid S \<longleftrightarrow> tm_part tid (sy_net S) (sy_mgr S) \<and>
     (\<forall>n \<in> set (sy_tw S). tw_part tid (sy_net S) (wnode_state n))"

lemma tw_part_mono: "tw_part tid N s \<Longrightarrow> N \<subseteq> N' \<Longrightarrow> tw_part tid N' s"
  unfolding tw_part_def by blast

lemma delivered_msg:
  assumes "delivered N buf" and "\<forall>(dst, bytes) \<in> N. \<exists>m. bytes = txBytes m \<and> net_ok tid s m"
  shows "\<exists>m dst. (dst, txBytes m) \<in> N \<and> net_ok tid s m \<and> deserializeWorkerMsg h buf = Some m"
proof -
  from assms(1) obtain dst bytes rest where b: "(dst, bytes) \<in> N" "buf = bytes @ rest"
    by (auto simp: delivered_def prefix_def)
  with assms(2) obtain m where m: "bytes = txBytes m" "net_ok tid s m" by blast
  then have "deserializeWorkerMsg h buf = Some m"
    using b(2) by (simp add: net_ok_def deserializeWorkerMsg_txBytes)
  with b(1) m show ?thesis by blast
qed

text \<open>The conditions under which the agreement below holds.\<close>

definition one_life :: "u32 \<Rightarrow> tm_event \<Rightarrow> tm_state \<Rightarrow> bool" where
  "one_life tid e s \<longleftrightarrow>
     (tm_receives POLL_DECISION tid (tm_host s) e \<longrightarrow> tid \<notin> tids s \<and> decided tid s) \<and>
     (tm_receives BEGINTX tid (tm_host s) e \<longrightarrow> tid \<notin> tids s \<and> \<not> decided tid s)"

definition settled_restart :: "u32 \<Rightarrow> tm_state \<Rightarrow> bool" where
  "settled_restart tid s \<longleftrightarrow> tid \<notin> tids s"

subsection \<open>The manager's part\<close>

definition tx_trans :: "u32 \<Rightarrow> tm_state \<Rightarrow> tm_state \<Rightarrow> bool" where
  "tx_trans tid s t \<longleftrightarrow> (decided tid s \<longrightarrow> decided tid t) \<and> (committed tid s \<longrightarrow> committed tid t) \<and>
     (committed tid t \<and> tid \<notin> tids s \<longrightarrow> committed tid s) \<and> (tid \<notin> tids s \<and> decided tid s \<longrightarrow> tid \<notin> tids t) \<and>
     (has_port tid s \<longrightarrow> has_port tid t \<or> decided tid t)"

lemma net_ok_trans: "net_ok tid s m \<Longrightarrow> tx_trans tid s t \<Longrightarrow> net_ok tid t m"
  using committed_decided [of tid s] unfolding net_ok_def tx_trans_def by blast

lemma tx_trans_same: "tm_log t = tm_log s \<Longrightarrow> tm_rows t = tm_rows s \<Longrightarrow> tx_trans tid s t"
  by (simp add: tx_trans_def decided_def committed_def tids_def has_port_def)

lemma decided_mono: "log_le s t \<Longrightarrow> decided tid s \<Longrightarrow> decided tid t"
  by (auto simp: log_le_def decided_def prefix_def)

text \<open>The outcome of an event as a node.\<close>

lemma after_tm_all: "after_tm r = Some n \<Longrightarrow> out_all P r \<Longrightarrow> P (node_state n)"
  by (cases r) auto

lemma after_tw_all: "after_tw r = Some n \<Longrightarrow> out_all P r \<Longrightarrow> P (wnode_state n)"
  by (cases r) auto

lemma fed_event_ok:
  assumes "tm_fed N e" and "tm_part tid N s" and "one_life tid e s"
  shows "event_ok tid s e"
proof (cases e)
  case (Received a buf c)
  have net: "\<forall>(dst, bytes) \<in> N. \<exists>m. bytes = txBytes m \<and> net_ok tid s m" and inv: "tx_inv tid s"
    using assms(2) by (simp_all add: tm_part_def)
  have "delivered N buf" using assms(1) Received by simp
  from delivered_msg [OF this net, of "tm_host s"] obtain m where
    m: "net_ok tid s m" "deserializeWorkerMsg (tm_host s) buf = Some m" by blast
  have "msg_ok tid s m"
    using m assms(3) inv
    by (auto simp: msg_ok_def net_ok_def one_life_def tm_receives_def Received tx_inv_def)
  then show ?thesis using m(2) by (simp add: event_ok_def Received)
qed (simp_all add: event_ok_def)

lemma fed_voted:
  assumes "tm_fed N e" and "tm_part tid N s" and "one_life tid e s" and "tm_asked tid (tm_host s) e"
  shows "has_port tid s \<or> decided tid s"
proof (cases e)
  case (Received a buf c)
  have net: "\<forall>(dst, bytes) \<in> N. \<exists>m. bytes = txBytes m \<and> net_ok tid s m" using assms(2) by (simp add: tm_part_def)
  have "delivered N buf" using assms(1) Received by simp
  from delivered_msg [OF this net, of "tm_host s"] obtain m where
    m: "net_ok tid s m" "deserializeWorkerMsg (tm_host s) buf = Some m" by blast
  then show ?thesis using assms(3,4) by (auto simp: net_ok_def tm_asked_def one_life_def tm_receives_def Received)
qed (use assms(4) in \<open>simp_all add: tm_asked_def tm_receives_def\<close>)

lemma tm_event_trans:
  assumes "tx_inv tid s" and "tid \<noteq> 0" and "event_ok tid s e" and "one_life tid e s"
    and "after_tm (handleWorkerMsg e s) = Some n"
  shows "tx_trans tid s (node_state n)"
proof -
  let ?t = "node_state n"
  have eff: "effect tid (tm_asked tid (tm_host s) e) s ?t"
    by (rule after_tm_all [OF assms(5) effect_event [OF assms(1-3)]])
  have le: "log_le s ?t" by (rule after_tm_all [OF assms(5) tm_growing.step_le])
  have com: "committed tid ?t \<longrightarrow> committed tid s \<or> commit_vote tid e s"
    by (rule after_tm_all [OF assms(5) commit_step])
  have out: "tid \<notin> tids ?t" if "tid \<notin> tids s" "decided tid s"
  proof -
    have "\<not> begins tid e s" using assms(4) that(2) by (simp add: one_life_def begins_receives)
    from after_tm_all [OF assms(5) tids_step [OF this assms(2) that(1)]] show ?thesis .
  qed
  show ?thesis
    using eff decided_mono [OF le] committed_mono [OF le] com commit_vote_row [of tid e s] out has_port_tids [of tid s]
    unfolding tx_trans_def effect_def by blast
qed

lemma tm_part_event:
  assumes "tm_part tid N s" and "tid \<noteq> 0" and "tm_fed N e" and "one_life tid e s"
    and "after_tm (handleWorkerMsg e s) = Some n"
  shows "tm_part tid (N \<union> set (tm_outbox (node_state n))) (node_state n)"
proof -
  let ?t = "node_state n"
  have inv: "tx_inv tid s" and old: "set (tm_outbox s) \<subseteq> N" using assms(1) by (simp_all add: tm_part_def)
  have ok: "event_ok tid s e" by (rule fed_event_ok [OF assms(3,1,4)])
  have trans: "tx_trans tid s ?t" by (rule tm_event_trans [OF inv assms(2) ok assms(4,5)])
  have inv': "tx_inv tid ?t" by (rule after_tm_all [OF assms(5) tx_inv_event [OF inv assms(2) ok]])
  have eff: "effect tid (tm_asked tid (tm_host s) e) s ?t"
    by (rule after_tm_all [OF assms(5) effect_event [OF inv assms(2) ok]])
  then obtain out where out: "tm_outbox ?t = tm_outbox s @ map (apsnd txBytes) out"
    "\<forall>(a, m) \<in> set out. out_ok tid (tm_asked tid (tm_host s) e) s ?t m"
    by (auto simp: effect_def)
  have new: "net_ok tid ?t m" if "(a, m) \<in> set out" for a m
  proof -
    have o: "out_ok tid (tm_asked tid (tm_host s) e) s ?t m" using out(2) that by blast
    have "tid \<in> tids s \<or> has_port tid s \<or> decided tid s"
      if "tx_msgID m = DECIDE_ABORT" "tx_tid m = tid"
      using o that fed_voted [OF assms(3,1,4)] by (auto simp: out_ok_def)
    then have "decided tid ?t" if "tx_msgID m = DECIDE_ABORT" "tx_tid m = tid"
      using o that eff trans has_port_tids [of tid s] by (auto simp: out_ok_def effect_def tx_trans_def)
    then show ?thesis using o by (auto simp: net_ok_def out_ok_def manager_kinds_def)
  qed
  have "\<exists>m. bytes = txBytes m \<and> net_ok tid ?t m" if "(dst, bytes) \<in> N \<union> set (tm_outbox ?t)" for dst bytes
  proof (cases "(dst, bytes) \<in> N")
    case True
    then show ?thesis using assms(1) net_ok_trans [OF _ trans] unfolding tm_part_def by blast
  next
    case False
    with that old out(1) obtain m where "(dst, m) \<in> set out" "bytes = txBytes m" by auto
    then show ?thesis using new by blast
  qed
  with inv' show ?thesis by (auto simp: tm_part_def)
qed

lemma tm_part_restart:
  assumes "tm_part tid N s" and "tid \<notin> tids s" and "boots_from b s" and "wf_txMessage (b_newMsg b)" and "tm_main b = Running t"
  shows "tm_part tid (N \<union> set (tm_outbox t)) t"
proof -
  have inv: "tx_inv tid s" using assms(1) by (simp add: tm_part_def)
  have t: "tm_log t = tm_log s" "tm_rows t = tm_rows s" using restart_state [OF assms(3,5)] by simp_all
  have trans: "tx_trans tid s t" by (rule tx_trans_same [OF t])
  have "wf_tm s" using inv by (simp add: tx_inv_def tm_ok_def)
  from restart_sends [OF assms(3,5) this assms(4)] obtain out where out: "wf_tm t" "tm_outbox t = map (apsnd txBytes) out"
    "\<forall>(a, m) \<in> set out. wf_txMessage m \<and> tx_msgID m = DECIDE_ABORT \<and> tx_tid m \<in> tids s" by blast
  have new: "net_ok tid t m" if "(a, m) \<in> set out" for a m
    using out(3) that assms(2) by (auto simp: net_ok_def)
  have "tx_inv tid t" using inv out(1) t by (simp add: tx_inv_def tm_ok_def rows_of_def tids_def decided_def)
  moreover have "\<exists>m. bytes = txBytes m \<and> net_ok tid t m" if "(dst, bytes) \<in> N \<union> set (tm_outbox t)" for dst bytes
  proof (cases "(dst, bytes) \<in> N")
    case True
    then show ?thesis using assms(1) net_ok_trans [OF _ trans] unfolding tm_part_def by blast
  next
    case False
    with that out(2) obtain m where "(dst, m) \<in> set out" "bytes = txBytes m" by auto
    then show ?thesis using new by blast
  qed
  ultimately show ?thesis by (auto simp: tm_part_def)
qed

subsection \<open>A worker's part\<close>

lemma fed_worker:
  assumes "tw_fed N e" and "\<forall>(dst, bytes) \<in> N. \<exists>m. bytes = txBytes m \<and> net_ok tid M m" and "tw_receives k x h e"
  shows "\<exists>m dst. (dst, txBytes m) \<in> N \<and> net_ok tid M m \<and> tx_msgID m = k \<and> tx_tid m = x"
proof -
  from assms(3) obtain c i a buf m where e: "e = WReady c (Some i)" "mi_recv i = Some (a, buf)"
    "deserializeWorkerMsg h buf = Some m" "tx_msgID m = k" "tx_tid m = x"
    by (auto simp: tw_receives_def split: tw_event.splits option.splits)
  then have "delivered N buf" using assms(1) by simp
  from delivered_msg [OF this assms(2), of h] e show ?thesis by auto
qed

lemma tw_part_event:
  assumes "tw_part tid N s" and "tm_part tid N M" and "tw_fed N e" and "after_tw (TWorkerLoop.tw_step e s) = Some n"
  shows "tw_part tid (N \<union> set (tw_outbox (wnode_state n))) (wnode_state n) \<and>
    tm_part tid (N \<union> set (tw_outbox (wnode_state n))) M"
proof -
  let ?t = "wnode_state n" and ?N = "N \<union> set (tw_outbox (wnode_state n))"
  have s: "wf_tw s" "tw_nodeId s \<noteq> 0" "set (tw_outbox s) \<subseteq> N" using assms(1) by (simp_all add: tw_part_def)
  have net: "\<forall>(dst, bytes) \<in> N. \<exists>m. bytes = txBytes m \<and> net_ok tid M m" using assms(2) by (simp add: tm_part_def)
  note got = fed_worker [OF assms(3) net]
  have wf: "wf_tw ?t" by (rule after_tw_all [OF assms(4) tw_machine.step_inv [OF s(1)]])
  from after_tw_all [OF assms(4) adds_step [OF s(1)]] obtain out recs where
    t: "tw_nodeId ?t = tw_nodeId s" "tw_outbox ?t = tw_outbox s @ map (apsnd txBytes) out"
      "\<forall>(a, m) \<in> set out. worker_sends (tw_nodeId s) (\<lambda>x. tw_receives PREPARE_COMMIT x (tw_host s) e) m"
      "tw_log ?t = tw_log s @ recs" "list_all (worker_logs (\<lambda>k x. tw_receives k x (tw_host s) e)) recs"
    unfolding tw_adds_def by blast
  have new: "net_ok tid M m" if "(a, m) \<in> set out" for a m
  proof -
    have w: "worker_sends (tw_nodeId s) (\<lambda>x. tw_receives PREPARE_COMMIT x (tw_host s) e) m" using t(3) that by blast
    have "has_port tid M \<or> decided tid M" if "tw_receives PREPARE_COMMIT tid (tw_host s) e"
      using got [OF that] by (auto simp: net_ok_def)
    then show ?thesis using w s(2) by (auto simp: net_ok_def worker_sends_def)
  qed
  have all: "\<exists>m. bytes = txBytes m \<and> net_ok tid M m" if "(dst, bytes) \<in> ?N" for dst bytes
  proof (cases "(dst, bytes) \<in> N")
    case True
    then show ?thesis using net by blast
  next
    case False
    with that s(3) t(2) obtain m where "(dst, m) \<in> set out" "bytes = txBytes m" by auto
    then show ?thesis using new by blast
  qed
  have tm: "tm_part tid ?N M" using assms(2) all by (auto simp: tm_part_def)
  have "\<exists>(dst, bytes) \<in> ?N. \<exists>m. wf_txMessage m \<and> bytes = txBytes m \<and> tx_msgID m = k \<and> tx_tid m = tid"
    if k: "k \<in> {DECIDE_COMMIT, DECIDE_ABORT}" and l: "tw_logged k tid ?t" for k
  proof (cases "tw_logged k tid s")
    case True
    then show ?thesis using assms(1) k unfolding tw_part_def by blast
  next
    case False
    with l t(4) obtain r where r: "r \<in> set recs" "r_msgID r = k" "r_tid r = tid" by (auto simp: tw_logged_def)
    then have "tw_receives k tid (tw_host s) e" using t(5) k by (auto simp: list_all_iff worker_logs_def)
    from got [OF this] show ?thesis by (auto simp: net_ok_def)
  qed
  then have "tw_part tid ?N ?t" using wf s(2) t(1) by (simp add: tw_part_def)
  with tm show ?thesis by blast
qed

lemma tw_part_restart:
  assumes "tw_part tid N s" and "tw_boots_from b s" and "wf_reboot b" and "tw_main b = Running t"
  shows "tw_part tid N t \<and> tw_outbox t = []"
proof -
  have "wf_tw t" using wf_tw_restarted [OF assms(2) _ assms(3)] assms(1,4) by (auto simp: tw_part_def)
  moreover have "tw_logged k tid t \<longrightarrow> tw_logged k tid s" if "k \<in> {DECIDE_COMMIT, DECIDE_ABORT}" for k
    using restart_adds [OF assms(2,4)] that by (auto simp: tw_logged_def list_all_iff worker_logs_def)
  ultimately show ?thesis using restart_adds [OF assms(2,4)] assms(1) unfolding tw_part_def by auto
qed

subsection \<open>The whole system\<close>

lemma sys_inv_step:
  assumes "tx_step (one_life tid) (settled_restart tid) S S'" and "sys_inv tid S" and "tid \<noteq> 0"
  shows "sys_inv tid S'"
proof -
  have M: "tm_part tid (sy_net S) (sy_mgr S)" and W: "\<And>n. n \<in> set (sy_tw S) \<Longrightarrow> tw_part tid (sy_net S) (wnode_state n)"
    using assms(2) by (simp_all add: sys_inv_def)
  have tm: "sys_inv tid (put_tm n S)" if "tm_part tid (sy_net S \<union> set (tm_outbox (node_state n))) (node_state n)" for n
    using that W tw_part_mono by (fastforce simp: sys_inv_def put_tm_def)
  have tw: "sys_inv tid (put_tw i n S)"
    if "tw_part tid (sy_net S \<union> set (tw_outbox (wnode_state n))) (wnode_state n)"
      "tm_part tid (sy_net S \<union> set (tw_outbox (wnode_state n))) (sy_mgr S)" for i n
    using that W set_update_subset_insert [of "sy_tw S" i n]
      tw_part_mono [of tid "sy_net S" _ "sy_net S \<union> set (tw_outbox (wnode_state n))"]
    by (auto simp: sys_inv_def put_tw_def)
  show ?thesis using assms(1)
  proof cases
    case (tm_round s e n)
    then show ?thesis using tm_part_event [of tid "sy_net S" s e n] M assms(3) by (auto intro: tm)
  next
    case (tm_dies s)
    then show ?thesis using M by (auto intro!: tm simp: tm_part_def Un_absorb2)
  next
    case (tm_again s b t)
    then show ?thesis using tm_part_restart [of tid "sy_net S" s b t] M by (auto simp: settled_restart_def intro!: tm)
  next
    case (tw_round i s e n)
    have "WUp s \<in> set (sy_tw S)" using tw_round by (metis nth_mem)
    from W [OF this] have "tw_part tid (sy_net S) s" by simp
    from tw_part_event [OF this M tw_round(4,5)] show ?thesis using tw_round(1) by (auto intro: tw)
  next
    case (tw_dies i s)
    have "WUp s \<in> set (sy_tw S)" using tw_dies by (metis nth_mem)
    from W [OF this] have "tw_part tid (sy_net S) s" by simp
    then have "sy_net S \<union> set (tw_outbox s) = sy_net S" "tw_part tid (sy_net S) s" by (auto simp: tw_part_def)
    then show ?thesis using M tw_dies(1) by (auto intro!: tw)
  next
    case (tw_again i s b t)
    have "WDown s \<in> set (sy_tw S)" using tw_again by (metis nth_mem)
    from W [OF this] have "tw_part tid (sy_net S) s" by simp
    from tw_part_restart [OF this tw_again(4-6)] show ?thesis using M tw_again(1) by (auto intro!: tw)
  qed
qed

lemma fresh_rows:
  assumes "tm_fresh s"
  shows "wf_tm s" "tm_log s = []" "tm_outbox s = []" "\<forall>i \<in> set (tm_rows s). \<exists>j. i = init_row j"
proof -
  obtain b where b: "wf_boot b" "b_file b = None" "b_fileExist b = 0" "tm_main b = Running s"
    using assms by (auto simp: tm_fresh_def)
  then have s: "s = TManagerLoop.tm_first_start (boot_state b)" by (simp add: tm_main_def Let_def)
  show "wf_tm s" unfolding s by (rule wf_first_start [OF b(1,2)])
  show "tm_log s = []" "tm_outbox s = []" "\<forall>i \<in> set (tm_rows s). \<exists>j. i = init_row j"
    using b(2) by (auto simp: s TManagerLoop.tm_first_start_def boot_state_def Let_def set_rows_def saveVectorTime_def)
qed

lemma fresh_tm_part:
  assumes "tm_fresh s" and "tid \<noteq> 0"
  shows "tm_part tid {} s"
proof -
  note f = fresh_rows [OF assms(1)]
  have "row_ok (init_row j)" for j by (auto simp: row_ok_def init_row_def clean_worker_def)
  then have "list_all row_ok (tm_rows s)" using f(4) by (fastforce simp: list_all_iff)
  moreover have "rows_of tid s = []" using f(4) assms(2) by (auto simp: rows_of_def filter_empty_conv init_row_def)
  ultimately show ?thesis using f(1-3) by (simp add: tm_part_def tx_inv_def tm_ok_def tids_rows_of)
qed

lemma fresh_tw_part:
  assumes "tw_fresh s"
  shows "tw_part tid {} s"
proof -
  obtain b where b: "wf_tw_boot b" "wb_port b \<noteq> 0" "wb_file b = None" "tw_main b = Running s"
    using assms by (auto simp: tw_fresh_def)
  have "wf_tw s" using wf_tw_main [OF b(1)] b(4) by simp
  moreover have "s = TWorkerLoop.tw_first_start (wb_now b) (savePort (wb_sysport b) (tw_boot_state b))"
    using b by (simp add: tw_main_def wf_tw_boot_def Let_def)
  then have "tw_log s = []" "tw_outbox s = []" "tw_nodeId s \<noteq> 0"
    using b(2,3) by (simp_all add: TWorkerLoop.tw_first_start_def savePort_def tw_boot_state_def Let_def wf_tw_boot_def)
  ultimately show ?thesis by (simp add: tw_part_def tw_logged_def)
qed

lemma sys_inv_init: "tx_init S \<Longrightarrow> tid \<noteq> 0 \<Longrightarrow> sys_inv tid S"
  using fresh_tm_part fresh_tw_part by (fastforce simp: tx_init_def sys_inv_def list_all_iff)

lemma sys_inv_run:
  assumes "tx_run (one_life tid) (settled_restart tid) S S'" and "tx_init S" and "tid \<noteq> 0"
  shows "sys_inv tid S'"
  using assms(1)
proof (induction rule: rtranclp_induct)
  case base
  show ?case by (rule sys_inv_init [OF assms(2,3)])
next
  case (step T U)
  show ?case by (rule sys_inv_step [OF step.hyps(2) step.IH assms(3)])
qed

lemma txBytes_inject: "wf_txMessage m \<Longrightarrow> wf_txMessage m' \<Longrightarrow> txBytes m = txBytes m' \<Longrightarrow> m = m'"
  using deserializeWorkerMsg_txBytes [of m Little "[]"] deserializeWorkerMsg_txBytes [of m' Little "[]"] by simp

lemma logged_net:
  assumes "sys_inv tid S" and "n \<in> set (sy_tw S)" and "tw_logged k tid (wnode_state n)" and "k \<in> {DECIDE_COMMIT, DECIDE_ABORT}"
  shows "\<exists>m. net_ok tid (sy_mgr S) m \<and> tx_msgID m = k \<and> tx_tid m = tid"
proof -
  from assms obtain dst m where m: "(dst, txBytes m) \<in> sy_net S" "wf_txMessage m" "tx_msgID m = k" "tx_tid m = tid"
    unfolding sys_inv_def tw_part_def by blast
  with assms(1) obtain m' where "txBytes m = txBytes m'" "net_ok tid (sy_mgr S) m'"
    unfolding sys_inv_def tm_part_def by blast
  with m txBytes_inject [of m m'] show ?thesis by (auto simp: net_ok_def)
qed

text \<open>The decisions that the workers have logged.\<close>

lemma agreement:
  assumes "tx_init S0" and "tx_run (one_life tid) (settled_restart tid) S0 S" and "tid \<noteq> 0"
    and "n \<in> set (sy_tw S)" and "n' \<in> set (sy_tw S)"
  shows "(tw_logged DECIDE_COMMIT tid (wnode_state n) \<longrightarrow> committed tid (sy_mgr S) \<and> tid \<notin> tids (sy_mgr S)) \<and>
    (tw_logged DECIDE_ABORT tid (wnode_state n') \<longrightarrow> decided tid (sy_mgr S) \<and> \<not> committed tid (sy_mgr S)) \<and>
    \<not> (tw_logged DECIDE_COMMIT tid (wnode_state n) \<and> tw_logged DECIDE_ABORT tid (wnode_state n'))"
proof -
  have inv: "sys_inv tid S" by (rule sys_inv_run [OF assms(2,1,3)])
  have "committed tid (sy_mgr S) \<and> tid \<notin> tids (sy_mgr S)" if "tw_logged DECIDE_COMMIT tid (wnode_state n)"
    using logged_net [OF inv assms(4) that] by (auto simp: net_ok_def)
  moreover have "decided tid (sy_mgr S) \<and> \<not> committed tid (sy_mgr S)" if "tw_logged DECIDE_ABORT tid (wnode_state n')"
    using logged_net [OF inv assms(5) that] by (auto simp: net_ok_def)
  ultimately show ?thesis by blast
qed

end
