(* ===== verification/TxReach.thy ===== *)
theory TxReach
  imports TxNetwork TManagerOps TManagerVotes
begin

text \<open>
  The other direction of the agreement: the commit can be reached.  From every initial state with a
  worker in it the protocol can be played to the end, step by step over the network.
\<close>

subsection \<open>Playing one worker against the manager\<close>

text \<open>The two processes are up and everything they have sent is on the network.\<close>

definition playing :: "u32 \<Rightarrow> tx_sys \<Rightarrow> nat \<Rightarrow> tm_state \<Rightarrow> tw_state \<Rightarrow> bool" where
  "playing tid S0 i ms s \<longleftrightarrow>
     (\<exists>S. tx_run (one_life tid) (settled_restart tid) S0 S \<and> i < length (sy_tw S) \<and> sy_tm S = Up ms \<and> sy_tw S ! i = WUp s \<and>
        set (tm_outbox ms) \<subseteq> sy_net S \<and> set (tw_outbox s) \<subseteq> sy_net S)"

lemma worker_moves:
  assumes "playing tid S0 i ms s" and "\<And>N. set (tm_outbox ms) \<subseteq> N \<Longrightarrow> tw_fed N e"
    and "TWorkerLoop.tw_step e s = Running t"
  shows "playing tid S0 i ms t"
proof -
  from assms(1) obtain S where S: "tx_run (one_life tid) (settled_restart tid) S0 S" "i < length (sy_tw S)" "sy_tm S = Up ms"
    "sy_tw S ! i = WUp s" "set (tm_outbox ms) \<subseteq> sy_net S" by (auto simp: playing_def)
  have "tx_step (one_life tid) (settled_restart tid) S (put_tw i (WUp t) S)"
    by (rule tx_step.tw_round [OF S(2,4) assms(2) [OF S(5)]]) (simp add: assms(3))
  with S(1) have "tx_run (one_life tid) (settled_restart tid) S0 (put_tw i (WUp t) S)" by (rule rtranclp.rtrancl_into_rtrancl)
  then show ?thesis unfolding playing_def
    by (rule exI [of _ "put_tw i (WUp t) S", OF conjI]) (use S in \<open>auto simp: put_tw_def\<close>)
qed

lemma manager_moves:
  assumes "playing tid S0 i ms s" and "\<And>N. set (tw_outbox s) \<subseteq> N \<Longrightarrow> tm_fed N e" and "one_life tid e ms"
    and "handleWorkerMsg e ms = Running mt"
  shows "playing tid S0 i mt s"
proof -
  from assms(1) obtain S where S: "tx_run (one_life tid) (settled_restart tid) S0 S" "i < length (sy_tw S)" "sy_tm S = Up ms"
    "sy_tw S ! i = WUp s" "set (tw_outbox s) \<subseteq> sy_net S" by (auto simp: playing_def)
  have "tx_step (one_life tid) (settled_restart tid) S (put_tm (Up mt) S)"
  proof (rule tx_step.tm_round)
    show "tm_fed (sy_net S) e" by (rule assms(2) [OF S(5)])
    show "one_life tid e ms" by (rule assms(3))
  qed (simp_all add: S(3) assms(4))
  with S(1) have "tx_run (one_life tid) (settled_restart tid) S0 (put_tm (Up mt) S)" by (rule rtranclp.rtrancl_into_rtrancl)
  then show ?thesis unfolding playing_def
    by (rule exI [of _ "put_tm (Up mt) S", OF conjI]) (use S in \<open>auto simp: put_tm_def\<close>)
qed

lemma manager_gets:
  assumes "playing tid S0 i ms s" and "(dst, txBytes m) \<in> set (tw_outbox s)" and "wf_txMessage m"
    and "tx_msgID m \<noteq> POLL_DECISION" and "tx_msgID m = BEGINTX \<longrightarrow> tid \<notin> tids ms \<and> \<not> decided tid ms"
    and "handleWorkerMsg (Received a (txBytes m @ []) c) ms = Running mt"
  shows "playing tid S0 i mt s"
proof (rule manager_moves [OF assms(1) _ _ assms(6)])
  fix N assume "set (tw_outbox s) \<subseteq> N"
  then show "tm_fed N (Received a (txBytes m @ []) c)" using assms(2) by (auto simp: delivered_def)
next
  show "one_life tid (Received a (txBytes m @ []) c) ms"
    using assms(4,5) deserializeWorkerMsg_txBytes [OF assms(3), of "tm_host ms" "[]"]
    by (auto simp: one_life_def tm_receives_def)
qed

lemma worker_gets:
  assumes "playing tid S0 i ms s" and "(dst, txBytes m) \<in> set (tm_outbox ms)"
    and "TWorkerLoop.tw_step (from_manager a (txBytes m @ []) True) s = Running t"
  shows "playing tid S0 i ms t"
  by (rule worker_moves [OF assms(1) _ assms(3)]) (use assms(2) in \<open>auto simp: delivered_def\<close>)

lemma worker_commanded:
  "playing tid S0 i ms s \<Longrightarrow> TWorkerLoop.tw_step (from_cmd c) s = Running t \<Longrightarrow> playing tid S0 i ms t"
  by (erule worker_moves) simp_all

subsection \<open>The worker's moves\<close>

definition ready :: "u32 \<Rightarrow> wrecord list \<Rightarrow> tw_state \<Rightarrow> bool" where
  "ready n rs s \<longleftrightarrow> wf_tw s \<and> tw_pc s = MainLoop \<and> tw_delay s = 0 \<and> tw_vote s = 0 \<and> tw_isCrash s = 0 \<and> tw_nodeId s = n \<and>
     tw_log s = rs"

definition plain_cmd :: "u32 \<Rightarrow> u32 \<Rightarrow> cmd_in" where
  "plain_cmd k tid = \<lparr>ci_buf = msgBytes \<lparr>m_msgID = k, m_tid = tid, m_port = 0, m_newValue = 0, m_delay = 0,
     m_strData = replicate IDLEN 0\<rparr> @ [], ci_host = Some 0, ci_time = zero_time, ci_sent = True\<rparr>"

lemma plain_cmd_fields [simp]:
  "ci_host (plain_cmd k tid) = Some 0" "ci_sent (plain_cmd k tid) = True"
  by (simp_all add: plain_cmd_def)

lemma plain_cmd_step:
  "tw_pc s = MainLoop \<Longrightarrow> TWorkerLoop.tw_step (from_cmd (plain_cmd k tid)) s =
    handle_cmd (plain_cmd k tid) \<lparr>m_msgID = k, m_tid = tid, m_port = 0, m_newValue = 0, m_delay = 0, m_strData = replicate IDLEN 0\<rparr> s"
  by (rule from_cmd_step) (simp_all add: plain_cmd_def deserializeMsg_msgBytes wf_msgType_def del: append_Nil2)

lemma request_step:
  assumes "ready n rs s" and "k = BEGINTX \<or> k = JOINTX"
  shows "\<exists>t dst r. TWorkerLoop.tw_step (from_cmd (plain_cmd k tid)) s = Running t \<and> ready n rs t \<and>
    tw_outbox t = tw_outbox s @ [(dst, txBytes r)] \<and> wf_txMessage r \<and> tx_msgID r = k \<and> tx_tid r = tid \<and> tx_nodeId r = n"
proof -
  have s: "wf_tw s" "tw_pc s = MainLoop" "tw_delay s = 0" using assms(1) by (simp_all add: ready_def)
  let ?m = "\<lparr>m_msgID = k, m_tid = tid, m_port = 0, m_newValue = 0, m_delay = 0, m_strData = replicate IDLEN 0\<rparr>"
  let ?to = "\<lparr>sin_addr = 0, sin_port = 0\<rparr>"
  let ?u = "tw_saveVectorTime (tw_tickMyClock (s\<lparr>tw_toAddr := ?to\<rparr>))"
  let ?r = "tw_constructMessage ?m (tw_newMsg s) 0 ?u"
  let ?v = "tw_writeEventToLog ?r True 0 (?u\<lparr>tw_newMsg := ?r\<rparr>)"
  let ?t = "?v\<lparr>tw_outbox := tw_outbox s @ [(?to, txBytes ?r)]\<rparr>"
  have "wf_tw ?u" using s(1) by (intro wf_tw_small wf_tw_fields)
  then have wf: "wf_txMessage ?r" by simp
  have "TWorkerLoop.tw_step (from_cmd (plain_cmd k tid)) s = cmd_begin_join True (Some 0) ?m s"
    using assms(2) by (auto simp: plain_cmd_step [OF s(2)] handle_cmd_def)
  also have "\<dots> = tw_sendMsg True ?r ?to ?v" by (simp add: cmd_begin_join_def memcpy_host_def Let_def)
  also have "\<dots> = Running ?t" using s(3) by (subst tw_sendMsg_wf [OF wf]) simp
  finally have step: "TWorkerLoop.tw_step (from_cmd (plain_cmd k tid)) s = Running ?t" .
  have "wf_tw ?t" using tw_machine.step_inv [OF s(1), of "from_cmd (plain_cmd k tid)"] by (simp add: step)
  then have "ready n rs ?t" using assms(1) by (simp add: ready_def)
  moreover have "tx_msgID ?r = k" "tx_tid ?r = tid" "tx_nodeId ?r = n"
    using assms(1) by (simp_all add: tw_constructMessage_def ready_def)
  ultimately show ?thesis using step wf by (intro exI [of _ ?t] exI [of _ ?to] exI [of _ ?r]) simp
qed

lemma commit_cmd_step:
  assumes "ready n rs s"
  shows "\<exists>t dst r rec. TWorkerLoop.tw_step (from_cmd (plain_cmd COMMIT x)) s = Running t \<and> ready n (rs @ [rec]) t \<and>
    r_msgID rec = COMMIT \<and> tw_curTid t = tw_curTid s \<and>
    tw_outbox t = tw_outbox s @ [(dst, txBytes r)] \<and> wf_txMessage r \<and> tx_msgID r = COMMIT \<and> tx_tid r = tw_curTid s"
proof -
  have s: "wf_tw s" "tw_pc s = MainLoop" "tw_delay s = 0" using assms by (simp_all add: ready_def)
  let ?m = "\<lparr>m_msgID = COMMIT, m_tid = x, m_port = 0, m_newValue = 0, m_delay = 0, m_strData = replicate IDLEN 0\<rparr>"
  let ?rec = "(tw_rec s)\<lparr>r_msgID := COMMIT, r_tid := tw_curTid s\<rparr>"
  let ?u = "tw_saveVectorTime (tw_tickMyClock (tw_writeRecordToLog ?rec (s\<lparr>tw_isCrash := 0, tw_rec := ?rec\<rparr>)))"
  let ?r = "tw_constructMessage (?m\<lparr>m_tid := tw_curTid s\<rparr>) (tw_newMsg s) 0 ?u"
  let ?v = "tw_writeEventToLog ?r True (sin_port (tw_toAddr s)) (?u\<lparr>tw_newMsg := ?r\<rparr>)"
  let ?t = "?v\<lparr>tw_outbox := tw_outbox s @ [(tw_toAddr s, txBytes ?r)]\<rparr>"
  have "wf_tw (s\<lparr>tw_isCrash := 0, tw_rec := ?rec\<rparr>)" using s(1) by (simp add: wf_tw_def)
  then have "wf_tw ?u" using s(1) by (intro wf_tw_small) (simp_all add: wf_tw_parts)
  then have wf: "wf_txMessage ?r" by simp
  have "TWorkerLoop.tw_step (from_cmd (plain_cmd COMMIT x)) s = cmd_commit True 0 ?m s"
    by (simp add: plain_cmd_step [OF s(2)] handle_cmd_def)
  also have "\<dots> = tw_sendMsg True ?r (tw_toAddr s) ?v" by (simp add: cmd_commit_def Let_def)
  also have "\<dots> = Running ?t" using s(3) by (subst tw_sendMsg_wf [OF wf]) simp
  finally have step: "TWorkerLoop.tw_step (from_cmd (plain_cmd COMMIT x)) s = Running ?t" .
  have "wf_tw ?t" using tw_machine.step_inv [OF s(1), of "from_cmd (plain_cmd COMMIT x)"] by (simp add: step)
  then have "ready n (rs @ [?rec]) ?t" using assms by (simp add: ready_def)
  moreover have "tx_msgID ?r = COMMIT" "tx_tid ?r = tw_curTid s" by (simp_all add: tw_constructMessage_def)
  ultimately show ?thesis using step wf
    by (intro exI [of _ ?t] exI [of _ "tw_toAddr s"] exI [of _ ?r] exI [of _ ?rec]) simp
qed

lemma joined_step:
  assumes "ready n rs s" and "wf_txMessage m" and "tx_msgID m = JOIN_SUCCESS"
  shows "\<exists>t rec. TWorkerLoop.tw_step (from_manager a (txBytes m @ []) True) s = Running t \<and> ready n (rs @ [rec]) t \<and>
    r_msgID rec = JOINTX \<and> tw_curTid t = tx_tid m \<and> tw_outbox t = tw_outbox s"
proof -
  have s: "wf_tw s" "tw_pc s = MainLoop" using assms(1) by (simp_all add: ready_def)
  let ?t = "handle_join_answer m a (tw_received m a s)"
  have step: "TWorkerLoop.tw_step (from_manager a (txBytes m @ []) True) s = Running ?t"
    using main_receives [OF assms(2) s(2), of a "[]" True] assms(3) by (simp add: handle_man_msg_def)
  have "wf_tw ?t" using tw_machine.step_inv [OF s(1), of "from_manager a (txBytes m @ []) True"] by (simp only: step out_all.simps)
  then show ?thesis using step assms(1,3)
    by (intro exI [of _ ?t] exI) (auto simp: ready_def handle_join_answer_def Let_def)
qed

lemma vote_step:
  assumes "ready n rs s" and "wf_txMessage m" and "tx_msgID m = PREPARE_COMMIT" and "length rs < 22"
    and "\<forall>r \<in> set rs. r_msgID r \<noteq> ABORT"
  shows "\<exists>t v. TWorkerLoop.tw_step (from_manager a (txBytes m @ []) True) s = Running t \<and> tw_pc t = Waiting a \<and>
    tw_outbox t = tw_outbox s @ [(a, txBytes v)] \<and> wf_txMessage v \<and> tx_msgID v = VOTE_COMMIT \<and> tx_tid v = tx_tid m \<and>
    tx_nodeId v = tx_nodeId m \<and> tx_isCrash v = 0"
proof -
  have s: "wf_tw s" "tw_pc s = MainLoop" "tw_delay s = 0" "tw_vote s = 0" "tw_isCrash s = 0" "tw_log s = rs"
    using assms(1) by (simp_all add: ready_def)
  have k: "vote_kind s = VOTE_COMMIT" using s assms(5) by (auto simp: vote_kind_def locally_aborted_def)
  have len: "length (tw_log s) < 22" using s assms(4) by simp
  show ?thesis
    using prepare_step [OF s(2) len assms(2,3), of a "[]" True] wf_vote_msg [OF s(1), of m a] s k
    by (simp add: tw_sendMsg_wf del: append_Nil2) (intro exI [of _ "vote_msg m a s"], simp)
qed

subsection \<open>The play\<close>

text \<open>The row of the transaction after the join: one member, the rest of the slots free.\<close>

definition sole_row :: "u32 \<Rightarrow> u32 \<Rightarrow> sockaddr_in \<Rightarrow> trans_info \<Rightarrow> trans_info" where
  "sole_row tid n a j = add_worker (ucast (sin_port a)) n a ((init_row j)\<lparr>i_tid := tid\<rparr>)"

lemma sole_row_workers:
  assumes "i_workers j = w # ws"
  shows "i_workers (sole_row tid n a j) =
    (clean_worker w)\<lparr>w_port := ucast (sin_port a), w_nodeId := n, w_workerAddr := a\<rparr> # map clean_worker ws"
  using assms by (simp add: sole_row_def add_worker_def init_row_def clean_worker_def)

lemma fresh_table:
  assumes "tm_fresh ms" and "tid \<noteq> 0"
  shows "\<exists>j w ws rest. tm_rows ms = init_row j # rest \<and> i_workers j = w # ws \<and>
    (\<forall>i \<in> set rest. i_tid i = 0)"
proof -
  note f = fresh_rows [OF assms(1)]
  have len: "length (tm_rows ms) = 5" "list_all (\<lambda>i. length (i_workers i) = 10) (tm_rows ms)"
    using wf_tm_rows [OF f(1)] by (simp_all add: wf_rows_def)
  then obtain r rest where rows: "tm_rows ms = r # rest" by (cases "tm_rows ms") simp_all
  with f(4) obtain j where j: "r = init_row j" by auto
  with len rows have "length (i_workers j) = 10" by (simp add: init_row_def)
  then obtain w ws where "i_workers j = w # ws" by (cases "i_workers j") simp_all
  moreover have "\<forall>i \<in> set rest. i_tid i = 0" using f(4) rows by (auto simp: init_row_def)
  ultimately show ?thesis using rows j by blast
qed

lemma begun_table:
  assumes "tm_fresh ms" and "tid \<noteq> 0" and "wf_txMessage m" and "tx_msgID m = BEGINTX" and "tx_tid m = tid"
    and "tm_rows ms = init_row j # rest"
  shows "\<exists>mt. handleWorkerMsg (Received a (txBytes m @ []) c) ms = Running mt \<and> wf_tm mt \<and> tm_log mt = [] \<and>
    tm_rows mt = (init_row j)\<lparr>i_tid := tid\<rparr> # rest"
proof -
  note f = fresh_rows [OF assms(1)]
  have "free_or tid (tm_rows ms) = Some 0" "i_tid (tm_rows ms ! 0) = 0"
    using assms(6) by (simp_all add: free_or_def init_row_def)
  with begin_step [OF f(1) assms(3,4), of a "[]" c] assms(2,5,6) f(2) obtain mt where
    mt: "handleWorkerMsg (Received a (txBytes m @ []) c) ms = Running mt" "tm_log mt = []"
    "tm_rows mt = (init_row j)\<lparr>i_tid := tid\<rparr> # rest" by auto
  have "wf_tm mt" using tm_machine.step_inv [OF f(1), of "Received a (txBytes m @ []) c"] by (simp only: mt(1) out_all.simps)
  with mt show ?thesis by blast
qed

lemma joined_table:
  assumes "wf_tm ms" and "tm_rows ms = (init_row j)\<lparr>i_tid := tid\<rparr> # rest"
    and "wf_txMessage m" and "tx_msgID m = JOINTX" and "tx_tid m = tid"
  shows "\<exists>mt r. handleWorkerMsg (Received a (txBytes m @ []) c) ms = Running mt \<and> wf_tm mt \<and>
    tm_rows mt = sole_row tid (tx_nodeId m) a j # rest \<and> tm_outbox mt = tm_outbox ms @ [(a, txBytes r)] \<and>
    wf_txMessage r \<and> tx_msgID r = JOIN_SUCCESS \<and> tx_tid r = tid"
proof -
  have fr: "free_or tid (tm_rows ms) = Some 0" "i_tid (tm_rows ms ! 0) = tid" using assms(2) by (simp_all add: free_or_def)
  from join_step [OF assms(1,3,4), of a "[]" c] fr assms(2,5) obtain mt r where
    mt: "handleWorkerMsg (Received a (txBytes m @ []) c) ms = Running mt"
    "tm_rows mt = sole_row tid (tx_nodeId m) a j # rest"
    "tm_outbox mt = tm_outbox ms @ [(a, txBytes r)]" "tx_msgID r = JOIN_SUCCESS" "tx_tid r = tid" "wf_txMessage r"
    by (auto simp: sole_row_def)
  have wf: "wf_tm mt" using tm_machine.step_inv [OF assms(1), of "Received a (txBytes m @ []) c"] by (simp only: mt(1) out_all.simps)
  with mt show ?thesis by blast
qed

lemma sole_table:
  assumes "wf_tm ms" and "tm_rows ms = sole_row tid n a j # rest" and "i_workers j = w # ws" and "\<forall>i \<in> set rest. i_tid i = 0"
    and "tid \<noteq> 0" and "n \<noteq> 0" and port: "(ucast (sin_port a) :: u32) \<noteq> 0"
  shows "tx_tid m = tid \<Longrightarrow> \<exists>m'. broadcast p m k nm vc (addressees tid (tm_rows ms)) = [(a, m')] \<and> tx_msgID m' = k \<and> tx_tid m' = tid \<and>
      tx_nodeId m' = n"
    and "find_row tid ms = Some (sole_row tid n a j)" and "i_isCrash (sole_row tid n a j) = 0"
    and "tx_nodeId m = n \<Longrightarrow> others_yes m (sole_row tid n a j)"
proof -
  have none: "addressees tid rest = []" using assms(4,5) by (induction rest) auto
  have t: "i_tid (sole_row tid n a j) = tid" by (simp add: sole_row_def add_worker_def)
  have "filter (\<lambda>w. w_port w \<noteq> 0) (map clean_worker ws) = []" by (simp add: filter_empty_conv clean_worker_def)
  then have "addressees tid (tm_rows ms) = [(clean_worker w)\<lparr>w_port := ucast (sin_port a), w_nodeId := n, w_workerAddr := a\<rparr>]"
    using port none by (simp add: assms(2) t sole_row_workers [OF assms(3)])
  then show "\<exists>m'. broadcast p m k nm vc (addressees tid (tm_rows ms)) = [(a, m')] \<and> tx_msgID m' = k \<and> tx_tid m' = tid \<and>
      tx_nodeId m' = n" if "tx_tid m = tid"
    using assms(6) that by simp
  show "find_row tid ms = Some (sole_row tid n a j)" by (simp add: find_row_def assms(2) t)
  show "i_isCrash (sole_row tid n a j) = 0" by (simp add: sole_row_def add_worker_def init_row_def)
  show "others_yes m (sole_row tid n a j)" if "tx_nodeId m = n"
    unfolding others_yes_def sole_row_workers [OF assms(3)]
    by (rule exI [of _ "[]"], rule exI, rule exI [of _ "map clean_worker ws"])
      (use that assms(6) in \<open>auto simp: clean_worker_def\<close>)
qed

lemma fresh_ready:
  assumes "tw_fresh s"
  shows "\<exists>n. n \<noteq> 0 \<and> ready n [] s \<and> tw_outbox s = []"
proof -
  obtain b where b: "wf_tw_boot b" "wb_port b \<noteq> 0" "wb_file b = None" "tw_main b = Running s"
    using assms by (auto simp: tw_fresh_def)
  have "wf_tw s" using wf_tw_main [OF b(1)] b(4) by simp
  moreover have "s = TWorkerLoop.tw_first_start (wb_now b) (savePort (wb_sysport b) (tw_boot_state b))"
    using b by (simp add: tw_main_def wf_tw_boot_def Let_def)
  ultimately show ?thesis using b(2,3)
    by (intro exI [of _ "wb_port b"]) (simp add: ready_def TWorkerLoop.tw_first_start_def savePort_def tw_boot_state_def Let_def)
qed

lemma commit_reached:
  assumes "tx_init S0" and "i < length (sy_tw S0)" and "tid \<noteq> 0"
  shows "\<exists>S. tx_run (one_life tid) (settled_restart tid) S0 S \<and> i < length (sy_tw S) \<and>
    committed tid (sy_mgr S) \<and> tw_logged DECIDE_COMMIT tid (wnode_state (sy_tw S ! i))"
proof -
  obtain ms0 s0 where S0: "sy_tm S0 = Up ms0" "tm_fresh ms0" "sy_tw S0 ! i = WUp s0" "tw_fresh s0"
    using assms(1,2) by (force simp: tx_init_def list_all_length)
  note f = fresh_rows [OF S0(2)]
  obtain n where n: "n \<noteq> 0" "ready n [] s0" "tw_outbox s0 = []" using fresh_ready [OF S0(4)] by blast
  have p0: "playing tid S0 i ms0 s0"
    unfolding playing_def by (rule exI [of _ S0]) (use S0 assms(2) f(3) n(3) in simp)
  obtain j w ws rest where rows: "tm_rows ms0 = init_row j # rest" "i_workers j = w # ws" "\<forall>i \<in> set rest. i_tid i = 0"
    using fresh_table [OF S0(2) assms(3)] by blast
  let ?a = "\<lparr>sin_addr = 0, sin_port = 1\<rparr> :: sockaddr_in"
  txt \<open>The worker begins.\<close>
  obtain s1 d1 m1 where 1: "TWorkerLoop.tw_step (from_cmd (plain_cmd BEGINTX tid)) s0 = Running s1" "ready n [] s1"
    "tw_outbox s1 = tw_outbox s0 @ [(d1, txBytes m1)]" "wf_txMessage m1" "tx_msgID m1 = BEGINTX" "tx_tid m1 = tid"
    using request_step [OF n(2), of BEGINTX tid] by blast
  have p1: "playing tid S0 i ms0 s1" by (rule worker_commanded [OF p0 1(1)])
  obtain ms1 where ms1: "handleWorkerMsg (Received ?a (txBytes m1 @ []) 0) ms0 = Running ms1" "wf_tm ms1" "tm_log ms1 = []"
    "tm_rows ms1 = (init_row j)\<lparr>i_tid := tid\<rparr> # rest"
    using begun_table [OF S0(2) assms(3) 1(4-6) rows(1)] by blast
  have new: "tid \<notin> tids ms0" "\<not> decided tid ms0"
    using rows assms(3) f(2) by (auto simp: tids_def init_row_def decided_def)
  have p2: "playing tid S0 i ms1 s1" by (rule manager_gets [of _ _ _ _ _ d1, OF p1 _ 1(4) _ _ ms1(1)]) (use 1 new in auto)
  txt \<open>It joins.\<close>
  obtain s2 d2 m2 where 2: "TWorkerLoop.tw_step (from_cmd (plain_cmd JOINTX tid)) s1 = Running s2" "ready n [] s2"
    "tw_outbox s2 = tw_outbox s1 @ [(d2, txBytes m2)]" "wf_txMessage m2" "tx_msgID m2 = JOINTX" "tx_tid m2 = tid" "tx_nodeId m2 = n"
    using request_step [OF 1(2), of JOINTX tid] by blast
  have p3: "playing tid S0 i ms1 s2" by (rule worker_commanded [OF p2 2(1)])
  obtain ms2 r2 where ms2: "handleWorkerMsg (Received ?a (txBytes m2 @ []) 0) ms1 = Running ms2" "wf_tm ms2"
    "tm_rows ms2 = sole_row tid n ?a j # rest" "tm_outbox ms2 = tm_outbox ms1 @ [(?a, txBytes r2)]"
    "wf_txMessage r2" "tx_msgID r2 = JOIN_SUCCESS" "tx_tid r2 = tid"
    using joined_table [OF ms1(2,4) 2(4-6), of ?a 0] 2(7) by auto
  have p4: "playing tid S0 i ms2 s2" by (rule manager_gets [of _ _ _ _ _ d2, OF p3 _ 2(4) _ _ ms2(1)]) (use 2 in auto)
  obtain s3 rec3 where 3: "TWorkerLoop.tw_step (from_manager ?a (txBytes r2 @ []) True) s2 = Running s3" "ready n [rec3] s3"
    "r_msgID rec3 = JOINTX" "tw_curTid s3 = tid" using joined_step [OF 2(2) ms2(5,6), of ?a] ms2(7) by auto
  have p5: "playing tid S0 i ms2 s3" by (rule worker_gets [OF p4 _ 3(1), of ?a]) (simp add: ms2(4))
  txt \<open>It asks for the commit.\<close>
  obtain s4 d4 m4 rec4 where 4: "TWorkerLoop.tw_step (from_cmd (plain_cmd COMMIT tid)) s3 = Running s4" "ready n ([rec3] @ [rec4]) s4"
    "r_msgID rec4 = COMMIT" "tw_outbox s4 = tw_outbox s3 @ [(d4, txBytes m4)]" "wf_txMessage m4" "tx_msgID m4 = COMMIT" "tx_tid m4 = tid"
    using commit_cmd_step [OF 3(2), of tid] 3(4) by auto
  have p6: "playing tid S0 i ms2 s4" by (rule worker_commanded [OF p5 4(1)])
  have a: "(ucast (sin_port ?a) :: u32) \<noteq> 0" by simp
  note sole2 = sole_table [OF ms2(2,3) rows(2,3) assms(3) n(1) a]
  obtain ms3 where ms3: "handleWorkerMsg (Received ?a (txBytes m4 @ []) 0) ms2 = Running ms3" "tm_rows ms3 = tm_rows ms2"
    "tm_outbox ms3 = tm_outbox ms2 @ map (apsnd txBytes) (broadcast (tm_port ms2) m4 PREPARE_COMMIT (tm_newMsg ms2)
        (merge_clocks (tx_vectorClock m4) (tick (tm_port ms2) (tm_clock ms2))) (addressees (tx_tid m4) (tm_rows ms2)))"
    using commit_request_prepares [OF ms2(2) 4(5,6), of ?a "[]" 0] by blast
  have wf3: "wf_tm ms3" using tm_machine.step_inv [OF ms2(2), of "Received ?a (txBytes m4 @ []) 0"] by (simp only: ms3(1) out_all.simps)
  have p7: "playing tid S0 i ms3 s4" by (rule manager_gets [of _ _ _ _ _ d4, OF p6 _ 4(5) _ _ ms3(1)]) (use 4 in auto)
  obtain pm where pm: "broadcast (tm_port ms2) m4 PREPARE_COMMIT (tm_newMsg ms2)
        (merge_clocks (tx_vectorClock m4) (tick (tm_port ms2) (tm_clock ms2))) (addressees (tx_tid m4) (tm_rows ms2)) = [(?a, pm)]"
    "tx_msgID pm = PREPARE_COMMIT" "tx_tid pm = tid" "tx_nodeId pm = n"
    using sole2(1) [OF 4(7)] 4(7) by metis
  have wfc: "length (merge_clocks (tx_vectorClock m4) (tick (tm_port ms2) (tm_clock ms2))) = MAX_NODES"
    using ms2(2) by (simp add: wf_tm_def)
  have "(?a, pm) \<in> set (broadcast (tm_port ms2) m4 PREPARE_COMMIT (tm_newMsg ms2)
        (merge_clocks (tx_vectorClock m4) (tick (tm_port ms2) (tm_clock ms2))) (addressees (tx_tid m4) (tm_rows ms2)))"
    by (simp only: pm(1) list.set_intros)
  then have wfp: "wf_txMessage pm" by (rule broadcast_wf [OF wf_tm_newMsg [OF ms2(2)] wfc])
  txt \<open>It votes, and the manager decides.\<close>
  obtain s5 v where 5: "TWorkerLoop.tw_step (from_manager ?a (txBytes pm @ []) True) s4 = Running s5" "tw_pc s5 = Waiting ?a"
    "tw_outbox s5 = tw_outbox s4 @ [(?a, txBytes v)]" "wf_txMessage v" "tx_msgID v = VOTE_COMMIT" "tx_tid v = tid"
    "tx_nodeId v = n" "tx_isCrash v = 0"
    using vote_step [OF 4(2) wfp pm(2), of ?a] 3(3) 4(3) pm(3,4) by auto
  have p8: "playing tid S0 i ms3 s5" by (rule worker_gets [OF p7 _ 5(1), of ?a]) (simp add: ms3(3) pm(1))
  have rows3: "tm_rows ms3 = sole_row tid n ?a j # rest" using ms3(2) ms2(3) by simp
  note sole3 = sole_table [OF wf3 rows3 rows(2,3) assms(3) n(1) a]
  have fr: "find_row (tx_tid v) ms3 = Some (sole_row tid n ?a j)" using sole3(2) 5(6) by simp
  have crash: "tx_isCrash v \<noteq> 1" "i_isCrash (sole_row tid n ?a j) \<noteq> 1" using 5(8) sole3(3) by simp_all
  obtain ms4 where ms4: "handleWorkerMsg (Received ?a (txBytes v @ []) 0) ms3 = Running ms4"
    "tm_log ms4 = tm_log ms3 @ [\<lparr>cr_msgID = DECIDE_COMMIT, cr_tid = tx_tid v, cr_nodeId = tx_nodeId v\<rparr>]"
    "tm_outbox ms4 = tm_outbox ms3 @ map (apsnd txBytes) (broadcast (tm_port ms3) v DECIDE_COMMIT (tm_newMsg ms3)
        (merge_clocks (tx_vectorClock v) (tick (tm_port ms3) (tm_clock ms3))) (addressees (tx_tid v) (tm_rows ms3)))"
    using unanimous_step [OF wf3 5(4,5) crash(1) fr crash(2) sole3(4) [OF 5(7)], of ?a "[]" 0] by blast
  have p9: "playing tid S0 i ms4 s5" by (rule manager_gets [of _ _ _ _ _ ?a, OF p8 _ 5(4) _ _ ms4(1)]) (use 5 in auto)
  obtain dm where dm: "broadcast (tm_port ms3) v DECIDE_COMMIT (tm_newMsg ms3)
        (merge_clocks (tx_vectorClock v) (tick (tm_port ms3) (tm_clock ms3))) (addressees (tx_tid v) (tm_rows ms3)) = [(?a, dm)]"
    "tx_msgID dm = DECIDE_COMMIT" "tx_tid dm = tid"
    using sole3(1) [OF 5(6)] 5(6) by metis
  have wfc3: "length (merge_clocks (tx_vectorClock v) (tick (tm_port ms3) (tm_clock ms3))) = MAX_NODES"
    using wf3 by (simp add: wf_tm_def)
  have "(?a, dm) \<in> set (broadcast (tm_port ms3) v DECIDE_COMMIT (tm_newMsg ms3)
        (merge_clocks (tx_vectorClock v) (tick (tm_port ms3) (tm_clock ms3))) (addressees (tx_tid v) (tm_rows ms3)))"
    by (simp only: dm(1) list.set_intros)
  then have wfd: "wf_txMessage dm" by (rule broadcast_wf [OF wf_tm_newMsg [OF wf3] wfc3])
  txt \<open>The worker logs the decision.\<close>
  let ?s6 = "(log_decision dm (tw_received dm ?a s5))\<lparr>tw_pc := MainLoop\<rparr>"
  have 6: "TWorkerLoop.tw_step (from_manager ?a (txBytes dm @ []) True) s5 = Running ?s6"
    using waiting_receives [OF wfd 5(2), of ?a "[]" True] dm(2) by (simp add: Let_def)
  have p10: "playing tid S0 i ms4 ?s6" by (rule worker_gets [OF p9 _ 6, of ?a]) (simp add: ms4(3) dm(1))
  have "committed tid ms4" using ms4(2) 5(6) by (simp add: committed_append)
  moreover have "tw_logged DECIDE_COMMIT tid ?s6" using dm(2,3) by (simp add: tw_logged_def)
  ultimately show ?thesis using p10 unfolding playing_def by (elim exE conjE) (rule exI, intro conjI, assumption+, simp_all)
qed

subsection \<open>Agreement, and that it is not empty\<close>

text \<open>
  C1: agreement of the workers.  Take any run of the manager and any number of workers over a network
  that loses, repeats, reorders and misdelivers datagrams.  Workers may exit, die and be started again
  at any time, the manager may exit and die at any time.  Three things are assumed of the transaction
  (\<open>one_life\<close>, \<open>settled_restart\<close>): a \<open>BEGINTX\<close> with its number reaches the manager only while the
  number is neither in the table nor decided, a poll for it only when it has been decided and has left
  the table, and the manager is not started again while it is in the table.  The decision can split
  without the second, see \<open>poll_splits_decision\<close>, and without the third, see \<open>restart_splits_decision\<close>.
  Under them no two workers log different decisions; when a worker has logged the commit, the log of
  the manager has it and the transaction has left the table; when one has logged the abort, the log of
  the manager has a decision and no commit.  The claim is about the logs of the workers: a vote to abort
  that arrives after the commit still puts a \<open>DECIDE_ABORT\<close> record behind it into the manager's log.
\<close>

theorem decision_agreement:
  assumes "tx_init S0" and "tx_run (one_life tid) (settled_restart tid) S0 S" and "tid \<noteq> 0"
    and "n \<in> set (sy_tw S)" and "n' \<in> set (sy_tw S)"
  shows "(tw_logged DECIDE_COMMIT tid (wnode_state n) \<longrightarrow> committed tid (sy_mgr S) \<and> tid \<notin> tids (sy_mgr S)) \<and>
    (tw_logged DECIDE_ABORT tid (wnode_state n') \<longrightarrow> decided tid (sy_mgr S) \<and> \<not> committed tid (sy_mgr S)) \<and>
    \<not> (tw_logged DECIDE_COMMIT tid (wnode_state n) \<and> tw_logged DECIDE_ABORT tid (wnode_state n'))"
  by (rule agreement [OF assms])

definition demo_sys :: tx_sys where
  "demo_sys = \<lparr>sy_tm = Up (TManagerLoop.tm_first_start (boot_state demo_boot)),
     sy_tw = [WUp (TWorkerLoop.tw_first_start (wb_now demo_wboot) (savePort (wb_sysport demo_wboot) (tw_boot_state demo_wboot)))],
     sy_net = {}\<rparr>"

lemma demo_sys_init: "tx_init demo_sys" "length (sy_tw demo_sys) = 1"
proof -
  have "wf_boot demo_boot" by (simp add: wf_boot_def demo_boot_def wf_rows_def empty_row_def)
  moreover have "b_file demo_boot = None" "b_fileExist demo_boot = 0" by (simp_all add: demo_boot_def)
  ultimately have tm: "tm_fresh (TManagerLoop.tm_first_start (boot_state demo_boot))"
    unfolding tm_fresh_def by (intro exI [of _ demo_boot]) (simp add: tm_main_def Let_def)
  have "wf_tw_boot demo_wboot" "wb_port demo_wboot \<noteq> 0" by (simp_all add: wf_tw_boot_def demo_wboot_def)
  moreover have "wb_file demo_wboot = None" "wb_fileExist demo_wboot = 0" by (simp_all add: demo_wboot_def)
  ultimately have "tw_fresh (TWorkerLoop.tw_first_start (wb_now demo_wboot) (savePort (wb_sysport demo_wboot) (tw_boot_state demo_wboot)))"
    unfolding tw_fresh_def by (intro exI [of _ demo_wboot]) (simp add: tw_main_def Let_def)
  with tm show "tx_init demo_sys" by (simp add: tx_init_def demo_sys_def)
  show "length (sy_tw demo_sys) = 1" by (simp add: demo_sys_def)
qed

theorem decision_agreement_witness:
  "\<exists>S n. tx_run (one_life 7) (settled_restart 7) demo_sys S \<and> n \<in> set (sy_tw S) \<and>
     tw_logged DECIDE_COMMIT 7 (wnode_state n) \<and> committed 7 (sy_mgr S) \<and>
     \<not> tw_logged DECIDE_ABORT 7 (wnode_state n)"
proof -
  obtain S where S: "tx_run (one_life 7) (settled_restart 7) demo_sys S" "0 < length (sy_tw S)"
    "tw_logged DECIDE_COMMIT 7 (wnode_state (sy_tw S ! 0))"
    using commit_reached [OF demo_sys_init(1), of 0 7] demo_sys_init(2) by auto
  have n: "sy_tw S ! 0 \<in> set (sy_tw S)" using S(2) by (rule nth_mem)
  show ?thesis
    using decision_agreement [OF demo_sys_init(1) S(1) _ n n] S n by (intro exI [of _ S] exI [of _ "sy_tw S ! 0"]) simp
qed

text \<open>
  C6: the commit can be reached.  In every system that starts with a worker in it, and for every
  transaction number but 0, there is a run within the limits of the agreement theorem in which that
  one worker begins and joins the transaction, asks for the commit and votes, and the manager and this
  worker both log the commit.  The other workers of the system take no part in that run.
\<close>

theorem commit_reachable:
  assumes "tx_init S0" and "i < length (sy_tw S0)" and "tid \<noteq> 0"
  shows "\<exists>S. tx_run (one_life tid) (settled_restart tid) S0 S \<and> i < length (sy_tw S) \<and>
    committed tid (sy_mgr S) \<and> tw_logged DECIDE_COMMIT tid (wnode_state (sy_tw S ! i))"
  by (rule commit_reached [OF assms])

theorem commit_reachable_witness:
  "\<exists>S. tx_run (one_life 7) (settled_restart 7) demo_sys S \<and> committed 7 (sy_mgr S)"
  using commit_reachable [OF demo_sys_init(1), of 0 7] demo_sys_init(2) by auto

end
