(* ===== verification/WireProps.thy ===== *)
theory WireProps
  imports TxWire ShiViz
begin

text \<open>
  The properties of the shared parts of \<open>transaction_management\<close>: messages survive the wire
  between hosts of different byte order, the routines need exactly the bytes of a message, the
  merge is the pointwise maximum while there is room, the clock entries grow as a vector clock
  must, and the log lines have the ShiViz form and fit their buffers only within bounds.
\<close>

subsection \<open>Messages\<close>

definition sample_msg :: txMessage where
  "sample_msg = \<lparr>tx_msgID = JOINTX, tx_tid = 7, tx_nodeId = 5001, tx_isCrash = 0,
     tx_vectorClock = \<lparr>c_nodeId = 5001, c_time = 3\<rparr> # replicate 9 no_clock\<rparr>"

text \<open>
  C35: worker messages survive the wire.  Serialised by a host of any byte order into any buffer
  of at least 96 bytes and deserialised by a host of any byte order, a message between worker
  and manager comes out unchanged; the bytes behind the 96 are not touched.
\<close>

theorem worker_msg_roundtrip:
  assumes "wf_txMessage m" and "sizeof_txMessage \<le> length buf"
  shows "\<exists>buf'. serializeWorkerMsg e buf m = Some buf' \<and> length buf' = length buf \<and>
    drop sizeof_txMessage buf' = drop sizeof_txMessage buf \<and> deserializeWorkerMsg e' buf' = Some m"
  using assms serializeWorkerMsg_fits [OF assms, of e] length_txBytes [OF assms(1)]
    deserializeWorkerMsg_txBytes [OF assms(1), of e']
  by (simp add: overlay_def)

theorem worker_msg_roundtrip_witness:
  "\<exists>buf'. serializeWorkerMsg Little (replicate 512 0) sample_msg = Some buf' \<and>
     deserializeWorkerMsg Big buf' = Some sample_msg"
  using worker_msg_roundtrip [of sample_msg "replicate 512 0" Little Big]
  by (auto simp: wf_txMessage_def sample_msg_def sizeof_txMessage_def)

definition sample_cmd :: msgType where
  "sample_cmd = \<lparr>m_msgID = NEW_IDSTR, m_tid = 7, m_port = 0, m_newValue = 0, m_delay = - 1000,
     m_strData = [104, 105] @ replicate 62 0\<rparr>"

text \<open>
  Command messages survive the wire, for any byte orders of the two hosts and for both
  meanings of the string union.
\<close>

theorem cmd_msg_roundtrip:
  assumes "wf_msgType m" and "sizeof_msgType \<le> length buf"
  shows "\<exists>buf'. serializeMsg e buf m = Some buf' \<and> length buf' = length buf \<and>
    drop sizeof_msgType buf' = drop sizeof_msgType buf \<and> deserializeMsg e' buf' = Some m"
  using assms serializeMsg_fits [OF assms, of e] length_msgBytes [OF assms(1)]
    deserializeMsg_msgBytes [OF assms(1), of e']
  by (simp add: overlay_def)

theorem cmd_msg_roundtrip_witness:
  "\<exists>buf'. serializeMsg Big (replicate 84 0) sample_cmd = Some buf' \<and>
     deserializeMsg Little buf' = Some sample_cmd"
  using cmd_msg_roundtrip [of sample_cmd "replicate 84 0" Big Little]
  by (auto simp: wf_msgType_def sample_cmd_def sizeof_msgType_def)

lemma get_uint_iff: "deserializeUnsignedInt e buf pos \<noteq> None \<longleftrightarrow> pos + 4 \<le> length buf"
  by (simp add: deserializeUnsignedInt_def memcpy_from_def)

lemma get_uint: "pos + 4 \<le> length buf \<Longrightarrow> \<exists>v. deserializeUnsignedInt e buf pos = Some (v, pos + 4)"
  by (simp add: deserializeUnsignedInt_def memcpy_from_def)

lemma get_uint_short: "length buf < pos + 4 \<Longrightarrow> deserializeUnsignedInt e buf pos = None"
  by (simp add: deserializeUnsignedInt_def memcpy_from_def)

lemma get_entry: "pos + 8 \<le> length buf \<Longrightarrow> \<exists>c. deserializeClockEntry e buf pos = Some (c, pos + 8)"
  by (simp add: deserializeClockEntry_def deserializeClockUnsignedInt_def memcpy_from_def)

lemma get_entry_short: "length buf < pos + 8 \<Longrightarrow> deserializeClockEntry e buf pos = None"
  by (simp add: deserializeClockEntry_def deserializeClockUnsignedInt_def memcpy_from_def)

lemma get_clock_iff: "get_list (deserializeClockEntry e) n buf pos \<noteq> None \<longleftrightarrow> n = 0 \<or> pos + 8 * n \<le> length buf"
proof (induction n arbitrary: pos)
  case 0
  show ?case by simp
next
  case (Suc n)
  show ?case
  proof (cases "pos + 8 \<le> length buf")
    case True
    then obtain c where "deserializeClockEntry e buf pos = Some (c, pos + 8)"
      using get_entry by blast
    then show ?thesis
      using Suc [of "pos + 8"] True
      by (cases "get_list (deserializeClockEntry e) n buf (pos + 8)") auto
  next
    case False
    then show ?thesis by (simp add: get_entry_short)
  qed
qed

lemma put_uint_short: "length buf < pos + 4 \<Longrightarrow> serializeUnsignedInt e buf pos v = None"
  by (simp add: uint_codec.put_short)

lemma serializeWorkerMsg_short:
  assumes "wf_txMessage m" and "length buf < sizeof_txMessage"
  shows "serializeWorkerMsg e buf m = None"
proof -
  consider "length buf < 4" | "4 \<le> length buf" "length buf < 8" | "8 \<le> length buf" "length buf < 12"
    | "12 \<le> length buf" "length buf < 16" | "16 \<le> length buf"
    by linarith
  then show ?thesis
  proof cases
    case 5
    with assms have "serializeClock e b 16 (tx_vectorClock m) = None" if "length b = length buf" for b
      using that clock_codec.arr.put_short [of "tx_vectorClock m" b 16 e]
      by (simp add: serializeClock_def wf_txMessage_def sizeof_txMessage_def)
    with 5 show ?thesis by (simp add: serializeWorkerMsg_def uint_codec.put_fits)
  qed (simp_all add: serializeWorkerMsg_def uint_codec.put_fits uint_codec.put_short)
qed

lemma deserializeWorkerMsg_iff:
  "deserializeWorkerMsg e buf \<noteq> None \<longleftrightarrow> sizeof_txMessage \<le> length buf"
proof -
  consider "length buf < 4" | "4 \<le> length buf" "length buf < 8" | "8 \<le> length buf" "length buf < 12"
    | "12 \<le> length buf" "length buf < 16" | "16 \<le> length buf"
    by linarith
  then show ?thesis
  proof cases
    case 5
    then have "deserializeClock e buf 16 \<noteq> None \<longleftrightarrow> sizeof_txMessage \<le> length buf"
      using get_clock_iff [of e 10 buf 16] by (simp add: deserializeClock_def sizeof_txMessage_def)
    with 5 get_uint [of 0 buf e] get_uint [of 4 buf e] get_uint [of 8 buf e] get_uint [of 12 buf e]
    show ?thesis by (cases "deserializeClock e buf 16") (auto simp: deserializeWorkerMsg_def)
  qed (use get_uint [of 0 buf e] get_uint [of 4 buf e] get_uint [of 8 buf e] in
      \<open>auto simp: deserializeWorkerMsg_def get_uint_short sizeof_txMessage_def\<close>)
qed

text \<open>
  A message takes exactly 96 bytes.  Serialising stays inside a buffer, and deserialising
  reads inside one, if and only if the buffer has at least 96 bytes; so the 512 bytes of
  \<open>recvBuf\<close> and the \<open>sizeof(txMessage)\<close> bytes of \<open>msgBuf\<close> are always enough.
\<close>

theorem worker_msg_bounds:
  assumes "wf_txMessage m"
  shows "(serializeWorkerMsg e buf m \<noteq> None) = (96 \<le> length buf) \<and>
    (deserializeWorkerMsg e buf \<noteq> None) = (96 \<le> length buf)"
  using serializeWorkerMsg_short [OF assms, of buf e] serializeWorkerMsg_fits [OF assms, of buf e]
    deserializeWorkerMsg_iff [of e buf]
  by (cases "96 \<le> length buf") (simp_all add: sizeof_txMessage_def)

theorem worker_msg_bounds_witness:
  "(serializeWorkerMsg Little (replicate 95 0) sample_msg \<noteq> None) = (96 \<le> length (replicate 95 (0::u8)))"
  by (rule worker_msg_bounds [THEN conjunct1]) (simp add: wf_txMessage_def sample_msg_def)

subsection \<open>Vector clocks\<close>

text \<open>
  Merging is the pointwise maximum.  While the nodes of both clocks together fit into the
  array, a merge knows the nodes of both and gives each node the larger of its two times; the
  result is well formed again.
\<close>

theorem merge_is_maximum:
  assumes "wf_clock ms" and "wf_clock vc" and "card (known ms \<union> known vc) \<le> length vc"
  shows "wf_clock (merge_clocks ms vc) \<and> known (merge_clocks ms vc) = known ms \<union> known vc \<and>
    (\<forall>n. n \<noteq> 0 \<longrightarrow> vtime (merge_clocks ms vc) n = max (vtime vc n) (vtime ms n))"
  using assms merge_clocks_room [OF assms] wf_merge_clocks [OF assms(2), of ms] by blast

definition sample_clock :: "u32 \<Rightarrow> u32 \<Rightarrow> clock list" where
  "sample_clock n t = \<lparr>c_nodeId = n, c_time = t\<rparr> # replicate 9 no_clock"

theorem merge_is_maximum_witness:
  "vtime (merge_clocks (sample_clock 5001 3) (sample_clock 1234 4)) 5001 = 3"
proof -
  have k: "known (sample_clock 5001 3) = {5001}" "known (sample_clock 1234 4) = {1234}"
    by (simp_all add: sample_clock_def wf_free_known no_clock_def)
  have wf: "wf_clock (sample_clock n t)" "length (sample_clock n t) = 10" for n t
    by (simp_all add: sample_clock_def no_clock_def)
  have "vtime (merge_clocks (sample_clock 5001 3) (sample_clock 1234 4)) 5001 =
      max (vtime (sample_clock 1234 4) 5001) (vtime (sample_clock 5001 3) 5001)"
    using merge_is_maximum [of "sample_clock 5001 3" "sample_clock 1234 4"] k wf by simp
  then show ?thesis by (simp add: sample_clock_def no_clock_def wf_free_vtime)
qed

lemma merge_entry_full:
  "wf_clock vc \<Longrightarrow> c_nodeId m \<noteq> 0 \<Longrightarrow> 0 \<notin> c_nodeId ` set vc \<Longrightarrow> c_nodeId m \<notin> known vc \<Longrightarrow>
    merge_entry m vc = vc"
  by (induction vc) auto

text \<open>
  An eleventh process is dropped.  When all ten entries are taken, a merge never learns of a
  node that has no entry: its time stays unknown whatever messages arrive.
\<close>

theorem full_clock_drops_nodes:
  assumes "wf_clock vc" and "0 \<notin> c_nodeId ` set vc" and "n \<noteq> 0" and "n \<notin> known vc"
  shows "n \<notin> known (merge_clocks ms vc) \<and> known (merge_clocks ms vc) = known vc \<and>
    vtime (merge_clocks ms vc) n = 0"
proof -
  have ids: "map c_nodeId (merge_entry m vc) = map c_nodeId vc"
    if "0 \<notin> c_nodeId ` set vc" "c_nodeId m \<noteq> 0" for m and vc :: "clock list"
    using that by (induction vc) auto
  have "map c_nodeId (merge_clocks ms vc) = map c_nodeId vc"
    using assms(2)
  proof (induction ms arbitrary: vc)
    case (Cons m ms)
    show ?case
    proof (cases "c_nodeId m = 0")
      case False
      have "0 \<notin> c_nodeId ` set (merge_entry m vc)"
        using Cons.prems ids [OF Cons.prems False] by (metis list.set_map)
      with Cons.IH [of "merge_entry m vc"] ids [OF Cons.prems False] False show ?thesis by simp
    qed simp
  qed simp
  then have "known (merge_clocks ms vc) = known vc"
    unfolding known_def by (metis list.set_map)
  then show ?thesis using assms(3,4) vtime_unknown by simp
qed

theorem full_clock_drops_nodes_witness:
  "99 \<notin> known (merge_clocks (sample_clock 99 5) (map (\<lambda>n. \<lparr>c_nodeId = n, c_time = 1\<rparr>) [1, 2, 3, 4, 5, 6, 7, 8, 9, 10]))"
  using full_clock_drops_nodes
    [of "map (\<lambda>n. \<lparr>c_nodeId = n, c_time = 1\<rparr>) [1, 2, 3, 4, 5, 6, 7, 8, 9, 10]" 99 "sample_clock 99 5"]
  by simp

text \<open>
  The clock of a process counts its events.  Along any sequence of local ticks and merges
  the entry of the process itself grows by at least one per tick, as long as the 32-bit counter
  does not wrap, and the entry of every other process never decreases.
\<close>

theorem clock_counts_events:
  assumes "wf_clock vc" and "p \<in> known vc" and "no_wrap tick merge_clocks vtime p es vc"
  shows "unat (vtime vc p) + ticks es \<le> unat (vtime (clock_run tick merge_clocks p es vc) p) \<and>
    (\<forall>n. n \<noteq> 0 \<and> n \<noteq> p \<longrightarrow> vtime vc n \<le> vtime (clock_run tick merge_clocks p es vc) n)"
proof -
  have "p \<noteq> 0" using assms(2) by (auto simp: known_def)
  then show ?thesis
    using txclock.run_own_entry [OF assms(1,2) _ _ assms(3)] txclock.run_other_entry [OF assms(1)] by blast
qed

theorem clock_counts_events_witness:
  "2 \<le> unat (vtime (clock_run tick merge_clocks 1234 [Tick, Merge (sample_clock 5001 3)] (sample_clock 1234 1)) 1234)"
proof -
  have "wf_clock (sample_clock 1234 1)" and k: "1234 \<in> known (sample_clock 1234 1)"
    by (simp_all add: sample_clock_def no_clock_def)
  moreover have "no_wrap tick merge_clocks vtime 1234 [Tick, Merge (sample_clock 5001 3)] (sample_clock 1234 1)"
    by (simp add: sample_clock_def)
  ultimately show ?thesis
    using clock_counts_events [of "sample_clock 1234 1" 1234 "[Tick, Merge (sample_clock 5001 3)]"]
    by (simp add: sample_clock_def)
qed

subsection \<open>Log lines\<close>

text \<open>
  A log line has the ShiViz form.  The line for a clock with at least one tick is the node's
  name and, in braces, the entries with a non-zero time in the order of the array, with a comma
  between two of them and none at the end; when every entry fits its buffer of 20 bytes the line
  fits the caller's buffer of 500.
\<close>

theorem vector_line_form:
  assumes "\<exists>c \<in> set vc. c_time c \<noteq> 0"
  shows "writeVectorTime vc port =
      ''N'' @ show_u port @ '' {'' @ commas (map entryText (filter (\<lambda>c. c_time c \<noteq> 0) vc)) @ ''}'' @ newline \<and>
    (length vc = MAX_NODES \<and> (\<forall>c \<in> set vc. nodeTimeBuf_fits c) \<longrightarrow> length (writeVectorTime vc port) < 500)"
  using writeVectorTime_entries [OF assms, of port] length_writeVectorTime [of vc port] by fastforce

theorem vector_line_form_witness:
  "writeVectorTime (sample_clock 7 3) 7 = ''N'' @ show_u 7 @ '' {'' @ commas [entryText \<lparr>c_nodeId = 7, c_time = 3\<rparr>] @ ''}'' @ newline"
proof -
  have "filter (\<lambda>c. c_time c \<noteq> 0) (sample_clock 7 3) = [\<lparr>c_nodeId = 7, c_time = 3\<rparr>]"
    by (simp add: sample_clock_def no_clock_def)
  moreover have "\<exists>c \<in> set (sample_clock 7 3). c_time c \<noteq> 0" by (simp add: sample_clock_def)
  ultimately show ?thesis using vector_line_form [of "sample_clock 7 3" 7] by simp
qed

text \<open>
  The entry buffer overflows for large times.  \<open>nodeTimeBuf\<close> has 20 bytes: an entry of a
  node with a port below 100000 fits while its time is below ten million, and an entry of a node
  with a port of at least 10000 no longer fits from ten million on.
\<close>

theorem entry_buffer_bound:
  assumes "10 ^ 4 \<le> unat (c_nodeId c)" and "unat (c_nodeId c) < 10 ^ 5"
  shows "nodeTimeBuf_fits c \<longleftrightarrow> unat (c_time c) < 10 ^ 7"
  using nodeTimeBuf_ports [OF assms(2)] nodeTimeBuf_overflow [OF assms(1)] by (meson not_less)

theorem entry_buffer_bound_witness:
  "nodeTimeBuf_fits \<lparr>c_nodeId = 50000, c_time = 9999999\<rparr> \<and> \<not> nodeTimeBuf_fits \<lparr>c_nodeId = 50000, c_time = 10000000\<rparr>"
  using entry_buffer_bound [of "\<lparr>c_nodeId = 50000, c_time = 9999999\<rparr>"]
    entry_buffer_bound [of "\<lparr>c_nodeId = 50000, c_time = 10000000\<rparr>"]
  by simp

end
