(* ===== verification/Strtoul.thy ===== *)
theory Strtoul
  imports Prelude "HOL-Library.Char_ord"
begin

text \<open>
  \<open>strtoul (s, &end, 10)\<close> of the C library on a 64-bit host, as the two programs use it that read
  numbers from their arguments: the value, and whether \<open>end\<close> differs from \<open>s\<close>, which holds when there
  is at least one digit.
\<close>

type_synonym u64 = "64 word"

definition is_space :: "char \<Rightarrow> bool" where
  "is_space c \<longleftrightarrow> c = CHR '' '' \<or> (9 \<le> (of_char c :: nat) \<and> (of_char c :: nat) \<le> 13)"

definition is_digit :: "char \<Rightarrow> bool" where
  "is_digit c \<longleftrightarrow> 48 \<le> (of_char c :: nat) \<and> (of_char c :: nat) \<le> 57"

fun decimal :: "nat \<Rightarrow> string \<Rightarrow> nat" where
  "decimal acc [] = acc"
| "decimal acc (c # cs) = decimal (10 * acc + (of_char c - 48)) cs"

fun sign :: "string \<Rightarrow> bool \<times> string" where
  "sign [] = (False, [])"
| "sign (c # cs) = (if c = CHR ''-'' then (True, cs) else if c = CHR ''+'' then (False, cs) else (False, c # cs))"

definition strtoul :: "string \<Rightarrow> u64 \<times> bool" where
  "strtoul s =
     (let (neg, rest) = sign (dropWhile is_space s);
          digits = takeWhile is_digit rest;
          v = decimal 0 digits
      in if digits = [] then (0, False)
         else if 2 ^ 64 \<le> v then (- 1, True)
         else (if neg then - of_nat v else of_nat v, True))"

text \<open>Signed numbers are cut off at the limits of \<open>long\<close>; \<open>atoi\<close> is \<open>strtol\<close>, reduced to an \<open>int\<close>.\<close>

definition to_long :: "bool \<Rightarrow> nat \<Rightarrow> u64" where
  "to_long neg v = (if neg then - of_nat (min v (2 ^ 63)) else of_nat (min v (2 ^ 63 - 1)))"

definition strtol :: "string \<Rightarrow> u64" where
  "strtol s = (let (neg, rest) = sign (dropWhile is_space s) in to_long neg (decimal 0 (takeWhile is_digit rest)))"

definition atoi :: "string \<Rightarrow> u32" where
  "atoi s = ucast (strtol s)"

end
