(* ===== verification/Startup.thy ===== *)
theory Startup
  imports TManagerLoop TWorkerLoop Strtoul
begin

text \<open>
  From the arguments of \<open>tmanager\<close> and \<open>tworker\<close> to their event loops: \<open>usage\<close>, the first part of
  both \<open>main\<close> functions, and \<open>createSocket\<close> of helper.c.

  What the operating system answers is a record per program: the files by name, whether \<open>open\<close>,
  \<open>fstat\<close> and \<open>write\<close> succeed on a name, whether \<open>socket\<close> and \<open>bind\<close> succeed, and a boot record with the
  indeterminate values, of which the files and the port are replaced.  \<open>mmap\<close> and \<open>msync\<close> of an open file succeed.  The result is the
  standard output, the names of the files that the process has opened, all with \<open>O_CREAT\<close>, and how
  \<open>main\<close> goes on; \<open>perror\<close> writes to the standard error output, which is left out.
  \<open>printf\<close> with \<open>%d\<close> of an \<open>unsigned long\<close> prints its lower half as on the usual 64-bit hosts.
\<close>

subsection \<open>What both programs share\<close>

text \<open>A log file: not there, too short for its header (with its size), or the header and whole records.\<close>

datatype ('h, 'r) log_file = Missing | Short nat 'h | Whole 'h "'r list"

text \<open>\<open>main\<close> returns a number, or goes on with sockets bound to these ports.\<close>

datatype 's started = Returned int | Started "u16 list" "'s outcome"

definition show_ld :: "u64 \<Rightarrow> string" where
  "show_ld w = show_d (ucast w)"

definition usage_port :: "string \<Rightarrow> string" where
  "usage_port cmd = ''usage: '' @ cmd @ ''  portNum'' @ newline"

definition init_errors :: "nat \<Rightarrow> string" where
  "init_errors err =
     show_nat err @ '' transaction manager initialization error'' @ (if 1 < err then ''s were '' else '' was '') @
     ''encountered, program exiting.'' @ newline"

definition conversion_error :: string where
  "conversion_error = ''Port conversion error'' @ newline"

definition writing_error :: string where
  "writing_error = ''Some sort of writing error'' @ newline"

text \<open>\<open>None\<close> is the result -1; \<open>htons\<close> takes the lower 16 bits of the port.\<close>

definition createSocket :: "bool \<Rightarrow> (u16 \<Rightarrow> bool) \<Rightarrow> u64 \<Rightarrow> u16 option" where
  "createSocket socket_ok bind_ok port =
     (if \<not> socket_ok then None
      else let sin_port = ucast port in if \<not> bind_ok sin_port then None else Some sin_port)"

text \<open>
  The log file is opened, and one that is too short gets a header of indeterminate contents: printed
  text and return value, or \<open>fileExist\<close> with the file.
\<close>

definition open_log ::
  "bool \<Rightarrow> bool \<Rightarrow> bool \<Rightarrow> int \<Rightarrow> 'h \<Rightarrow> ('h, 'r) log_file \<Rightarrow> (string \<times> int) + (int \<times> 'h \<times> 'r list)"
where
  "open_log open_ok fstat_ok write_ok fileExist0 space file =
     (let fileExist = (if file \<noteq> Missing then 1 else fileExist0) in
      if \<not> open_ok \<or> \<not> fstat_ok then Inl ([], - 2)
      else case file of
        Whole h rs \<Rightarrow> Inr (fileExist, h, rs)
      | _ \<Rightarrow> if write_ok then Inr (fileExist, space, []) else Inl (writing_error, - 3))"

subsection \<open>The transaction manager\<close>

record tm_env =
  te_log :: "string \<Rightarrow> (coord_crash_info, coord_record) log_file"
  te_shiviz :: "string \<Rightarrow> string"
  te_open :: "string \<Rightarrow> bool"
  te_fstat :: "string \<Rightarrow> bool"
  te_write :: "string \<Rightarrow> bool"
  te_socket :: bool
  te_bind :: "u16 \<Rightarrow> bool"
  te_boot :: tm_boot

definition tm_logName :: "u64 \<Rightarrow> string" where
  "tm_logName port = ''TmanagerLog_'' @ show_ld port @ ''.log''"

definition tm_vizName :: "u64 \<Rightarrow> string" where
  "tm_vizName port = ''TmanagerShiViz_'' @ show_ld port @ ''.dat''"

definition tm_banner :: "u64 \<Rightarrow> string" where
  "tm_banner port =
     ''Starting up Transaction Manager on '' @ show_ld port @ newline @
     ''Port number:              '' @ show_ld port @ newline @
     ''Log file name:            '' @ tm_logName port @ newline"

text \<open>The header and the records come from the file, which exists from here on.\<close>

definition tm_boot_of :: "tm_env \<Rightarrow> u64 \<Rightarrow> int \<Rightarrow> coord_crash_info \<Rightarrow> coord_record list \<Rightarrow> tm_boot" where
  "tm_boot_of env port fileExist hdr recs =
     (te_boot env)\<lparr>b_port := ucast port,
       b_file := (if te_log env (tm_logName port) = Missing then None else Some (hdr, recs)),
       b_shiviz := te_shiviz env (tm_vizName port), b_fileExist := fileExist, b_space := hdr\<rparr>"

text \<open>The ShiViz file, the check of the error count and the socket; \<open>log\<close> is missing after an error.\<close>

definition tm_start_rest ::
  "tm_env \<Rightarrow> u64 \<Rightarrow> string \<Rightarrow> string list \<Rightarrow> nat \<Rightarrow> (int \<times> coord_crash_info \<times> coord_record list) option \<Rightarrow>
    string \<times> string list \<times> tm_state started"
where
  "tm_start_rest env port out files err log =
     (let viz = tm_vizName port;
          files = (if te_open env viz then files @ [viz] else files);
          err = (if te_open env viz then err else err + 1)
      in case log of
           Some (fileExist, hdr, recs) \<Rightarrow>
             if err \<noteq> 0 then (out @ init_errors err, files, Returned (- 1))
             else (out @ tm_banner port, files,
                   case createSocket (te_socket env) (te_bind env) port of
                     None \<Rightarrow> Returned (- 1)
                   | Some p \<Rightarrow> Started [p] (tm_main (tm_boot_of env port fileExist hdr recs)))
         | None \<Rightarrow> (out @ init_errors err, files, Returned (- 1)))"

definition tm_start :: "tm_env \<Rightarrow> string list \<Rightarrow> string \<times> string list \<times> tm_state started" where
  "tm_start env argv =
     (if length argv \<noteq> 2 then (usage_port (argv ! 0), [], Returned (- 1))
      else
        let (port, converted) = strtoul (argv ! 1); name = tm_logName port in
        if \<not> converted then tm_start_rest env port conversion_error [] 1 None
        else
          let files = (if te_open env name then [name] else []) in
          case open_log (te_open env name) (te_fstat env name) (te_write env name) (b_fileExist (te_boot env))
                 (b_space (te_boot env)) (te_log env name) of
            Inl (out, r) \<Rightarrow> (out, files, Returned r)
          | Inr log \<Rightarrow> tm_start_rest env port [] files 0 (Some log))"

subsection \<open>The worker\<close>

text \<open>\<open>socket\<close> and \<open>bind\<close> are called twice; the system port is \<open>wb_sysport\<close>, the data file has a size.\<close>

record tw_env =
  we_log :: "string \<Rightarrow> (crash_info, wrecord) log_file"
  we_data :: "string \<Rightarrow> (nat \<times> objectData) option"
  we_shiviz :: "string \<Rightarrow> string"
  we_open :: "string \<Rightarrow> bool"
  we_fstat :: "string \<Rightarrow> bool"
  we_write :: "string \<Rightarrow> bool"
  we_socket :: "nat \<Rightarrow> bool"
  we_bind :: "nat \<Rightarrow> u16 \<Rightarrow> bool"
  we_boot :: tw_boot

definition tw_logName :: "u64 \<Rightarrow> string" where
  "tw_logName port = ''WorkerLog_'' @ show_ld port @ ''.log''"

definition tw_dataName :: "u64 \<Rightarrow> string" where
  "tw_dataName port = ''WorkerData_'' @ show_ld port @ ''.data''"

definition tw_vizName :: "u64 \<Rightarrow> string" where
  "tw_vizName port = ''ShiViz_'' @ show_ld port @ ''.dat''"

definition tw_banner :: "u64 \<Rightarrow> string" where
  "tw_banner port =
     ''Starting up transaction worker on '' @ show_ld port @ newline @
     ''Port number:                      '' @ show_ld port @ newline @
     ''Log file name:                    '' @ tw_logName port @ newline"

definition sizeof_ObjectData :: nat where "sizeof_ObjectData = 168"

definition tw_boot_of ::
  "tw_env \<Rightarrow> u64 \<Rightarrow> int \<Rightarrow> crash_info \<Rightarrow> wrecord list \<Rightarrow> tw_boot"
where
  "tw_boot_of env port fileExist hdr recs =
     (we_boot env)\<lparr>wb_port := ucast port,
       wb_file := (if we_log env (tw_logName port) = Missing then None else Some (hdr, recs)),
       wb_data := (case we_data env (tw_dataName port) of
                     None \<Rightarrow> None
                   | Some (n, d) \<Rightarrow> if n < sizeof_ObjectData then None else Some d),
       wb_shiviz := we_shiviz env (tw_vizName port), wb_fileExist := fileExist, wb_space := hdr\<rparr>"

text \<open>The data file and, when it opens, the ShiViz file: the files and the error count.\<close>

definition tw_open_rest :: "tw_env \<Rightarrow> u64 \<Rightarrow> string list \<Rightarrow> nat \<Rightarrow> string list \<times> nat" where
  "tw_open_rest env port files err =
     (let data = tw_dataName port; viz = tw_vizName port in
      if \<not> we_open env data then (files, err + 1)
      else if \<not> we_open env viz then (files @ [data], err + 1)
      else (files @ [data, viz], err))"

text \<open>
  The sockets: for commands, and for the manager with the port of the last run, or with a port of the
  system, which is saved.  Both are tried before the results are looked at.
\<close>

definition tw_sockets :: "tw_env \<Rightarrow> u64 \<Rightarrow> tw_boot \<Rightarrow> string \<times> u16 list option" where
  "tw_sockets env port b =
     (let cmdSock = createSocket (we_socket env 0) (we_bind env 0) port;
          out = ''cmd Socket created'' @ newline;
          fileExist = (if wb_file b \<noteq> None then 1 else wb_fileExist b);
          sys_port = (if fileExist \<noteq> 0 then getPortfromLogFile (tw_boot_state b) else 0);
          out = (if fileExist \<noteq> 0 then out @ ''Port Num: '' @ show_ld sys_port @ newline else out);
          managerSock = createSocket (we_socket env 1) (we_bind env 1) sys_port
      in case (cmdSock, managerSock) of
           (Some p, Some q) \<Rightarrow>
             if sys_port = 0
             then (out @ ''Generated port is: '' @ show_ld (ucast (wb_sysport b)) @ newline, Some [p, wb_sysport b])
             else (out, Some [p, q])
         | _ \<Rightarrow> (out, None))"

text \<open>The data file gets a new object when it is too short; then \<open>tw_main\<close>.\<close>

definition tw_map_data :: "tw_env \<Rightarrow> string \<Rightarrow> tw_boot \<Rightarrow> u16 list \<Rightarrow> string \<times> tw_state started" where
  "tw_map_data env data b socks =
     (if \<not> we_fstat env data then ([], Returned (- 2))
      else if wb_data b = None \<and> \<not> we_write env data then (writing_error, Returned (- 3))
      else ([], Started socks (tw_main b)))"

definition tw_start_rest ::
  "tw_env \<Rightarrow> u64 \<Rightarrow> string \<Rightarrow> string list \<Rightarrow> nat \<Rightarrow> (int \<times> crash_info \<times> wrecord list) option \<Rightarrow>
    string \<times> string list \<times> tw_state started"
where
  "tw_start_rest env port out files err log =
     (let (files, err) = tw_open_rest env port files err in
      case log of
        Some (fileExist, hdr, recs) \<Rightarrow>
          if err \<noteq> 0 then (out @ init_errors err, files, Returned (- 1))
          else
            let b = tw_boot_of env port fileExist hdr recs in
            (case tw_sockets env port b of
               (out', None) \<Rightarrow> (out @ out', files, Returned (- 1))
             | (out', Some socks) \<Rightarrow>
                 let (out'', r) = tw_map_data env (tw_dataName port) b socks
                 in (out @ out' @ tw_banner port @ out'', files, r))
      | None \<Rightarrow> (out @ init_errors err, files, Returned (- 1)))"

definition tw_start :: "tw_env \<Rightarrow> string list \<Rightarrow> string \<times> string list \<times> tw_state started" where
  "tw_start env argv =
     (if length argv \<noteq> 2 then (usage_port (argv ! 0), [], Returned (- 1))
      else
        let (port, converted) = strtoul (argv ! 1); name = tw_logName port in
        if \<not> converted then tw_start_rest env port conversion_error [] 1 None
        else
          let files = (if we_open env name then [name] else []) in
          case open_log (we_open env name) (we_fstat env name) (we_write env name) (wb_fileExist (we_boot env))
                 (wb_space (we_boot env)) (we_log env name) of
            Inl (out, r) \<Rightarrow> (out, files, Returned r)
          | Inr log \<Rightarrow> tw_start_rest env port [] files 0 (Some log))"

end
