(* ===== verification/Cmd.thy ===== *)
theory Cmd
  imports TxWire ShiViz Strtoul
begin

text \<open>
  The command line client cmd.c of transaction_management: from the arguments to the datagram.

  \<open>argv\<close> is a list of strings (characters without terminators).  What the program asks of its
  surroundings is a record: the host's byte order, \<open>gethostbyname\<close>, whether \<open>sendto\<close> takes the whole
  message, and the indeterminate contents of the local \<open>msg\<close>, of which the fields that a command does
  not set are sent as they are.  The result is the text on the standard output with the way the
  process ends; \<open>None\<close> is undefined behaviour.
\<close>

record cmd_env =
  ce_host :: endian
  ce_gethostbyname :: "string \<Rightarrow> u32 option"
  ce_sent :: bool
  ce_msg :: msgType

datatype cmd_end = ReturnError | NoSuchHost | Sent sockaddr_in "u8 list"

definition c_bytes :: "string \<Rightarrow> u8 list" where
  "c_bytes s = map (\<lambda>c. word_of_nat (of_char c)) s @ [0]"

subsection \<open>Usage\<close>

text \<open>In the default case \<open>printf\<close> is called without the argument that \<open>%s\<close> asks for.\<close>

definition usage :: "string \<Rightarrow> string \<Rightarrow> u32 \<Rightarrow> string option" where
  "usage cmd name type =
     (let line = (\<lambda>args. Some (''usage:  '' @ cmd @ '' '' @ name @ '' WORKER_HOST WORKER_PORT'' @ args @ newline)) in
      if type = BEGINTX \<or> type = JOINTX then line '' TX_MANAGER_HOST TX_MANAGER_PORT TID''
      else if type = NEW_A \<or> type = NEW_B then line '' NEWVALUE ''
      else if type = NEW_IDSTR then line '' newIDSTR''
      else if type = DELAY_RESPONSE then line '' DELAY''
      else if type = CRASH \<or> type = COMMIT \<or> type = COMMIT_CRASH \<or> type = ABORT \<or> type = ABORT_CRASH \<or> type = VOTE_ABORT
      then line ''''
      else None)"

subsection \<open>The arguments\<close>

text \<open>The value, and what is printed when there is no digit; \<open>err\<close>, a pointer of the function's own,
  has no effect on the caller.\<close>

definition strToUInt :: "string \<Rightarrow> string \<Rightarrow> u32 \<times> string" where
  "strToUInt arg argName =
     (let (v, converted) = strtoul arg
      in (ucast v, if converted then [] else argName @ '' conversion error'' @ newline))"

definition cmd_kind :: "string \<Rightarrow> u32 option" where
  "cmd_kind cmdType =
     (if cmdType = ''begin'' then Some BEGINTX
      else if cmdType = ''join'' then Some JOINTX
      else if cmdType = ''newa'' then Some NEW_A
      else if cmdType = ''newb'' then Some NEW_B
      else if cmdType = ''newid'' then Some NEW_IDSTR
      else if cmdType = ''crash'' then Some CRASH
      else if cmdType = ''delay'' then Some DELAY_RESPONSE
      else if cmdType = ''commit'' then Some COMMIT
      else if cmdType = ''commitcrash'' then Some COMMIT_CRASH
      else if cmdType = ''abort'' then Some ABORT
      else if cmdType = ''abortcrash'' then Some ABORT_CRASH
      else if cmdType = ''voteabort'' then Some VOTE_ABORT
      else None)"

text \<open>\<open>strcpy\<close> of an argument into the union of 64 characters, after the check of its length.\<close>

definition set_string :: "string \<Rightarrow> msgType \<Rightarrow> msgType option" where
  "set_string arg msg = do { data \<leftarrow> strcpy (m_strData msg) (c_bytes arg); Some (msg\<lparr>m_strData := data\<rparr>) }"

text \<open>The remaining arguments: printed text and message, or what is printed before \<open>return -1\<close>.\<close>

definition cmd_args :: "string list \<Rightarrow> msgType \<Rightarrow> (string option + string \<times> msgType) option" where
  "cmd_args argv msg =
     (let k = m_msgID msg; argc = length argv; use = Some (Inl (usage (argv ! 0) (argv ! 1) k)) in
      if k = BEGINTX \<or> k = JOINTX then
        (if argc < 7 then use
         else do {
           (out, msg) \<leftarrow>
             (if length (argv ! 4) > IDLEN - 1
              then Some (''TX_MANAGER_HOST must be of length '' @ show_nat (IDLEN - 1) @ newline, msg)
              else map_option (\<lambda>msg. ([], msg)) (set_string (argv ! 4) msg));
           let (port, out1) = strToUInt (argv ! 5) ''TX_MANAGER_PORT'';
               (tid, out2) = strToUInt (argv ! 6) ''TID''
           in Some (Inr (out @ out1 @ out2, msg\<lparr>m_port := port, m_tid := tid\<rparr>)) })
      else if k = NEW_A \<or> k = NEW_B then
        (if argc < 5 then use
         else let (v, out) = strToUInt (argv ! 4) ''NEWVALUE'' in Some (Inr (out, msg\<lparr>m_newValue := v\<rparr>)))
      else if k = NEW_IDSTR then
        (if argc < 5 then use
         else if length (argv ! 4) > IDLEN - 1
         then Some (Inl (Some (''NEW_IDSTR must be of length '' @ show_nat (IDLEN - 1) @ newline)))
         else map_option (\<lambda>msg. Inr ([], msg)) (set_string (argv ! 4) msg))
      else if k = DELAY_RESPONSE then
        (if argc < 5 then use
         else let (v, out) = strToUInt (argv ! 4) ''DELAY'' in Some (Inr (out, msg\<lparr>m_delay := v\<rparr>)))
      else Some (Inr ([], msg)))"

subsection \<open>The program\<close>

definition cmd_send :: "cmd_env \<Rightarrow> string \<Rightarrow> u32 \<Rightarrow> msgType \<Rightarrow> cmd_end option" where
  "cmd_send env workerHost workerPort msg =
     (case ce_gethostbyname env workerHost of
        None \<Rightarrow> Some NoSuchHost
      | Some h_addr \<Rightarrow>
          do { buffer \<leftarrow> serializeMsg (ce_host env) (replicate sizeof_msgType 0) msg;
               Some (if ce_sent env then Sent \<lparr>sin_addr = h_addr, sin_port = ucast workerPort\<rparr> buffer else ReturnError) })"

definition cmd_main :: "cmd_env \<Rightarrow> string list \<Rightarrow> (string \<times> cmd_end) option" where
  "cmd_main env argv =
     (if length argv < 2 then None
      else case cmd_kind (argv ! 1) of
        None \<Rightarrow> Some (''usage: invalid CMDTYPE'' @ newline, ReturnError)
      | Some kind \<Rightarrow>
          if length argv < 4 then map_option (\<lambda>t. (t, ReturnError)) (usage (argv ! 0) (argv ! 1) kind)
          else
            let (workerPort, out) = strToUInt (argv ! 3) ''WORKER_PORT''
            in case cmd_args argv ((ce_msg env)\<lparr>m_msgID := kind\<rparr>) of
                 None \<Rightarrow> None
               | Some (Inl None) \<Rightarrow> None
               | Some (Inl (Some text)) \<Rightarrow> Some (out @ text, ReturnError)
               | Some (Inr (out', msg)) \<Rightarrow>
                   map_option (\<lambda>r. (out @ out', r)) (cmd_send env (argv ! 2) workerPort msg))"

end
