(* ===== verification/CmdProps.thy ===== *)
theory CmdProps
  imports Cmd TWorkerProps
begin

text \<open>
  The properties of the command line client: numbers survive the way from their decimal form, the
  message that each command sends, what happens to arguments that are no numbers, and the client
  together with the worker.
\<close>

subsection \<open>Numbers\<close>

lemma digit_char: "d < 10 \<Longrightarrow> (of_char (digit d) :: nat) = 48 + d"
  by (simp add: digit_def of_char_mod_256)

lemma decimal_snoc: "decimal acc (cs @ [c]) = 10 * decimal acc cs + (of_char c - 48)"
  by (induction cs arbitrary: acc) simp_all

lemma is_digit_digit: "d < 10 \<Longrightarrow> is_digit (digit d)"
  by (simp add: is_digit_def digit_char)

lemma show_nat_digits: "list_all is_digit (show_nat n)"
proof (induction n rule: show_nat.induct)
  case (1 n)
  then show ?case by (subst show_nat.simps) (simp add: is_digit_digit)
qed

lemma decimal_show_nat: "decimal 0 (show_nat n) = n"
proof (induction n rule: show_nat.induct)
  case (1 n)
  then show ?case by (subst show_nat.simps) (auto simp: decimal_snoc digit_char)
qed

lemma digit_plain: "is_digit c \<Longrightarrow> \<not> is_space c \<and> c \<noteq> CHR ''-'' \<and> c \<noteq> CHR ''+''"
  by (auto simp: is_digit_def is_space_def)

lemma strtoul_digits:
  assumes "list_all is_digit ds" and "ds \<noteq> []" and "decimal 0 ds < 2 ^ 64"
  shows "strtoul ds = (of_nat (decimal 0 ds), True)" and "strtoul (CHR ''-'' # ds) = (- of_nat (decimal 0 ds), True)"
proof -
  obtain c cs where ds: "ds = c # cs" using assms(2) by (cases ds) auto
  then have c: "is_digit c" using assms(1) by simp
  have all: "takeWhile is_digit ds = ds" using assms(1) by (simp add: takeWhile_eq_all_conv list_all_iff)
  have "dropWhile is_space ds = ds" "sign ds = (False, ds)"
    using digit_plain [OF c] by (simp_all add: ds)
  then show "strtoul ds = (of_nat (decimal 0 ds), True)"
    using assms(2,3) by (simp add: strtoul_def all Let_def)
  have "\<not> is_space (CHR ''-'')" by (simp add: is_space_def)
  then show "strtoul (CHR ''-'' # ds) = (- of_nat (decimal 0 ds), True)"
    using assms(2,3) by (simp add: strtoul_def all Let_def)
qed

lemma strtoul_show:
  assumes "n < 2 ^ 64"
  shows "strtoul (show_nat n) = (of_nat n, True)" and "strtoul (CHR ''-'' # show_nat n) = (- of_nat n, True)"
proof -
  have "show_nat n \<noteq> []" using length_show_nat_pos [of n] by auto
  then show "strtoul (show_nat n) = (of_nat n, True)" and "strtoul (CHR ''-'' # show_nat n) = (- of_nat n, True)"
    using strtoul_digits [OF show_nat_digits] assms by (simp_all add: decimal_show_nat)
qed

lemma ucast_of_int: "ucast (of_int k :: u64) = (of_int k :: u32)"
proof -
  have "ucast (of_int k :: u64) = (word_of_int (take_bit LENGTH(64) k) :: u32)"
    by (simp add: unsigned_of_int)
  also have "\<dots> = of_int k"
    by (simp add: word_of_int_eq_iff take_bit_take_bit)
  finally show ?thesis .
qed

lemma strToUInt_nat:
  assumes "n < 2 ^ 64"
  shows "strToUInt (show_nat n) name = (of_int (int n), [])" and "strToUInt (CHR ''-'' # show_nat n) name = (of_int (- int n), [])"
  using ucast_of_int [of "int n"] ucast_of_int [of "- int n"] strtoul_show [OF assms]
  by (simp_all add: strToUInt_def)

lemma strToUInt_show_u: "strToUInt (show_u w) name = (w, [])"
proof -
  have "unat w < 2 ^ LENGTH(32)" by (rule unsigned_less)
  then show ?thesis using strToUInt_nat(1) [of "unat w"] by (simp add: show_u_def)
qed

lemma strToUInt_show_d: "strToUInt (show_d w) name = (w, [])"
proof -
  have range: "- (2 ^ 31) \<le> sint w" "sint w < 2 ^ 31"
    using sint_greater_eq [of w] sint_less [of w] by simp_all
  have w: "of_int (sint w) = w" by simp
  show ?thesis
  proof (cases "sint w < 0")
    case True
    then have "int (nat (- sint w)) = - sint w" "nat (- sint w) < 2 ^ 64" using range by simp_all
    with True w strToUInt_nat(2) [of "nat (- sint w)" name] show ?thesis by (simp add: show_d_def Let_def)
  next
    case False
    then have "int (nat (sint w)) = sint w" "nat (sint w) < 2 ^ 64" using range by simp_all
    moreover have "show_d w = show_nat (nat (sint w))" using False by (simp add: show_d_def)
    ultimately show ?thesis using w strToUInt_nat(1) [of "nat (sint w)" name] by simp
  qed
qed


text \<open>A 32-bit number given as an argument in decimal is read back, signed and unsigned.\<close>

theorem numbers_read_back: "strToUInt (show_u w) name = (w, []) \<and> strToUInt (show_d w) name = (w, [])"
  by (simp add: strToUInt_show_u strToUInt_show_d)

subsection \<open>The message of a command\<close>

text \<open>What the arguments say about the message.\<close>

definition field :: "string \<Rightarrow> u32" where
  "field arg = fst (strToUInt arg [])"

lemma field_eq: "fst (strToUInt arg name) = field arg"
  by (simp add: field_def strToUInt_def case_prod_beta Let_def)

definition chars :: "string \<Rightarrow> u8 list" where
  "chars s = map (\<lambda>c. word_of_nat (of_char c)) s"

lemma c_bytes_chars: "c_bytes s = chars s @ [0]" "length (chars s) = length s"
  by (simp_all add: c_bytes_def chars_def)

definition meant :: "string list \<Rightarrow> msgType \<Rightarrow> msgType \<Rightarrow> bool" where
  "meant argv junk m \<longleftrightarrow>
     (let k = m_msgID m in
      cmd_kind (argv ! 1) = Some k \<and>
      (k = NEW_A \<or> k = NEW_B \<longrightarrow> m_newValue m = field (argv ! 4)) \<and>
      (k = DELAY_RESPONSE \<longrightarrow> m_delay m = field (argv ! 4)) \<and>
      (k = NEW_IDSTR \<longrightarrow> length (argv ! 4) < IDLEN \<and> c_string (newID m) = c_string (c_bytes (argv ! 4))) \<and>
      (k = BEGINTX \<or> k = JOINTX \<longrightarrow> m_port m = field (argv ! 5) \<and> m_tid m = field (argv ! 6) \<and>
         (if length (argv ! 4) < IDLEN then c_string (hostName m) = c_string (c_bytes (argv ! 4))
          else hostName m = hostName junk)))"

lemma set_stringD:
  "set_string arg msg = Some m \<Longrightarrow>
    \<exists>data. m = msg\<lparr>m_strData := data\<rparr> \<and> length data = length (m_strData msg) \<and> c_string data = c_string (c_bytes arg)"
  by (auto simp: set_string_def bind_eq_Some_conv strcpy_string(1) strcpy_length)

lemma set_string_total:
  assumes "length arg < IDLEN" and "length (m_strData msg) = IDLEN"
  shows "\<exists>m. set_string arg msg = Some m"
proof -
  have src: "0 \<in> set (c_bytes arg)" by (simp add: c_bytes_chars)
  then have "length (c_string (c_bytes arg)) < length (c_bytes arg)"
    using c_strlen_less [of "c_bytes arg"] by (simp add: c_strlen_def c_string_def)
  with assms have "length (c_string (c_bytes arg)) < length (m_strData msg)" by (simp add: c_bytes_chars)
  from strcpy_total [OF src this] show ?thesis by (auto simp: set_string_def)
qed

lemma cmd_args_meant:
  assumes "cmd_args argv (junk\<lparr>m_msgID := k\<rparr>) = Some (Inr (out, m))" and "cmd_kind (argv ! 1) = Some k"
    and "wf_msgType junk"
  shows "meant argv junk m \<and> wf_msgType m"
proof -
  let ?msg = "junk\<lparr>m_msgID := k\<rparr>"
  consider (start) "k = BEGINTX \<or> k = JOINTX" | (val) "k = NEW_A \<or> k = NEW_B" | (id) "k = NEW_IDSTR"
    | (delay) "k = DELAY_RESPONSE" | (other) "k \<notin> {BEGINTX, JOINTX, NEW_A, NEW_B, NEW_IDSTR, DELAY_RESPONSE}"
    by blast
  then show ?thesis
  proof cases
    case start
    show ?thesis
    proof (cases "length (argv ! 4) > IDLEN - 1")
      case True
      then have "m = ?msg\<lparr>m_port := field (argv ! 5), m_tid := field (argv ! 6)\<rparr>"
        using assms(1) start by (auto simp: cmd_args_def Let_def case_prod_beta field_eq split: if_splits)
      with True start assms(2,3) show ?thesis by (auto simp: meant_def Let_def wf_msgType_def)
    next
      case False
      then obtain m' where "set_string (argv ! 4) ?msg = Some m'"
          "m = m'\<lparr>m_port := field (argv ! 5), m_tid := field (argv ! 6)\<rparr>"
        using assms(1) start by (auto simp: cmd_args_def Let_def case_prod_beta field_eq bind_eq_Some_conv split: if_splits)
      with False start assms(2,3) show ?thesis by (auto simp: meant_def Let_def wf_msgType_def dest!: set_stringD)
    qed
  next
    case val
    then have "m = ?msg\<lparr>m_newValue := field (argv ! 4)\<rparr>"
      using assms(1) by (auto simp: cmd_args_def Let_def case_prod_beta field_eq split: if_splits)
    with val assms(2,3) show ?thesis by (auto simp: meant_def Let_def wf_msgType_def)
  next
    case id
    then have "set_string (argv ! 4) ?msg = Some m" "length (argv ! 4) < IDLEN"
      using assms(1) by (auto simp: cmd_args_def Let_def split: if_splits)
    with id assms(2,3) show ?thesis by (auto simp: meant_def Let_def wf_msgType_def dest!: set_stringD)
  next
    case delay
    then have "m = ?msg\<lparr>m_delay := field (argv ! 4)\<rparr>"
      using assms(1) by (auto simp: cmd_args_def Let_def case_prod_beta field_eq split: if_splits)
    with delay assms(2,3) show ?thesis by (auto simp: meant_def Let_def wf_msgType_def)
  next
    case other
    then have "m = ?msg" using assms(1) by (auto simp: cmd_args_def Let_def split: if_splits)
    with other assms(2,3) show ?thesis by (auto simp: meant_def Let_def wf_msgType_def)
  qed
qed

lemma cmd_main_Sent:
  assumes "cmd_main env argv = Some (out, Sent to bytes)"
  shows "\<exists>k out' m. cmd_kind (argv ! 1) = Some k \<and> 4 \<le> length argv \<and>
    cmd_args argv ((ce_msg env)\<lparr>m_msgID := k\<rparr>) = Some (Inr (out', m)) \<and>
    out = snd (strToUInt (argv ! 3) ''WORKER_PORT'') @ out' \<and>
    cmd_send env (argv ! 2) (field (argv ! 3)) m = Some (Sent to bytes)"
  using assms
  by (auto simp: cmd_main_def Let_def case_prod_beta field_eq split: if_splits option.splits sum.splits)

lemma cmd_send_Sent:
  assumes "cmd_send env host port m = Some (Sent to bytes)" and "wf_msgType m"
  shows "ce_gethostbyname env host = Some (sin_addr to) \<and> sin_port to = ucast port \<and> bytes = msgBytes m"
proof -
  have "serializeMsg (ce_host env) (replicate sizeof_msgType 0) m = Some (msgBytes m)"
    using serializeMsg_fits [OF assms(2), of "replicate sizeof_msgType 0" "ce_host env"]
    by (simp add: overlay_all length_msgBytes [OF assms(2)])
  with assms(1) show ?thesis by (auto simp: cmd_send_def split: option.splits if_splits)
qed

text \<open>What is sent is a whole message, addressed to the worker's host and port, that a worker of any byte
  order reads as the command that the arguments describe.  A host name of 64 or more characters
  is refused with a text only: the message goes out with the indeterminate contents of \<open>msg\<close>.\<close>

theorem command_sent:
  assumes "cmd_main env argv = Some (out, Sent to bytes)" and "wf_msgType (ce_msg env)"
  shows "ce_gethostbyname env (argv ! 2) = Some (sin_addr to) \<and> sin_port to = ucast (field (argv ! 3)) \<and>
    length bytes = sizeof_msgType \<and>
    (\<exists>m. meant argv (ce_msg env) m \<and> (\<forall>e rest. deserializeMsg e (bytes @ rest) = Some m))"
proof -
  from cmd_main_Sent [OF assms(1)] obtain k out' m where
    "cmd_kind (argv ! 1) = Some k" "cmd_args argv ((ce_msg env)\<lparr>m_msgID := k\<rparr>) = Some (Inr (out', m))"
    and send: "cmd_send env (argv ! 2) (field (argv ! 3)) m = Some (Sent to bytes)"
    by blast
  then have m: "meant argv (ce_msg env) m" "wf_msgType m" using cmd_args_meant assms(2) by blast+
  then show ?thesis
    using cmd_send_Sent [OF send m(2)] length_msgBytes [OF m(2)] deserializeMsg_msgBytes [OF m(2)] by auto
qed


definition demo_cmd_env :: cmd_env where
  "demo_cmd_env = \<lparr>ce_host = Little, ce_gethostbyname = (\<lambda>h. if h = ''localhost'' then Some 7 else None), ce_sent = True,
     ce_msg = \<lparr>m_msgID = 99, m_tid = 98, m_port = 97, m_newValue = 96, m_delay = 95, m_strData = replicate 64 94\<rparr>\<rparr>"

lemma value_sent:
  assumes "ce_gethostbyname env host = Some a" and "ce_sent env" and "wf_msgType (ce_msg env)"
  shows "cmd_main env [prog, ''newa'', host, port, arg] =
      Some (snd (strToUInt port ''WORKER_PORT'') @ snd (strToUInt arg ''NEWVALUE''),
        Sent \<lparr>sin_addr = a, sin_port = ucast (field port)\<rparr>
          (msgBytes ((ce_msg env)\<lparr>m_msgID := NEW_A, m_newValue := field arg\<rparr>)))"
    and "cmd_main env [prog, ''newb'', host, port, arg] =
      Some (snd (strToUInt port ''WORKER_PORT'') @ snd (strToUInt arg ''NEWVALUE''),
        Sent \<lparr>sin_addr = a, sin_port = ucast (field port)\<rparr>
          (msgBytes ((ce_msg env)\<lparr>m_msgID := NEW_B, m_newValue := field arg\<rparr>)))"
    and "cmd_main env [prog, ''delay'', host, port, arg] =
      Some (snd (strToUInt port ''WORKER_PORT'') @ snd (strToUInt arg ''DELAY''),
        Sent \<lparr>sin_addr = a, sin_port = ucast (field port)\<rparr>
          (msgBytes ((ce_msg env)\<lparr>m_msgID := DELAY_RESPONSE, m_delay := field arg\<rparr>)))"
proof -
  have send: "cmd_send env host p m = Some (Sent \<lparr>sin_addr = a, sin_port = ucast p\<rparr> (msgBytes m))"
    if "wf_msgType m" for p m
    using serializeMsg_fits [OF that, of "replicate sizeof_msgType 0" "ce_host env"] assms(1,2)
    by (simp add: cmd_send_def overlay_all length_msgBytes [OF that])
  have wf: "wf_msgType ((ce_msg env)\<lparr>m_msgID := k, m_newValue := v\<rparr>)" "wf_msgType ((ce_msg env)\<lparr>m_msgID := k, m_delay := v\<rparr>)" for k v
    using assms(3) by (simp_all add: wf_msgType_def)
  show "cmd_main env [prog, ''newa'', host, port, arg] =
      Some (snd (strToUInt port ''WORKER_PORT'') @ snd (strToUInt arg ''NEWVALUE''),
        Sent \<lparr>sin_addr = a, sin_port = ucast (field port)\<rparr>
          (msgBytes ((ce_msg env)\<lparr>m_msgID := NEW_A, m_newValue := field arg\<rparr>)))"
    and "cmd_main env [prog, ''newb'', host, port, arg] =
      Some (snd (strToUInt port ''WORKER_PORT'') @ snd (strToUInt arg ''NEWVALUE''),
        Sent \<lparr>sin_addr = a, sin_port = ucast (field port)\<rparr>
          (msgBytes ((ce_msg env)\<lparr>m_msgID := NEW_B, m_newValue := field arg\<rparr>)))"
    and "cmd_main env [prog, ''delay'', host, port, arg] =
      Some (snd (strToUInt port ''WORKER_PORT'') @ snd (strToUInt arg ''DELAY''),
        Sent \<lparr>sin_addr = a, sin_port = ucast (field port)\<rparr>
          (msgBytes ((ce_msg env)\<lparr>m_msgID := DELAY_RESPONSE, m_delay := field arg\<rparr>)))"
    by (simp_all add: cmd_main_def cmd_kind_def cmd_args_def Let_def case_prod_beta field_eq send wf)
qed

theorem command_sent_witness:
  "\<exists>bytes m. cmd_main demo_cmd_env [''cmd'', ''newa'', ''localhost'', show_u 5000, show_d (- 12)] =
      Some ([], Sent \<lparr>sin_addr = 7, sin_port = 5000\<rparr> bytes) \<and>
    deserializeMsg Big (bytes @ []) = Some m \<and> m_msgID m = NEW_A \<and> m_newValue m = - 12"
proof -
  have wf: "wf_msgType (ce_msg demo_cmd_env)" by (simp add: demo_cmd_env_def wf_msgType_def)
  note num = strToUInt_show_u strToUInt_show_d
  obtain bytes where main: "cmd_main demo_cmd_env [''cmd'', ''newa'', ''localhost'', show_u 5000, show_d (- 12)] =
      Some ([], Sent \<lparr>sin_addr = 7, sin_port = 5000\<rparr> bytes)"
    using value_sent(1) [of demo_cmd_env "''localhost''" 7 "''cmd''" "show_u 5000" "show_d (- 12)", OF _ _ wf]
    by (simp add: num field_def demo_cmd_env_def)
  have "cmd_kind ''newa'' = Some NEW_A" by (simp add: cmd_kind_def)
  moreover from command_sent [OF main wf] obtain m
    where "meant [''cmd'', ''newa'', ''localhost'', show_u 5000, show_d (- 12)] (ce_msg demo_cmd_env) m"
      and m: "deserializeMsg Big (bytes @ []) = Some m"
    by blast
  ultimately have "m_msgID m = NEW_A" "m_newValue m = - 12" by (auto simp: meant_def Let_def num field_def)
  with main m show ?thesis by blast
qed

subsection \<open>The client and the worker\<close>

lemma worker_value:
  assumes "wf_tw s" and "tw_pc s = MainLoop" and "tw_nodeId s \<in> known (tw_clock s)"
    and "deserializeMsg (tw_host s) (ci_buf c) = Some m" and "m_msgID m \<in> {NEW_A, NEW_B, DELAY_RESPONSE}"
  shows "\<exists>t. tw_step (from_cmd c) s = Running t \<and>
    (m_msgID m = NEW_A \<longrightarrow> o_A (tw_objData t) = m_newValue m) \<and>
    (m_msgID m = NEW_B \<longrightarrow> o_B (tw_objData t) = m_newValue m) \<and>
    (m_msgID m = DELAY_RESPONSE \<longrightarrow> tw_delay t = m_delay m)"
proof -
  have clk: "tw_clock (log_old m f s) = tw_clock s" "tw_nodeId (log_old m f s) = tw_nodeId s" for f
    by (simp_all add: log_old_def Let_def)
  have idx: "own_index (u\<lparr>tw_objData := d\<rparr>) = own_index u" "own_index (log_old m f s) = own_index s" for u d f
    using clk by (simp_all add: own_index_def)
  have own: "own_index s < 10" using own_index_less [OF assms(1,3)] .
  from assms(5) show ?thesis unfolding from_cmd_step [OF assms(2,4)]
    by (auto simp: handle_cmd_def cmd_new_A_def cmd_new_B_def Let_def finish_update_eq idx own)
qed

text \<open>C15: the commands newa, newb and delay with a decimal number: the worker's next round on the command
  socket stores that number, negative numbers included.\<close>

theorem command_takes_effect:
  assumes "kind \<in> {''newa'', ''newb'', ''delay''}" and "ce_gethostbyname env host = Some a" and "ce_sent env"
    and "wf_msgType (ce_msg env)" and "wf_tw s" and "tw_pc s = MainLoop" and "tw_nodeId s \<in> known (tw_clock s)"
  shows "\<exists>out to bytes. cmd_main env [prog, kind, host, port, show_d w] = Some (out, Sent to bytes) \<and>
    (\<forall>c rest. ci_buf c = bytes @ rest \<longrightarrow> (\<exists>t. tw_step (from_cmd c) s = Running t \<and>
      (kind = ''newa'' \<longrightarrow> o_A (tw_objData t) = w) \<and> (kind = ''newb'' \<longrightarrow> o_B (tw_objData t) = w) \<and>
      (kind = ''delay'' \<longrightarrow> tw_delay t = w)))"
proof -
  have w: "field (show_d w) = w" by (simp add: field_def strToUInt_show_d)
  have parse: "deserializeMsg (tw_host s) (ci_buf c) = Some m" if "ci_buf c = msgBytes m @ rest" "wf_msgType m" for c m rest
    using that deserializeMsg_msgBytes by simp
  have wf: "wf_msgType ((ce_msg env)\<lparr>m_msgID := k, m_newValue := v\<rparr>)" "wf_msgType ((ce_msg env)\<lparr>m_msgID := k, m_delay := v\<rparr>)" for k v
    using assms(4) by (simp_all add: wf_msgType_def)
  note eff = worker_value [OF assms(5-7)]
  note sent = value_sent [OF assms(2-4), of prog port "show_d w", unfolded w]
  consider "kind = ''newa''" | "kind = ''newb''" | "kind = ''delay''" using assms(1) by blast
  then show ?thesis
  proof cases
    case 1
    have "\<exists>t. tw_step (from_cmd c) s = Running t \<and> o_A (tw_objData t) = w"
      if "ci_buf c = msgBytes ((ce_msg env)\<lparr>m_msgID := NEW_A, m_newValue := w\<rparr>) @ rest" for c rest
      using eff [OF parse [OF that wf(1)]] by auto
    with 1 sent(1) show ?thesis by auto
  next
    case 2
    have "\<exists>t. tw_step (from_cmd c) s = Running t \<and> o_B (tw_objData t) = w"
      if "ci_buf c = msgBytes ((ce_msg env)\<lparr>m_msgID := NEW_B, m_newValue := w\<rparr>) @ rest" for c rest
      using eff [OF parse [OF that wf(1)]] by auto
    with 2 sent(2) show ?thesis by auto
  next
    case 3
    have "\<exists>t. tw_step (from_cmd c) s = Running t \<and> tw_delay t = w"
      if "ci_buf c = msgBytes ((ce_msg env)\<lparr>m_msgID := DELAY_RESPONSE, m_delay := w\<rparr>) @ rest" for c rest
      using eff [OF parse [OF that wf(2)]] by auto
    with 3 sent(3) show ?thesis by auto
  qed
qed

text \<open>\<open>strToUInt\<close> counts a conversion error in its own pointer (line 68), so that \<open>main\<close> never sees one:
  a value without digits is reported and sent as 0, and the worker stores it.\<close>

theorem wrong_number_sent:
  assumes "\<not> snd (strtoul arg)" and "ce_gethostbyname env host = Some a" and "ce_sent env"
    and "wf_msgType (ce_msg env)" and "wf_tw s" and "tw_pc s = MainLoop" and "tw_nodeId s \<in> known (tw_clock s)"
  shows "\<exists>out to bytes. cmd_main env [prog, ''newa'', host, show_u p, arg] = Some (out, Sent to bytes) \<and>
    out = ''NEWVALUE conversion error'' @ newline \<and>
    (\<forall>c rest. ci_buf c = bytes @ rest \<longrightarrow> (\<exists>t. tw_step (from_cmd c) s = Running t \<and> o_A (tw_objData t) = 0))"
proof -
  have zero: "strtoul arg = (0, False)" using assms(1) by (auto simp: strtoul_def Let_def case_prod_beta split: if_splits)
  let ?m = "(ce_msg env)\<lparr>m_msgID := NEW_A, m_newValue := 0\<rparr>"
  have "wf_msgType ?m" using assms(4) by (simp add: wf_msgType_def)
  then have "\<exists>t. tw_step (from_cmd c) s = Running t \<and> o_A (tw_objData t) = 0" if "ci_buf c = msgBytes ?m @ rest" for c rest
    using worker_value [OF assms(5-7), of c ?m] deserializeMsg_msgBytes [of ?m "tw_host s" rest] that by simp
  moreover have "field arg = 0" "strToUInt arg ''NEWVALUE'' = (0, ''NEWVALUE conversion error'' @ newline)"
    by (simp_all add: field_def strToUInt_def zero)
  then have "cmd_main env [prog, ''newa'', host, show_u p, arg] =
      Some (''NEWVALUE conversion error'' @ newline, Sent \<lparr>sin_addr = a, sin_port = ucast (field (show_u p))\<rparr> (msgBytes ?m))"
    using value_sent(1) [OF assms(2-4), of prog "show_u p" arg] by (simp add: strToUInt_show_u)
  ultimately show ?thesis by auto
qed

theorem command_takes_effect_witness:
  "\<exists>out to bytes. cmd_main demo_cmd_env [''cmd'', ''delay'', ''localhost'', ''5000'', show_d (- 1000)] = Some (out, Sent to bytes) \<and>
    (\<forall>c rest. ci_buf c = bytes @ rest \<longrightarrow> (\<exists>t. tw_step (from_cmd c) (demo_tw [] MainLoop) = Running t \<and> tw_delay t = - 1000))"
proof -
  have env: "ce_gethostbyname demo_cmd_env ''localhost'' = Some 7" "ce_sent demo_cmd_env" "wf_msgType (ce_msg demo_cmd_env)"
    by (simp_all add: demo_cmd_env_def wf_msgType_def)
  have "5001 \<in> known (tw_clock (demo_tw [] MainLoop))" by (simp add: demo_tw_def first_clock_def)
  then show ?thesis
    using command_takes_effect [of "''delay''", OF _ env wf_demo(4), of "[]" MainLoop "''cmd''" "''5000''" "- 1000"] by simp
qed

theorem wrong_number_sent_witness:
  "\<exists>out to bytes. cmd_main demo_cmd_env [''cmd'', ''newa'', ''localhost'', show_u 5000, ''ten''] = Some (out, Sent to bytes) \<and>
    out = ''NEWVALUE conversion error'' @ newline"
proof -
  have env: "ce_gethostbyname demo_cmd_env ''localhost'' = Some 7" "ce_sent demo_cmd_env" "wf_msgType (ce_msg demo_cmd_env)"
    by (simp_all add: demo_cmd_env_def wf_msgType_def)
  have "\<not> snd (strtoul ''ten'')"
    by (simp add: strtoul_def is_space_def is_digit_def)
  moreover have "5001 \<in> known (tw_clock (demo_tw [] MainLoop))" by (simp add: demo_tw_def first_clock_def)
  ultimately have "\<exists>out to bytes. cmd_main demo_cmd_env [''cmd'', ''newa'', ''localhost'', show_u 5000, ''ten''] = Some (out, Sent to bytes) \<and>
    out = ''NEWVALUE conversion error'' @ newline \<and>
    (\<forall>c rest. ci_buf c = bytes @ rest \<longrightarrow> (\<exists>t. tw_step (from_cmd c) (demo_tw [] MainLoop) = Running t \<and> o_A (tw_objData t) = 0))"
    using env by (intro wrong_number_sent) simp_all
  then show ?thesis by blast
qed

end
