(* ===== verification/StartupProps.thy ===== *)
theory StartupProps
  imports Startup TManagerLife TWorkerRecovery CmdProps
begin

text \<open>
  What the start of manager and worker promises: when it goes through, what a failed start leaves
  behind, and that a process started again with the same argument finds its files, its log and its
  sockets.
\<close>

subsection \<open>When a start goes through\<close>

text \<open>All files open and take what is written.\<close>

definition tm_willing :: "tm_env \<Rightarrow> bool" where
  "tm_willing env \<longleftrightarrow> (\<forall>f. te_open env f \<and> te_fstat env f \<and> te_write env f) \<and> te_socket env \<and> (\<forall>p. te_bind env p)"

definition tw_willing :: "tw_env \<Rightarrow> bool" where
  "tw_willing env \<longleftrightarrow> (\<forall>f. we_open env f \<and> we_fstat env f \<and> we_write env f) \<and> (\<forall>n. we_socket env n) \<and>
     (\<forall>n p. we_bind env n p)"

lemma createSocket_Some [simp]: "createSocket ok b port = Some p \<longleftrightarrow> ok \<and> b p \<and> p = ucast port"
  by (auto simp: createSocket_def Let_def)

lemma tm_startedD:
  assumes "tm_start env [cmd, arg] = (out, files, Started ps r)" and "strtoul arg = (port, True)"
  shows "ps = [ucast port] \<and> (\<exists>e h rs. r = tm_main (tm_boot_of env port e h rs))"
  using assms
  by (auto simp: tm_start_def tm_start_rest_def Let_def split: sum.splits option.splits if_splits prod.splits)

lemma strtoul_of_started:
  assumes "tm_start env [cmd, arg] = (out, files, Started ps r)"
  shows "\<exists>port. strtoul arg = (port, True)"
  using assms by (auto simp: tm_start_def tm_start_rest_def Let_def split: if_splits prod.splits)

lemma tm_start_willing:
  assumes "tm_willing env" and "strtoul arg = (port, True)" and "te_log env (tm_logName port) = Whole h rs"
  shows "tm_start env [cmd, arg] =
    (tm_banner port, [tm_logName port, tm_vizName port], Started [ucast port] (tm_main (tm_boot_of env port 1 h rs)))"
  using assms by (simp add: tm_start_def tm_start_rest_def open_log_def tm_willing_def createSocket_def)

subsection \<open>The manager started again\<close>

text \<open>The files that a manager leaves when it ends in state \<open>t\<close> are what the next process finds.\<close>

definition tm_leaves :: "u64 \<Rightarrow> tm_state \<Rightarrow> tm_env \<Rightarrow> bool" where
  "tm_leaves port t env \<longleftrightarrow> te_log env (tm_logName port) = Whole (tm_crashInfo t) (tm_log t) \<and>
     te_shiviz env (tm_vizName port) = tm_shiviz t \<and> b_host (te_boot env) = tm_host t"

lemma tm_main_port: "out_all (\<lambda>s. tm_port s = b_port b) (tm_main b)"
proof -
  have "tm_port (resend_aborts m n ts s) = tm_port s" for m n ts s
    by (induction m n ts s rule: resend_aborts.induct) (simp_all)
  then show ?thesis
    by (auto simp: tm_main_def tm_first_start_def tm_restart_def Let_def boot_state_def findStateFromRecord_def
      restoreVectorTime_def split: option.splits prod.splits)
qed

lemma tm_boot_of_port: "b_port (tm_boot_of env port e h rs) = ucast port"
  by (simp add: tm_boot_of_def)

lemma tm_main_not_exited: "tm_main b \<noteq> Exited u"
  by (simp add: tm_main_def tm_restart_def findStateFromRecord_def Let_def split: option.split)

lemma tm_started_run_port:
  assumes "tm_start env [cmd, arg] = (out, files, Started ps r)" and "strtoul arg = (port, True)"
  shows "out_all (\<lambda>t. tm_port t = ucast port) (seq r (run handleWorkerMsg es))"
proof (rule out_all_seq)
  show "out_all (\<lambda>t. tm_port t = ucast port) r"
    using tm_startedD [OF assms] tm_main_port tm_boot_of_port by metis
  show "out_all (\<lambda>t. tm_port t = ucast port) (run handleWorkerMsg es s)" if "tm_port s = ucast port" for s
    using tm_growing.run_le [of s es] that by (auto simp: log_le_def elim!: out_all_mono)
qed

text \<open>
  C22: a manager that is started again with the same argument goes on with what the process before it
  left.  Whatever datagrams and timeouts the first process handled, and however it ended, the
  second one opens the log and the ShiViz file of the same names, binds the same port, and boots from the
  state in which the first one stopped: with its log and its table of transactions.
\<close>

theorem manager_started_again:
  assumes "tm_start env [cmd, arg] = (out, files, Started ps r)"
    and "strtoul arg = (port, True)"
    and "seq r (run handleWorkerMsg es) = Exited t \<or> seq r (run handleWorkerMsg es) = Running t"
    and "tm_leaves port t env'" and "tm_willing env'"
  shows "\<exists>b. boots_from b t \<and>
    tm_start env' [cmd, arg] = (tm_banner port, [tm_logName port, tm_vizName port], Started ps (tm_main b)) \<and>
    out_all (\<lambda>u. tm_log u = tm_log t \<and> tm_rows u = tm_rows t) (tm_main b)"
proof -
  let ?b = "tm_boot_of env' port 1 (tm_crashInfo t) (tm_log t)"
  have "tm_port t = ucast port" using tm_started_run_port [OF assms(1,2), of es] assms(3) by auto
  then have b: "boots_from ?b t" using assms(4) by (simp add: boots_from_def tm_boot_of_def tm_leaves_def)
  have "out_all (\<lambda>u. tm_log u = tm_log t \<and> tm_rows u = tm_rows t) (tm_main ?b)"
    using restart_state [OF b] by (cases "tm_main ?b") (simp_all add: tm_main_not_exited)
  moreover have "ps = [ucast port]" using tm_startedD [OF assms(1,2)] by simp
  ultimately show ?thesis
    using b tm_start_willing [OF assms(5,2)] assms(4) by (auto simp: tm_leaves_def)
qed

definition demo_tm_env :: "(coord_crash_info, coord_record) log_file \<Rightarrow> string \<Rightarrow> tm_env" where
  "demo_tm_env file viz = \<lparr>te_log = (\<lambda>_. file), te_shiviz = (\<lambda>_. viz), te_open = (\<lambda>_. True),
     te_fstat = (\<lambda>_. True), te_write = (\<lambda>_. True), te_socket = True, te_bind = (\<lambda>_. True), te_boot = demo_boot\<rparr>"

lemma tm_start_fresh:
  assumes "tm_willing env" and "strtoul arg = (port, True)" and "te_log env (tm_logName port) = Missing"
    and "b_fileExist (te_boot env) = 0"
  shows "\<exists>b. tm_start env [cmd, arg] = (tm_banner port, [tm_logName port, tm_vizName port],
    Started [ucast port] (Running (tm_first_start (boot_state b)))) \<and> b_host b = b_host (te_boot env)"
  using assms
  by (simp add: tm_start_def tm_start_rest_def open_log_def tm_willing_def createSocket_def tm_main_def
      tm_boot_of_def exI [of _ "tm_boot_of env port 0 (b_space (te_boot env)) []"])

theorem manager_started_again_witness:
  "\<exists>t b viz. boots_from b t \<and> snd (snd (tm_start (demo_tm_env (Whole (tm_crashInfo t) (tm_log t)) viz)
     [''tmanager'', ''1500''])) = Started [1500] (tm_main b)"
proof -
  have arg: "strtoul ''1500'' = (1500, True)" by (simp add: strtoul_def is_space_def is_digit_def)
  have w: "tm_willing (demo_tm_env f v)" for f v by (simp add: tm_willing_def demo_tm_env_def)
  obtain b where b: "tm_start (demo_tm_env Missing '''') [''tmanager'', ''1500''] =
      (tm_banner 1500, [tm_logName 1500, tm_vizName 1500], Started [ucast (1500 :: u64)] (Running (tm_first_start (boot_state b))))"
      "b_host b = b_host demo_boot"
    using tm_start_fresh [OF w arg, of Missing "''''" "''tmanager''"]
    by (auto simp: demo_tm_env_def demo_boot_def)
  let ?t = "tm_first_start (boot_state b)"
  have "tm_leaves 1500 ?t (demo_tm_env (Whole (tm_crashInfo ?t) (tm_log ?t)) (tm_shiviz ?t))"
    using b(2) by (simp add: tm_leaves_def demo_tm_env_def tm_first_start_def boot_state_def Let_def split: prod.split)
  from manager_started_again [OF b(1) arg, of "[]", simplified, OF refl this w]
  obtain b' where b': "boots_from b' ?t"
      "tm_start (demo_tm_env (Whole (tm_crashInfo ?t) (tm_log ?t)) (tm_shiviz ?t)) [''tmanager'', ''1500''] =
       (tm_banner 1500, [tm_logName 1500, tm_vizName 1500], Started [1500] (tm_main b'))"
    by auto
  show ?thesis by (intro exI [of _ ?t] exI [of _ b'] exI [of _ "tm_shiviz ?t"] conjI b'(1)) (simp add: b'(2))
qed

subsection \<open>The worker started again\<close>

definition tw_leaves :: "u64 \<Rightarrow> tw_state \<Rightarrow> tw_env \<Rightarrow> bool" where
  "tw_leaves port t env \<longleftrightarrow> we_log env (tw_logName port) = Whole (tw_crashInfo t) (tw_log t) \<and>
     we_data env (tw_dataName port) = Some (sizeof_ObjectData, tw_objData t) \<and>
     we_shiviz env (tw_vizName port) = tw_shiviz t \<and> wb_host (we_boot env) = tw_host t"

lemma tw_findState_frame: "tw_findStateFromRecord s = Some (k, t) \<Longrightarrow> sys_port t = sys_port s"
  by (auto simp: tw_findStateFromRecord_def bind_eq_Some_conv Let_def split: if_splits)

lemma tw_restart_port: "sys_port s = p \<Longrightarrow> out_all (\<lambda>t. sys_port t = p) (tw_restart s)"
proof -
  have "sys_port (tw_saveVectorTime (tw_tickMyClock (tw_restoreVectorTime s))) = sys_port s"
    by (simp add: tw_restoreVectorTime_def)
  moreover assume "sys_port s = p"
  ultimately show ?thesis
    by (auto simp: tw_restart_def recover_abort_def Let_def dest!: tw_findState_frame readVal_frame
        split: option.split prod.split)
qed

text \<open>The port of the manager socket is the one in the header, unless there is none yet.\<close>

definition boot_port :: "tw_boot \<Rightarrow> u64" where
  "boot_port b =
     (let p = if wb_file b \<noteq> None \<or> wb_fileExist b \<noteq> 0 then sys_port (tw_boot_state b) else 0
      in if p = 0 then ucast (wb_sysport b) else p)"

lemma tw_main_port: "out_all (\<lambda>s. sys_port s = boot_port b) (tw_main b)"
proof -
  have "sys_port (tw_first_start now s) = sys_port s" for now s by (simp add: tw_first_start_def Let_def)
  moreover have "sys_port (savePort p s) = ucast p" for p s by (simp add: savePort_def)
  ultimately show ?thesis
    by (auto simp: tw_main_def boot_port_def getPortfromLogFile_def Let_def intro!: tw_restart_port)
qed

lemma tw_restart_node: "out_all (\<lambda>t. tw_nodeId t = tw_nodeId s) (tw_restart s)"
proof -
  have "tw_nodeId t = tw_nodeId s" if "tw_findStateFromRecord s = Some (k, t)" for k s t
    using that by (auto simp: tw_findStateFromRecord_def bind_eq_Some_conv Let_def split: if_splits)
  then show ?thesis
    by (auto simp: tw_restart_def recover_abort_def tw_restoreVectorTime_def Let_def dest!: readVal_frame
        split: option.split prod.split)
qed

lemma tw_main_node: "out_all (\<lambda>s. tw_nodeId s = wb_port b) (tw_main b)"
proof -
  have "out_all (\<lambda>t. tw_nodeId t = wb_port b) (tw_restart s)" if "tw_nodeId s = wb_port b" for s
    using tw_restart_node [of s] that by simp
  then show ?thesis
    by (auto simp: tw_main_def tw_first_start_def savePort_def tw_boot_state_def Let_def split: option.split prod.split)
qed

lemma tw_boot_of_fields:
  "wb_port (tw_boot_of env port e h rs) = ucast port" "wb_sysport (tw_boot_of env port e h rs) = wb_sysport (we_boot env)"
  by (simp_all add: tw_boot_of_def)

lemma port_widen [simp]:
  "(ucast (ucast (p :: u16) :: u64) :: u16) = p" "(ucast (p :: u16) :: u64) = 0 \<longleftrightarrow> p = 0"
proof -
  show "(ucast (ucast (p :: u16) :: u64) :: u16) = p" by (rule bit_word_eqI) (simp add: bit_simps)
  show "(ucast (p :: u16) :: u64) = 0 \<longleftrightarrow> p = 0" by transfer simp
qed

lemma tw_socketsD:
  "tw_sockets env port b = (out, Some socks) \<Longrightarrow> socks = [ucast port, ucast (boot_port b)]"
  by (auto simp: tw_sockets_def boot_port_def getPortfromLogFile_def Let_def
      split: option.splits if_splits prod.splits)

lemma tw_start_rest_startedD:
  assumes "tw_start_rest env port out files err log = (out', files', Started socks r)"
  shows "\<exists>e h rs. r = tw_main (tw_boot_of env port e h rs) \<and> socks = [ucast port, ucast (boot_port (tw_boot_of env port e h rs))]"
  using assms
  by (auto simp: tw_start_rest_def tw_map_data_def Let_def dest!: tw_socketsD split: option.splits if_splits prod.splits)

lemma tw_startedD:
  assumes "tw_start env [cmd, arg] = (out, files, Started socks r)" and "strtoul arg = (port, True)"
  shows "\<exists>e h rs. r = tw_main (tw_boot_of env port e h rs) \<and> socks = [ucast port, ucast (boot_port (tw_boot_of env port e h rs))]"
  using assms
  by (auto simp: tw_start_def Let_def dest!: tw_start_rest_startedD split: sum.splits)

lemma tw_started_run:
  assumes "r = tw_main b"
  shows "out_all (\<lambda>t. tw_nodeId t = wb_port b \<and> sys_port t = boot_port b) (seq r (run tw_step es))"
proof (rule out_all_seq)
  show "out_all (\<lambda>t. tw_nodeId t = wb_port b \<and> sys_port t = boot_port b) r"
    using tw_main_node [of b] tw_main_port [of b] assms by (cases "tw_main b") simp_all
  show "out_all (\<lambda>t. tw_nodeId t = wb_port b \<and> sys_port t = boot_port b) (run tw_step es s)"
    if "tw_nodeId s = wb_port b \<and> sys_port s = boot_port b" for s
    using tw_growing.run_le [of s es] that by (auto simp: tw_le_def elim!: out_all_mono)
qed

lemma tw_start_willing:
  assumes "tw_willing env" and "strtoul arg = (port, True)" and "we_log env (tw_logName port) = Whole h rs"
    and "ci_sys_port h \<noteq> 0" and "we_data env (tw_dataName port) = Some (sizeof_ObjectData, d)"
  shows "\<exists>out. tw_start env [cmd, arg] =
    (out, [tw_logName port, tw_dataName port, tw_vizName port],
     Started [ucast port, ucast (ci_sys_port h)] (tw_main (tw_boot_of env port 1 h rs)))"
proof -
  let ?b = "tw_boot_of env port 1 h rs"
  have f: "wb_file ?b = Some (h, rs)" "wb_data ?b = Some d" using assms(3,5) by (simp_all add: tw_boot_of_def)
  then have "sys_port (tw_boot_state ?b) = ci_sys_port h" by (simp add: tw_boot_state_def)
  with f have "\<exists>out. tw_sockets env port ?b = (out, Some [ucast port, ucast (ci_sys_port h)])"
    using assms(1,4) by (simp add: tw_sockets_def getPortfromLogFile_def tw_willing_def createSocket_def Let_def)
  with assms(1,2,3) f(2) show ?thesis
    by (auto simp: tw_start_def tw_start_rest_def open_log_def tw_willing_def tw_open_rest_def tw_map_data_def Let_def)
qed

text \<open>
  C23: the addresses of a worker survive its crashes.  Whatever a worker did and however it ended, the
  process that is started with the same argument on its files binds its two sockets to the same
  ports, the one for commands and the one that the manager has recorded for its answers, and boots
  from the log and the data object that the first process left.
\<close>

theorem worker_started_again:
  assumes "tw_start env [cmd, arg] = (out, files, Started socks r)"
    and "strtoul arg = (port, True)" and "wb_sysport (we_boot env) \<noteq> 0"
    and "seq r (run tw_step es) = Exited t \<or> seq r (run tw_step es) = Running t"
    and "tw_leaves port t env'" and "tw_willing env'"
  shows "\<exists>b out'. tw_boots_from b t \<and>
    tw_start env' [cmd, arg] = (out', [tw_logName port, tw_dataName port, tw_vizName port], Started socks (tw_main b))"
proof -
  from tw_startedD [OF assms(1,2)] obtain e h rs where
    b0: "r = tw_main (tw_boot_of env port e h rs)" "socks = [ucast port, ucast (boot_port (tw_boot_of env port e h rs))]"
    by blast
  let ?b0 = "tw_boot_of env port e h rs"
  have t: "tw_nodeId t = ucast port" "sys_port t = boot_port ?b0"
    using tw_started_run [OF b0(1), of es] assms(4) by (auto simp: tw_boot_of_fields)
  have "boot_port ?b0 \<noteq> 0"
    using assms(3) by (auto simp: boot_port_def Let_def tw_boot_of_fields)
  with t(2) have nz: "sys_port t \<noteq> 0" by simp
  let ?b = "tw_boot_of env' port 1 (tw_crashInfo t) (tw_log t)"
  have "tw_boots_from ?b t" using assms(5) t(1)
    by (simp add: tw_boots_from_def tw_boot_of_def tw_leaves_def)
  moreover obtain out' where "tw_start env' [cmd, arg] = (out', [tw_logName port, tw_dataName port, tw_vizName port],
      Started [ucast port, ucast (sys_port t)] (tw_main ?b))"
    using tw_start_willing [OF assms(6,2) _ nz, of "tw_log t" "tw_objData t" cmd] assms(5)
    by (auto simp: tw_leaves_def)
  ultimately show ?thesis using t(2) b0(2) by auto
qed

definition demo_tw_env :: "(crash_info, wrecord) log_file \<Rightarrow> (nat \<times> objectData) option \<Rightarrow> string \<Rightarrow> tw_env" where
  "demo_tw_env log data viz = \<lparr>we_log = (\<lambda>_. log), we_data = (\<lambda>_. data), we_shiviz = (\<lambda>_. viz),
     we_open = (\<lambda>_. True), we_fstat = (\<lambda>_. True), we_write = (\<lambda>_. True), we_socket = (\<lambda>_. True),
     we_bind = (\<lambda>_ _. True), we_boot = demo_wboot\<rparr>"

lemma demo_tw_willing: "tw_willing (demo_tw_env log data viz)"
  by (simp add: tw_willing_def demo_tw_env_def)

lemma tw_start_fresh:
  assumes "tw_willing env" and "strtoul arg = (port, True)" and "we_log env (tw_logName port) = Missing"
    and "wb_fileExist (we_boot env) = 0"
  shows "\<exists>out b. tw_start env [cmd, arg] = (out, [tw_logName port, tw_dataName port, tw_vizName port],
    Started [ucast port, wb_sysport (we_boot env)] (tw_main b)) \<and> wb_host b = wb_host (we_boot env) \<and>
    tw_main b = Running (tw_first_start (wb_now b) (savePort (wb_sysport b) (tw_boot_state b)))"
proof -
  let ?b = "tw_boot_of env port 0 (wb_space (we_boot env)) []"
  have b: "wb_file ?b = None" "wb_fileExist ?b = 0" using assms(3) by (simp_all add: tw_boot_of_def)
  then have "\<exists>out. tw_sockets env port ?b = (out, Some [ucast port, wb_sysport (we_boot env)])"
    using assms(1) by (simp add: tw_sockets_def tw_willing_def createSocket_def tw_boot_of_fields Let_def)
  with assms have "\<exists>out. tw_start env [cmd, arg] = (out, [tw_logName port, tw_dataName port, tw_vizName port],
      Started [ucast port, wb_sysport (we_boot env)] (tw_main ?b))"
    by (auto simp: tw_start_def tw_start_rest_def open_log_def tw_willing_def tw_open_rest_def tw_map_data_def Let_def)
  moreover have "wb_host ?b = wb_host (we_boot env)" by (simp add: tw_boot_of_def)
  moreover have "tw_main ?b = Running (tw_first_start (wb_now ?b) (savePort (wb_sysport ?b) (tw_boot_state ?b)))"
    using b by (simp add: tw_main_def)
  ultimately show ?thesis by blast
qed

theorem worker_started_again_witness:
  "\<exists>t b env'. tw_boots_from b t \<and>
     (\<exists>out. tw_start env' [''tworker'', ''5001''] =
        (out, [tw_logName 5001, tw_dataName 5001, tw_vizName 5001], Started [5001, 40000] (tw_main b)))"
proof -
  have arg: "strtoul ''5001'' = (5001, True)" by (simp add: strtoul_def is_space_def is_digit_def)
  obtain out b where b: "tw_start (demo_tw_env Missing None '''') [''tworker'', ''5001''] =
      (out, [tw_logName 5001, tw_dataName 5001, tw_vizName 5001], Started [5001, 40000] (tw_main b))"
      "wb_host b = Little"
      "tw_main b = Running (tw_first_start (wb_now b) (savePort (wb_sysport b) (tw_boot_state b)))"
    using tw_start_fresh [OF demo_tw_willing arg, of Missing None "''''" "''tworker''"]
    by (auto simp: demo_tw_env_def demo_wboot_def)
  define t where "t = tw_first_start (wb_now b) (savePort (wb_sysport b) (tw_boot_state b))"
  let ?env = "demo_tw_env (Whole (tw_crashInfo t) (tw_log t)) (Some (sizeof_ObjectData, tw_objData t)) (tw_shiviz t)"
  have "tw_host t = Little"
    using b(2) by (simp add: t_def tw_first_start_def savePort_def tw_boot_state_def Let_def split: prod.split)
  then have l: "tw_leaves 5001 t ?env" by (simp add: tw_leaves_def demo_tw_env_def demo_wboot_def)
  have nz: "wb_sysport (we_boot (demo_tw_env Missing None '''')) \<noteq> 0" by (simp add: demo_tw_env_def demo_wboot_def)
  have "seq (tw_main b) (run tw_step []) = Exited t \<or> seq (tw_main b) (run tw_step []) = Running t"
    by (simp add: b(3) t_def)
  from worker_started_again [OF b(1) arg nz this l demo_tw_willing] show ?thesis by blast
qed

subsection \<open>Arguments that are not what they should be\<close>

text \<open>
  An argument without digits is reported and counted as an error, but only after the files of port
  0 have been created: the manager returns -1 and leaves \<open>TmanagerShiViz_0.dat\<close> behind, the worker
  \<open>WorkerData_0.data\<close> and \<open>ShiViz_0.dat\<close>, the object and the event log of a worker on port 0.
\<close>

theorem failed_start_leaves_files:
  assumes "\<not> snd (strtoul arg)" and "tm_willing te" and "tw_willing we"
  shows "tm_start te [cmd, arg] = (conversion_error @ init_errors 1, [''TmanagerShiViz_0.dat''], Returned (- 1)) \<and>
    tw_start we [cmd, arg] =
      (conversion_error @ init_errors 1, [''WorkerData_0.data'', ''ShiViz_0.dat''], Returned (- 1))"
proof -
  have zero: "strtoul arg = (0, False)" using assms(1) by (auto simp: strtoul_def Let_def case_prod_beta split: if_splits)
  have "show_ld 0 = ''0''" by (simp add: show_ld_def show_d_def show_nat.simps digit_def char_of_def bit_0)
  then have "tm_vizName 0 = ''TmanagerShiViz_0.dat''" "tw_dataName 0 = ''WorkerData_0.data''" "tw_vizName 0 = ''ShiViz_0.dat''"
    by (simp_all add: tm_vizName_def tw_dataName_def tw_vizName_def)
  with zero assms(2,3) show ?thesis
    by (simp add: tm_start_def tm_start_rest_def tw_start_def tw_start_rest_def tm_willing_def tw_willing_def
        tw_open_rest_def)
qed

theorem failed_start_leaves_files_witness:
  "fst (snd (tw_start (demo_tw_env Missing None '''') [''tworker'', ''port''])) = [''WorkerData_0.data'', ''ShiViz_0.dat'']"
  using failed_start_leaves_files [of "''port''" "demo_tm_env Missing ''''" "demo_tw_env Missing None ''''" "''tworker''"]
    demo_tw_willing
  by (simp add: strtoul_def is_space_def is_digit_def tm_willing_def demo_tm_env_def)

text \<open>
  The port is not checked for its range.  A worker that is started with a number above 65535 binds
  its lower 16 bits, while its node id, its file names and its messages carry the number itself: it
  has the address of the worker that is started with the remainder, and another id.
\<close>

theorem port_not_checked:
  assumes "65536 \<le> n" and "n < 2 ^ 32"
    and "tw_start env [cmd, show_nat n] = (out, files, Started socks r)"
    and "tw_start env' [cmd, show_nat (n mod 65536)] = (out', files', Started socks' r')"
  shows "hd socks = hd socks' \<and> out_all (\<lambda>s. tw_nodeId s = of_nat n) r \<and>
    out_all (\<lambda>s. tw_nodeId s = of_nat (n mod 65536)) r'"
proof -
  have arg: "strtoul (show_nat n) = (of_nat n, True)" "strtoul (show_nat (n mod 65536)) = (of_nat (n mod 65536), True)"
    using assms(2) by (auto intro!: strtoul_show)
  have main: "out_all (\<lambda>s. tw_nodeId s = ucast port) (tw_main (tw_boot_of env port e h rs))" for env port e h rs
    using tw_main_node [of "tw_boot_of env port e h rs"] by (simp add: tw_boot_of_fields)
  have word: "ucast (of_nat k :: u64) = (of_nat k :: u32)" "ucast (of_nat k :: u64) = (of_nat k :: u16)" for k
    by (transfer, simp add: min_def)+
  have "(of_nat (n mod 65536) :: u16) = of_nat n"
    by transfer (simp add: take_bit_eq_mod zmod_int)
  then show ?thesis
    using tw_startedD [OF assms(3) arg(1)] tw_startedD [OF assms(4) arg(2)] main [where port = "of_nat n"]
      main [where port = "of_nat (n mod 65536)"] by (auto simp: word)
qed

theorem port_not_checked_witness:
  "\<exists>r r' f f' o1 o2. tw_start (demo_tw_env Missing None '''') [''tworker'', show_nat 70000] = (o1, f, Started [4464, 40000] r) \<and>
     tw_start (demo_tw_env Missing None '''') [''tworker'', show_nat (70000 mod 65536)] = (o2, f', Started [4464, 40000] r') \<and>
     out_all (\<lambda>s. tw_nodeId s = 70000) r \<and> out_all (\<lambda>s. tw_nodeId s = 4464) r'"
proof -
  have arg: "strtoul (show_nat 70000) = (70000, True)" "strtoul (show_nat 4464) = (4464, True)"
    using strtoul_show(1) [of 70000] strtoul_show(1) [of 4464] by simp_all
  have fresh: "\<exists>out files r. tw_start (demo_tw_env Missing None '''') [''tworker'', arg] =
      (out, files, Started [ucast p, 40000] r)" if "strtoul arg = (p, True)" for arg p
    using tw_start_fresh [OF demo_tw_willing that, of Missing None "''''" "''tworker''"]
    by (auto simp: demo_tw_env_def demo_wboot_def)
  obtain o1 f r where 1: "tw_start (demo_tw_env Missing None '''') [''tworker'', show_nat 70000] = (o1, f, Started [4464, 40000] r)"
    using fresh [OF arg(1)] by auto
  obtain o2 f' r' where 2: "tw_start (demo_tw_env Missing None '''') [''tworker'', show_nat (70000 mod 65536)] = (o2, f', Started [4464, 40000] r')"
    using fresh [OF arg(2)] by auto
  from port_not_checked [OF _ _ 1 2] have "out_all (\<lambda>s. tw_nodeId s = 70000) r \<and> out_all (\<lambda>s. tw_nodeId s = 4464) r'"
    by simp
  with 1 2 show ?thesis by blast
qed
end
