(* ===== verification/Dump.thy ===== *)
theory Dump
  imports Startup
begin

text \<open>
  The printing procedures of helper.c and the program dumpObject.c, which prints the object and the
  logs of the worker and the manager of a port.  The result is the standard output; \<open>None\<close> is
  undefined behaviour.  \<open>ctime\<close> is a parameter (\<open>None\<close> for the null pointer), its result ends in a
  newline, which the code cuts off.  \<open>%s\<close> needs a terminator in the array, \<open>%d\<close> of an unsigned or a
  \<open>long\<close> value prints its lower 32 bits as a signed number.
\<close>

subsection \<open>Formats\<close>

definition printf_s :: "u8 list \<Rightarrow> string option" where
  "printf_s s = (if 0 \<in> set s then Some (map (\<lambda>b. char_of (unat b)) (c_string s)) else None)"

definition pad :: "nat \<Rightarrow> string \<Rightarrow> string" where
  "pad n s = replicate (n - length s) (CHR '' '') @ s"

definition hex_digit :: "nat \<Rightarrow> char" where
  "hex_digit d = (if d < 10 then char_of (48 + d) else char_of (87 + d))"

text \<open>\<open>%08x\<close> of 32 bits: always eight digits.\<close>

definition show_hex8 :: "u32 \<Rightarrow> string" where
  "show_hex8 w = map (\<lambda>i. hex_digit (unat w div 16 ^ i mod 16)) [7, 6, 5, 4, 3, 2, 1, 0]"

definition line_u :: "string \<Rightarrow> u32 \<Rightarrow> string" where
  "line_u name v = name @ '': '' @ show_u v @ newline"

definition line_d :: "string \<Rightarrow> u32 \<Rightarrow> string" where
  "line_d name v = name @ '': '' @ show_d v @ newline"

definition line_s :: "string \<Rightarrow> u8 list \<Rightarrow> string option" where
  "line_s name s = map_option (\<lambda>t. name @ '': '' @ t @ newline) (printf_s s)"

subsection \<open>Messages and records\<close>

definition printMsg :: "msgType \<Rightarrow> string option" where
  "printMsg m =
     do { newID \<leftarrow> line_s ''newID'' (newID m);
          hostName \<leftarrow> line_s ''hostName'' (hostName m);
          Some (line_u ''msgType'' (m_msgID m) @ line_u ''tid'' (m_tid m) @ line_u ''port'' (m_port m) @
            line_d ''newValue'' (m_newValue m) @ line_d ''delay'' (m_delay m) @ newID @ hostName) }"

definition printClockEntry :: "nat \<Rightarrow> clock \<Rightarrow> string" where
  "printClockEntry i c =
     line_u (''vectorClock['' @ show_nat i @ ''].nodeId'') (c_nodeId c) @
     line_u (''vectorClock['' @ show_nat i @ ''].time'') (c_time c)"

fun printClock :: "nat \<Rightarrow> clock list \<Rightarrow> string" where
  "printClock i [] = []"
| "printClock i (c # cs) = printClockEntry i c @ printClock (Suc i) cs"

definition printWorkerMsg :: "txMessage \<Rightarrow> string" where
  "printWorkerMsg m =
     line_u ''msgType'' (tx_msgID m) @ line_u ''tid'' (tx_tid m) @ line_d ''isCrash'' (tx_isCrash m) @
     printClock 0 (tx_vectorClock m)"

text \<open>\<open>ctime\<close> and the microseconds.\<close>

definition printTime :: "(u64 \<Rightarrow> string option) \<Rightarrow> timeval \<Rightarrow> string option" where
  "printTime ctime t =
     map_option (\<lambda>s. '' '' @ butlast s @ ''  usec '' @ show_ld (tv_usec t) @ newline) (ctime (tv_sec t))"

definition printNodes :: "clock list \<Rightarrow> string" where
  "printNodes vc = concat (map (\<lambda>c. ''    node['' @ show_d (c_nodeId c) @ ''] = '' @ show_u (c_time c) @ newline) vc)"

definition printRecord :: "(u64 \<Rightarrow> string option) \<Rightarrow> wrecord \<Rightarrow> string option" where
  "printRecord ctime r =
     do { oldID \<leftarrow> line_s ''oldID'' (r_oldID r);
          time \<leftarrow> printTime ctime (r_lastUpdateTime r);
          Some (line_u ''msgType'' (r_msgID r) @ line_u ''tid'' (r_tid r) @ line_d ''oldValue'' (r_oldValue r) @
            oldID @ time @ printNodes (r_vectorClock r)) }"

definition printCoordRecord :: "coord_record \<Rightarrow> string" where
  "printCoordRecord r =
     line_u ''msgType'' (cr_msgID r) @ line_u ''tid'' (cr_tid r) @ line_u ''nodeId'' (cr_nodeId r)"

subsection \<open>The object\<close>

definition value_line :: "string \<Rightarrow> u32 \<Rightarrow> string" where
  "value_line name v = '' Object '' @ name @ '': '' @ pad 15 (show_d v) @ '' 0x'' @ show_hex8 v @ newline"

definition printObject :: "(u64 \<Rightarrow> string option) \<Rightarrow> objectData \<Rightarrow> string option" where
  "printObject ctime d =
     do { idString \<leftarrow> line_s ''String ID'' (o_IDstring d);
          time \<leftarrow> printTime ctime (o_lastUpdateTime d);
          Some (idString @ time @ value_line ''A'' (o_A d) @ value_line ''B'' (o_B d) @ printNodes (o_vectorClock d)) }"

text \<open>A wrong size is reported and has no other effect, but the page of an empty file cannot be read.\<close>

definition dump_object :: "(u64 \<Rightarrow> string option) \<Rightarrow> nat \<Rightarrow> objectData \<Rightarrow> string option" where
  "dump_object ctime st_size d =
     (let warning = (if st_size \<noteq> sizeof_ObjectData then ''The object data file has an invalid size'' @ newline else [])
      in if st_size = 0 then None else map_option (\<lambda>t. warning @ t) (printObject ctime d))"

subsection \<open>The logs\<close>

text \<open>
  \<open>(st_size - sizeof (header)) / sizeof (record)\<close> is computed in \<open>unsigned long\<close> and stored in an \<open>int\<close>.
\<close>

definition numRec :: "nat \<Rightarrow> nat \<Rightarrow> nat \<Rightarrow> int" where
  "numRec hdr rec st_size = sint (ucast ((of_nat st_size - of_nat hdr :: u64) div of_nat rec) :: u32)"

definition file_size :: "nat \<Rightarrow> nat \<Rightarrow> ('h, 'r) log_file \<Rightarrow> nat" where
  "file_size hdr rec file = (case file of Missing \<Rightarrow> 0 | Short n h \<Rightarrow> n | Whole h rs \<Rightarrow> hdr + rec * length rs)"

text \<open>The records that can be read in the mapped page; behind the end of a file it holds zeros.\<close>

definition page_records :: "nat \<Rightarrow> nat \<Rightarrow> 'r \<Rightarrow> ('h, 'r) log_file \<Rightarrow> 'r list" where
  "page_records hdr rec zero file =
     (let n = (page - hdr) div rec in
      case file of Whole h rs \<Rightarrow> take n (rs @ replicate n zero) | _ \<Rightarrow> replicate n zero)"

text \<open>The loop prints one record after the other; behind the page there is none.\<close>

fun print_each :: "('r \<Rightarrow> string option) \<Rightarrow> 'r list \<Rightarrow> string option" where
  "print_each print [] = Some []"
| "print_each print (r # rs) = do { t \<leftarrow> print r; ts \<leftarrow> print_each print rs; Some (t @ ts) }"

definition print_records :: "('r \<Rightarrow> string option) \<Rightarrow> int \<Rightarrow> 'r list \<Rightarrow> string option" where
  "print_records print n rs = (if int (length rs) < n then None else print_each print (take (nat n) rs))"

definition no_wrecord :: wrecord where
  "no_wrecord = \<lparr>r_msgID = 0, r_tid = 0, r_oldValue = 0, r_oldID = replicate IDLEN 0,
     r_vectorClock = replicate MAX_NODES no_clock, r_lastUpdateTime = \<lparr>tv_sec = 0, tv_usec = 0\<rparr>\<rparr>"

definition no_coord_record :: coord_record where
  "no_coord_record = \<lparr>cr_msgID = 0, cr_tid = 0, cr_nodeId = 0\<rparr>"

text \<open>Both logs are checked against the size of the worker's header.\<close>

definition size_warning :: "nat \<Rightarrow> string" where
  "size_warning st_size =
     (if st_size < sizeof_CrashInfo then ''The crash info file has an invalid size'' @ newline else [])"

definition dump_worker_log :: "(u64 \<Rightarrow> string option) \<Rightarrow> (crash_info, wrecord) log_file \<Rightarrow> string option" where
  "dump_worker_log ctime file =
     (let st_size = file_size sizeof_CrashInfo sizeof_Record file in
      case (case file of Missing \<Rightarrow> None | Short n h \<Rightarrow> Some h | Whole h rs \<Rightarrow> Some h) of
        None \<Rightarrow> Some []
      | Some h \<Rightarrow>
          if st_size = 0 then None
          else do {
            recs \<leftarrow> print_records (printRecord ctime) (numRec sizeof_CrashInfo sizeof_Record st_size)
                     (page_records sizeof_CrashInfo sizeof_Record no_wrecord file);
            Some (size_warning st_size @ ''System Port: '' @ show_nat (unat (ci_sys_port h)) @ newline @
              printNodes (ci_vectorClock h) @ recs) })"

definition dump_manager_log :: "(coord_crash_info, coord_record) log_file \<Rightarrow> string option" where
  "dump_manager_log file =
     (let st_size = file_size sizeof_CoordCrashInfo sizeof_CoordRecord file in
      if file = Missing then Some []
      else
        map_option (\<lambda>recs. size_warning st_size @ recs)
          (print_records (\<lambda>r. if st_size = 0 then None else Some (printCoordRecord r))
             (numRec sizeof_CoordCrashInfo sizeof_CoordRecord st_size)
             (page_records sizeof_CoordCrashInfo sizeof_CoordRecord no_coord_record file)))"

subsection \<open>The program\<close>

text \<open>A file that cannot be opened is reported on the standard error output and skipped.\<close>

record dump_env =
  de_ctime :: "u64 \<Rightarrow> string option"
  de_fstat :: "string \<Rightarrow> bool"
  de_data :: "string \<Rightarrow> (nat \<times> objectData) option"
  de_wlog :: "string \<Rightarrow> (crash_info, wrecord) log_file"
  de_mlog :: "string \<Rightarrow> (coord_crash_info, coord_record) log_file"

text \<open>One of the three parts: its text, and whether \<open>main\<close> returns -3 in it.\<close>

definition dump_part :: "bool \<Rightarrow> bool \<Rightarrow> string option \<Rightarrow> (string \<times> bool) option" where
  "dump_part opened fstat_ok text =
     (if \<not> opened then Some ([], False)
      else if \<not> fstat_ok then Some ([], True)
      else map_option (\<lambda>t. (t, False)) text)"

definition dump_main :: "dump_env \<Rightarrow> string list \<Rightarrow> (string \<times> int) option" where
  "dump_main env argv =
     (if length argv \<noteq> 2 then Some (usage_port (argv ! 0), - 1)
      else
        let (port, converted) = strtoul (argv ! 1);
            data = tw_dataName port; wlog = tw_logName port; mlog = tm_logName port in
        if \<not> converted then Some (conversion_error, - 1)
        else do {
          (t1, e1) \<leftarrow> dump_part (de_data env data \<noteq> None) (de_fstat env data)
                        (case de_data env data of None \<Rightarrow> None | Some (n, d) \<Rightarrow> dump_object (de_ctime env) n d);
          if e1 then Some (t1, - 3)
          else do {
            (t2, e2) \<leftarrow> dump_part (de_wlog env wlog \<noteq> Missing) (de_fstat env wlog)
                          (dump_worker_log (de_ctime env) (de_wlog env wlog));
            if e2 then Some (t1 @ t2, - 3)
            else do {
              (t3, e3) \<leftarrow> dump_part (de_mlog env mlog \<noteq> Missing) (de_fstat env mlog) (dump_manager_log (de_mlog env mlog));
              Some (t1 @ t2 @ t3, if e3 then - 3 else 0) } } })"

end
