(* ===== verification/DumpProps.thy ===== *)
theory DumpProps
  imports Dump
begin

text \<open>
  The dump of a log: which records it prints, how far it can read in the mapped page, and what becomes of a
  file that is too short for its header.
\<close>

subsection \<open>The number of records\<close>

lemma sint_small: "unat (w :: u32) < 2 ^ 31 \<Longrightarrow> sint w = int (unat w)"
proof -
  assume "unat w < 2 ^ 31"
  moreover have u: "int (unat w) = uint w" by simp
  ultimately have "uint w < 2 ^ 31" by (metis of_nat_less_iff of_nat_numeral of_nat_power)
  moreover have "- (2 ^ 31) \<le> uint w" using u by (simp add: order_trans [of _ 0])
  ultimately show ?thesis unfolding u by (simp add: sint_uint signed_take_bit_int_eq_self_iff)
qed

lemma numRec_nat:
  assumes "(if hdr \<le> n then n - hdr else 2 ^ 64 + n - hdr) div rec mod 2 ^ 32 = k" and "k < 2 ^ 31"
    and "hdr < 2 ^ 32" and "n < 2 ^ 63" and "0 < rec" and "rec < 2 ^ 32"
  shows "numRec hdr rec n = int k"
proof -
  have "unat (of_nat n - of_nat hdr :: u64) = (if hdr \<le> n then n - hdr else 2 ^ 64 + n - hdr)"
    using assms(3,4) by (auto simp: unat_sub_if_size unat_of_nat word_size)
  then have "unat ((of_nat n - of_nat hdr :: u64) div of_nat rec) = (if hdr \<le> n then n - hdr else 2 ^ 64 + n - hdr) div rec"
    using assms(6) by (simp add: unat_div unat_of_nat)
  then have "unat (ucast ((of_nat n - of_nat hdr :: u64) div of_nat rec) :: u32) = k"
    using assms(1) by (simp add: unsigned_ucast_eq take_bit_eq_mod)
  then show ?thesis unfolding numRec_def using assms(2) by (subst sint_small) simp_all
qed

lemma numRec_whole:
  assumes "n < 2 ^ 31" and "hdr < 2 ^ 32" and "0 < rec" and "rec < 2 ^ 20"
  shows "numRec hdr rec (hdr + rec * n) = int n"
proof (rule numRec_nat)
  have "rec * n < 2 ^ 20 * 2 ^ 31" using assms(1,4) by (intro mult_strict_mono) simp_all
  then show "hdr + rec * n < 2 ^ 63" using assms(2) by simp
qed (use assms in simp_all)

subsection \<open>Reading in the page\<close>

lemma print_each_Some: "print_each p rs \<noteq> None \<longleftrightarrow> (\<forall>r \<in> set rs. p r \<noteq> None)"
  by (induction rs) (auto simp: bind_eq_Some_conv)

lemma print_each_map: "print_each (\<lambda>r. Some (f r)) rs = Some (concat (map f rs))"
  by (induction rs) simp_all

lemma page_records_whole:
  "page_records hdr rec zero (Whole h rs) = take ((page - hdr) div rec) (rs @ replicate ((page - hdr) div rec) zero)"
  by (simp add: page_records_def Let_def)

lemma print_records_whole:
  assumes "m = (page - hdr) div rec"
  shows "print_records p (int (length rs)) (page_records hdr rec zero (Whole h rs)) =
    (if length rs \<le> m then print_each p rs else None)"
  using assms by (auto simp: print_records_def page_records_whole min_def)

lemma worker_log_print:
  assumes "length rs < 2 ^ 31"
  shows "dump_worker_log ctime (Whole h rs) =
    (if length rs \<le> 22
     then map_option (\<lambda>t. ''System Port: '' @ show_nat (unat (ci_sys_port h)) @ newline @ printNodes (ci_vectorClock h) @ t)
       (print_each (printRecord ctime) rs)
     else None)"
proof -
  have "numRec sizeof_CrashInfo sizeof_Record (sizeof_CrashInfo + sizeof_Record * length rs) = int (length rs)"
    using assms by (intro numRec_whole) (simp_all add: sizeof_CrashInfo_def sizeof_Record_def)
  moreover have "22 = (page - sizeof_CrashInfo) div sizeof_Record"
    by (simp add: page_def sizeof_CrashInfo_def sizeof_Record_def)
  ultimately show ?thesis
    by (cases "print_each (printRecord ctime) rs")
      (simp_all add: dump_worker_log_def file_size_def print_records_whole size_warning_def sizeof_CrashInfo_def)
qed

lemma manager_log_print:
  assumes "length rs < 2 ^ 31"
  shows "dump_manager_log (Whole h rs) = (if length rs \<le> 214 then Some (concat (map printCoordRecord rs)) else None)"
proof -
  have "numRec sizeof_CoordCrashInfo sizeof_CoordRecord (sizeof_CoordCrashInfo + sizeof_CoordRecord * length rs) =
      int (length rs)"
    using assms by (intro numRec_whole) (simp_all add: sizeof_CoordCrashInfo_def sizeof_CoordRecord_def)
  moreover have "214 = (page - sizeof_CoordCrashInfo) div sizeof_CoordRecord"
    by (simp add: page_def sizeof_CoordCrashInfo_def sizeof_CoordRecord_def)
  ultimately show ?thesis
    by (simp add: dump_manager_log_def file_size_def print_records_whole print_each_map size_warning_def
        sizeof_CrashInfo_def sizeof_CoordCrashInfo_def)
qed

text \<open>
  C37: a dump reads a log to its end as long as the log fits the mapped page.  For files of whole
  records it is defined up to 22 records of a worker and 214 of the manager and leaves the mapping with one
  more; up to there it prints the manager's records one after the other, none left out.
\<close>

theorem dump_reads_page:
  assumes "\<And>t. ctime t \<noteq> None" and "\<forall>r \<in> set rs. 0 \<in> set (r_oldID r)"
    and "length rs < 2 ^ 31" and "length cs < 2 ^ 31"
  shows "(dump_worker_log ctime (Whole h rs) \<noteq> None \<longleftrightarrow> length rs \<le> 22) \<and>
    dump_manager_log (Whole h' cs) = (if length cs \<le> 214 then Some (concat (map printCoordRecord cs)) else None)"
proof -
  have "printRecord ctime r \<noteq> None" if "r \<in> set rs" for r
    using assms(1) [of "tv_sec (r_lastUpdateTime r)"] assms(2) that
    by (auto simp: printRecord_def printTime_def line_s_def printf_s_def)
  then have "print_each (printRecord ctime) rs \<noteq> None" using print_each_Some by blast
  then show ?thesis using worker_log_print [OF assms(3)] manager_log_print [OF assms(4)] by auto
qed

definition demo_crash_info :: crash_info where
  "demo_crash_info = \<lparr>ci_sys_port = 40000, ci_managerAddr = \<lparr>sin_addr = 0, sin_port = 0\<rparr>, ci_vectorClock = []\<rparr>"

definition demo_coord_info :: coord_crash_info where
  "demo_coord_info = \<lparr>cc_vectorClock = [], cc_workerInfo = []\<rparr>"

theorem dump_reads_page_witness:
  "(dump_worker_log (\<lambda>t. Some newline) (Whole demo_crash_info (replicate 23 no_wrecord)) \<noteq> None \<longleftrightarrow> 23 \<le> (22::nat)) \<and>
   dump_manager_log (Whole demo_coord_info [no_coord_record]) = Some (printCoordRecord no_coord_record @ [])"
  using dump_reads_page [of "\<lambda>t. Some newline" "replicate 23 no_wrecord" "[no_coord_record]" demo_crash_info demo_coord_info]
  by (simp add: no_wrecord_def)

lemma numRec_short_worker:
  assumes "n < sizeof_CrashInfo"
  shows "22 < numRec sizeof_CrashInfo sizeof_Record n"
proof -
  let ?q = "(2 ^ 64 + n - 104) div 176 :: nat"
  have "(2 ^ 64 - 104) div 176 \<le> ?q" by (rule div_le_mono) simp
  moreover have "?q \<le> (2 ^ 64 - 1) div 176" by (rule div_le_mono) (use assms in \<open>simp add: sizeof_CrashInfo_def\<close>)
  ultimately have "?q = 104811045873349724 \<or> ?q = 104811045873349725" by simp arith
  then have "?q mod 2 ^ 32 = 1171354716 \<or> ?q mod 2 ^ 32 = 1171354717" by auto
  then obtain k where "?q mod 2 ^ 32 = k" "22 < k" "k < 2 ^ 31" by auto
  then have "numRec 104 176 n = int k"
    using assms by (intro numRec_nat) (simp_all add: sizeof_CrashInfo_def)
  with \<open>22 < k\<close> show ?thesis by (simp add: sizeof_CrashInfo_def sizeof_Record_def)
qed

lemma numRec_short_manager:
  assumes "n < sizeof_CoordCrashInfo"
  shows "214 < numRec sizeof_CoordCrashInfo sizeof_CoordRecord n"
proof -
  let ?q = "(2 ^ 64 + n - 1520) div 12 :: nat"
  have "(2 ^ 64 - 1520) div 12 \<le> ?q" by (rule div_le_mono) simp
  moreover have "?q \<le> (2 ^ 64 - 1) div 12" by (rule div_le_mono) (use assms in \<open>simp add: sizeof_CoordCrashInfo_def\<close>)
  ultimately have "1537228672809129174 \<le> ?q" "?q \<le> 1537228672809129301" by simp_all
  then obtain q k where q: "?q = q" "q = 1537228672809129174 + k" "q \<le> 1537228672809129301"
    using le_iff_add [of 1537228672809129174 ?q] by blast
  then have k: "?q = 1537228672809129174 + k" "k \<le> 127" by linarith+
  have "?q mod 2 ^ 32 = (1431655638 + k) mod 2 ^ 32" unfolding k(1) by (simp add: mod_add_left_eq [of 1537228672809129174, symmetric])
  then have "?q mod 2 ^ 32 = 1431655638 + k" using k(2) by simp
  then have "numRec 1520 12 n = int (1431655638 + k)"
    using assms k(2) by (intro numRec_nat) (simp_all add: sizeof_CoordCrashInfo_def)
  then show ?thesis by (simp add: sizeof_CoordCrashInfo_def sizeof_CoordRecord_def)
qed

lemma print_records_short:
  assumes "int ((page - hdr) div rec) < numRec hdr rec n"
  shows "print_records p (numRec hdr rec n) (page_records hdr rec zero (Short n h)) = None"
  using assms by (simp add: print_records_def page_records_def)

text \<open>
  C38: a log file that is shorter than its header cannot be dumped.  The size is subtracted as an
  unsigned number, the count wraps to more than a thousand million records, and the loop runs out of
  the mapping; for the manager's log the check compares with the worker's header, so that nothing is
  even reported from 104 bytes on.
\<close>

theorem dump_short_log:
  shows "(n < sizeof_CrashInfo \<longrightarrow> dump_worker_log ctime (Short n h) = None) \<and>
    (n < sizeof_CoordCrashInfo \<longrightarrow> dump_manager_log (Short n h') = None)"
proof (intro conjI impI)
  assume "n < sizeof_CrashInfo"
  then have "int ((page - sizeof_CrashInfo) div sizeof_Record) < numRec sizeof_CrashInfo sizeof_Record n"
    using numRec_short_worker [of n] by (simp add: page_def sizeof_CrashInfo_def sizeof_Record_def)
  then show "dump_worker_log ctime (Short n h) = None"
    by (simp add: dump_worker_log_def file_size_def print_records_short)
next
  assume "n < sizeof_CoordCrashInfo"
  then have "int ((page - sizeof_CoordCrashInfo) div sizeof_CoordRecord) < numRec sizeof_CoordCrashInfo sizeof_CoordRecord n"
    using numRec_short_manager [of n] by (simp add: page_def sizeof_CoordCrashInfo_def sizeof_CoordRecord_def)
  then show "dump_manager_log (Short n h') = None"
    by (simp add: dump_manager_log_def file_size_def print_records_short)
qed

theorem dump_short_log_witness:
  "dump_worker_log (\<lambda>t. Some newline) (Short 50 demo_crash_info) = None \<and>
   dump_manager_log (Short 200 demo_coord_info) = None"
  using dump_short_log [of 50 "\<lambda>t. Some newline" demo_crash_info demo_coord_info]
    dump_short_log [of 200 "\<lambda>t. Some newline" demo_crash_info demo_coord_info]
  by (simp add: sizeof_CrashInfo_def sizeof_CoordCrashInfo_def)

end
