(* ===== verification/Node.thy ===== *)
theory Node
  imports TxWire ShiViz
begin

text \<open>
  The election node of bully_algorithm/node.c: a bully election over UDP with periodic
  \<open>AYA\<close> (are you alive) messages to the coordinator from a second thread.

  The state is one record: the globals, the list of group members, the phase of
  \<open>sendUDPMsg\<close>, the AYA thread (the address it sends to, \<open>None\<close> for \<open>threadPtr == NULL\<close>), the
  ShiViz log and the datagrams handed to \<open>sendto\<close>.  Two library functions are parameters:
  \<open>resolve\<close> is \<open>gethostbyname\<close> (\<open>None\<close> for an unknown host) and \<open>rnd n\<close> the value that the
  \<open>n\<close>-th call of \<open>random\<close> returns.  The steps of the two threads interleave; the mutexes protect
  single accesses and have no other effect here.  Cancelling the thread takes effect at once.
\<close>

subsection \<open>Data\<close>

abbreviation NODES :: nat where "NODES \<equiv> 9"

abbreviation ELECT :: u32 where "ELECT \<equiv> 10"
abbreviation ANSWER :: u32 where "ANSWER \<equiv> 11"
abbreviation COORD :: u32 where "COORD \<equiv> 12"
abbreviation AYA :: u32 where "AYA \<equiv> 20"
abbreviation IAA :: u32 where "IAA \<equiv> 21"

record msg =
  msgID :: u32
  electionID :: u32
  vectorClock :: "clock list"

record groupMem =
  g_hostname :: string
  g_portno :: u32

datatype nd_phase = First | Spinning | Receiving

record nd_state =
  nd_host :: endian
  nd_port :: u32
  nd_group :: "groupMem list"
  nd_clock :: "clock list"
  nd_counter :: u32
  nd_lastSent :: u32
  nd_lastReceived :: u32
  nd_thread :: "sockaddr_in option"
  nd_failure :: nat
  nd_AYATime :: u32
  nd_calls :: nat
  nd_phase :: nd_phase
  nd_shiviz :: string
  nd_junk :: string
  nd_outbox :: "(sockaddr_in \<times> u8 list) list"

subsection \<open>Group\<close>

fun indexInGroup :: "u32 \<Rightarrow> groupMem list \<Rightarrow> int \<Rightarrow> int" where
  "indexInGroup port [] i = - 1"
| "indexInGroup port (g # gs) i = (if port = g_portno g then i else indexInGroup port gs (i + 1))"

definition foundInGroup :: "u32 \<Rightarrow> groupMem list \<Rightarrow> int" where
  "foundInGroup port groupMems = indexInGroup port groupMems 0"

subsection \<open>Messages on the wire\<close>

definition sizeof_msg :: nat where "sizeof_msg = 80"

definition nd_serializeInt :: "endian \<Rightarrow> u8 list \<Rightarrow> nat \<Rightarrow> u32 \<Rightarrow> (u8 list \<times> nat) option" where
  "nd_serializeInt e buffer pos val =
     do { buffer \<leftarrow> memcpy_to buffer pos (mem_of_u32 e (htonl e val)); Some (buffer, pos + 4) }"

definition nd_serializeClockEntry :: "endian \<Rightarrow> u8 list \<Rightarrow> nat \<Rightarrow> clock \<Rightarrow> (u8 list \<times> nat) option" where
  "nd_serializeClockEntry e buffer pos c =
     do { (buffer, pos) \<leftarrow> nd_serializeInt e buffer pos (c_nodeId c);
          nd_serializeInt e buffer pos (c_time c) }"

definition nd_serializeClock :: "endian \<Rightarrow> u8 list \<Rightarrow> nat \<Rightarrow> clock list \<Rightarrow> (u8 list \<times> nat) option" where
  "nd_serializeClock e buffer pos vc = put_list (nd_serializeClockEntry e) buffer pos vc"

definition nd_serializeMsg :: "endian \<Rightarrow> u8 list \<Rightarrow> msg \<Rightarrow> u8 list option" where
  "nd_serializeMsg e buffer m =
     do { (buffer, pos) \<leftarrow> nd_serializeInt e buffer 0 (msgID m);
          (buffer, pos) \<leftarrow> nd_serializeInt e buffer pos (electionID m);
          (buffer, pos) \<leftarrow> nd_serializeClock e buffer pos (vectorClock m);
          Some buffer }"

definition nd_deserializeInt :: "endian \<Rightarrow> u8 list \<Rightarrow> nat \<Rightarrow> (u32 \<times> nat) option" where
  "nd_deserializeInt e buffer pos =
     do { temp \<leftarrow> memcpy_from buffer pos 4; Some (ntohl e (u32_of_mem e temp), pos + 4) }"

definition nd_deserializeMsgID :: "endian \<Rightarrow> u8 list \<Rightarrow> nat \<Rightarrow> (u32 \<times> nat) option" where
  "nd_deserializeMsgID e buffer pos = nd_deserializeInt e buffer pos"

definition nd_deserializeClockEntry :: "endian \<Rightarrow> u8 list \<Rightarrow> nat \<Rightarrow> (clock \<times> nat) option" where
  "nd_deserializeClockEntry e buffer pos =
     do { (n, pos) \<leftarrow> nd_deserializeInt e buffer pos;
          (t, pos) \<leftarrow> nd_deserializeInt e buffer pos;
          Some (\<lparr>c_nodeId = n, c_time = t\<rparr>, pos) }"

definition nd_deserializeClock :: "endian \<Rightarrow> u8 list \<Rightarrow> nat \<Rightarrow> (clock list \<times> nat) option" where
  "nd_deserializeClock e buffer pos = get_list (nd_deserializeClockEntry e) NODES buffer pos"

definition nd_deserializeMsg :: "endian \<Rightarrow> u8 list \<Rightarrow> msg option" where
  "nd_deserializeMsg e buffer =
     do { (k, pos) \<leftarrow> nd_deserializeMsgID e buffer 0;
          (eid, pos) \<leftarrow> nd_deserializeInt e buffer pos;
          (vc, pos) \<leftarrow> nd_deserializeClock e buffer pos;
          Some \<lparr>msgID = k, electionID = eid, vectorClock = vc\<rparr> }"

subsection \<open>Clocks\<close>

text \<open>The merge works slot by slot and the tick advances every slot with the node's id.\<close>

fun merge_slots :: "clock list \<Rightarrow> clock list \<Rightarrow> clock list" where
  "merge_slots (m # ms) (c # cs) = (if c_time m > c_time c then m else c) # merge_slots ms cs"
| "merge_slots ms cs = cs"

definition nd_mergeVectorClock :: "msg \<Rightarrow> nd_state \<Rightarrow> nd_state" where
  "nd_mergeVectorClock m s = s\<lparr>nd_clock := merge_slots (vectorClock m) (nd_clock s)\<rparr>"

definition tick_slots :: "u32 \<Rightarrow> clock list \<Rightarrow> clock list" where
  "tick_slots port vc = map (\<lambda>c. if c_nodeId c = port then c\<lparr>c_time := c_time c + 1\<rparr> else c) vc"

definition nd_updateMyVectorClock :: "nd_state \<Rightarrow> nd_state" where
  "nd_updateMyVectorClock s = s\<lparr>nd_clock := tick_slots (nd_port s) (nd_clock s)\<rparr>"

subsection \<open>ShiViz log\<close>

definition nd_eventText :: "string \<Rightarrow> msg \<Rightarrow> bool \<Rightarrow> string" where
  "nd_eventText junk m isSend =
     (let k = msgID m in
      if k = ELECT then (if isSend then ''Send ELECTION '' else ''Receive ELECTION '') @ show_u (electionID m) @
        (if isSend then '' to '' else '' from '')
      else if k = ANSWER then (if isSend then ''Send ANSWER to '' else ''Receive ANSWER from '')
      else if k = COORD then (if isSend then ''Send COORD to '' else ''Receive COORD from '')
      else if k = AYA then (if isSend then ''Send AYA to '' else ''Receive AYA from '')
      else if k = IAA then (if isSend then ''Send IAA to '' else ''Receive IAA from '')
      else junk)"

text \<open>Appended under a lock, with exit when the file cannot be opened, which is left out.\<close>

definition nd_writeToFile :: "string \<Rightarrow> nd_state \<Rightarrow> nd_state" where
  [simp]: "nd_writeToFile buf s = s\<lparr>nd_shiviz := nd_shiviz s @ buf\<rparr>"

text \<open>The line as long as the local buffers hold their parts, see \<open>nodeIdBuf_fits\<close>.\<close>

definition nd_writeVectorTime :: "nd_state \<Rightarrow> string" where
  "nd_writeVectorTime s = butlast (nodeIdText (nd_port s) @ nodeTimes (nd_clock s)) @ ''}'' @ newline"

definition nd_writeStartToLog :: "u32 \<Rightarrow> u32 \<Rightarrow> nd_state \<Rightarrow> nd_state" where
  [simp]: "nd_writeStartToLog port clock s =
     nd_writeToFile
       (''Starting N'' @ show_d port @ newline @ ''N'' @ show_d port @ '' {'' @ quote @ ''N'' @
        show_d port @ quote @ '' : '' @ show_d clock @ ''}'' @ newline) s"

definition nd_writeEventToLog :: "msg \<Rightarrow> bool \<Rightarrow> u16 \<Rightarrow> nd_state \<Rightarrow> nd_state" where
  "nd_writeEventToLog m isSend toFrom s =
     nd_writeToFile
       (nd_eventText (nd_junk s) m isSend @ ''N'' @ show_u (ucast toFrom) @ newline @ nd_writeVectorTime s) s"

subsection \<open>Sending\<close>

definition constructMsg :: "u32 \<Rightarrow> u32 \<Rightarrow> nd_state \<Rightarrow> msg" where
  "constructMsg k eid s = \<lparr>msgID = k, electionID = eid, vectorClock = nd_clock s\<rparr>"

text \<open>\<open>random() % 100\<close> decides whether the packet is dropped.\<close>

definition nd_sendMsg :: "(nat \<Rightarrow> nat) \<Rightarrow> msg \<Rightarrow> sockaddr_in \<Rightarrow> nd_state \<Rightarrow> nd_state" where
  "nd_sendMsg rnd m addr s =
     (let rn = rnd (nd_calls s) mod 100;
          s = s\<lparr>nd_calls := Suc (nd_calls s)\<rparr>
      in if rn \<ge> nd_failure s then
           (case nd_serializeMsg (nd_host s) (replicate sizeof_msg 0) m of
              None \<Rightarrow> s
            | Some msgBuf \<Rightarrow> s\<lparr>nd_outbox := nd_outbox s @ [(addr, msgBuf)]\<rparr>)
         else s)"

text \<open>The four calls that every send consists of.\<close>

definition nd_send :: "(nat \<Rightarrow> nat) \<Rightarrow> u32 \<Rightarrow> u32 \<Rightarrow> sockaddr_in \<Rightarrow> nd_state \<Rightarrow> nd_state" where
  "nd_send rnd k eid addr s =
     (let s = nd_updateMyVectorClock s;
          m = constructMsg k eid s;
          s = nd_sendMsg rnd m addr s
      in nd_writeEventToLog m True (sin_port addr) s)"

text \<open>
  The loops over the group: to every member whose port satisfies \<open>sel\<close>.  The election id is given,
  or \<open>None\<close> for the next value of the counter.  A host that does not resolve ends the process.
\<close>

fun sendToMembers ::
  "(string \<Rightarrow> u32 option) \<Rightarrow> (nat \<Rightarrow> nat) \<Rightarrow> (u32 \<Rightarrow> bool) \<Rightarrow> u32 \<Rightarrow> u32 option \<Rightarrow> groupMem list \<Rightarrow>
    nd_state \<Rightarrow> nd_state outcome"
where
  "sendToMembers resolve rnd sel k eid [] s = Running s"
| "sendToMembers resolve rnd sel k eid (g # gs) s =
     (if sel (g_portno g) then
        (case resolve (g_hostname g) of
           None \<Rightarrow> Exited s
         | Some ip \<Rightarrow>
             let (e, s) = (case eid of Some e \<Rightarrow> (e, s) | None \<Rightarrow> (nd_counter s, s\<lparr>nd_counter := nd_counter s + 1\<rparr>));
                 s = nd_send rnd k e \<lparr>sin_addr = ip, sin_port = ucast (g_portno g)\<rparr> s
             in sendToMembers resolve rnd sel k eid gs (s\<lparr>nd_lastSent := k\<rparr>))
      else sendToMembers resolve rnd sel k eid gs s)"

definition startElection :: "(string \<Rightarrow> u32 option) \<Rightarrow> (nat \<Rightarrow> nat) \<Rightarrow> nd_state \<Rightarrow> nd_state outcome" where
  "startElection resolve rnd s = sendToMembers resolve rnd (\<lambda>p. p > nd_port s) ELECT None (nd_group s) s"

definition announceCoord :: "(string \<Rightarrow> u32 option) \<Rightarrow> (nat \<Rightarrow> nat) \<Rightarrow> nd_state \<Rightarrow> nd_state outcome" where
  "announceCoord resolve rnd s = sendToMembers resolve rnd (\<lambda>p. p < nd_port s) COORD (Some 0) (nd_group s) s"

subsection \<open>Receiving\<close>

definition handleElect :: "(string \<Rightarrow> u32 option) \<Rightarrow> (nat \<Rightarrow> nat) \<Rightarrow> msg \<Rightarrow> sockaddr_in \<Rightarrow> nd_state \<Rightarrow> nd_state outcome" where
  "handleElect resolve rnd recMsg from_addr s =
     (let s = nd_send rnd ANSWER (electionID recMsg) from_addr s;
          s = s\<lparr>nd_lastReceived := ELECT\<rparr>
      in if nd_lastSent s = ELECT then Running s
         else
           let s = s\<lparr>nd_lastSent := 0\<rparr>
           in seq (sendToMembers resolve rnd (\<lambda>p. p > nd_port s) ELECT (Some (electionID recMsg)) (nd_group s) s)
                (\<lambda>s. if nd_lastSent s = 0 then announceCoord resolve rnd s else Running s))"

definition handleMsg :: "(string \<Rightarrow> u32 option) \<Rightarrow> (nat \<Rightarrow> nat) \<Rightarrow> msg \<Rightarrow> sockaddr_in \<Rightarrow> nd_state \<Rightarrow> nd_state outcome" where
  "handleMsg resolve rnd recMsg from_addr s =
     (let k = msgID recMsg in
      if k = ELECT then handleElect resolve rnd recMsg from_addr s
      else if k = ANSWER then
        Running (if nd_lastSent s = ELECT then s\<lparr>nd_lastReceived := ANSWER, nd_lastSent := 0\<rparr> else s)
      else if k = COORD then
        (let s = s\<lparr>nd_lastReceived := COORD\<rparr>
         in Running (if nd_thread s = None then s\<lparr>nd_thread := Some from_addr\<rparr> else s))
      else if k = AYA then
        Running (nd_send rnd IAA (electionID recMsg) from_addr (s\<lparr>nd_lastReceived := AYA, nd_lastSent := IAA\<rparr>))
      else Running s)"

definition nd_receive :: "(string \<Rightarrow> u32 option) \<Rightarrow> (nat \<Rightarrow> nat) \<Rightarrow> sockaddr_in \<Rightarrow> u8 list \<Rightarrow> nd_state \<Rightarrow> nd_state outcome" where
  "nd_receive resolve rnd from_addr recvMsg s =
     (case nd_deserializeMsg (nd_host s) recvMsg of
        None \<Rightarrow> Undefined
      | Some rec \<Rightarrow>
          let s = nd_updateMyVectorClock (nd_mergeVectorClock rec s);
              s = nd_writeEventToLog rec False (sin_port from_addr) s
          in handleMsg resolve rnd rec from_addr s)"

definition nd_timeout :: "(string \<Rightarrow> u32 option) \<Rightarrow> (nat \<Rightarrow> nat) \<Rightarrow> nd_state \<Rightarrow> nd_state outcome" where
  "nd_timeout resolve rnd s =
     (if nd_lastSent s = ELECT then announceCoord resolve rnd s
      else if nd_lastSent s = AYA then
        (case nd_thread s of
           None \<Rightarrow> Undefined
         | Some _ \<Rightarrow> startElection resolve rnd (s\<lparr>nd_thread := None\<rparr>))
      else if nd_lastSent s = 0 then
        seq (if nd_lastReceived s = ANSWER then startElection resolve rnd s else Running s)
          (\<lambda>s. if nd_lastReceived s = ELECT then announceCoord resolve rnd s else Running s)
      else Running s)"

subsection \<open>The event loop of sendUDPMsg and the AYA thread\<close>

text \<open>
  The first receive: without a datagram the node starts an election.  The loop sets \<open>lastSent\<close>
  to 0 for every member before it looks at the port.
\<close>

fun firstElection :: "(string \<Rightarrow> u32 option) \<Rightarrow> (nat \<Rightarrow> nat) \<Rightarrow> groupMem list \<Rightarrow> nd_state \<Rightarrow> nd_state outcome" where
  "firstElection resolve rnd [] s = Running s"
| "firstElection resolve rnd (g # gs) s =
     (let s = s\<lparr>nd_lastReceived := ELECT, nd_lastSent := 0\<rparr>
      in seq (sendToMembers resolve rnd (\<lambda>p. p > nd_port s) ELECT None [g] s)
           (firstElection resolve rnd gs))"

datatype nd_event = RecvTimeout | RecvEmpty | Recv sockaddr_in "u8 list" | AYAFires

text \<open>
  One round of the AYA thread.  Ten calls of \<open>random\<close> give the time to sleep, by a remainder modulo
  \<open>2 * AYATime\<close>; a zero there is a division by zero.
\<close>

definition AYA_thread :: "(nat \<Rightarrow> nat) \<Rightarrow> nd_state \<Rightarrow> nd_state outcome" where
  "AYA_thread rnd s =
     (case nd_thread s of
        None \<Rightarrow> Running s
      | Some from_addr \<Rightarrow>
          if nd_AYATime s = 0 then Undefined
          else
            Running (nd_send rnd AYA (nd_port s) from_addr
              (s\<lparr>nd_lastSent := AYA, nd_calls := nd_calls s + 10\<rparr>)))"

text \<open>
  The phase \<open>Spinning\<close>: the first datagram was empty, so \<open>handleFirstMsg\<close> stays 1 and the loop
  neither receives again nor handles a message.
\<close>

fun nd_step :: "(string \<Rightarrow> u32 option) \<Rightarrow> (nat \<Rightarrow> nat) \<Rightarrow> nd_event \<Rightarrow> nd_state \<Rightarrow> nd_state outcome" where
  "nd_step resolve rnd AYAFires s = AYA_thread rnd s"
| "nd_step resolve rnd RecvTimeout s =
     (case nd_phase s of
        First \<Rightarrow> firstElection resolve rnd (nd_group s) (s\<lparr>nd_phase := Receiving\<rparr>)
      | Spinning \<Rightarrow> Running s
      | Receiving \<Rightarrow> nd_timeout resolve rnd s)"
| "nd_step resolve rnd RecvEmpty s =
     (case nd_phase s of
        First \<Rightarrow> Running (s\<lparr>nd_phase := Spinning, nd_lastReceived := 0, nd_lastSent := 0\<rparr>)
      | _ \<Rightarrow> Running s)"
| "nd_step resolve rnd (Recv from_addr recvMsg) s =
     (case nd_phase s of
        First \<Rightarrow> nd_receive resolve rnd from_addr recvMsg
                  (s\<lparr>nd_phase := Receiving, nd_lastReceived := 0, nd_lastSent := 0\<rparr>)
      | Spinning \<Rightarrow> Running s
      | Receiving \<Rightarrow> nd_receive resolve rnd from_addr recvMsg s)"

text \<open>
  \<open>readGroupListFile\<close> on the pairs that \<open>fscanf\<close> reads.  The array holds \<open>NODES\<close> members with host
  names of up to 31 characters; more are written outside it (\<open>None\<close>).
\<close>

definition readGroupListFile :: "(string \<times> u32) list \<Rightarrow> groupMem list option" where
  "readGroupListFile pairs =
     (if length pairs \<le> NODES \<and> (\<forall>p \<in> set pairs. length (fst p) < 32)
      then Some (map (\<lambda>(h, p). \<lparr>g_hostname = h, g_portno = p\<rparr>) pairs) else None)"

text \<open>
  \<open>main\<close> after the arguments: the log is truncated, the group read, the own slot set.  A node that
  is not in the group returns from \<open>main\<close>.
\<close>

definition nd_init :: "endian \<Rightarrow> u32 \<Rightarrow> nat \<Rightarrow> u32 \<Rightarrow> string \<Rightarrow> groupMem list \<Rightarrow> nd_state" where
  "nd_init h port failure ayaTime junk groupMems =
     \<lparr>nd_host = h, nd_port = port, nd_group = groupMems, nd_clock = replicate NODES no_clock,
      nd_counter = 0, nd_lastSent = 0, nd_lastReceived = 0, nd_thread = None, nd_failure = failure,
      nd_AYATime = ayaTime, nd_calls = 0, nd_phase = First, nd_shiviz = '''', nd_junk = junk,
      nd_outbox = []\<rparr>"

definition nd_main :: "endian \<Rightarrow> u32 \<Rightarrow> (string \<times> u32) list \<Rightarrow> nat \<Rightarrow> u32 \<Rightarrow> string \<Rightarrow> nd_state outcome" where
  "nd_main h port pairs failure ayaTime junk =
     (case readGroupListFile pairs of
        None \<Rightarrow> Undefined
      | Some groupMems \<Rightarrow>
          let nodePos = foundInGroup port groupMems;
              s = nd_init h port failure ayaTime junk groupMems
          in if nodePos = - 1 then Exited s
             else
               let s = nd_writeStartToLog port 1 (s\<lparr>nd_counter := 1\<rparr>) in
               Running (s\<lparr>nd_clock := (nd_clock s)[nat nodePos := \<lparr>c_nodeId = port, c_time = 1\<rparr>]\<rparr>))"

end
