(* ===== verification/NodeFrame.thy ===== *)
theory NodeFrame
  imports Node
begin

text \<open>
  Lemmas on the election node: its messages on the wire (interpretations of \<open>codec\<close> and
  \<open>array_codec\<close>), what a send changes, what the loops over the group send, and its clocks
  (interpretation of \<open>vclock\<close>, for messages whose slots are in the order of the group).
\<close>

subsection \<open>Messages on the wire\<close>

lemma nd_serializeInt_eq: "nd_serializeInt = serializeInt"
  by (simp add: fun_eq_iff nd_serializeInt_def serializeInt_def)

lemma nd_deserializeInt_eq: "nd_deserializeInt = deserializeInt" "nd_deserializeMsgID = deserializeInt"
  by (simp_all add: fun_eq_iff nd_deserializeInt_def nd_deserializeMsgID_def deserializeInt_def)

lemma nd_serializeClockEntry_eq: "nd_serializeClockEntry = serializeClockEntry"
  by (simp add: fun_eq_iff nd_serializeClockEntry_def serializeClockEntry_def nd_serializeInt_eq)

lemma nd_deserializeClockEntry_eq: "nd_deserializeClockEntry = deserializeClockEntry"
  by (simp add: fun_eq_iff nd_deserializeClockEntry_def deserializeClockEntry_def nd_deserializeInt_eq
      deserializeClockUnsignedInt_eq)

interpretation nd_int_codec: codec "nd_serializeInt e" "nd_deserializeInt e" be_bytes 4 "\<lambda>_. True" for e
  unfolding nd_serializeInt_eq nd_deserializeInt_eq by (rule int_codec.codec_axioms)

interpretation nd_clock_codec: array_codec
  "nd_serializeClockEntry e" "nd_deserializeClockEntry e" clock_bytes 8 "\<lambda>_. True" NODES for e
  unfolding nd_serializeClockEntry_eq nd_deserializeClockEntry_eq
  by unfold_locales
    (simp_all add: serializeClockEntry_fits serializeClockEntry_short deserializeClockEntry_enc)

definition wf_msg :: "msg \<Rightarrow> bool" where
  "wf_msg m \<longleftrightarrow> length (vectorClock m) = NODES"

definition ndBytes :: "msg \<Rightarrow> u8 list" where
  "ndBytes m = be_bytes (msgID m) @ be_bytes (electionID m) @ concat (map clock_bytes (vectorClock m))"

lemma length_ndClock: "wf_msg m \<Longrightarrow> length (concat (map clock_bytes (vectorClock m))) = 72"
  using nd_clock_codec.arr.enc_length [of "vectorClock m"] by (simp add: wf_msg_def)

lemma length_ndBytes: "wf_msg m \<Longrightarrow> length (ndBytes m) = sizeof_msg"
  by (simp add: ndBytes_def length_ndClock sizeof_msg_def)

lemma nd_serializeMsg_fits:
  assumes "wf_msg m" and "sizeof_msg \<le> length buf"
  shows "nd_serializeMsg e buf m = Some (overlay buf 0 (ndBytes m))"
  using assms length_ndClock [OF assms(1)]
  by (simp add: nd_serializeMsg_def nd_serializeClock_def sizeof_msg_def wf_msg_def
      nd_int_codec.put_fits nd_clock_codec.arr.put_fits overlay_next ndBytes_def)

lemma nd_deserializeMsg_ndBytes:
  assumes "wf_msg m"
  shows "nd_deserializeMsg e (ndBytes m @ rest) = Some m"
proof -
  let ?buf = "ndBytes m @ rest"
  let ?vc = "concat (map clock_bytes (vectorClock m))"
  have d0: "drop 0 ?buf = be_bytes (msgID m) @ be_bytes (electionID m) @ ?vc @ rest"
    by (simp add: ndBytes_def)
  have d4: "drop 4 ?buf = be_bytes (electionID m) @ ?vc @ rest" using drop_tail [OF d0, of 4] by simp
  have d8: "drop 8 ?buf = ?vc @ rest" using drop_tail [OF d4, of 4] by simp
  have "get_list (nd_deserializeClockEntry e) NODES ?buf 8 = Some (vectorClock m, 80)"
    using nd_clock_codec.arr.get_enc [OF _ d8, of e] assms by (simp add: wf_msg_def)
  then show ?thesis
    by (simp add: nd_deserializeMsg_def nd_deserializeMsgID_def nd_deserializeClock_def
        nd_int_codec.get_enc [OF _ d0] nd_int_codec.get_enc [OF _ d4])
qed

lemma nd_deserialize_wf: "nd_deserializeMsg e buf = Some m \<Longrightarrow> wf_msg m"
  by (auto simp: nd_deserializeMsg_def nd_deserializeClock_def wf_msg_def bind_eq_Some_conv
      dest: get_list_length)

subsection \<open>Sending\<close>

text \<open>The datagrams that survive the random drops, with the number of the first \<open>random\<close> call.\<close>

fun kept :: "(nat \<Rightarrow> nat) \<Rightarrow> nat \<Rightarrow> nat \<Rightarrow> 'a list \<Rightarrow> 'a list" where
  "kept rnd f c [] = []"
| "kept rnd f c (x # xs) = (if f \<le> rnd c mod 100 then x # kept rnd f (Suc c) xs else kept rnd f (Suc c) xs)"

lemma kept_all [simp]: "kept rnd 0 c xs = xs"
  by (induction xs arbitrary: c) auto

lemma kept_subset: "set (kept rnd f c xs) \<subseteq> set xs"
  by (induction xs arbitrary: c) auto

lemma kept_append: "kept rnd f c (xs @ ys) = kept rnd f c xs @ kept rnd f (c + length xs) ys"
  by (induction xs arbitrary: c) auto

lemma length_tick_slots [simp, len_simps]: "length (tick_slots p vc) = length vc"
  by (simp add: tick_slots_def)

lemma length_merge_slots [simp, len_simps]: "length (merge_slots ms vc) = length vc"
  by (induction ms vc rule: merge_slots.induct) auto

definition nd_dgrams :: "(sockaddr_in \<times> msg) list \<Rightarrow> (sockaddr_in \<times> u8 list) list" where
  "nd_dgrams ms = map (apsnd ndBytes) ms"

lemma nd_dgrams_simps [simp]:
  "nd_dgrams [] = []" "nd_dgrams (x # xs) = (fst x, ndBytes (snd x)) # nd_dgrams xs"
  "nd_dgrams (xs @ ys) = nd_dgrams xs @ nd_dgrams ys"
  by (auto simp: nd_dgrams_def apsnd_def map_prod_def split: prod.splits)

definition ticked :: "u32 \<Rightarrow> u32 \<Rightarrow> nd_state \<Rightarrow> msg" where
  "ticked k eid s = \<lparr>msgID = k, electionID = eid, vectorClock = tick_slots (nd_port s) (nd_clock s)\<rparr>"

lemma nd_send_eq:
  assumes "length (nd_clock s) = NODES"
  shows "\<exists>log. nd_send rnd k eid addr s =
    s\<lparr>nd_clock := tick_slots (nd_port s) (nd_clock s), nd_calls := Suc (nd_calls s), nd_shiviz := log,
      nd_outbox := nd_outbox s @ nd_dgrams (kept rnd (nd_failure s) (nd_calls s) [(addr, ticked k eid s)])\<rparr>"
proof -
  have "wf_msg (ticked k eid s)" using assms by (simp add: wf_msg_def ticked_def)
  then have "nd_serializeMsg (nd_host s) (replicate sizeof_msg 0) (ticked k eid s) = Some (ndBytes (ticked k eid s))"
    by (simp add: nd_serializeMsg_fits overlay_all length_ndBytes)
  then have "nd_send rnd k eid addr s =
    s\<lparr>nd_clock := tick_slots (nd_port s) (nd_clock s), nd_calls := Suc (nd_calls s),
      nd_shiviz := nd_shiviz (nd_send rnd k eid addr s),
      nd_outbox := nd_outbox s @ nd_dgrams (kept rnd (nd_failure s) (nd_calls s) [(addr, ticked k eid s)])\<rparr>"
    by (simp add: nd_send_def nd_updateMyVectorClock_def constructMsg_def nd_sendMsg_def Let_def
        nd_writeEventToLog_def ticked_def)
  then show ?thesis by (rule exI)
qed

subsection \<open>The loops over the group\<close>

definition mem_addr :: "(string \<Rightarrow> u32 option) \<Rightarrow> groupMem \<Rightarrow> sockaddr_in" where
  "mem_addr resolve g =
     \<lparr>sin_addr = (case resolve (g_hostname g) of None \<Rightarrow> 0 | Some ip \<Rightarrow> ip), sin_port = ucast (g_portno g)\<rparr>"

text \<open>One message for each of the members, each after one more tick; the election ids count up
  from \<open>n\<close> when none is given.\<close>

fun member_msgs ::
  "(string \<Rightarrow> u32 option) \<Rightarrow> u32 \<Rightarrow> u32 \<Rightarrow> u32 option \<Rightarrow> u32 \<Rightarrow> clock list \<Rightarrow> groupMem list \<Rightarrow> (sockaddr_in \<times> msg) list"
where
  "member_msgs resolve p k eid n vc [] = []"
| "member_msgs resolve p k eid n vc (g # gs) =
     (mem_addr resolve g,
      \<lparr>msgID = k, electionID = (case eid of Some e \<Rightarrow> e | None \<Rightarrow> n), vectorClock = tick_slots p vc\<rparr>) #
     member_msgs resolve p k eid (n + 1) (tick_slots p vc) gs"

definition members_with :: "(u32 \<Rightarrow> bool) \<Rightarrow> groupMem list \<Rightarrow> groupMem list" where
  "members_with sel gs = filter (\<lambda>g. sel (g_portno g)) gs"

definition resolvable :: "(string \<Rightarrow> u32 option) \<Rightarrow> groupMem list \<Rightarrow> bool" where
  "resolvable resolve gs \<longleftrightarrow> (\<forall>g \<in> set gs. resolve (g_hostname g) \<noteq> None)"

lemma members_with_simps [simp]:
  "members_with sel [] = []"
  "members_with sel (g # gs) = (if sel (g_portno g) then g # members_with sel gs else members_with sel gs)"
  by (simp_all add: members_with_def)

lemma resolvable_simps [simp]:
  "resolvable resolve []"
  "resolvable resolve (g # gs) \<longleftrightarrow> resolve (g_hostname g) \<noteq> None \<and> resolvable resolve gs"
  by (simp_all add: resolvable_def)

lemma length_member_msgs [simp]: "length (member_msgs resolve p k eid n vc gs) = length gs"
  by (induction gs arbitrary: n vc) auto

lemma member_msgs_addrs: "map fst (member_msgs resolve p k eid n vc gs) = map (mem_addr resolve) gs"
  by (induction gs arbitrary: n vc) auto

lemma member_msgs_kind: "(a, m) \<in> set (member_msgs resolve p k eid n vc gs) \<Longrightarrow> msgID m = k"
  by (induction gs arbitrary: n vc) auto

lemma member_msgs_wf:
  "length vc = NODES \<Longrightarrow> (a, m) \<in> set (member_msgs resolve p k eid n vc gs) \<Longrightarrow> wf_msg m"
proof (induction gs arbitrary: n vc)
  case (Cons g gs)
  with Cons.IH [of "tick_slots p vc" "n + 1"] show ?case by (auto simp: wf_msg_def)
qed simp

lemma member_msgs_Some:
  "member_msgs resolve p k (Some e) n vc gs = member_msgs resolve p k (Some e) n' vc gs"
  by (induction gs arbitrary: n n' vc) auto

lemma sendToMembers_eq:
  assumes "length (nd_clock s) = NODES" and "resolvable resolve (members_with sel gs)"
  shows "\<exists>log. sendToMembers resolve rnd sel k eid gs s = Running
    (s\<lparr>nd_clock := (tick_slots (nd_port s) ^^ length (members_with sel gs)) (nd_clock s),
       nd_counter := (if eid = None then nd_counter s + of_nat (length (members_with sel gs)) else nd_counter s),
       nd_lastSent := (if members_with sel gs = [] then nd_lastSent s else k),
       nd_calls := nd_calls s + length (members_with sel gs), nd_shiviz := log,
       nd_outbox := nd_outbox s @ nd_dgrams (kept rnd (nd_failure s) (nd_calls s)
         (member_msgs resolve (nd_port s) k eid (nd_counter s) (nd_clock s) (members_with sel gs)))\<rparr>)"
  using assms
proof (induction gs arbitrary: s)
  case Nil
  show ?case by (rule exI [of _ "nd_shiviz s"]) (cases eid; simp)
next
  case (Cons g gs)
  show ?case
  proof (cases "sel (g_portno g)")
    case False
    with Cons.prems(2) have "resolvable resolve (members_with sel gs)" by simp
    from Cons.IH [OF Cons.prems(1) this] show ?thesis
      by (simp only: sendToMembers.simps members_with_simps False if_False)
  next
    case True
    with Cons.prems obtain ip where ip: "resolve (g_hostname g) = Some ip" by auto
    let ?e = "case eid of Some e \<Rightarrow> e | None \<Rightarrow> nd_counter s"
    let ?s0 = "case eid of Some e \<Rightarrow> s | None \<Rightarrow> s\<lparr>nd_counter := nd_counter s + 1\<rparr>"
    have addr: "mem_addr resolve g = \<lparr>sin_addr = ip, sin_port = ucast (g_portno g)\<rparr>"
      by (simp add: mem_addr_def ip)
    have "length (nd_clock ?s0) = NODES" using Cons.prems by (simp split: option.splits)
    from nd_send_eq [OF this, of rnd k ?e "mem_addr resolve g"]
    have "\<exists>log. nd_send rnd k ?e (mem_addr resolve g) ?s0 =
        ?s0\<lparr>nd_clock := tick_slots (nd_port s) (nd_clock s), nd_calls := Suc (nd_calls s), nd_shiviz := log,
          nd_outbox := nd_outbox s @ nd_dgrams (kept rnd (nd_failure s) (nd_calls s)
            [(mem_addr resolve g, ticked k ?e s)])\<rparr>"
      by (cases eid) (simp_all add: ticked_def del: kept.simps)
    then obtain log where
      send: "nd_send rnd k ?e (mem_addr resolve g) ?s0 =
        ?s0\<lparr>nd_clock := tick_slots (nd_port s) (nd_clock s), nd_calls := Suc (nd_calls s), nd_shiviz := log,
          nd_outbox := nd_outbox s @ nd_dgrams (kept rnd (nd_failure s) (nd_calls s)
            [(mem_addr resolve g, ticked k ?e s)])\<rparr>" by (rule exE)
    let ?s1 = "(nd_send rnd k ?e (mem_addr resolve g) ?s0)\<lparr>nd_lastSent := k\<rparr>"
    have step: "sendToMembers resolve rnd sel k eid (g # gs) s = sendToMembers resolve rnd sel k eid gs ?s1"
      using True ip by (cases eid) (simp_all add: addr)
    have "length (nd_clock ?s1) = NODES" using Cons.prems by (simp add: send)
    from Cons.IH [OF this] Cons.prems(2) True obtain log' where
      IH: "sendToMembers resolve rnd sel k eid gs ?s1 = Running
        (?s1\<lparr>nd_clock := (tick_slots (nd_port ?s1) ^^ length (members_with sel gs)) (nd_clock ?s1),
       nd_counter := (if eid = None then nd_counter ?s1 + of_nat (length (members_with sel gs)) else nd_counter ?s1),
       nd_lastSent := (if members_with sel gs = [] then nd_lastSent ?s1 else k),
       nd_calls := nd_calls ?s1 + length (members_with sel gs), nd_shiviz := log',
       nd_outbox := nd_outbox ?s1 @ nd_dgrams (kept rnd (nd_failure ?s1) (nd_calls ?s1)
         (member_msgs resolve (nd_port ?s1) k eid (nd_counter ?s1) (nd_clock ?s1) (members_with sel gs)))\<rparr>)"
      by auto
    have vc: "(tick_slots (nd_port s) ^^ length (members_with sel gs)) (tick_slots (nd_port s) (nd_clock s)) =
        (tick_slots (nd_port s) ^^ Suc (length (members_with sel gs))) (nd_clock s)"
      by (simp add: funpow_swap1)
    show ?thesis
      unfolding step IH unfolding send
      using member_msgs_Some [of resolve "nd_port s" k "the eid" "nd_counter s" "tick_slots (nd_port s) (nd_clock s)"
          "members_with sel gs" "nd_counter s + 1"]
      by (intro exI [of _ log'], cases eid) (simp_all add: True vc ticked_def del: funpow.simps)
  qed
qed

subsection \<open>The invariant\<close>

text \<open>
  The clock keeps its length, the configuration does not change, and \<open>lastSent\<close> and
  \<open>lastReceived\<close> hold one of the values that the code gives them.
\<close>

definition nd_conf :: "nd_state \<Rightarrow> endian \<times> u32 \<times> groupMem list \<times> nat \<times> u32" where
  "nd_conf s = (nd_host s, nd_port s, nd_group s, nd_failure s, nd_AYATime s)"

definition wf_nd :: "nd_state \<Rightarrow> bool" where
  "wf_nd s \<longleftrightarrow> length (nd_clock s) = NODES \<and> length (nd_group s) \<le> NODES \<and>
     nd_lastSent s \<in> {0, ELECT, COORD, AYA, IAA} \<and>
     nd_lastReceived s \<in> {0, ELECT, ANSWER, COORD, AYA}"

definition nd_le :: "nd_state \<Rightarrow> nd_state \<Rightarrow> bool" where
  "nd_le s t \<longleftrightarrow> nd_conf s = nd_conf t \<and> prefix (nd_outbox s) (nd_outbox t)"

lemma nd_le_refl [simp]: "nd_le s s"
  by (simp add: nd_le_def)

lemma nd_le_trans: "nd_le s t \<Longrightarrow> nd_le t u \<Longrightarrow> nd_le s u"
  by (auto simp: nd_le_def intro: prefix_order.trans)

lemma nd_sendMsg_keeps:
  "nd_clock (nd_sendMsg rnd m a s) = nd_clock s" "nd_lastSent (nd_sendMsg rnd m a s) = nd_lastSent s"
  "nd_lastReceived (nd_sendMsg rnd m a s) = nd_lastReceived s" "nd_conf (nd_sendMsg rnd m a s) = nd_conf s"
  "nd_thread (nd_sendMsg rnd m a s) = nd_thread s" "nd_phase (nd_sendMsg rnd m a s) = nd_phase s"
  "nd_counter (nd_sendMsg rnd m a s) = nd_counter s"
  "prefix (nd_outbox s) (nd_outbox (nd_sendMsg rnd m a s))"
  by (simp_all add: nd_sendMsg_def nd_conf_def Let_def split: option.splits)

lemma nd_send_keeps [simp, frame_simps]:
  "length (nd_clock (nd_send rnd k e a s)) = length (nd_clock s)" "nd_lastSent (nd_send rnd k e a s) = nd_lastSent s"
  "nd_lastReceived (nd_send rnd k e a s) = nd_lastReceived s" "nd_conf (nd_send rnd k e a s) = nd_conf s"
  "nd_thread (nd_send rnd k e a s) = nd_thread s" "nd_phase (nd_send rnd k e a s) = nd_phase s"
  "nd_counter (nd_send rnd k e a s) = nd_counter s"
  by (simp_all add: nd_send_def nd_updateMyVectorClock_def nd_writeEventToLog_def Let_def nd_sendMsg_keeps)
    (simp_all add: nd_conf_def nd_sendMsg_def Let_def split: option.splits)

lemma nd_send_outbox [simp]: "prefix (nd_outbox s) (nd_outbox (nd_send rnd k e a s))"
proof -
  let ?s = "nd_updateMyVectorClock s"
  have "nd_outbox (nd_send rnd k e a s) = nd_outbox (nd_sendMsg rnd (constructMsg k e ?s) a ?s)"
    by (simp add: nd_send_def Let_def nd_writeEventToLog_def)
  moreover have "nd_outbox ?s = nd_outbox s" by (simp add: nd_updateMyVectorClock_def)
  ultimately show ?thesis using nd_sendMsg_keeps(8) [of ?s rnd "constructMsg k e ?s" a] by simp
qed

lemma nd_conf_fields:
  "nd_conf s = nd_conf t \<Longrightarrow> nd_host s = nd_host t \<and> nd_port s = nd_port t \<and> nd_group s = nd_group t \<and>
    nd_failure s = nd_failure t"
  by (simp add: nd_conf_def)

lemma wf_nd_cong:
  "nd_conf s = nd_conf t \<Longrightarrow> length (nd_clock s) = length (nd_clock t) \<Longrightarrow> nd_lastSent s = nd_lastSent t \<Longrightarrow>
    nd_lastReceived s = nd_lastReceived t \<Longrightarrow> wf_nd s = wf_nd t"
  by (simp add: wf_nd_def nd_conf_def)

lemma wf_nd_send [simp]: "wf_nd (nd_send rnd k e a s) = wf_nd s"
  by (rule wf_nd_cong) simp_all

lemma nd_le_send [simp]: "nd_le s (nd_send rnd k e a s)"
  by (simp add: nd_le_def)

lemma nd_conf_update [simp]:
  "nd_conf (s\<lparr>nd_lastSent := k\<rparr>) = nd_conf s" "nd_conf (s\<lparr>nd_lastReceived := k\<rparr>) = nd_conf s"
  "nd_conf (s\<lparr>nd_thread := t\<rparr>) = nd_conf s" "nd_conf (s\<lparr>nd_counter := c\<rparr>) = nd_conf s"
  "nd_conf (s\<lparr>nd_phase := p\<rparr>) = nd_conf s" "nd_conf (s\<lparr>nd_calls := n\<rparr>) = nd_conf s"
  "nd_conf (nd_updateMyVectorClock s) = nd_conf s" "nd_conf (nd_mergeVectorClock m s) = nd_conf s"
  "nd_conf (nd_writeEventToLog m b port s) = nd_conf s"
  by (simp_all add: nd_conf_def nd_updateMyVectorClock_def nd_mergeVectorClock_def nd_writeEventToLog_def)

text \<open>One statement for each procedure: the invariant is kept and the outbox only grows.\<close>

definition nd_ok :: "nd_state \<Rightarrow> nd_state \<Rightarrow> bool" where
  "nd_ok s t \<longleftrightarrow> (wf_nd s \<longrightarrow> wf_nd t) \<and> nd_le s t"

lemma nd_ok_refl [simp]: "nd_ok s s"
  by (simp add: nd_ok_def)

lemma nd_ok_trans: "nd_ok s t \<Longrightarrow> nd_ok t u \<Longrightarrow> nd_ok s u"
  by (auto simp: nd_ok_def intro: nd_le_trans)

lemma nd_ok_seq:
  "out_all (nd_ok s) m \<Longrightarrow> (\<And>t. out_all (nd_ok t) (f t)) \<Longrightarrow> out_all (nd_ok s) (seq m f)"
proof -
  assume m: "out_all (nd_ok s) m" and f: "\<And>t. out_all (nd_ok t) (f t)"
  show ?thesis
  proof (rule out_all_seq [OF m])
    fix t
    assume "nd_ok s t"
    then show "out_all (nd_ok s) (f t)" using out_all_mono [OF f [of t]] nd_ok_trans by blast
  qed simp
qed

lemma nd_ok_after: "nd_ok s t \<Longrightarrow> out_all (nd_ok t) m \<Longrightarrow> out_all (nd_ok s) m"
  by (erule out_all_mono) (rule nd_ok_trans)

end
