(* ===== verification/NodeSteps.thy ===== *)
theory NodeSteps
  imports NodeFrame
begin

text \<open>
  The election node's event loop: the invariant \<open>wf_nd\<close> and the growth of the outbox
  (interpretations of \<open>machine\<close> and \<open>growing\<close>), and its clocks as vector clocks (interpretation of
  \<open>vclock\<close> for clocks whose slots are in the order of the group).
\<close>

lemma nd_ok_send: "nd_ok s (nd_send rnd k e a s)"
  by (simp add: nd_ok_def)

lemma nd_ok_updates:
  "nd_ok s (s\<lparr>nd_lastSent := k\<rparr>) \<longleftrightarrow> (wf_nd s \<longrightarrow> k \<in> {0, ELECT, COORD, AYA, IAA})"
  "nd_ok s (s\<lparr>nd_lastReceived := k\<rparr>) \<longleftrightarrow> (wf_nd s \<longrightarrow> k \<in> {0, ELECT, ANSWER, COORD, AYA})"
  "nd_ok s (s\<lparr>nd_thread := t\<rparr>)" "nd_ok s (s\<lparr>nd_counter := c\<rparr>)" "nd_ok s (s\<lparr>nd_phase := p\<rparr>)"
  "nd_ok s (s\<lparr>nd_calls := n\<rparr>)"
  by (auto simp: nd_ok_def nd_le_def wf_nd_def)

lemma nd_ok_clock_log:
  "nd_ok s (nd_updateMyVectorClock s)" "nd_ok s (nd_mergeVectorClock m s)" "nd_ok s (nd_writeEventToLog m b port s)"
  by (simp_all add: nd_ok_def nd_le_def wf_nd_def)
    (simp_all add: nd_updateMyVectorClock_def nd_mergeVectorClock_def nd_writeEventToLog_def)

lemma sendToMembers_ok:
  assumes "k \<in> {ELECT, COORD}"
  shows "out_all (nd_ok s) (sendToMembers resolve rnd sel k eid gs s)"
proof (induction gs arbitrary: s)
  case Nil
  show ?case by simp
next
  case (Cons g gs)
  show ?case
  proof (cases "sel (g_portno g)")
    case False
    with Cons show ?thesis by simp
  next
    case True
    show ?thesis
    proof (cases "resolve (g_hostname g)")
      case None
      with True show ?thesis by simp
    next
      case (Some ip)
      let ?a = "\<lparr>sin_addr = ip, sin_port = ucast (g_portno g)\<rparr>"
      let ?e = "case eid of Some e \<Rightarrow> e | None \<Rightarrow> nd_counter s"
      let ?s0 = "case eid of Some e \<Rightarrow> s | None \<Rightarrow> s\<lparr>nd_counter := nd_counter s + 1\<rparr>"
      let ?s1 = "nd_send rnd k ?e ?a ?s0"
      have "nd_ok s ?s0" by (simp add: nd_ok_updates split: option.splits)
      moreover have "nd_ok ?s0 ?s1" by (rule nd_ok_send)
      moreover have "nd_ok ?s1 (?s1\<lparr>nd_lastSent := k\<rparr>)" using assms by (auto simp: nd_ok_updates)
      ultimately have "nd_ok s (?s1\<lparr>nd_lastSent := k\<rparr>)" by (blast intro: nd_ok_trans)
      from nd_ok_after [OF this Cons.IH] show ?thesis using True Some by (cases eid) simp_all
    qed
  qed
qed

lemma startElection_ok: "out_all (nd_ok s) (startElection resolve rnd s)"
  unfolding startElection_def by (rule sendToMembers_ok) simp

lemma announceCoord_ok: "out_all (nd_ok s) (announceCoord resolve rnd s)"
  unfolding announceCoord_def by (rule sendToMembers_ok) simp

lemma handleElect_ok: "out_all (nd_ok s) (handleElect resolve rnd m a s)"
proof -
  let ?s1 = "nd_send rnd ANSWER (electionID m) a s"
  let ?s2 = "?s1\<lparr>nd_lastReceived := ELECT\<rparr>"
  have "nd_ok s ?s1" and "nd_ok ?s1 ?s2" by (simp_all add: nd_ok_updates nd_ok_send)
  then have s2: "nd_ok s ?s2" by (rule nd_ok_trans)
  have "nd_ok ?s2 (?s2\<lparr>nd_lastSent := 0\<rparr>)" by (simp add: nd_ok_updates)
  moreover have "out_all (nd_ok (?s2\<lparr>nd_lastSent := 0\<rparr>))
      (seq (sendToMembers resolve rnd sel ELECT eid gs (?s2\<lparr>nd_lastSent := 0\<rparr>))
        (\<lambda>s. if nd_lastSent s = 0 then announceCoord resolve rnd s else Running s))" for sel eid gs
    by (intro nd_ok_seq sendToMembers_ok) (auto simp: announceCoord_ok)
  ultimately have "out_all (nd_ok ?s2)
      (seq (sendToMembers resolve rnd sel ELECT eid gs (?s2\<lparr>nd_lastSent := 0\<rparr>))
        (\<lambda>s. if nd_lastSent s = 0 then announceCoord resolve rnd s else Running s))" for sel eid gs
    by (rule nd_ok_after)
  with s2 show ?thesis
    by (auto simp: handleElect_def Let_def intro: nd_ok_after)
qed

lemma handleMsg_ok: "out_all (nd_ok s) (handleMsg resolve rnd m a s)"
proof -
  have a: "nd_ok s (s\<lparr>nd_lastReceived := ANSWER, nd_lastSent := 0\<rparr>)"
    "nd_ok s (s\<lparr>nd_lastReceived := COORD\<rparr>)" "nd_ok s (s\<lparr>nd_lastReceived := COORD, nd_thread := t\<rparr>)"
    "nd_ok s (s\<lparr>nd_lastReceived := AYA, nd_lastSent := IAA\<rparr>)" for t
    by (auto simp: nd_ok_def nd_le_def wf_nd_def nd_conf_def)
  moreover have "nd_ok s (nd_send rnd IAA e a (s\<lparr>nd_lastReceived := AYA, nd_lastSent := IAA\<rparr>))" for e
    by (rule nd_ok_trans [OF a(4)]) (rule nd_ok_send)
  ultimately show ?thesis by (simp add: handleMsg_def Let_def handleElect_ok)
qed

lemma nd_receive_ok: "out_all (nd_ok s) (nd_receive resolve rnd a buf s)"
proof (cases "nd_deserializeMsg (nd_host s) buf")
  case None
  then show ?thesis by (simp add: nd_receive_def)
next
  case (Some m)
  have "nd_ok s (nd_writeEventToLog m False p (nd_updateMyVectorClock (nd_mergeVectorClock m s)))" for p
    by (intro nd_ok_trans [OF _ nd_ok_clock_log(3)] nd_ok_trans [OF _ nd_ok_clock_log(1)] nd_ok_clock_log)
  from nd_ok_after [OF this handleMsg_ok] Some show ?thesis by (simp add: nd_receive_def Let_def)
qed

lemma nd_timeout_ok: "out_all (nd_ok s) (nd_timeout resolve rnd s)"
proof -
  have "out_all (nd_ok s) (startElection resolve rnd (s\<lparr>nd_thread := None\<rparr>))"
    by (rule nd_ok_after [OF nd_ok_updates(3) startElection_ok])
  moreover have "out_all (nd_ok s) (seq (if b then startElection resolve rnd s else Running s)
      (\<lambda>s. if nd_lastReceived s = ELECT then announceCoord resolve rnd s else Running s))" for b
    by (rule nd_ok_seq) (auto simp: announceCoord_ok startElection_ok)
  ultimately show ?thesis by (simp add: nd_timeout_def announceCoord_ok split: option.splits)
qed

lemma firstElection_ok: "out_all (nd_ok s) (firstElection resolve rnd gs s)"
proof (induction gs arbitrary: s)
  case Nil
  show ?case by simp
next
  case (Cons g gs)
  let ?s = "s\<lparr>nd_lastReceived := ELECT, nd_lastSent := 0\<rparr>"
  have "nd_ok s ?s" by (auto simp: nd_ok_def nd_le_def wf_nd_def nd_conf_def)
  moreover have "out_all (nd_ok ?s) (seq (sendToMembers resolve rnd (\<lambda>p. p > nd_port ?s) ELECT None [g] ?s)
      (firstElection resolve rnd gs))"
    by (intro nd_ok_seq sendToMembers_ok Cons.IH) simp
  ultimately have "out_all (nd_ok s) (seq (sendToMembers resolve rnd (\<lambda>p. p > nd_port ?s) ELECT None [g] ?s)
      (firstElection resolve rnd gs))" by (rule nd_ok_after)
  then show ?case by (simp only: firstElection.simps Let_def)
qed

lemma AYA_thread_ok: "out_all (nd_ok s) (AYA_thread rnd s)"
proof -
  have "nd_ok s (s\<lparr>nd_lastSent := AYA, nd_calls := n\<rparr>)" for n
    by (auto simp: nd_ok_def nd_le_def wf_nd_def nd_conf_def)
  then have "nd_ok s (nd_send rnd k e a (s\<lparr>nd_lastSent := AYA, nd_calls := n\<rparr>))" for k e a n
    by (rule nd_ok_trans) (rule nd_ok_send)
  then show ?thesis by (simp add: AYA_thread_def split: option.splits)
qed

lemma nd_step_ok: "out_all (nd_ok s) (nd_step resolve rnd ev s)"
proof -
  have first: "nd_ok s (s\<lparr>nd_phase := p, nd_lastReceived := 0, nd_lastSent := 0\<rparr>)" for p
    by (auto simp: nd_ok_def nd_le_def wf_nd_def nd_conf_def)
  show ?thesis
  proof (cases ev)
    case RecvTimeout
    then show ?thesis
      by (auto simp: nd_timeout_ok intro: nd_ok_after [OF nd_ok_updates(5) firstElection_ok] split: nd_phase.splits)
  next
    case RecvEmpty
    with first show ?thesis by (auto split: nd_phase.splits)
  next
    case (Recv a buf)
    then show ?thesis
      by (auto simp: nd_receive_ok intro: nd_ok_after [OF first nd_receive_ok] split: nd_phase.splits)
  next
    case AYAFires
    then show ?thesis by (simp add: AYA_thread_ok)
  qed
qed

interpretation nd_machine: machine "nd_step resolve rnd" wf_nd for resolve rnd
  by unfold_locales (rule out_all_mono [OF nd_step_ok], simp add: nd_ok_def)

interpretation nd_growing: growing "nd_step resolve rnd" nd_le for resolve rnd
  by unfold_locales (auto intro: nd_le_trans out_all_mono [OF nd_step_ok] simp: nd_ok_def)

subsection \<open>Clocks\<close>

text \<open>
  A clock is aligned to the ports of the group when every slot is free or holds the entry of the
  member at its position; it is tidy when free slots have time 0.
\<close>

fun aligned :: "u32 list \<Rightarrow> clock list \<Rightarrow> bool" where
  "aligned ps [] = True"
| "aligned [] (c # cs) = (c_nodeId c = 0 \<and> aligned [] cs)"
| "aligned (p # ps) (c # cs) = ((c_nodeId c = 0 \<or> c_nodeId c = p) \<and> aligned ps cs)"

definition tidy :: "clock list \<Rightarrow> bool" where
  "tidy vc \<longleftrightarrow> (\<forall>c \<in> set vc. c_nodeId c = 0 \<longrightarrow> c_time c = 0)"

definition ports_ok :: "u32 list \<Rightarrow> bool" where
  "ports_ok ps \<longleftrightarrow> distinct ps \<and> 0 \<notin> set ps"

lemma tidy_simps [simp]:
  "tidy []" "tidy (c # cs) \<longleftrightarrow> (c_nodeId c = 0 \<longrightarrow> c_time c = 0) \<and> tidy cs"
  by (auto simp: tidy_def)

lemma ports_ok_simps [simp]: "ports_ok []" "ports_ok (p # ps) \<longleftrightarrow> p \<noteq> 0 \<and> p \<notin> set ps \<and> ports_ok ps"
  by (auto simp: ports_ok_def)

lemma tick_slots_Cons [simp]:
  "tick_slots p [] = []"
  "tick_slots p (c # cs) = (if c_nodeId c = p then c\<lparr>c_time := c_time c + 1\<rparr> else c) # tick_slots p cs"
  by (simp_all add: tick_slots_def)

lemma aligned_known: "aligned ps vc \<Longrightarrow> known vc \<subseteq> set ps"
  by (induction ps vc rule: aligned.induct) auto

lemma aligned_tick: "aligned ps vc \<Longrightarrow> aligned ps (tick_slots q vc)"
  by (induction ps vc rule: aligned.induct) auto

lemma tidy_tick: "q \<noteq> 0 \<Longrightarrow> tidy vc \<Longrightarrow> tidy (tick_slots q vc)"
  by (induction vc) auto

lemma aligned_merge: "aligned ps m \<Longrightarrow> aligned ps vc \<Longrightarrow> aligned ps (merge_slots m vc)"
proof (induction ps vc arbitrary: m rule: aligned.induct)
  case (2 c cs)
  then show ?case by (cases m) auto
next
  case (3 p ps c cs)
  then show ?case by (cases m) auto
qed (case_tac m; simp)

lemma tidy_merge: "tidy m \<Longrightarrow> tidy vc \<Longrightarrow> tidy (merge_slots m vc)"
  by (induction m vc rule: merge_slots.induct) auto

lemma known_tick_slots [simp]: "known (tick_slots q vc) = known vc"
  by (induction vc) auto

lemma vtime_tick_slots:
  "vtime (tick_slots q vc) n = (if n = q \<and> q \<in> c_nodeId ` set vc then vtime vc n + 1 else vtime vc n)"
  by (induction vc) auto

text \<open>On aligned clocks a merge is the pointwise maximum.\<close>

lemma aligned_rest: "p \<noteq> 0 \<Longrightarrow> p \<notin> set ps \<Longrightarrow> aligned ps vc \<Longrightarrow> vtime vc p = 0"
  using aligned_known [of ps vc] by (intro vtime_unknown) auto

lemma aligned_merge_ge:
  "ports_ok ps \<Longrightarrow> aligned ps m \<Longrightarrow> tidy m \<Longrightarrow> aligned ps vc \<Longrightarrow> n \<noteq> 0 \<Longrightarrow>
    vtime vc n \<le> vtime (merge_slots m vc) n"
proof (induction ps vc arbitrary: m rule: aligned.induct)
  case (2 c cs)
  then show ?case by (cases m) auto
next
  case (3 p ps c cs)
  show ?case
  proof (cases m)
    case (Cons d ds)
    with 3 have "vtime cs n \<le> vtime (merge_slots ds cs) n" by auto
    moreover have "vtime cs p = 0" using 3 aligned_rest [of p ps cs] by simp
    ultimately show ?thesis using 3 Cons by (auto simp: less_imp_le)
  qed simp
qed simp

lemma aligned_merge_max:
  "ports_ok ps \<Longrightarrow> aligned ps m \<Longrightarrow> tidy m \<Longrightarrow> aligned ps vc \<Longrightarrow> tidy vc \<Longrightarrow> length m = length vc \<Longrightarrow>
    n \<noteq> 0 \<Longrightarrow> vtime (merge_slots m vc) n = max (vtime vc n) (vtime m n)"
proof (induction ps vc arbitrary: m rule: aligned.induct)
  case (2 c cs)
  then obtain d ds where "m = d # ds" by (cases m) auto
  with 2 show ?case by auto
next
  case (3 p ps c cs)
  then obtain d ds where m: "m = d # ds" by (cases m) auto
  with 3 have IH: "vtime (merge_slots ds cs) n = max (vtime cs n) (vtime ds n)" by auto
  have r: "vtime cs p = 0" "vtime ds p = 0" using 3 m aligned_rest [of p ps cs] aligned_rest [of p ps ds] by simp_all
  show ?case
  proof (cases "n = p")
    case True
    with 3 m r IH show ?thesis
      by (auto simp: max_def) (metis word_gt_0)+
  next
    case False
    with 3 m IH show ?thesis by auto
  qed
qed simp

lemma aligned_merge_known:
  "ports_ok ps \<Longrightarrow> aligned ps m \<Longrightarrow> tidy m \<Longrightarrow> aligned ps vc \<Longrightarrow> n \<in> known vc \<Longrightarrow> n \<in> known (merge_slots m vc)"
proof (induction ps vc arbitrary: m rule: aligned.induct)
  case (2 c cs)
  then show ?case using aligned_known [of "[]" cs] by auto
next
  case (3 p ps c cs)
  show ?case
  proof (cases m)
    case (Cons d ds)
    with 3 have "n \<in> known cs \<Longrightarrow> n \<in> known (merge_slots ds cs)" by auto
    with 3 Cons show ?thesis by (auto split: if_splits)
  qed (use 3 in simp)
qed simp

interpretation ndclock: vclock tick_slots merge_slots vtime
  "\<lambda>v. ports_ok ps \<and> aligned ps v" "\<lambda>m. aligned ps m \<and> tidy m" "\<lambda>v n. n \<in> known v" for ps
proof unfold_locales
  fix v m :: "clock list" and n p :: u32
  assume v: "ports_ok ps \<and> aligned ps v"
  then show "ports_ok ps \<and> aligned ps (tick_slots p v)" by (simp add: aligned_tick)
  show "p \<in> known v \<Longrightarrow> vtime (tick_slots p v) p = vtime v p + 1"
    by (simp add: vtime_tick_slots known_def)
  show "n \<noteq> p \<Longrightarrow> vtime (tick_slots p v) n = vtime v n" by (simp add: vtime_tick_slots)
  show "n \<in> known v \<Longrightarrow> n \<in> known (tick_slots p v)" by simp
  assume m: "aligned ps m \<and> tidy m"
  with v show "ports_ok ps \<and> aligned ps (merge_slots m v)" by (simp add: aligned_merge)
  show "n \<in> known v \<Longrightarrow> n \<in> known (merge_slots m v)" using v m aligned_merge_known [of ps m v n] by simp
  show "n \<noteq> 0 \<Longrightarrow> vtime v n \<le> vtime (merge_slots m v) n" using v m aligned_merge_ge [of ps m v n] by simp
qed

end
