(* ===== verification/NodeProps.thy ===== *)
theory NodeProps
  imports NodeSteps
begin

text \<open>
  The properties of the election node: messages on the wire, the invariant, what it does on each
  message and on each timeout, when it may announce itself as the coordinator, and its clocks.
\<close>

subsection \<open>Messages and state\<close>

definition nd_sample :: msg where
  "nd_sample = \<lparr>msgID = ELECT, electionID = 3, vectorClock = \<lparr>c_nodeId = 20, c_time = 4\<rparr> # replicate 8 no_clock\<rparr>"

text \<open>
  Election messages survive the wire.  Serialised by a host of any byte order into any buffer of
  at least 80 bytes and read by a host of any byte order, a message comes out unchanged.
\<close>

theorem election_msg_roundtrip:
  assumes "wf_msg m" and "sizeof_msg \<le> length buf"
  shows "\<exists>buf'. nd_serializeMsg e buf m = Some buf' \<and> length buf' = length buf \<and>
    drop sizeof_msg buf' = drop sizeof_msg buf \<and> nd_deserializeMsg e' buf' = Some m"
  using assms nd_serializeMsg_fits [OF assms, of e] length_ndBytes [OF assms(1)]
    nd_deserializeMsg_ndBytes [OF assms(1), of e']
  by (simp add: overlay_def)

theorem election_msg_roundtrip_witness:
  "\<exists>buf'. nd_serializeMsg Little (replicate 512 0) nd_sample = Some buf' \<and>
     nd_deserializeMsg Big buf' = Some nd_sample"
  using election_msg_roundtrip [of nd_sample "replicate 512 0" Little Big]
  by (auto simp: wf_msg_def nd_sample_def sizeof_msg_def)

lemma nd_main_wf:
  assumes "nd_main h port pairs f aya junk = Running s"
  shows "wf_nd s" and "nd_outbox s = []" and "nd_phase s = First" and "nd_port s = port"
    and "map g_portno (nd_group s) = map snd pairs" and "nd_thread s = None"
  using assms
  by (auto simp: nd_main_def readGroupListFile_def nd_init_def wf_nd_def Let_def comp_def case_prod_beta
      split: option.splits if_splits)

text \<open>
  The node's state stays well formed.  From the start on every sequence of datagrams, timeouts
  and rounds of the AYA thread keeps the clock at its length and \<open>lastSent\<close> and \<open>lastReceived\<close> at
  message kinds the code assigns, leaves host, port and group alone and never takes a datagram back.
\<close>

theorem node_invariant:
  assumes "nd_main h port pairs f aya junk = Running s0"
    and "run (nd_step resolve rnd) es s0 = Running s"
  shows "wf_nd s \<and> nd_conf s = nd_conf s0 \<and> prefix (nd_outbox s0) (nd_outbox s)"
  using nd_machine.run_keeps [OF nd_main_wf(1) [OF assms(1)] assms(2)] nd_growing.run_grows [OF assms(2)]
  by (auto simp: nd_le_def)

definition demo_pairs :: "(string \<times> u32) list" where
  "demo_pairs = [(''a'', 20), (''b'', 30), (''c'', 40)]"

definition demo_resolve :: "string \<Rightarrow> u32 option" where
  "demo_resolve h = (if h = ''a'' then Some 1 else if h = ''b'' then Some 2 else if h = ''c'' then Some 3 else None)"

definition demo_node :: "u32 \<Rightarrow> nd_state" where
  "demo_node p = (case nd_main Little p demo_pairs 0 1 '''' of Running s \<Rightarrow> s | _ \<Rightarrow> nd_init Little 0 0 0 '''' [])"

lemma demo_main: "nd_main Little 20 demo_pairs 0 1 '''' = Running (demo_node 20)"
  by (simp add: demo_node_def nd_main_def readGroupListFile_def demo_pairs_def foundInGroup_def Let_def)

theorem node_invariant_witness:
  "wf_nd (demo_node 20) \<and> nd_conf (demo_node 20) = nd_conf (demo_node 20)"
  using node_invariant [OF demo_main, of demo_resolve "\<lambda>_. 0" "[]"] by simp

subsection \<open>What the node does on a message\<close>

definition higher :: "nd_state \<Rightarrow> groupMem list" where
  "higher s = members_with (\<lambda>p. p > nd_port s) (nd_group s)"

definition lower :: "nd_state \<Rightarrow> groupMem list" where
  "lower s = members_with (\<lambda>p. p < nd_port s) (nd_group s)"

definition to_members :: "(string \<Rightarrow> u32 option) \<Rightarrow> u32 \<Rightarrow> u32 option \<Rightarrow> groupMem list \<Rightarrow> nd_state \<Rightarrow> (sockaddr_in \<times> msg) list" where
  "to_members resolve k eid gs s = member_msgs resolve (nd_port s) k eid (nd_counter s) (nd_clock s) gs"

lemma resolvable_sub: "resolvable resolve gs \<Longrightarrow> resolvable resolve (members_with sel gs)"
  by (auto simp: resolvable_def members_with_def)

lemma higher_lower_resolvable:
  "resolvable resolve (nd_group s) \<Longrightarrow> resolvable resolve (higher s)"
  "resolvable resolve (nd_group s) \<Longrightarrow> resolvable resolve (lower s)"
  by (simp_all add: higher_def lower_def resolvable_sub)

text \<open>\<open>sent rnd out s t\<close>: from \<open>s\<close> to \<open>t\<close> the messages \<open>out\<close> were handed over, less the dropped ones.
  \<open>nd_view\<close> is the rest of the state.\<close>

definition sent :: "(nat \<Rightarrow> nat) \<Rightarrow> (sockaddr_in \<times> msg) list \<Rightarrow> nd_state \<Rightarrow> nd_state \<Rightarrow> bool" where
  "sent rnd out s t \<longleftrightarrow> nd_conf t = nd_conf s \<and> nd_calls t = nd_calls s + length out \<and>
     nd_outbox t = nd_outbox s @ nd_dgrams (kept rnd (nd_failure s) (nd_calls s) out)"

definition nd_view :: "nd_state \<Rightarrow> clock list \<times> u32 \<times> u32 \<times> u32 \<times> sockaddr_in option \<times> nd_phase" where
  "nd_view s = (nd_clock s, nd_counter s, nd_lastSent s, nd_lastReceived s, nd_thread s, nd_phase s)"

lemma sent_trans:
  assumes "sent rnd out s t" and "sent rnd out' t u"
  shows "sent rnd (out @ out') s u"
  using assms nd_conf_fields [of t s] by (simp add: sent_def kept_append)

lemma sent_Nil: "nd_conf t = nd_conf s \<Longrightarrow> nd_calls t = nd_calls s \<Longrightarrow> nd_outbox t = nd_outbox s \<Longrightarrow> sent rnd [] s t"
  by (simp add: sent_def)

lemma sent_conf: "sent rnd out s t \<Longrightarrow> nd_conf t = nd_conf s"
  by (simp add: sent_def)

lemma higher_lower_cong: "nd_conf s = nd_conf t \<Longrightarrow> higher s = higher t \<and> lower s = lower t"
  using nd_conf_fields [of s t] by (simp add: higher_def lower_def)

lemma sendToMembers_view:
  assumes "wf_nd s" and "resolvable resolve (nd_group s)"
  shows "\<exists>t. sendToMembers resolve rnd sel k eid (nd_group s) s = Running t \<and>
    sent rnd (to_members resolve k eid (members_with sel (nd_group s)) s) s t \<and>
    nd_view t = ((tick_slots (nd_port s) ^^ length (members_with sel (nd_group s))) (nd_clock s),
      if eid = None then nd_counter s + of_nat (length (members_with sel (nd_group s))) else nd_counter s,
      if members_with sel (nd_group s) = [] then nd_lastSent s else k, nd_lastReceived s, nd_thread s, nd_phase s)"
proof -
  have "length (nd_clock s) = NODES" using assms by (simp add: wf_nd_def)
  from sendToMembers_eq [OF this resolvable_sub [OF assms(2)], of rnd sel k eid]
  show ?thesis by (auto simp: to_members_def nd_view_def nd_conf_def sent_def)
qed

lemma startElection_eq:
  assumes "wf_nd s" and "resolvable resolve (nd_group s)"
  shows "\<exists>t. startElection resolve rnd s = Running t \<and> sent rnd (to_members resolve ELECT None (higher s) s) s t \<and>
    nd_view t = ((tick_slots (nd_port s) ^^ length (higher s)) (nd_clock s), nd_counter s + of_nat (length (higher s)),
      if higher s = [] then nd_lastSent s else ELECT, nd_lastReceived s, nd_thread s, nd_phase s)"
  using sendToMembers_view [OF assms, of rnd "\<lambda>p. p > nd_port s" ELECT None]
  by (simp add: startElection_def higher_def)

lemma announceCoord_eq:
  assumes "wf_nd s" and "resolvable resolve (nd_group s)"
  shows "\<exists>t. announceCoord resolve rnd s = Running t \<and> sent rnd (to_members resolve COORD (Some 0) (lower s) s) s t \<and>
    nd_view t = ((tick_slots (nd_port s) ^^ length (lower s)) (nd_clock s), nd_counter s,
      if lower s = [] then nd_lastSent s else COORD, nd_lastReceived s, nd_thread s, nd_phase s)"
  using sendToMembers_view [OF assms, of rnd "\<lambda>p. p < nd_port s" COORD "Some 0"]
  by (simp add: announceCoord_def lower_def)

text \<open>The state in which \<open>handleMsg\<close> runs.\<close>

definition received :: "msg \<Rightarrow> sockaddr_in \<Rightarrow> nd_state \<Rightarrow> nd_state" where
  "received m a s =
     nd_writeEventToLog m False (sin_port a) (nd_updateMyVectorClock (nd_mergeVectorClock m s))"

lemma received_simps [simp]:
  "nd_conf (received m a s) = nd_conf s" "nd_calls (received m a s) = nd_calls s"
  "nd_outbox (received m a s) = nd_outbox s" "nd_host (received m a s) = nd_host s"
  "nd_port (received m a s) = nd_port s" "nd_group (received m a s) = nd_group s"
  "nd_failure (received m a s) = nd_failure s"
  "nd_lastSent (received m a s) = nd_lastSent s" "nd_lastReceived (received m a s) = nd_lastReceived s"
  "nd_thread (received m a s) = nd_thread s" "nd_phase (received m a s) = nd_phase s"
  "nd_counter (received m a s) = nd_counter s"
  "nd_clock (received m a s) = tick_slots (nd_port s) (merge_slots (vectorClock m) (nd_clock s))"
  by (simp_all add: received_def nd_writeEventToLog_def nd_updateMyVectorClock_def nd_mergeVectorClock_def nd_conf_def)

lemma wf_nd_received [simp]: "wf_nd (received m a s) = wf_nd s"
  by (rule wf_nd_cong) simp_all

lemma nd_step_recv:
  assumes "wf_msg m" and "nd_phase s = Receiving"
  shows "nd_step resolve rnd (Recv a (ndBytes m @ rest)) s = handleMsg resolve rnd m a (received m a s)"
  using assms by (simp add: nd_receive_def nd_deserializeMsg_ndBytes received_def Let_def)

lemma nd_send_view:
  assumes "wf_nd s"
  shows "sent rnd [(a, ticked k e s)] s (nd_send rnd k e a s)"
    and "nd_view (nd_send rnd k e a s) = (tick_slots (nd_port s) (nd_clock s), nd_counter s, nd_lastSent s,
       nd_lastReceived s, nd_thread s, nd_phase s)"
proof -
  have "length (nd_clock s) = NODES" using assms by (simp add: wf_nd_def)
  from nd_send_eq [OF this, of rnd k e a]
  show "sent rnd [(a, ticked k e s)] s (nd_send rnd k e a s)"
    and "nd_view (nd_send rnd k e a s) = (tick_slots (nd_port s) (nd_clock s), nd_counter s, nd_lastSent s,
       nd_lastReceived s, nd_thread s, nd_phase s)"
    by (auto simp: nd_view_def nd_conf_def sent_def simp del: kept.simps)
qed

text \<open>The messages that an \<open>ELECT\<close> makes a node send, from the state in which it handles it.\<close>

definition elect_reply :: "(string \<Rightarrow> u32 option) \<Rightarrow> msg \<Rightarrow> sockaddr_in \<Rightarrow> nd_state \<Rightarrow> (sockaddr_in \<times> msg) list" where
  "elect_reply resolve m a s =
     (let s' = s\<lparr>nd_clock := tick_slots (nd_port s) (nd_clock s)\<rparr> in
      (a, ticked ANSWER (electionID m) s) #
      (if nd_lastSent s = ELECT then []
       else if higher s \<noteq> [] then to_members resolve ELECT (Some (electionID m)) (higher s) s'
       else to_members resolve COORD (Some 0) (lower s) s'))"

lemma to_members_cong:
  "nd_port s = nd_port t \<Longrightarrow> nd_clock s = nd_clock t \<Longrightarrow>
    to_members resolve k (Some e) gs s = to_members resolve k (Some e) gs t"
  unfolding to_members_def by (metis member_msgs_Some)

lemma handleElect_eq:
  assumes "wf_nd s" and "resolvable resolve (nd_group s)"
  shows "\<exists>t. handleElect resolve rnd m a s = Running t \<and> sent rnd (elect_reply resolve m a s) s t \<and>
    nd_lastReceived t = ELECT \<and> nd_thread t = nd_thread s \<and> nd_phase t = nd_phase s \<and>
    nd_lastSent t = (if nd_lastSent s = ELECT \<or> higher s \<noteq> [] then ELECT else if lower s \<noteq> [] then COORD else 0)"
proof -
  let ?s1 = "nd_send rnd ANSWER (electionID m) a s"
  let ?s2 = "?s1\<lparr>nd_lastReceived := ELECT\<rparr>"
  let ?s3 = "?s2\<lparr>nd_lastSent := 0\<rparr>"
  have s2: "sent rnd [(a, ticked ANSWER (electionID m) s)] s ?s2"
    and s3: "sent rnd [(a, ticked ANSWER (electionID m) s)] s ?s3"
    using nd_send_view(1) [OF assms(1), of rnd a ANSWER "electionID m"] by (simp_all add: sent_def)
  have v: "nd_view ?s3 = (tick_slots (nd_port s) (nd_clock s), nd_counter s, 0, ELECT, nd_thread s, nd_phase s)"
    using nd_send_view(2) [OF assms(1), of rnd ANSWER "electionID m" a] by (simp add: nd_view_def)
  show ?thesis
  proof (cases "nd_lastSent s = ELECT")
    case True
    then show ?thesis using s2 by (simp add: handleElect_def Let_def elect_reply_def)
  next
    case False
    have c3: "nd_conf ?s3 = nd_conf s" using s3 by (rule sent_conf)
    have wf3: "wf_nd ?s3" using assms(1) by (simp add: wf_nd_def nd_conf_def nd_conf_fields [OF c3])
    have r3: "resolvable resolve (nd_group ?s3)" using assms(2) nd_conf_fields [OF c3] by simp
    let ?s' = "s\<lparr>nd_clock := tick_slots (nd_port s) (nd_clock s)\<rparr>"
    have hl3: "higher ?s3 = higher s" "lower ?s3 = lower s" using higher_lower_cong [OF c3] by simp_all
    have tm3: "to_members resolve k (Some e) gs ?s3 = to_members resolve k (Some e) gs ?s'" for k e gs
      using v nd_conf_fields [OF c3] by (intro to_members_cong) (simp_all add: nd_view_def)
    obtain t where t: "sendToMembers resolve rnd (\<lambda>p. p > nd_port ?s3) ELECT (Some (electionID m)) (nd_group ?s3) ?s3 = Running t"
      "sent rnd (to_members resolve ELECT (Some (electionID m)) (higher s) ?s') ?s3 t"
      "nd_view t = ((tick_slots (nd_port ?s3) ^^ length (higher s)) (nd_clock ?s3), nd_counter ?s3,
        if higher s = [] then nd_lastSent ?s3 else ELECT, nd_lastReceived ?s3, nd_thread ?s3, nd_phase ?s3)"
      using sendToMembers_view [OF wf3 r3, of rnd "\<lambda>p. p > nd_port ?s3" ELECT "Some (electionID m)"]
      unfolding higher_def [symmetric] hl3 tm3 by auto
    have step: "handleElect resolve rnd m a s =
        (if nd_lastSent t = 0 then announceCoord resolve rnd t else Running t)"
      using False t(1) by (simp add: handleElect_def Let_def)
    show ?thesis
    proof (cases "higher s = []")
      case False
      then show ?thesis
        using step t(3) v sent_trans [OF s3 t(2)] \<open>nd_lastSent s \<noteq> ELECT\<close>
        by (simp add: nd_view_def elect_reply_def Let_def)
    next
      case True
      have ct: "nd_conf t = nd_conf s" using sent_trans [OF s3 t(2)] by (rule sent_conf)
      have vt: "nd_clock t = nd_clock ?s'" "nd_lastSent t = 0" "nd_lastReceived t = ELECT"
        "nd_thread t = nd_thread s" "nd_phase t = nd_phase s"
        using t(3) v True by (simp_all add: nd_view_def)
      have wft: "wf_nd t" using assms(1) vt by (simp add: wf_nd_def nd_conf_def nd_conf_fields [OF ct])
      have rt: "resolvable resolve (nd_group t)" using assms(2) nd_conf_fields [OF ct] by simp
      have lt: "lower t = lower s" using higher_lower_cong [OF ct] by simp
      have tmt: "to_members resolve COORD (Some 0) (lower s) t = to_members resolve COORD (Some 0) (lower s) ?s'"
        using vt nd_conf_fields [OF ct] by (intro to_members_cong) simp_all
      obtain u where u: "announceCoord resolve rnd t = Running u"
        "sent rnd (to_members resolve COORD (Some 0) (lower s) ?s') t u"
        "nd_view u = ((tick_slots (nd_port t) ^^ length (lower s)) (nd_clock t), nd_counter t,
           if lower s = [] then nd_lastSent t else COORD, nd_lastReceived t, nd_thread t, nd_phase t)"
        using announceCoord_eq [OF wft rt, of rnd] unfolding lt tmt by blast
      have "sent rnd (elect_reply resolve m a s) s u"
        using sent_trans [OF sent_trans [OF s3 t(2)] u(2)] True \<open>nd_lastSent s \<noteq> ELECT\<close>
        by (simp add: elect_reply_def Let_def to_members_def)
      then show ?thesis
        using step u vt True \<open>nd_lastSent s \<noteq> ELECT\<close> by (simp add: nd_view_def)
    qed
  qed
qed

end
