(* ===== verification/NodeElection.thy ===== *)
theory NodeElection
  imports NodeProps
begin

text \<open>
  Elections: what a node does on \<open>ELECT\<close>, on the other messages and on a timeout, and an election
  from the loss of the coordinator to the first AYA message to the new one, through the bytes.
\<close>

subsection \<open>Messages\<close>

text \<open>
  C14: an election message is answered and passed on.  The sender gets an \<open>ANSWER\<close> with its election
  id.  A node that is in an election already sends nothing else; one that is not passes the message
  on to every member with a higher port, and if there is none it announces itself to every member
  with a lower port.
\<close>

theorem elect_answered:
  assumes "wf_nd s" and "nd_phase s = Receiving" and "resolvable resolve (nd_group s)"
    and "wf_msg m" and "msgID m = ELECT"
  shows "\<exists>t. nd_step resolve rnd (Recv a (ndBytes m @ rest)) s = Running t \<and>
    sent rnd (elect_reply resolve m a (received m a s)) s t \<and>
    nd_lastReceived t = ELECT \<and> nd_thread t = nd_thread s \<and> nd_phase t = Receiving \<and>
    nd_lastSent t = (if nd_lastSent s = ELECT \<or> higher s \<noteq> [] then ELECT else if lower s \<noteq> [] then COORD else 0)"
proof -
  have hl: "higher (received m a s) = higher s" "lower (received m a s) = lower s"
    by (simp_all add: higher_def lower_def)
  have "handleMsg resolve rnd m a (received m a s) = handleElect resolve rnd m a (received m a s)"
    using assms(5) by (simp add: handleMsg_def)
  then have step: "nd_step resolve rnd (Recv a (ndBytes m @ rest)) s = handleElect resolve rnd m a (received m a s)"
    by (simp only: nd_step_recv [OF assms(4,2)])
  obtain t where "handleElect resolve rnd m a (received m a s) = Running t"
    "sent rnd (elect_reply resolve m a (received m a s)) (received m a s) t"
    "nd_lastReceived t = ELECT \<and> nd_thread t = nd_thread s \<and> nd_phase t = nd_phase s \<and>
    nd_lastSent t = (if nd_lastSent s = ELECT \<or> higher s \<noteq> [] then ELECT else if lower s \<noteq> [] then COORD else 0)"
    using handleElect_eq [of "received m a s" resolve rnd m a] assms(1,3) hl by auto
  with step assms(2) show ?thesis by (auto simp: sent_def)
qed

lemma demo_node_simps [simp]:
  "wf_nd (demo_node 20)" "nd_outbox (demo_node 20) = []" "nd_port (demo_node 20) = 20"
  "nd_phase (demo_node 20) = First" "nd_thread (demo_node 20) = None"
  using nd_main_wf [OF demo_main] by simp_all

definition demo_group :: "groupMem list" where
  "demo_group = [\<lparr>g_hostname = ''a'', g_portno = 20\<rparr>, \<lparr>g_hostname = ''b'', g_portno = 30\<rparr>, \<lparr>g_hostname = ''c'', g_portno = 40\<rparr>]"

text \<open>A node of the demonstration group in the middle of its work.\<close>

definition demo_nd :: "u32 \<Rightarrow> u32 \<Rightarrow> u32 \<Rightarrow> sockaddr_in option \<Rightarrow> nd_state" where
  "demo_nd port ls lr thread =
     (nd_init Little port 0 1 '''' demo_group)\<lparr>nd_counter := 1, nd_lastSent := ls, nd_lastReceived := lr,
       nd_thread := thread, nd_phase := Receiving\<rparr>"

lemma demo_nd_simps [simp]:
  "nd_phase (demo_nd p k r t) = Receiving" "nd_lastSent (demo_nd p k r t) = k" "nd_port (demo_nd p k r t) = p"
  "nd_lastReceived (demo_nd p k r t) = r" "nd_thread (demo_nd p k r t) = t" "nd_group (demo_nd p k r t) = demo_group"
  "nd_failure (demo_nd p k r t) = 0" "nd_AYATime (demo_nd p k r t) = 1" "nd_outbox (demo_nd p k r t) = []"
  "wf_nd (demo_nd p k r t) \<longleftrightarrow> k \<in> {0, ELECT, COORD, AYA, IAA} \<and> r \<in> {0, ELECT, ANSWER, COORD, AYA}"
  by (simp_all add: demo_nd_def nd_init_def wf_nd_def demo_group_def)

lemma demo_resolve_simps [simp]:
  "demo_resolve ''a'' = Some 1" "demo_resolve ''b'' = Some 2" "demo_resolve ''c'' = Some 3"
  by (simp_all add: demo_resolve_def)

lemma demo_resolvable [simp]: "resolvable demo_resolve demo_group"
  by (simp add: demo_group_def)

lemma wf_nd_sample [simp]: "wf_msg nd_sample" "msgID nd_sample = ELECT"
  by (simp_all add: nd_sample_def wf_msg_def)

theorem elect_answered_witness:
  "\<exists>t. nd_step demo_resolve (\<lambda>_. 0) (Recv \<lparr>sin_addr = 1, sin_port = 20\<rparr> (ndBytes nd_sample @ [])) (demo_nd 40 0 0 None) = Running t \<and>
     nd_lastSent t = COORD"
  using elect_answered [of "demo_nd 40 0 0 None" demo_resolve nd_sample "\<lambda>_. 0" "\<lparr>sin_addr = 1, sin_port = 20\<rparr>" "[]"]
  by (auto simp: higher_def lower_def demo_group_def)

text \<open>
  The other messages.  \<open>ANSWER\<close> ends the node's own election only while it waits for one;
  \<open>COORD\<close> starts the AYA thread to the sender unless a thread runs already, then the node keeps
  asking the old coordinator; \<open>AYA\<close> is answered with \<open>IAA\<close> and the election id it came with; \<open>IAA\<close>
  and unknown kinds only move the clock.
\<close>

theorem other_messages:
  assumes "wf_nd s" and "nd_phase s = Receiving" and "wf_msg m" and "msgID m \<noteq> ELECT"
  shows "\<exists>t. nd_step resolve rnd (Recv a (ndBytes m @ rest)) s = Running t \<and>
    sent rnd (if msgID m = AYA then [(a, ticked IAA (electionID m) (received m a s))] else []) s t \<and>
    nd_thread t = (if msgID m = COORD \<and> nd_thread s = None then Some a else nd_thread s) \<and>
    (nd_lastSent t, nd_lastReceived t) =
      (if msgID m = ANSWER \<and> nd_lastSent s = ELECT then (0, ANSWER)
       else if msgID m = COORD then (nd_lastSent s, COORD)
       else if msgID m = AYA then (IAA, AYA)
       else (nd_lastSent s, nd_lastReceived s))"
proof -
  let ?r = "received m a s"
  let ?r' = "?r\<lparr>nd_lastReceived := AYA, nd_lastSent := IAA\<rparr>"
  have wf: "wf_nd ?r'" using assms(1) by (simp add: wf_nd_def)
  have step: "nd_step resolve rnd (Recv a (ndBytes m @ rest)) s = handleMsg resolve rnd m a ?r"
    by (rule nd_step_recv [OF assms(3,2)])
  have aya: "sent rnd [(a, ticked IAA (electionID m) ?r)] s (nd_send rnd IAA (electionID m) a ?r')"
    using nd_send_view(1) [OF wf, of rnd a IAA "electionID m"] by (simp add: sent_def ticked_def)
  show ?thesis
    using step aya assms(4) by (auto simp: handleMsg_def Let_def sent_Nil)
qed

definition demo_coord :: msg where
  "demo_coord = nd_sample\<lparr>msgID := COORD, electionID := 0\<rparr>"

theorem other_messages_witness:
  "\<exists>t. nd_step demo_resolve (\<lambda>_. 0) (Recv \<lparr>sin_addr = 3, sin_port = 40\<rparr> (ndBytes demo_coord @ [])) (demo_nd 20 0 ANSWER None) = Running t \<and>
     nd_thread t = Some \<lparr>sin_addr = 3, sin_port = 40\<rparr>"
  using other_messages [of "demo_nd 20 0 ANSWER None" demo_coord demo_resolve "\<lambda>_. 0" "\<lparr>sin_addr = 3, sin_port = 40\<rparr>" "[]"]
  by (auto simp: wf_msg_def demo_coord_def nd_sample_def)

subsection \<open>Timeouts\<close>

text \<open>
  C32: what a timeout means.  A node whose \<open>lastSent\<close> is \<open>ELECT\<close> announces itself to all lower
  members.  One that sent \<open>AYA\<close> stops its AYA thread and calls an election, and so does one that got
  an \<open>ANSWER\<close> but no coordinator.  One that was asked to elect and has nobody above announces itself.
  In all other states nothing is sent.  Every \<open>ELECT\<close> of an election takes a new election id.
  The comment in \<open>msg.h\<close> lets a node that got an \<open>ANSWER\<close> wait \<open>MAX_NODES + 1\<close> timeouts for the
  coordinator before it gives the election up; the code calls the new one at the first timeout.
\<close>

theorem timeout_actions:
  assumes "wf_nd s" and "nd_phase s = Receiving" and "resolvable resolve (nd_group s)"
    and "nd_lastSent s = AYA \<Longrightarrow> nd_thread s \<noteq> None"
  shows "\<exists>t. nd_step resolve rnd RecvTimeout s = Running t \<and>
    (if nd_lastSent s = ELECT \<or> nd_lastSent s = 0 \<and> nd_lastReceived s = ELECT
     then sent rnd (to_members resolve COORD (Some 0) (lower s) s) s t \<and> nd_thread t = nd_thread s \<and>
       nd_lastSent t = (if lower s = [] then nd_lastSent s else COORD)
     else if nd_lastSent s = AYA \<or> nd_lastSent s = 0 \<and> nd_lastReceived s = ANSWER
     then sent rnd (to_members resolve ELECT None (higher s) s) s t \<and>
       nd_thread t = (if nd_lastSent s = AYA then None else nd_thread s) \<and>
       nd_lastSent t = (if higher s = [] then nd_lastSent s else ELECT)
     else t = s) \<and> nd_lastReceived t = nd_lastReceived s"
proof -
  have step: "nd_step resolve rnd RecvTimeout s = nd_timeout resolve rnd s" using assms(2) by simp
  obtain t where t: "announceCoord resolve rnd s = Running t"
    "sent rnd (to_members resolve COORD (Some 0) (lower s) s) s t"
    "nd_thread t = nd_thread s" "nd_lastReceived t = nd_lastReceived s"
    "nd_lastSent t = (if lower s = [] then nd_lastSent s else COORD)"
    using announceCoord_eq [OF assms(1,3), of rnd] by (auto simp: nd_view_def)
  obtain u where u: "startElection resolve rnd s = Running u"
    "sent rnd (to_members resolve ELECT None (higher s) s) s u"
    "nd_thread u = nd_thread s" "nd_lastReceived u = nd_lastReceived s"
    "nd_lastSent u = (if higher s = [] then nd_lastSent s else ELECT)"
    using startElection_eq [OF assms(1,3), of rnd] by (auto simp: nd_view_def)
  let ?s = "s\<lparr>nd_thread := None\<rparr>"
  have hs: "higher ?s = higher s" "to_members resolve ELECT None (higher s) ?s = to_members resolve ELECT None (higher s) s"
    by (simp_all add: higher_def to_members_def)
  have "wf_nd ?s" using assms(1) by (simp add: wf_nd_def)
  then obtain v where v: "startElection resolve rnd ?s = Running v"
    "sent rnd (to_members resolve ELECT None (higher s) s) s v"
    "nd_thread v = None" "nd_lastReceived v = nd_lastReceived s"
    "nd_lastSent v = (if higher s = [] then nd_lastSent s else ELECT)"
    using startElection_eq [of ?s resolve rnd] assms(3) hs by (auto simp: nd_view_def sent_def)
  show ?thesis
    using step t u v assms(4) by (auto simp: nd_timeout_def split: option.splits)
qed

theorem timeout_actions_witness:
  "\<exists>t. nd_step demo_resolve (\<lambda>_. 0) RecvTimeout (demo_nd 20 AYA COORD (Some \<lparr>sin_addr = 3, sin_port = 40\<rparr>)) = Running t \<and>
     nd_lastSent t = ELECT \<and> nd_thread t = None"
  using timeout_actions [of "demo_nd 20 AYA COORD (Some \<lparr>sin_addr = 3, sin_port = 40\<rparr>)" demo_resolve "\<lambda>_. 0"]
  by (auto simp: higher_def demo_group_def)

end
