(* ===== verification/NodeSafety.thy ===== *)
theory NodeSafety
  imports NodeElection
begin

text \<open>
  When a node may announce itself as the coordinator, and a whole election: the loss of the
  coordinator, the \<open>ELECT\<close> to the highest member, its \<open>ANSWER\<close> and \<open>COORD\<close>, and the first \<open>AYA\<close> to it.
\<close>

subsection \<open>Which messages an event adds\<close>

definition adds :: "(sockaddr_in \<times> msg \<Rightarrow> bool) \<Rightarrow> nd_state \<Rightarrow> nd_state \<Rightarrow> bool" where
  "adds P s t \<longleftrightarrow> (length (nd_clock s) = NODES \<longrightarrow> length (nd_clock t) = NODES \<and> nd_conf t = nd_conf s \<and>
     (\<exists>ms. nd_outbox t = nd_outbox s @ nd_dgrams ms \<and> (\<forall>x \<in> set ms. P x)))"

lemma adds_same: "length (nd_clock t) = length (nd_clock s) \<Longrightarrow> nd_conf t = nd_conf s \<Longrightarrow> nd_outbox t = nd_outbox s \<Longrightarrow> adds P s t"
  unfolding adds_def by (metis append_Nil2 empty_iff list.set(1) nd_dgrams_simps(1))

lemma adds_trans:
  assumes "adds P s t" and "adds P t u"
  shows "adds P s u"
proof (cases "length (nd_clock s) = NODES")
  case True
  with assms(1) obtain ms where t: "length (nd_clock t) = NODES" "nd_conf t = nd_conf s"
    "nd_outbox t = nd_outbox s @ nd_dgrams ms" "\<forall>x \<in> set ms. P x" by (auto simp: adds_def)
  with assms(2) obtain ms' where "length (nd_clock u) = NODES" "nd_conf u = nd_conf t"
    "nd_outbox u = nd_outbox t @ nd_dgrams ms'" "\<forall>x \<in> set ms'. P x" by (auto simp: adds_def)
  with t show ?thesis unfolding adds_def by (intro impI conjI exI [of _ "ms @ ms'"]) auto
qed (simp add: adds_def)

lemma adds_after: "adds P s t \<Longrightarrow> out_all (adds P t) m \<Longrightarrow> out_all (adds P s) m"
  by (erule out_all_mono) (rule adds_trans)

lemma adds_seq:
  assumes m: "out_all (adds P s) m" and f: "\<And>t. m = Running t \<Longrightarrow> out_all (adds P t) (f t)"
  shows "out_all (adds P s) (seq m f)"
  using assms by (cases m) (auto intro: adds_after)

lemma adds_send:
  assumes "P (a, ticked k e s)"
  shows "adds P s (nd_send rnd k e a s)"
proof (cases "length (nd_clock s) = NODES")
  case True
  from nd_send_eq [OF this, of rnd k e a] obtain log where
    "nd_send rnd k e a s = s\<lparr>nd_clock := tick_slots (nd_port s) (nd_clock s), nd_calls := Suc (nd_calls s),
      nd_shiviz := log, nd_outbox := nd_outbox s @ nd_dgrams (kept rnd (nd_failure s) (nd_calls s) [(a, ticked k e s)])\<rparr>"
    by (rule exE)
  moreover have "\<forall>x \<in> set (kept rnd (nd_failure s) (nd_calls s) [(a, ticked k e s)]). P x"
    using kept_subset assms by fastforce
  ultimately show ?thesis using True unfolding adds_def by (auto simp: nd_conf_def simp del: kept.simps)
qed (simp add: adds_def)

lemma sendToMembers_adds:
  assumes "\<And>g m. g \<in> set gs \<Longrightarrow> sel (g_portno g) \<Longrightarrow> msgID m = k \<Longrightarrow> P (mem_addr resolve g, m)"
  shows "out_all (adds P s) (sendToMembers resolve rnd sel k eid gs s)"
  using assms
proof (induction gs arbitrary: s)
  case Nil
  show ?case by (simp add: adds_same)
next
  case (Cons g gs)
  then have IH: "out_all (adds P t) (sendToMembers resolve rnd sel k eid gs t)" for t by simp
  show ?case
  proof (cases "sel (g_portno g) \<and> resolve (g_hostname g) \<noteq> None")
    case False
    then show ?thesis using IH by (auto simp: adds_same)
  next
    case True
    then obtain ip where ip: "resolve (g_hostname g) = Some ip" and sel: "sel (g_portno g)" by auto
    then have a: "mem_addr resolve g = \<lparr>sin_addr = ip, sin_port = ucast (g_portno g)\<rparr>" by (simp add: mem_addr_def)
    let ?e = "case eid of Some e \<Rightarrow> e | None \<Rightarrow> nd_counter s"
    let ?s0 = "case eid of Some e \<Rightarrow> s | None \<Rightarrow> s\<lparr>nd_counter := nd_counter s + 1\<rparr>"
    let ?s1 = "nd_send rnd k ?e (mem_addr resolve g) ?s0"
    have "adds P s ?s0" by (rule adds_same) (simp_all split: option.splits)
    moreover have "adds P ?s0 ?s1" using Cons.prems [of g] sel by (intro adds_send) (simp add: ticked_def)
    moreover have "adds P ?s1 (?s1\<lparr>nd_lastSent := k\<rparr>)" by (rule adds_same) simp_all
    ultimately have "adds P s (?s1\<lparr>nd_lastSent := k\<rparr>)" by (blast intro: adds_trans)
    from adds_after [OF this IH] show ?thesis using sel ip a by (cases eid) simp_all
  qed
qed

lemma sendToMembers_lastSent:
  "sendToMembers resolve rnd sel k eid gs s = Running t \<Longrightarrow>
    nd_lastSent t = (if members_with sel gs = [] then nd_lastSent s else k) \<and> nd_conf t = nd_conf s"
proof (induction gs arbitrary: s)
  case (Cons g gs)
  show ?case
  proof (cases "sel (g_portno g)")
    case False
    with Cons show ?thesis by simp
  next
    case True
    with Cons.prems obtain ip where ip: "resolve (g_hostname g) = Some ip"
      by (cases "resolve (g_hostname g)") auto
    let ?e = "case eid of Some e \<Rightarrow> e | None \<Rightarrow> nd_counter s"
    let ?s0 = "case eid of Some e \<Rightarrow> s | None \<Rightarrow> s\<lparr>nd_counter := nd_counter s + 1\<rparr>"
    let ?s1 = "nd_send rnd k ?e \<lparr>sin_addr = ip, sin_port = ucast (g_portno g)\<rparr> ?s0"
    have "sendToMembers resolve rnd sel k eid gs (?s1\<lparr>nd_lastSent := k\<rparr>) = Running t"
      using Cons.prems True ip by (cases eid) simp_all
    moreover have "nd_conf ?s1 = nd_conf s" by (simp split: option.splits)
    ultimately obtain s1 where "sendToMembers resolve rnd sel k eid gs (s1\<lparr>nd_lastSent := k\<rparr>) = Running t"
      and "nd_conf s1 = nd_conf s" by blast
    with Cons.IH [of "s1\<lparr>nd_lastSent := k\<rparr>"] True show ?thesis by simp
  qed
qed simp

lemma sendToMembers_keeps_received:
  "sendToMembers resolve rnd sel k eid gs s = Running t \<Longrightarrow> nd_lastReceived t = nd_lastReceived s"
proof (induction gs arbitrary: s)
  case (Cons g gs)
  then show ?case
    by (cases "sel (g_portno g)"; cases "resolve (g_hostname g)"; cases eid) fastforce+
qed simp

lemma announceCoord_adds:
  assumes "\<And>g m. g \<in> set (lower s) \<Longrightarrow> P (mem_addr resolve g, m)"
  shows "out_all (adds P s) (announceCoord resolve rnd s)"
  unfolding announceCoord_def
  by (rule sendToMembers_adds) (use assms in \<open>auto simp: lower_def members_with_def\<close>)

lemma startElection_adds:
  assumes "\<And>a m. msgID m = ELECT \<Longrightarrow> P (a, m)"
  shows "out_all (adds P s) (startElection resolve rnd s)"
  unfolding startElection_def by (rule sendToMembers_adds) (use assms in auto)

lemma handleElect_adds:
  assumes other: "\<And>a m. msgID m \<noteq> COORD \<Longrightarrow> P (a, m)"
    and coord: "\<And>g m. higher s = [] \<Longrightarrow> nd_lastSent s \<noteq> ELECT \<Longrightarrow> g \<in> set (lower s) \<Longrightarrow> P (mem_addr resolve g, m)"
  shows "out_all (adds P s) (handleElect resolve rnd m a s)"
proof -
  let ?s1 = "nd_send rnd ANSWER (electionID m) a s"
  let ?s2 = "?s1\<lparr>nd_lastReceived := ELECT\<rparr>"
  let ?s3 = "?s2\<lparr>nd_lastSent := 0\<rparr>"
  have s1: "adds P s ?s1" by (rule adds_send) (simp add: other ticked_def)
  have s2: "adds P s ?s2" by (rule adds_trans [OF s1 adds_same]) simp_all
  show ?thesis
  proof (cases "nd_lastSent s = ELECT")
    case True
    with s2 show ?thesis by (simp add: handleElect_def Let_def)
  next
    case False
    have s3: "adds P s ?s3" by (rule adds_trans [OF s2 adds_same]) simp_all
    let ?m = "sendToMembers resolve rnd (\<lambda>p. p > nd_port ?s3) ELECT (Some (electionID m)) (nd_group ?s3) ?s3"
    let ?f = "\<lambda>s. if nd_lastSent s = 0 then announceCoord resolve rnd s else Running s"
    have "out_all (adds P ?s3) (seq ?m ?f)"
    proof (rule adds_seq)
      show "out_all (adds P ?s3) ?m" by (rule sendToMembers_adds) (simp add: other)
    next
      fix t
      assume t: "?m = Running t"
      from sendToMembers_lastSent [OF t] have ls: "nd_lastSent t = (if higher ?s3 = [] then 0 else ELECT)"
        and ct: "nd_conf t = nd_conf s" by (simp_all add: higher_def)
      have "higher ?s3 = higher s" using higher_lower_cong [of ?s3 s] by simp
      with ls have hs: "higher s = []" if "nd_lastSent t = 0" using that by (simp split: if_splits)
      have lt: "lower t = lower s" using higher_lower_cong [OF ct] by simp
      show "out_all (adds P t) (?f t)"
      proof (cases "nd_lastSent t = 0")
        case True
        have "out_all (adds P t) (announceCoord resolve rnd t)"
          by (rule announceCoord_adds) (simp add: coord hs True False lt)
        with True show ?thesis by simp
      qed (simp add: adds_same)
    qed
    from adds_after [OF s3 this] False show ?thesis by (simp add: handleElect_def Let_def)
  qed
qed

lemma handleMsg_adds:
  assumes other: "\<And>a m. msgID m \<noteq> COORD \<Longrightarrow> P (a, m)"
    and coord: "\<And>g m'. msgID m = ELECT \<Longrightarrow> higher s = [] \<Longrightarrow> nd_lastSent s \<noteq> ELECT \<Longrightarrow> g \<in> set (lower s) \<Longrightarrow>
      P (mem_addr resolve g, m')"
  shows "out_all (adds P s) (handleMsg resolve rnd m a s)"
proof -
  have k: "P (a', ticked k e t)" if "k \<noteq> COORD" for a' k e t using that by (simp add: other ticked_def)
  have aya: "adds P s (nd_send rnd IAA e a (s\<lparr>nd_lastReceived := AYA, nd_lastSent := IAA\<rparr>))" for e
    by (rule adds_trans [OF adds_same adds_send]) (simp_all add: k)
  have rest: "adds P s (s\<lparr>nd_lastReceived := x\<rparr>)" "adds P s (s\<lparr>nd_lastReceived := x, nd_lastSent := y\<rparr>)"
    "adds P s (s\<lparr>nd_lastReceived := x, nd_thread := z\<rparr>)" "adds P s s" for x y z
    by (rule adds_same; simp)+
  have "out_all (adds P s) (handleElect resolve rnd m a s)" if "msgID m = ELECT"
    by (rule handleElect_adds) (use that other coord in auto)
  with aya rest show ?thesis by (simp add: handleMsg_def Let_def)
qed

text \<open>The cases in which a node may announce itself.\<close>

definition may_announce :: "nd_event \<Rightarrow> nd_state \<Rightarrow> bool" where
  "may_announce e s \<longleftrightarrow>
     (case e of
        RecvTimeout \<Rightarrow> nd_phase s = Receiving \<and>
          (nd_lastSent s = ELECT \<or> nd_lastSent s = 0 \<and> nd_lastReceived s = ELECT)
      | Recv a buf \<Rightarrow> nd_phase s \<noteq> Spinning \<and> (nd_phase s = First \<or> nd_lastSent s \<noteq> ELECT) \<and> higher s = [] \<and>
          (\<exists>m. nd_deserializeMsg (nd_host s) buf = Some m \<and> msgID m = ELECT)
      | _ \<Rightarrow> False)"

definition justified :: "(string \<Rightarrow> u32 option) \<Rightarrow> nd_event \<Rightarrow> nd_state \<Rightarrow> sockaddr_in \<times> msg \<Rightarrow> bool" where
  "justified resolve e s x \<longleftrightarrow>
     (msgID (snd x) = COORD \<longrightarrow> may_announce e s \<and> (\<exists>g \<in> set (lower s). fst x = mem_addr resolve g))"

lemma justified_other [simp]: "msgID m \<noteq> COORD \<Longrightarrow> justified resolve e s (a, m)"
  by (simp add: justified_def)


lemma nd_receive_adds:
  assumes hl: "higher t = higher s" "lower t = lower s" and "nd_host t = nd_host s"
    and phase: "nd_phase s \<noteq> Spinning" "nd_phase s = First \<or> nd_lastSent t = nd_lastSent s"
  shows "out_all (adds (justified resolve (Recv a buf) s) t) (nd_receive resolve rnd a buf t)"
proof (cases "nd_deserializeMsg (nd_host t) buf")
  case None
  then show ?thesis by (simp add: nd_receive_def)
next
  case (Some m)
  have hr: "higher (received m a t) = higher s" "lower (received m a t) = lower s"
    using hl by (simp_all add: higher_def lower_def)
  have "adds (justified resolve (Recv a buf) s) t (received m a t)" by (rule adds_same) simp_all
  moreover have "out_all (adds (justified resolve (Recv a buf) s) (received m a t)) (handleMsg resolve rnd m a (received m a t))"
  proof (rule handleMsg_adds)
    fix g m'
    assume "msgID m = ELECT" and "higher (received m a t) = []" and "nd_lastSent (received m a t) \<noteq> ELECT"
      and "g \<in> set (lower (received m a t))"
    then show "justified resolve (Recv a buf) s (mem_addr resolve g, m')"
      using Some assms hr by (auto simp: justified_def may_announce_def)
  qed simp
  ultimately show ?thesis using Some
    by (simp add: nd_receive_def Let_def received_def adds_after)
qed

lemma nd_timeout_adds:
  assumes "nd_phase s = Receiving"
  shows "out_all (adds (justified resolve RecvTimeout s) s) (nd_timeout resolve rnd s)"
proof -
  let ?P = "justified resolve RecvTimeout s"
  have coord: "out_all (adds ?P s) (announceCoord resolve rnd s)"
    if "nd_lastSent s = ELECT \<or> nd_lastSent s = 0 \<and> nd_lastReceived s = ELECT"
    by (rule announceCoord_adds) (use that assms in \<open>auto simp: justified_def may_announce_def\<close>)
  have elect: "out_all (adds ?P t) (startElection resolve rnd t)" for t
    by (rule startElection_adds) simp
  have "adds ?P s (s\<lparr>nd_thread := None\<rparr>)" by (rule adds_same) simp_all
  from adds_after [OF this elect] have aya: "out_all (adds ?P s) (startElection resolve rnd (s\<lparr>nd_thread := None\<rparr>))" .
  have zero: "out_all (adds ?P s) (seq (if nd_lastReceived s = ANSWER then startElection resolve rnd s else Running s)
      (\<lambda>s. if nd_lastReceived s = ELECT then announceCoord resolve rnd s else Running s))" if "nd_lastSent s = 0"
  proof (cases "nd_lastReceived s = ELECT")
    case True
    with coord that show ?thesis by simp
  next
    case False
    have "nd_lastReceived t = nd_lastReceived s" if "startElection resolve rnd s = Running t" for t
      using that sendToMembers_keeps_received [of resolve rnd _ ELECT None "nd_group s" s t]
      by (auto simp: startElection_def)
    with False show ?thesis by (intro adds_seq) (auto simp: elect adds_same split: if_splits)
  qed
  show ?thesis using coord aya zero by (auto simp: nd_timeout_def adds_same split: option.splits)
qed

lemma firstElection_adds:
  assumes "\<And>a m. msgID m = ELECT \<Longrightarrow> P (a, m)"
  shows "out_all (adds P s) (firstElection resolve rnd gs s)"
proof (induction gs arbitrary: s)
  case Nil
  show ?case by (simp add: adds_same)
next
  case (Cons g gs)
  let ?s = "s\<lparr>nd_lastReceived := ELECT, nd_lastSent := 0\<rparr>"
  have "adds P s ?s" by (rule adds_same) simp_all
  moreover have "out_all (adds P ?s) (seq (sendToMembers resolve rnd (\<lambda>p. p > nd_port ?s) ELECT None [g] ?s)
      (firstElection resolve rnd gs))"
    by (intro adds_seq sendToMembers_adds Cons.IH) (use assms in auto)
  ultimately have "out_all (adds P s) (seq (sendToMembers resolve rnd (\<lambda>p. p > nd_port ?s) ELECT None [g] ?s)
      (firstElection resolve rnd gs))" by (rule adds_after)
  then show ?case by (simp only: firstElection.simps Let_def)
qed

lemma nd_step_adds: "out_all (adds (justified resolve e s) s) (nd_step resolve rnd e s)"
proof (cases e)
  case RecvTimeout
  have "adds (justified resolve e s) s (s\<lparr>nd_phase := Receiving\<rparr>)" by (rule adds_same) simp_all
  from adds_after [OF this firstElection_adds] show ?thesis
    using RecvTimeout nd_timeout_adds by (auto simp: adds_same split: nd_phase.splits)
next
  case RecvEmpty
  then show ?thesis by (auto simp: adds_same split: nd_phase.splits)
next
  case (Recv a buf)
  let ?s = "s\<lparr>nd_phase := Receiving, nd_lastReceived := 0, nd_lastSent := 0\<rparr>"
  have "adds (justified resolve e s) s ?s" by (rule adds_same) simp_all
  moreover have "out_all (adds (justified resolve e s) ?s) (nd_receive resolve rnd a buf ?s)" if "nd_phase s = First"
    unfolding Recv by (rule nd_receive_adds) (use that in \<open>simp_all add: higher_def lower_def\<close>)
  ultimately have first: "nd_phase s = First \<Longrightarrow> out_all (adds (justified resolve e s) s) (nd_receive resolve rnd a buf ?s)"
    by (rule adds_after)
  have "out_all (adds (justified resolve e s) s) (nd_receive resolve rnd a buf s)" if "nd_phase s = Receiving"
    unfolding Recv by (rule nd_receive_adds) (use that in simp_all)
  with first show ?thesis using Recv by (simp add: adds_same split: nd_phase.splits)
next
  case AYAFires
  have "adds (justified resolve e s) s (nd_send rnd AYA p a (s\<lparr>nd_lastSent := AYA, nd_calls := n\<rparr>))" for p a n
    by (rule adds_trans [OF adds_same adds_send]) (simp_all add: ticked_def)
  then show ?thesis using AYAFires by (auto simp: AYA_thread_def adds_same split: option.splits)
qed

subsection \<open>Properties\<close>

text \<open>
  C13: what makes a node announce itself.  If an event makes a node hand over a datagram that says
  \<open>COORD\<close>, the datagram goes to a member with a lower port, and the event is one of two.  It is a
  timeout while \<open>lastSent\<close> is \<open>ELECT\<close>, or while \<open>lastSent\<close> is 0 and \<open>lastReceived\<close> is \<open>ELECT\<close>; that an
  \<open>ANSWER\<close> came in between does not prevent the first if it did not reset \<open>lastSent\<close>, see
  \<open>first_election_ignores_answer\<close>.  Or it is an \<open>ELECT\<close> that reaches a member with no higher one, before
  its first election or while \<open>lastSent\<close> is not \<open>ELECT\<close>: then no timeout is needed.
\<close>

theorem coord_needs_reason:
  assumes "wf_nd s" and "nd_step resolve rnd e s = Running t \<or> nd_step resolve rnd e s = Exited t"
    and "(a, bytes) \<in> set (drop (length (nd_outbox s)) (nd_outbox t))" and "take 4 bytes = be_bytes COORD"
  shows "(\<exists>g \<in> set (lower s). a = mem_addr resolve g) \<and>
    (case e of
       RecvTimeout \<Rightarrow> nd_phase s = Receiving \<and>
         (nd_lastSent s = ELECT \<or> nd_lastSent s = 0 \<and> nd_lastReceived s = ELECT)
     | Recv a buf \<Rightarrow> nd_phase s \<noteq> Spinning \<and> (nd_phase s = First \<or> nd_lastSent s \<noteq> ELECT) \<and> higher s = [] \<and>
         (\<exists>m. nd_deserializeMsg (nd_host s) buf = Some m \<and> msgID m = ELECT)
     | _ \<Rightarrow> False)"
proof -
  have "adds (justified resolve e s) s t"
    using nd_step_adds [of resolve e s rnd] assms(2) by auto
  with assms(1) obtain ms where "nd_outbox t = nd_outbox s @ nd_dgrams ms"
    and just: "\<forall>x \<in> set ms. justified resolve e s x" by (auto simp: adds_def wf_nd_def)
  with assms(3) obtain m where m: "(a, m) \<in> set ms" and bytes: "bytes = ndBytes m"
    by (auto simp: nd_dgrams_def)
  have "be_bytes (msgID m) = be_bytes COORD" using assms(4) bytes by (simp add: ndBytes_def)
  then have "msgID m = COORD" by (metis of_be_be)
  moreover have "justified resolve e s (a, m)" using just m by blast
  ultimately have "may_announce e s \<and> (\<exists>g \<in> set (lower s). a = mem_addr resolve g)"
    by (simp add: justified_def)
  then show ?thesis by (simp add: may_announce_def)
qed

lemma timeout_eq_elect:
  assumes "wf_nd s" and "nd_phase s = Receiving" and "resolvable resolve (nd_group s)" and "nd_lastSent s = ELECT"
  shows "\<exists>t. nd_step resolve rnd RecvTimeout s = Running t \<and> sent rnd (to_members resolve COORD (Some 0) (lower s) s) s t"
  using announceCoord_eq [OF assms(1,3), of rnd] assms(2,4) by (auto simp: nd_timeout_def)

lemma demo_take4: "take 4 (ndBytes m) = be_bytes (msgID m)"
  by (simp add: ndBytes_def)

theorem coord_needs_reason_witness:
  "\<exists>t a. nd_step demo_resolve (\<lambda>_. 0) RecvTimeout (demo_nd 30 ELECT COORD None) = Running t \<and>
     (\<exists>g \<in> set (lower (demo_nd 30 ELECT COORD None)). a = mem_addr demo_resolve g)"
proof -
  let ?s = "demo_nd 30 ELECT COORD None"
  let ?g = "\<lparr>g_hostname = ''a'', g_portno = 20\<rparr>"
  have wf: "wf_nd ?s" by simp
  have low: "lower ?s = [?g]" by (simp add: lower_def demo_group_def)
  obtain t where t: "nd_step demo_resolve (\<lambda>_. 0) RecvTimeout ?s = Running t"
    "sent (\<lambda>_. 0) (to_members demo_resolve COORD (Some 0) (lower ?s) ?s) ?s t"
    using timeout_eq_elect [of ?s demo_resolve "\<lambda>_. 0"] by auto
  let ?m = "\<lparr>msgID = COORD, electionID = 0, vectorClock = tick_slots 30 (nd_clock ?s)\<rparr>"
  have out: "(mem_addr demo_resolve ?g, ndBytes ?m) \<in> set (drop (length (nd_outbox ?s)) (nd_outbox t))"
    using t(2) by (simp add: sent_def low to_members_def)
  have "\<exists>g \<in> set (lower ?s). mem_addr demo_resolve ?g = mem_addr demo_resolve g"
    using coord_needs_reason [OF wf disjI1 [OF t(1)] out] by (simp add: demo_take4)
  with t(1) show ?thesis by blast
qed

lemma member_msgs_mem:
  "g \<in> set gs \<Longrightarrow> length vc = NODES \<Longrightarrow>
    \<exists>m. (mem_addr resolve g, m) \<in> set (member_msgs resolve p k eid n vc gs) \<and> msgID m = k \<and> wf_msg m"
proof (induction gs arbitrary: n vc)
  case (Cons x xs)
  then show ?case
    using Cons.IH [of "tick_slots p vc" "n + 1"] by (cases "g = x") (fastforce simp: wf_msg_def)+
qed simp

definition new_dgrams :: "nd_state \<Rightarrow> nd_state \<Rightarrow> (sockaddr_in \<times> u8 list) list" where
  "new_dgrams s t = drop (length (nd_outbox s)) (nd_outbox t)"

lemma sent_new: "sent rnd out s t \<Longrightarrow> nd_failure s = 0 \<Longrightarrow> new_dgrams s t = nd_dgrams out"
  by (simp add: sent_def new_dgrams_def)

lemma nd_dgrams_mem: "(a, m) \<in> set ms \<Longrightarrow> (a, ndBytes m) \<in> set (nd_dgrams ms)"
  by (force simp: nd_dgrams_def)

text \<open>The four steps of an election, from the side of the member that calls it and of the highest.\<close>

lemma election_called:
  assumes "wf_nd s" and "nd_phase s = Receiving" and "resolvable resolve (nd_group s)" and "nd_failure s = 0"
    and "nd_lastSent s = AYA" and "nd_thread s \<noteq> None" and "g \<in> set (higher s)"
  shows "\<exists>t m. nd_step resolve rnd RecvTimeout s = Running t \<and> (mem_addr resolve g, ndBytes m) \<in> set (new_dgrams s t) \<and>
    msgID m = ELECT \<and> wf_msg m \<and> wf_nd t \<and> nd_conf t = nd_conf s \<and> nd_phase t = Receiving \<and> nd_lastSent t = ELECT \<and>
    nd_thread t = None"
proof -
  let ?s = "s\<lparr>nd_thread := None\<rparr>"
  have wf: "wf_nd ?s" and h: "higher ?s = higher s" using assms(1) by (simp_all add: wf_nd_def higher_def)
  obtain t where t: "startElection resolve rnd ?s = Running t"
    "sent rnd (to_members resolve ELECT None (higher s) ?s) ?s t"
    "nd_phase t = Receiving" "nd_lastSent t = (if higher s = [] then nd_lastSent s else ELECT)" "nd_thread t = None"
    using startElection_eq [OF wf, of resolve rnd] assms(2,3) h by (auto simp: nd_view_def)
  have step: "nd_step resolve rnd RecvTimeout s = Running t"
    using assms(2,5,6) t(1) by (auto simp: nd_timeout_def)
  have "wf_nd t" using nd_machine.step_inv [OF assms(1), of resolve rnd RecvTimeout] step by simp
  moreover have "new_dgrams s t = nd_dgrams (to_members resolve ELECT None (higher s) ?s)"
    using sent_new [OF t(2)] assms(4) by (simp add: new_dgrams_def)
  moreover obtain m where "(mem_addr resolve g, m) \<in> set (to_members resolve ELECT None (higher s) ?s)" "msgID m = ELECT" "wf_msg m"
    using member_msgs_mem [OF assms(7), of "nd_clock ?s"] assms(1) unfolding to_members_def wf_nd_def by fastforce
  moreover have "nd_conf t = nd_conf s" using sent_conf [OF t(2)] by simp
  ultimately show ?thesis using step t assms(7) by (intro exI [of _ t] exI [of _ m]) (auto intro: nd_dgrams_mem)
qed

lemma highest_takes_over:
  assumes "wf_nd s" and "nd_phase s = Receiving" and "resolvable resolve (nd_group s)" and "nd_failure s = 0"
    and "nd_lastSent s \<noteq> ELECT" and "higher s = []" and "g \<in> set (lower s)" and "wf_msg m" and "msgID m = ELECT"
  shows "\<exists>t am cm ms. nd_step resolve rnd (Recv a (ndBytes m @ rest)) s = Running t \<and>
    new_dgrams s t = (a, ndBytes am) # ms \<and> msgID am = ANSWER \<and> wf_msg am \<and>
    (mem_addr resolve g, ndBytes cm) \<in> set ms \<and> msgID cm = COORD \<and> wf_msg cm"
proof -
  let ?r = "received m a s"
  let ?r' = "?r\<lparr>nd_clock := tick_slots (nd_port ?r) (nd_clock ?r)\<rparr>"
  let ?ms = "to_members resolve COORD (Some 0) (lower s) ?r'"
  have hl: "higher ?r = []" "lower ?r = lower s" using assms(6) by (simp_all add: higher_def lower_def)
  obtain t where t: "handleElect resolve rnd m a ?r = Running t" "sent rnd (elect_reply resolve m a ?r) ?r t"
    using handleElect_eq [of ?r resolve rnd m a] assms(1,3) by auto
  have "nd_step resolve rnd (Recv a (ndBytes m @ rest)) s = Running t"
    using nd_step_recv [OF assms(8,2), of resolve rnd a rest] t(1) assms(9) by (simp add: handleMsg_def)
  moreover have "elect_reply resolve m a ?r = (a, ticked ANSWER (electionID m) ?r) # ?ms"
    using assms(5) hl by (simp add: elect_reply_def Let_def)
  then have "new_dgrams s t = (a, ndBytes (ticked ANSWER (electionID m) ?r)) # nd_dgrams ?ms"
    using sent_new [OF t(2)] assms(4) by (simp add: new_dgrams_def)
  moreover have len: "length (nd_clock ?r') = NODES" using assms(1) by (simp add: wf_nd_def)
  moreover obtain cm where "(mem_addr resolve g, cm) \<in> set ?ms" "msgID cm = COORD" "wf_msg cm"
    using member_msgs_mem [OF assms(7) len] unfolding to_members_def by blast
  moreover have "wf_msg (ticked ANSWER (electionID m) ?r)" using assms(1) by (simp add: wf_msg_def ticked_def wf_nd_def)
  ultimately show ?thesis
    by (intro exI [of _ t] exI [of _ "ticked ANSWER (electionID m) ?r"] exI [of _ cm] exI [of _ "nd_dgrams ?ms"])
      (auto simp: ticked_def intro: nd_dgrams_mem)
qed

lemma answer_step:
  assumes "wf_nd s" and "nd_phase s = Receiving" and "wf_msg m" and "msgID m = ANSWER" and "nd_lastSent s = ELECT"
  shows "\<exists>t. nd_step resolve rnd (Recv a (ndBytes m @ rest)) s = Running t \<and> wf_nd t \<and> nd_phase t = Receiving \<and>
    nd_conf t = nd_conf s \<and> nd_thread t = nd_thread s \<and> nd_lastSent t = 0 \<and> nd_lastReceived t = ANSWER"
  using assms nd_step_recv [OF assms(3,2), of resolve rnd a rest]
  by (auto simp: handleMsg_def wf_nd_def)

lemma coord_step:
  assumes "wf_nd s" and "nd_phase s = Receiving" and "wf_msg m" and "msgID m = COORD" and "nd_thread s = None"
  shows "\<exists>t. nd_step resolve rnd (Recv a (ndBytes m @ rest)) s = Running t \<and> wf_nd t \<and> nd_conf t = nd_conf s \<and>
    nd_thread t = Some a \<and> nd_lastReceived t = COORD"
  using assms nd_step_recv [OF assms(3,2), of resolve rnd a rest]
  by (auto simp: handleMsg_def wf_nd_def Let_def)

lemma aya_step:
  assumes "wf_nd s" and "nd_failure s = 0" and "nd_AYATime s \<noteq> 0" and "nd_thread s = Some a"
  shows "\<exists>t m. nd_step resolve rnd AYAFires s = Running t \<and> new_dgrams s t = [(a, ndBytes m)] \<and> msgID m = AYA \<and>
    electionID m = nd_port s \<and> nd_lastSent t = AYA"
proof -
  let ?s = "s\<lparr>nd_lastSent := AYA, nd_calls := nd_calls s + 10\<rparr>"
  have wf: "wf_nd ?s" using assms(1) by (simp add: wf_nd_def)
  have "new_dgrams s (nd_send rnd AYA (nd_port s) a ?s) = [(a, ndBytes (ticked AYA (nd_port s) ?s))]"
    using sent_new [OF nd_send_view(1) [OF wf]] assms(2) by (simp add: new_dgrams_def)
  then show ?thesis using assms(3,4) by (simp add: AYA_thread_def) (auto simp: ticked_def)
qed

text \<open>
  C31: an election replaces a dead coordinator.  A member whose \<open>AYA\<close> stays unanswered calls an
  election; the member with the highest port that receives its \<open>ELECT\<close> answers it and announces
  itself to all others; after these two datagrams the first one asks the new coordinator for signs
  of life.  No datagram is dropped and the addresses are those of the group list.
\<close>

theorem election_end_to_end:
  assumes "wf_nd i" and "nd_phase i = Receiving" and "nd_lastSent i = AYA" and "nd_thread i \<noteq> None"
    and "nd_failure i = 0" and "nd_AYATime i \<noteq> 0"
    and "wf_nd h" and "nd_phase h = Receiving" and "nd_lastSent h \<noteq> ELECT" and "nd_failure h = 0"
    and "resolvable resolve (nd_group i)" and "nd_group h = nd_group i"
    and "gi \<in> set (nd_group i)" and "g_portno gi = nd_port i" and "gh \<in> set (nd_group i)" and "g_portno gh = nd_port h"
    and "nd_port i < nd_port h" and "higher h = []"
  shows "\<exists>i1 em h1 am cm ms i2 i3 i4 ay.
    nd_step resolve rnd RecvTimeout i = Running i1 \<and>
    (mem_addr resolve gh, ndBytes em) \<in> set (new_dgrams i i1) \<and> msgID em = ELECT \<and>
    nd_step resolve rnd (Recv (mem_addr resolve gi) (ndBytes em @ r1)) h = Running h1 \<and>
    new_dgrams h h1 = (mem_addr resolve gi, ndBytes am) # ms \<and> msgID am = ANSWER \<and>
    (mem_addr resolve gi, ndBytes cm) \<in> set ms \<and> msgID cm = COORD \<and>
    nd_step resolve rnd (Recv (mem_addr resolve gh) (ndBytes am @ r2)) i1 = Running i2 \<and>
    nd_step resolve rnd (Recv (mem_addr resolve gh) (ndBytes cm @ r3)) i2 = Running i3 \<and>
    nd_thread i3 = Some (mem_addr resolve gh) \<and>
    nd_step resolve rnd AYAFires i3 = Running i4 \<and>
    new_dgrams i3 i4 = [(mem_addr resolve gh, ndBytes ay)] \<and> msgID ay = AYA"
proof -
  have gh: "gh \<in> set (higher i)" and gi: "gi \<in> set (lower h)"
    using assms(12-17) by (simp_all add: higher_def lower_def members_with_def)
  obtain i1 em where i1: "nd_step resolve rnd RecvTimeout i = Running i1"
    "(mem_addr resolve gh, ndBytes em) \<in> set (new_dgrams i i1)" "msgID em = ELECT" "wf_msg em"
    "wf_nd i1" "nd_conf i1 = nd_conf i" "nd_phase i1 = Receiving" "nd_lastSent i1 = ELECT" "nd_thread i1 = None"
    using election_called [OF assms(1,2,11,5,3,4) gh, of rnd] by blast
  have rh: "resolvable resolve (nd_group h)" using assms(11,12) by simp
  obtain h1 am cm ms where h1: "nd_step resolve rnd (Recv (mem_addr resolve gi) (ndBytes em @ r1)) h = Running h1"
    "new_dgrams h h1 = (mem_addr resolve gi, ndBytes am) # ms" "msgID am = ANSWER" "wf_msg am"
    "(mem_addr resolve gi, ndBytes cm) \<in> set ms" "msgID cm = COORD" "wf_msg cm"
    using highest_takes_over [OF assms(7,8) rh assms(10,9,18) gi i1(4,3), of rnd "mem_addr resolve gi" r1] by blast
  obtain i2 where i2: "nd_step resolve rnd (Recv (mem_addr resolve gh) (ndBytes am @ r2)) i1 = Running i2"
    "wf_nd i2" "nd_phase i2 = Receiving" "nd_conf i2 = nd_conf i1" "nd_thread i2 = None"
    using answer_step [OF i1(5,7) h1(4,3) i1(8), of resolve rnd "mem_addr resolve gh" r2] i1(9) by auto
  obtain i3 where i3: "nd_step resolve rnd (Recv (mem_addr resolve gh) (ndBytes cm @ r3)) i2 = Running i3"
    "wf_nd i3" "nd_conf i3 = nd_conf i2" "nd_thread i3 = Some (mem_addr resolve gh)"
    using coord_step [OF i2(2,3) h1(7,6) i2(5), of resolve rnd "mem_addr resolve gh" r3] by blast
  have "nd_failure i3 = 0" "nd_AYATime i3 \<noteq> 0"
    using i3(3) i2(4) i1(6) assms(5,6) by (simp_all add: nd_conf_def)
  from aya_step [OF i3(2) this i3(4), of resolve rnd] obtain i4 ay where
    "nd_step resolve rnd AYAFires i3 = Running i4" "new_dgrams i3 i4 = [(mem_addr resolve gh, ndBytes ay)]" "msgID ay = AYA"
    by blast
  with i1 h1 i2 i3 show ?thesis by blast
qed

theorem election_end_to_end_witness:
  "\<exists>i1 h1 i3 em cm am i2.
     nd_step demo_resolve (\<lambda>_. 0) RecvTimeout (demo_nd 20 AYA COORD (Some \<lparr>sin_addr = 9, sin_port = 50\<rparr>)) = Running i1 \<and>
     nd_step demo_resolve (\<lambda>_. 0) (Recv \<lparr>sin_addr = 1, sin_port = 20\<rparr> (ndBytes em @ [])) (demo_nd 40 0 AYA None) = Running h1 \<and>
     nd_step demo_resolve (\<lambda>_. 0) (Recv \<lparr>sin_addr = 3, sin_port = 40\<rparr> (ndBytes am @ [])) i1 = Running i2 \<and>
     nd_step demo_resolve (\<lambda>_. 0) (Recv \<lparr>sin_addr = 3, sin_port = 40\<rparr> (ndBytes cm @ [])) i2 = Running i3 \<and>
     nd_thread i3 = Some \<lparr>sin_addr = 3, sin_port = 40\<rparr>"
proof -
  let ?i = "demo_nd 20 AYA COORD (Some \<lparr>sin_addr = 9, sin_port = 50\<rparr>)"
  let ?h = "demo_nd 40 0 AYA None"
  let ?gi = "\<lparr>g_hostname = ''a'', g_portno = 20\<rparr>" and ?gh = "\<lparr>g_hostname = ''c'', g_portno = 40\<rparr>"
  have a: "mem_addr demo_resolve ?gi = \<lparr>sin_addr = 1, sin_port = 20\<rparr>"
    "mem_addr demo_resolve ?gh = \<lparr>sin_addr = 3, sin_port = 40\<rparr>"
    by (simp_all add: mem_addr_def)
  have p: "wf_nd ?i" "nd_phase ?i = Receiving" "nd_lastSent ?i = AYA" "nd_thread ?i \<noteq> None" "nd_failure ?i = 0"
    "nd_AYATime ?i \<noteq> 0" "wf_nd ?h" "nd_phase ?h = Receiving" "nd_lastSent ?h \<noteq> ELECT" "nd_failure ?h = 0"
    "resolvable demo_resolve (nd_group ?i)" "nd_group ?h = nd_group ?i"
    "?gi \<in> set (nd_group ?i)" "g_portno ?gi = nd_port ?i" "?gh \<in> set (nd_group ?i)" "g_portno ?gh = nd_port ?h"
    "nd_port ?i < nd_port ?h" "higher ?h = []"
    by simp_all (simp_all add: demo_group_def higher_def)
  show ?thesis
    using election_end_to_end [OF p, of "\<lambda>_. 0" "[]" "[]" "[]"] unfolding a by blast
qed

end
