(* ===== verification/NodeFaults.thy ===== *)
theory NodeFaults
  imports NodeSafety
begin

text \<open>
  The clocks of the election nodes when all of them list the group in the same order, and what goes
  wrong: with other orders, in the first election, and around the AYA thread.
\<close>

subsection \<open>Clocks\<close>

text \<open>
  With one order of the group the slots work as a vector clock.  While every message has its
  entries at the positions of the group list, the own entry grows by at least one per event as long
  as the counter does not wrap, and no entry of another node decreases.
\<close>

theorem slot_clock_counts:
  assumes "ports_ok ps" and "aligned ps v" and "p \<in> known v" and "\<And>m. Merge m \<in> set es \<Longrightarrow> aligned ps m \<and> tidy m"
    and "no_wrap tick_slots merge_slots vtime p es v"
  shows "unat (vtime v p) + ticks es \<le> unat (vtime (clock_run tick_slots merge_slots p es v) p) \<and>
    (\<forall>n. n \<noteq> p \<longrightarrow> n \<noteq> 0 \<longrightarrow> vtime v n \<le> vtime (clock_run tick_slots merge_slots p es v) n)"
proof -
  have "p \<noteq> 0" using assms(3) by auto
  then show ?thesis
    using ndclock.run_own_entry [of ps v p es] ndclock.run_other_entry [of ps v _ p es] assms by blast
qed

definition demo_slots :: "clock list" where
  "demo_slots = [\<lparr>c_nodeId = 20, c_time = 1\<rparr>, no_clock, no_clock]"

theorem slot_clock_counts_witness:
  "2 \<le> unat (vtime (clock_run tick_slots merge_slots 20 [Tick] demo_slots) 20)"
proof -
  have "no_wrap tick_slots merge_slots vtime 20 [Tick] demo_slots" by (simp add: demo_slots_def)
  then have "unat (vtime demo_slots 20) + ticks [Tick] \<le> unat (vtime (clock_run tick_slots merge_slots 20 [Tick] demo_slots) 20)"
    using slot_clock_counts [of "[20, 30, 40]" demo_slots 20 "[Tick]"] by (simp add: demo_slots_def no_clock_def)
  then show ?thesis by (simp add: demo_slots_def)
qed

lemma tick_slots_id: "p \<notin> c_nodeId ` set vc \<Longrightarrow> tick_slots p vc = vc"
  by (induction vc) auto

lemma merge_slots_nth:
  "i < length m \<Longrightarrow> i < length vc \<Longrightarrow>
    merge_slots m vc ! i = (if c_time (m ! i) > c_time (vc ! i) then m ! i else vc ! i)"
proof (induction m vc arbitrary: i rule: merge_slots.induct)
  case (1 m ms c cs)
  then show ?case by (cases i) auto
qed auto

text \<open>
  With different orders a node loses its own entry.  The merge works position by position: a
  message whose entry at the node's position belongs to another node and has the larger time
  replaces the node's own entry, and no later event of the node advances its clock any more.
\<close>

theorem unordered_slots_lose_own_entry:
  assumes "wf_nd s" and "nd_phase s = Receiving" and "wf_msg m" and "i < NODES"
    and "c_nodeId (nd_clock s ! i) = nd_port s"
    and "\<And>j. j < NODES \<Longrightarrow> j \<noteq> i \<Longrightarrow> c_nodeId (nd_clock s ! j) \<noteq> nd_port s"
    and "\<And>j. j < NODES \<Longrightarrow> c_nodeId (vectorClock m ! j) \<noteq> nd_port s"
    and "c_time (vectorClock m ! i) > c_time (nd_clock s ! i)"
  shows "nd_port s \<notin> c_nodeId ` set (nd_clock (received m a s)) \<and>
    nd_clock (nd_updateMyVectorClock (received m a s)) = nd_clock (received m a s)"
proof -
  let ?vc = "merge_slots (vectorClock m) (nd_clock s)"
  have len: "length (vectorClock m) = NODES" "length (nd_clock s) = NODES" "length ?vc = NODES"
    using assms(1,3) by (simp_all add: wf_msg_def wf_nd_def)
  have "c_nodeId (?vc ! j) \<noteq> nd_port s" if "j < NODES" for j
    using that assms(5-8) len by (cases "j = i") (auto simp: merge_slots_nth)
  with len(3) have out: "nd_port s \<notin> c_nodeId ` set ?vc" by (fastforce simp: in_set_conv_nth)
  then have "nd_clock (received m a s) = ?vc" by (simp add: tick_slots_id)
  with out show ?thesis by (simp add: tick_slots_id nd_updateMyVectorClock_def)
qed

text \<open>A node that reads the group in the order 30, 20 gets a message from one that reads 20, 30.\<close>

definition demo_other_order :: nd_state where
  "demo_other_order = (demo_nd 30 0 0 None)\<lparr>nd_clock := \<lparr>c_nodeId = 30, c_time = 1\<rparr> # replicate 8 no_clock\<rparr>"

theorem unordered_slots_lose_own_entry_witness:
  "30 \<notin> c_nodeId ` set (nd_clock (received nd_sample \<lparr>sin_addr = 1, sin_port = 20\<rparr> demo_other_order))"
proof -
  have vc: "vectorClock nd_sample ! j = (if j = 0 then \<lparr>c_nodeId = 20, c_time = 4\<rparr> else no_clock)" if "j < 9" for j
    using that by (cases j) (simp_all add: nd_sample_def)
  have oc: "nd_clock demo_other_order ! j = (if j = 0 then \<lparr>c_nodeId = 30, c_time = 1\<rparr> else no_clock)" if "j < 9" for j
    using that by (cases j) (simp_all add: demo_other_order_def)
  have "wf_nd demo_other_order" "nd_phase demo_other_order = Receiving" "nd_port demo_other_order = 30"
    by (simp_all add: demo_other_order_def wf_nd_def demo_group_def)
  then show ?thesis
    using unordered_slots_lose_own_entry [of demo_other_order nd_sample 0 "\<lparr>sin_addr = 1, sin_port = 20\<rparr>"] vc oc
    by (simp add: no_clock_def)
qed

subsection \<open>The first election\<close>

lemma firstElection_eq:
  assumes "length (nd_clock s) = NODES" and "resolvable resolve gs" and "gs \<noteq> []"
  shows "\<exists>t. firstElection resolve rnd gs s = Running t \<and>
    sent rnd (to_members resolve ELECT None (members_with (\<lambda>p. p > nd_port s) gs) s) s t \<and>
    length (nd_clock t) = NODES \<and> nd_lastReceived t = ELECT \<and> nd_thread t = nd_thread s \<and> nd_phase t = nd_phase s \<and>
    nd_lastSent t = (if g_portno (last gs) > nd_port s then ELECT else 0)"
  using assms
proof (induction gs arbitrary: s)
  case (Cons g gs)
  let ?s = "s\<lparr>nd_lastReceived := ELECT, nd_lastSent := 0\<rparr>"
  let ?sel = "\<lambda>p. p > nd_port s"
  have len: "length (nd_clock ?s) = NODES" and r1: "resolvable resolve (members_with ?sel [g])"
    using Cons.prems by simp_all
  obtain u where u: "sendToMembers resolve rnd ?sel ELECT None [g] ?s = Running u"
    "sent rnd (to_members resolve ELECT None (members_with ?sel [g]) s) s u"
    "nd_clock u = (tick_slots (nd_port s) ^^ length (members_with ?sel [g])) (nd_clock s)"
    "nd_counter u = nd_counter s + of_nat (length (members_with ?sel [g]))"
    "nd_lastReceived u = ELECT" "nd_thread u = nd_thread s" "nd_phase u = nd_phase s"
    "nd_lastSent u = (if members_with ?sel [g] = [] then 0 else ELECT)"
    using sendToMembers_eq [OF len r1, of rnd ELECT None]
    by (auto simp: sent_def nd_conf_def to_members_def simp del: sendToMembers.simps)
  have step: "firstElection resolve rnd (g # gs) s = firstElection resolve rnd gs u"
    using u(1) by (simp add: Let_def del: sendToMembers.simps)
  have lenu: "length (nd_clock u) = NODES" using u(3) len by (cases "g_portno g > nd_port s") simp_all
  have pu: "nd_port u = nd_port s" using sent_conf [OF u(2)] by (simp add: nd_conf_def)
  show ?case
  proof (cases "gs = []")
    case True
    then show ?thesis using step u lenu by auto
  next
    case False
    with Cons.IH [OF lenu] Cons.prems(2) obtain t where t: "firstElection resolve rnd gs u = Running t"
      "sent rnd (to_members resolve ELECT None (members_with ?sel gs) u) u t"
      "length (nd_clock t) = NODES" "nd_lastReceived t = ELECT" "nd_thread t = nd_thread u" "nd_phase t = nd_phase u"
      "nd_lastSent t = (if g_portno (last gs) > nd_port s then ELECT else 0)"
      by (auto simp: pu)
    have "to_members resolve ELECT None (members_with ?sel [g]) s @ to_members resolve ELECT None (members_with ?sel gs) u =
        to_members resolve ELECT None (members_with ?sel (g # gs)) s"
      by (simp add: to_members_def pu u(3,4))
    with sent_trans [OF u(2) t(2)] show ?thesis using step t u False by auto
  qed
qed simp

lemma ignored_answer_step:
  assumes "wf_nd s" and "nd_phase s = Receiving" and "wf_msg m" and "msgID m = ANSWER" and "nd_lastSent s = 0"
  shows "\<exists>t. nd_step resolve rnd (Recv a (ndBytes m @ rest)) s = Running t \<and> wf_nd t \<and> nd_phase t = Receiving \<and>
    nd_conf t = nd_conf s \<and> nd_lastSent t = 0 \<and> nd_lastReceived t = nd_lastReceived s"
  using assms nd_step_recv [OF assms(3,2), of resolve rnd a rest]
  by (auto simp: handleMsg_def wf_nd_def)

lemma asked_step:
  assumes "wf_nd s" and "nd_phase s = Receiving" and "resolvable resolve (nd_group s)" and "nd_failure s = 0"
    and "nd_lastSent s = 0" and "nd_lastReceived s = ELECT"
  shows "\<exists>t. nd_step resolve rnd RecvTimeout s = Running t \<and>
    map fst (new_dgrams s t) = map (mem_addr resolve) (lower s) \<and> (\<forall>d \<in> set (new_dgrams s t). take 4 (snd d) = be_bytes COORD)"
proof -
  obtain t where t: "announceCoord resolve rnd s = Running t" "sent rnd (to_members resolve COORD (Some 0) (lower s) s) s t"
    using announceCoord_eq [OF assms(1,3), of rnd] by blast
  have "nd_step resolve rnd RecvTimeout s = Running t" using assms(2,5,6) t(1) by (simp add: nd_timeout_def)
  moreover have n: "new_dgrams s t = nd_dgrams (to_members resolve COORD (Some 0) (lower s) s)"
    using sent_new [OF t(2) assms(4)] .
  moreover have "map fst (nd_dgrams (to_members resolve COORD (Some 0) (lower s) s)) = map (mem_addr resolve) (lower s)"
    by (simp add: nd_dgrams_def comp_def to_members_def member_msgs_addrs)
  moreover have "take 4 (snd d) = be_bytes COORD" if "d \<in> set (nd_dgrams (to_members resolve COORD (Some 0) (lower s) s))" for d
  proof -
    from that obtain a m where "(a, m) \<in> set (member_msgs resolve (nd_port s) COORD (Some 0) (nd_counter s) (nd_clock s) (lower s))"
      and "d = (a, ndBytes m)" by (auto simp: nd_dgrams_def to_members_def)
    then show ?thesis using member_msgs_kind by (fastforce simp: ndBytes_def)
  qed
  ultimately show ?thesis by metis
qed

text \<open>
  C39: the first election can ignore its answers.  The loop of the first election clears \<open>lastSent\<close>
  for every member before it looks at the port.  When the last member of the list is not above the
  node, the \<open>ELECT\<close> messages go out but an \<open>ANSWER\<close> of a higher member changes nothing, and at the
  next timeout the node announces itself to all lower members although a higher one is alive.
\<close>

theorem first_election_ignores_answer:
  assumes "wf_nd s" and "nd_phase s = First" and "nd_failure s = 0" and "resolvable resolve (nd_group s)"
    and "nd_group s \<noteq> []" and "g_portno (last (nd_group s)) \<le> nd_port s" and "gh \<in> set (higher s)"
    and "wf_msg m" and "msgID m = ANSWER"
  shows "\<exists>t1 t2 t3 em. nd_step resolve rnd RecvTimeout s = Running t1 \<and>
    (mem_addr resolve gh, ndBytes em) \<in> set (new_dgrams s t1) \<and> msgID em = ELECT \<and>
    nd_step resolve rnd (Recv (mem_addr resolve gh) (ndBytes m @ rest)) t1 = Running t2 \<and>
    nd_step resolve rnd RecvTimeout t2 = Running t3 \<and>
    map fst (new_dgrams t2 t3) = map (mem_addr resolve) (lower s) \<and>
    (\<forall>d \<in> set (new_dgrams t2 t3). take 4 (snd d) = be_bytes COORD)"
proof -
  let ?s = "s\<lparr>nd_phase := Receiving\<rparr>"
  have len: "length (nd_clock ?s) = NODES" "resolvable resolve (nd_group ?s)" "nd_group ?s \<noteq> []"
    using assms(1,4,5) by (simp_all add: wf_nd_def)
  obtain t1 where t1: "firstElection resolve rnd (nd_group s) ?s = Running t1"
    "sent rnd (to_members resolve ELECT None (higher s) s) ?s t1" "length (nd_clock t1) = NODES"
    "nd_lastReceived t1 = ELECT" "nd_phase t1 = Receiving" "nd_lastSent t1 = 0"
    using firstElection_eq [OF len, of rnd] assms(6) by (auto simp: higher_def to_members_def not_less)
  have c1: "nd_conf t1 = nd_conf s" using sent_conf [OF t1(2)] by simp
  have wf1: "wf_nd t1" using t1 assms(1) nd_conf_fields [OF c1] by (simp add: wf_nd_def)
  have step1: "nd_step resolve rnd RecvTimeout s = Running t1" using assms(2) t1(1) by simp
  have "new_dgrams s t1 = nd_dgrams (to_members resolve ELECT None (higher s) s)"
    using sent_new [OF t1(2)] assms(3) by (simp add: new_dgrams_def)
  moreover obtain em where "(mem_addr resolve gh, em) \<in> set (to_members resolve ELECT None (higher s) s)" "msgID em = ELECT"
    using member_msgs_mem [OF assms(7) len(1)] unfolding to_members_def by fastforce
  ultimately have em: "(mem_addr resolve gh, ndBytes em) \<in> set (new_dgrams s t1)" "msgID em = ELECT"
    by (simp_all add: nd_dgrams_mem)
  obtain t2 where t2: "nd_step resolve rnd (Recv (mem_addr resolve gh) (ndBytes m @ rest)) t1 = Running t2"
    "wf_nd t2" "nd_phase t2 = Receiving" "nd_conf t2 = nd_conf t1" "nd_lastSent t2 = 0" "nd_lastReceived t2 = ELECT"
    using ignored_answer_step [OF wf1 t1(5) assms(8,9) t1(6), of resolve rnd "mem_addr resolve gh" rest] t1(4) by auto
  have c2: "nd_conf t2 = nd_conf s" using t2(4) c1 by simp
  have r2: "resolvable resolve (nd_group t2)" "nd_failure t2 = 0" using assms(3,4) nd_conf_fields [OF c2] by simp_all
  have "lower t2 = lower s" using higher_lower_cong [OF c2] by simp
  then obtain t3 where "nd_step resolve rnd RecvTimeout t2 = Running t3"
    "map fst (new_dgrams t2 t3) = map (mem_addr resolve) (lower s)"
    "\<forall>d \<in> set (new_dgrams t2 t3). take 4 (snd d) = be_bytes COORD"
    using asked_step [OF t2(2,3) r2 t2(5,6), of rnd] by auto
  with step1 em t2(1) show ?thesis by blast
qed

definition demo_first :: nd_state where
  "demo_first = (nd_init Little 30 0 1 '''' (rev demo_group))\<lparr>nd_counter := 1\<rparr>"

theorem first_election_ignores_answer_witness:
  "\<exists>t1 t2 t3. nd_step demo_resolve (\<lambda>_. 0) RecvTimeout demo_first = Running t1 \<and>
     nd_step demo_resolve (\<lambda>_. 0) (Recv \<lparr>sin_addr = 3, sin_port = 40\<rparr> (ndBytes (nd_sample\<lparr>msgID := ANSWER\<rparr>) @ [])) t1 = Running t2 \<and>
     nd_step demo_resolve (\<lambda>_. 0) RecvTimeout t2 = Running t3 \<and>
     map fst (new_dgrams t2 t3) = [\<lparr>sin_addr = 1, sin_port = 20\<rparr>]"
proof -
  let ?gh = "\<lparr>g_hostname = ''c'', g_portno = 40\<rparr>" and ?m = "nd_sample\<lparr>msgID := ANSWER\<rparr>"
  have a: "mem_addr demo_resolve ?gh = \<lparr>sin_addr = 3, sin_port = 40\<rparr>"
    "mem_addr demo_resolve \<lparr>g_hostname = ''a'', g_portno = 20\<rparr> = \<lparr>sin_addr = 1, sin_port = 20\<rparr>"
    by (simp_all add: mem_addr_def)
  have g: "nd_group demo_first = rev demo_group" by (simp add: demo_first_def nd_init_def)
  have l: "lower demo_first = [\<lparr>g_hostname = ''a'', g_portno = 20\<rparr>]"
    by (simp add: lower_def demo_first_def nd_init_def demo_group_def)
  have p: "wf_nd demo_first" "nd_phase demo_first = First" "nd_failure demo_first = 0"
    "resolvable demo_resolve (nd_group demo_first)" "nd_group demo_first \<noteq> []"
    "g_portno (last (nd_group demo_first)) \<le> nd_port demo_first" "?gh \<in> set (higher demo_first)"
    "wf_msg ?m" "msgID ?m = ANSWER"
    by (simp_all add: demo_first_def nd_init_def wf_nd_def demo_group_def higher_def wf_msg_def nd_sample_def)
  show ?thesis
    using first_election_ignores_answer [OF p, of "\<lambda>_. 0" "[]"] unfolding a l list.map
    by (elim exE conjE) (intro exI conjI; assumption)
qed

subsection \<open>The AYA thread\<close>

text \<open>
  The highest member can dereference a null pointer.  A member without anybody above it that has
  taken another one for the coordinator and loses it stops its AYA thread at the first timeout but
  keeps \<open>AYA\<close> as its last message; at the second timeout it reads the pointer it has just cleared.
\<close>

theorem highest_loses_coordinator:
  assumes "wf_nd s" and "nd_phase s = Receiving" and "nd_lastSent s = AYA" and "nd_thread s \<noteq> None"
    and "resolvable resolve (nd_group s)" and "higher s = []"
  shows "\<exists>t. nd_step resolve rnd RecvTimeout s = Running t \<and> nd_outbox t = nd_outbox s \<and>
    nd_step resolve rnd RecvTimeout t = Undefined"
proof -
  let ?s = "s\<lparr>nd_thread := None\<rparr>"
  have wf: "wf_nd ?s" and h: "higher ?s = []" using assms(1,6) by (simp_all add: wf_nd_def higher_def)
  obtain t where t: "startElection resolve rnd ?s = Running t" "sent rnd [] ?s t"
    "nd_lastSent t = AYA" "nd_thread t = None" "nd_phase t = Receiving"
    using startElection_eq [OF wf, of resolve rnd] assms(2,3,5) h by (auto simp: nd_view_def to_members_def)
  have "nd_step resolve rnd RecvTimeout s = Running t" using assms(2-4) t(1) by (auto simp: nd_timeout_def)
  moreover have "nd_step resolve rnd RecvTimeout t = Undefined" using t(3-5) by (simp add: nd_timeout_def)
  ultimately show ?thesis using t(2) by (auto simp: sent_def)
qed

theorem highest_loses_coordinator_witness:
  "\<exists>t. nd_step demo_resolve (\<lambda>_. 0) RecvTimeout (demo_nd 40 AYA COORD (Some \<lparr>sin_addr = 2, sin_port = 30\<rparr>)) = Running t \<and>
     nd_step demo_resolve (\<lambda>_. 0) RecvTimeout t = Undefined"
  using highest_loses_coordinator [of "demo_nd 40 AYA COORD (Some \<lparr>sin_addr = 2, sin_port = 30\<rparr>)" demo_resolve "\<lambda>_. 0"]
  by (auto simp: higher_def demo_group_def)

text \<open>
  An empty first datagram makes the node spin: \<open>handleFirstMsg\<close> stays set, so the loop neither
  receives again nor handles anything, whatever arrives.
\<close>

theorem empty_first_datagram_spins:
  assumes "nd_phase s = First" and "nd_thread s = None"
  shows "run (nd_step resolve rnd) (RecvEmpty # es) s =
    Running (s\<lparr>nd_phase := Spinning, nd_lastReceived := 0, nd_lastSent := 0\<rparr>)"
proof -
  have "nd_phase t = Spinning \<Longrightarrow> nd_thread t = None \<Longrightarrow> run (nd_step resolve rnd) es t = Running t" for t
  proof (induction es)
    case (Cons e es)
    then show ?case by (cases e) (simp_all add: AYA_thread_def)
  qed simp
  with assms show ?thesis by simp
qed

theorem empty_first_datagram_spins_witness:
  "run (nd_step demo_resolve (\<lambda>_. 0)) [RecvEmpty, RecvTimeout] (demo_node 20) =
    Running ((demo_node 20)\<lparr>nd_phase := Spinning, nd_lastReceived := 0, nd_lastSent := 0\<rparr>)"
  using empty_first_datagram_spins [of "demo_node 20" demo_resolve "\<lambda>_. 0" "[RecvTimeout]"] by simp

end
