(* ===== verification/NodeStart.thy ===== *)
theory NodeStart
  imports NodeFaults Startup CmdProps
begin

text \<open>
  The first part of \<open>main\<close> of bully_algorithm/node.c: \<open>usage\<close>, the six arguments, the log file, the group
  list as \<open>fscanf\<close> reads it, and the socket; the debug output \<open>printMsg\<close>; and the local buffer of
  \<open>writeVectorTime\<close>.
\<close>

subsection \<open>Debug output\<close>

fun nd_printClock :: "nat \<Rightarrow> clock list \<Rightarrow> string" where
  "nd_printClock i [] = []"
| "nd_printClock i (c # cs) =
     ''vectorClock['' @ show_nat i @ ''].nodeId: '' @ show_u (c_nodeId c) @ newline @
     ''vectorClock['' @ show_nat i @ ''].time: '' @ show_u (c_time c) @ newline @ nd_printClock (Suc i) cs"

definition nd_printMsg :: "msg \<Rightarrow> string" where
  "nd_printMsg m =
     ''msgType: '' @ show_d (msgID m) @ newline @ ''electionID: '' @ show_u (electionID m) @ newline @
     nd_printClock 0 (vectorClock m)"

subsection \<open>The group list\<close>

text \<open>
  \<open>%s\<close>: blanks are skipped and characters up to the next blank are taken.  \<open>%ld\<close>: blanks, a sign and
  digits, cut off at the limits of \<open>long\<close>; \<open>None\<close> when there is no digit.
\<close>

definition scan_word :: "string \<Rightarrow> string \<times> string" where
  "scan_word s =
     (let r = dropWhile is_space s in (takeWhile (\<lambda>c. \<not> is_space c) r, dropWhile (\<lambda>c. \<not> is_space c) r))"

definition scan_long :: "string \<Rightarrow> u64 option \<times> string" where
  "scan_long s =
     (let (neg, r) = sign (dropWhile is_space s); digits = takeWhile is_digit r in
      (if digits = [] then None else Some (to_long neg (decimal 0 digits)), dropWhile is_digit r))"

lemma scan_word_shorter: "scan_word s = (w, r) \<Longrightarrow> w \<noteq> [] \<Longrightarrow> length r < length s"
proof -
  assume a: "scan_word s = (w, r)" "w \<noteq> []"
  then have "w @ r = dropWhile is_space s" by (auto simp: scan_word_def Let_def)
  then have "length w + length r \<le> length s" using length_dropWhile_le [of is_space s] by (metis length_append)
  with a(2) show ?thesis by (cases w) simp_all
qed

lemma scan_long_le: "length (snd (scan_long s)) \<le> length s"
proof -
  have "length (snd (sign t)) \<le> length t" for t by (cases t) simp_all
  then show ?thesis
    by (simp add: scan_long_def Let_def split: prod.split)
      (metis length_dropWhile_le order_trans snd_conv)
qed

text \<open>
  The loop of \<open>readGroupListFile\<close>, for a file and for the standard input: a round without a host name is the
  end, a round without a number counts as a member too and leaves its port as it was, an indeterminate
  value.
\<close>

function scan_group :: "(nat \<Rightarrow> u64) \<Rightarrow> nat \<Rightarrow> string \<Rightarrow> (string \<times> u64) list" where
  "scan_group junk n s =
     (let (w, r) = scan_word s in
      if w = [] then []
      else let (p, r') = scan_long r in
        (w, case p of Some v \<Rightarrow> v | None \<Rightarrow> junk n) # scan_group junk (Suc n) r')"
  by pat_completeness auto
termination
proof (relation "measure (\<lambda>(junk, n, s). length s)", simp, clarsimp)
  fix s w r p r'
  assume "(w, r) = scan_word s" "w \<noteq> []" "(p, r') = scan_long r"
  then show "length r' < length s"
    using scan_word_shorter [of s w r] scan_long_le [of r] by (metis order_le_less_trans snd_conv)
qed

declare scan_group.simps [simp del]

text \<open>The prompts on the standard output, and the pairs; \<open>None\<close>: the file cannot be opened.\<close>

definition group_prompt :: string where
  "group_prompt = ''Please input the group list: ''"

definition scan_file ::
  "(string \<Rightarrow> string option) \<Rightarrow> string \<Rightarrow> (nat \<Rightarrow> u64) \<Rightarrow> string \<Rightarrow> string \<times> (string \<times> u64) list option"
where
  "scan_file files stdin junk fileName =
     (if take 1 fileName = ''-'' then
        (let pairs = scan_group junk 0 stdin in (concat (replicate (Suc (length pairs)) group_prompt), Some pairs))
      else ([], map_option (scan_group junk 0) (files fileName)))"

subsection \<open>The arguments\<close>

text \<open>
  What the process finds.  \<open>ne_files\<close> is what the files hold when the group list is read: by then the log
  file has been truncated, so that for a log file with the name of the group file it has the empty
  text there.  The timeout value becomes the receive timeout of the socket and is no part of the state.
\<close>

record nd_env =
  ne_host :: endian
  ne_files :: "string \<Rightarrow> string option"
  ne_stdin :: string
  ne_ports :: "nat \<Rightarrow> u64"
  ne_truncate :: "string \<Rightarrow> bool"
  ne_socket :: bool
  ne_bind :: "u16 \<Rightarrow> bool"
  ne_junk :: string

definition nd_usage :: "string \<Rightarrow> string" where
  "nd_usage cmd =
     ''usage: '' @ cmd @ ''  portNum groupFileList logFile timeoutValue averageAYATime failureProbability '' @ newline"

text \<open>A number, with what is printed when \<open>end\<close> is the argument itself.\<close>

definition nd_number :: "string \<Rightarrow> string \<Rightarrow> u64 \<times> string" where
  "nd_number name arg =
     (let (v, converted) = strtoul arg in (v, if converted then [] else name @ '' conversion error'' @ newline))"

definition config_line :: "string \<Rightarrow> u64 \<Rightarrow> string" where
  "config_line name v = name @ show_ld v @ newline"

definition nd_config :: "u64 \<Rightarrow> string \<Rightarrow> string \<Rightarrow> u64 \<Rightarrow> u64 \<Rightarrow> u64 \<Rightarrow> string" where
  "nd_config port groupListFileName logFileName timeoutValue AYATime failure =
     config_line ''Port number:              '' port @
     ''Group list file name:     '' @ groupListFileName @ newline @
     ''Log file name:            '' @ logFileName @ newline @
     config_line ''Timeout value:            '' timeoutValue @
     config_line ''AYATime:                  '' AYATime @
     config_line ''Send failure probability: '' failure"

definition conversion_errors :: "nat \<Rightarrow> string" where
  "conversion_errors err =
     show_nat err @ '' conversion error'' @ (if 1 < err then ''s were '' else '' was '') @
     ''encountered, program exiting.'' @ newline"

text \<open>
  The last check compares \<open>end\<close>, which points into \<open>argv[6]\<close>, with \<open>argv[5]\<close>: it never holds.
\<close>

definition nd_arguments :: "string list \<Rightarrow> string \<times> nat \<times> u64 \<times> u64 \<times> u64" where
  "nd_arguments argv =
     (let (port, e1) = nd_number ''Port'' (argv ! 1);
          (timeoutValue, e2) = nd_number ''Timeout value'' (argv ! 4);
          (AYATime, e3) = nd_number ''AYATime'' (argv ! 5);
          failure = fst (strtoul (argv ! 6))
      in (e1 @ e2 @ e3 @ nd_config port (argv ! 2) (argv ! 3) timeoutValue AYATime failure,
          length (filter (\<lambda>e. e \<noteq> []) [e1, e2, e3]), port, AYATime, failure))"

text \<open>The socket of \<open>sendUDPMsg\<close>: \<open>None\<close> is its return with -1, \<open>htons\<close> takes the lower 16 bits of the port.\<close>

definition nd_socket :: "nd_env \<Rightarrow> u64 \<Rightarrow> u16 option" where
  "nd_socket env local_port =
     (if \<not> ne_socket env then None
      else let sin_port = ucast local_port in if \<not> ne_bind env sin_port then None else Some sin_port)"

text \<open>
  \<open>main\<close>: \<open>Returned 1\<close> is the exit with status 1.  The failure of the socket ends \<open>sendUDPMsg\<close>, and \<open>main\<close>
  then returns 0.
\<close>

definition nd_start :: "nd_env \<Rightarrow> string list \<Rightarrow> string \<times> nd_state started" where
  "nd_start env argv =
     (if length argv \<noteq> 7 then (nd_usage (argv ! 0), Returned (- 1))
      else
        let (out, err, port, AYATime, failure) = nd_arguments argv in
        if err \<noteq> 0 then (out @ conversion_errors err, Returned (- 1))
        else if \<not> ne_truncate env (argv ! 3) then (out, Returned 1)
        else
          case scan_file (ne_files env) (ne_stdin env) (ne_ports env) (argv ! 2) of
            (out', None) \<Rightarrow> (out @ out', Returned (- 1))
          | (out', Some pairs) \<Rightarrow>
              (case nd_main (ne_host env) (ucast port) (map (\<lambda>(h, p). (h, ucast p)) pairs) (unat failure) (ucast AYATime)
                      (ne_junk env) of
                 Undefined \<Rightarrow> (out @ out', Started [] Undefined)
               | Exited s \<Rightarrow> (out @ out' @ ''Erro: Not a member of the group!'' @ newline, Returned (- 1))
               | Running s \<Rightarrow>
                   (out @ out',
                    case nd_socket env port of
                      None \<Rightarrow> Returned 0
                    | Some p \<Rightarrow> Started [p] (Running s))))"

end
