(* ===== verification/NodeStartProps.thy ===== *)
theory NodeStartProps
  imports NodeStart
begin

text \<open>
  What the start of an election node promises: the group list is read back, the node starts with it, and
  which wrong arguments go unnoticed.
\<close>

subsection \<open>The group list is read back\<close>

definition group_text :: "(string \<times> nat) list \<Rightarrow> string" where
  "group_text gs = concat (map (\<lambda>(h, p). h @ '' '' @ show_nat p @ newline) gs)"

definition host_name :: "string \<Rightarrow> bool" where
  "host_name h \<longleftrightarrow> h \<noteq> [] \<and> list_all (\<lambda>c. \<not> is_space c) h"

lemma blanks [simp]: "is_space (CHR '' '')" "is_space (CHR 0x0A)"
  by (simp_all add: is_space_def)

lemma scan_word_at:
  assumes "host_name h" and "is_space c"
  shows "scan_word (h @ c # s) = (h, c # s)"
proof -
  have all: "\<forall>c \<in> set h. \<not> is_space c" using assms(1) by (simp add: host_name_def list_all_iff)
  obtain c0 h' where h: "h = c0 # h'" using assms(1) by (cases h) (simp_all add: host_name_def)
  with all have "dropWhile is_space (h @ c # s) = h @ c # s" by simp
  then show ?thesis using all assms(2) by (simp add: scan_word_def takeWhile_append dropWhile_append)
qed

lemma scan_long_at:
  assumes "n < 2 ^ 63" and "\<not> is_digit c"
  shows "scan_long (CHR '' '' # show_nat n @ c # s) = (Some (of_nat n), c # s)"
proof -
  have all: "\<forall>c \<in> set (show_nat n). is_digit c" using show_nat_digits [of n] by (simp add: list_all_iff)
  obtain d ds where d: "show_nat n = d # ds" using length_show_nat_pos [of n] by (cases "show_nat n") auto
  then have plain: "\<not> is_space d" "d \<noteq> CHR ''-''" "d \<noteq> CHR ''+''" using all digit_plain [of d] by auto
  then have "sign (dropWhile is_space (CHR '' '' # show_nat n @ c # s)) = (False, show_nat n @ c # s)"
    by (simp add: d)
  moreover have "takeWhile is_digit (show_nat n @ c # s) = show_nat n" "dropWhile is_digit (show_nat n @ c # s) = c # s"
    using all assms(2) by (simp_all add: takeWhile_append dropWhile_append)
  ultimately show ?thesis
    using assms(1) length_show_nat_pos [of n] by (auto simp: scan_long_def decimal_show_nat to_long_def min_def)
qed

lemma foundInGroup_found: "port \<in> g_portno ` set gs \<Longrightarrow> foundInGroup port gs \<noteq> - 1"
proof -
  have "0 \<le> i \<Longrightarrow> port \<in> g_portno ` set gs \<Longrightarrow> 0 \<le> indexInGroup port gs i" for i
    by (induction gs arbitrary: i) auto
  from this [of 0] show "port \<in> g_portno ` set gs \<Longrightarrow> foundInGroup port gs \<noteq> - 1"
    by (auto simp: foundInGroup_def)
qed

lemma scan_group_blank: "is_space c \<Longrightarrow> scan_group junk n (c # s) = scan_group junk n s"
  by (subst (1 2) scan_group.simps) (simp add: scan_word_def)

lemma scan_group_end: "scan_group junk n [] = []"
  by (subst scan_group.simps) (simp add: scan_word_def)

lemma scan_group_text:
  assumes "\<forall>(h, p) \<in> set gs. host_name h \<and> p < 2 ^ 63"
  shows "scan_group junk n (group_text gs) = map (\<lambda>(h, p). (h, of_nat p)) gs"
  using assms
proof (induction gs arbitrary: n)
  case Nil
  show ?case by (simp add: group_text_def scan_group_end)
next
  case (Cons g gs)
  obtain h p where g: "g = (h, p)" by (cases g)
  with Cons.prems have h: "host_name h" "p < 2 ^ 63" by simp_all
  have "\<not> is_digit (CHR 0x0A)" by (simp add: is_digit_def)
  note l = scan_long_at [OF h(2) this]
  have t: "group_text (g # gs) = h @ CHR '' '' # show_nat p @ CHR 0x0A # group_text gs"
    by (simp add: group_text_def g)
  have "h \<noteq> []" using h(1) by (simp add: host_name_def)
  then have "scan_group junk n (group_text (g # gs)) = (h, of_nat p) # scan_group junk (Suc n) (CHR 0x0A # group_text gs)"
    unfolding t by (subst scan_group.simps) (simp add: scan_word_at [OF h(1)] l)
  then show ?case using Cons by (simp add: scan_group_blank g)
qed

subsection \<open>The start of a node\<close>

definition nd_willing :: "nd_env \<Rightarrow> bool" where
  "nd_willing env \<longleftrightarrow> (\<forall>f. ne_truncate env f) \<and> ne_socket env \<and> (\<forall>p. ne_bind env p)"

lemma nd_arguments_decimal:
  assumes "p < 2 ^ 32" and "t < 2 ^ 32" and "a < 2 ^ 32" and "f < 2 ^ 32"
  shows "nd_arguments [cmd, show_nat p, g, l, show_nat t, show_nat a, show_nat f] =
    (nd_config (of_nat p) g l (of_nat t) (of_nat a) (of_nat f), 0, of_nat p, of_nat a, of_nat f)"
proof -
  have "nd_number x (show_nat k) = (of_nat k, [])" "strtoul (show_nat k) = (of_nat k, True)" if "k < 2 ^ 32" for x k
    using strtoul_show(1) [of k] that by (simp_all add: nd_number_def)
  then show ?thesis using assms by (simp add: nd_arguments_def Let_def)
qed

text \<open>
  C24: a node starts with the group that its file lists.  For a file with one line of host name and port
  for each of at most nine members, one of them with the port of the first argument, and
  numbers in the other arguments, the node runs on a socket of that port, with the members in
  the order of the file, its own clock entry at 1 in the slot of the first member with its port, and the failure
  probability and the rate that the arguments name.
\<close>

theorem node_starts:
  assumes "ne_files env g = Some (group_text gs)" and "take 1 g \<noteq> ''-''" and "nd_willing env"
    and "\<forall>(h, p) \<in> set gs. host_name h \<and> length h < 32 \<and> p < 2 ^ 32" and "length gs \<le> NODES"
    and "p \<in> snd ` set gs" and "t < 2 ^ 32" and "a < 2 ^ 32" and "f < 2 ^ 32"
  shows "\<exists>s. snd (nd_start env [cmd, show_nat p, g, l, show_nat t, show_nat a, show_nat f]) = Started [of_nat p] (Running s) \<and>
    nd_group s = map (\<lambda>(h, p). \<lparr>g_hostname = h, g_portno = of_nat p\<rparr>) gs \<and> nd_port s = of_nat p \<and>
    nd_failure s = f \<and> nd_AYATime s = of_nat a \<and> nd_phase s = First \<and>
    nd_clock s = (replicate NODES no_clock)
      [nat (foundInGroup (of_nat p) (nd_group s)) := \<lparr>c_nodeId = of_nat p, c_time = 1\<rparr>]"
proof -
  have p: "p < 2 ^ 32" using assms(4,6) by auto
  let ?pairs = "map (\<lambda>(h, p). (h, of_nat p :: u32)) gs"
  let ?gs = "map (\<lambda>(h, p). \<lparr>g_hostname = h, g_portno = of_nat p\<rparr>) gs"
  have word: "ucast (of_nat k :: u64) = (of_nat k :: u32)" "ucast (of_nat k :: u64) = (of_nat k :: u16)" for k
    by (transfer, simp add: min_def)+
  have "scan_group (ne_ports env) 0 (group_text gs) = map (\<lambda>(h, p). (h, of_nat p)) gs"
    using assms(4) by (intro scan_group_text) fastforce
  then have scan: "scan_file (ne_files env) (ne_stdin env) (ne_ports env) g = ([], Some (map (\<lambda>(h, p). (h, of_nat p)) gs))"
    using assms(1,2) by (simp add: scan_file_def)
  have pairs: "map (\<lambda>(h, p). (h, ucast (p :: u64) :: u32)) (map (\<lambda>(h, p). (h, of_nat p)) gs) = ?pairs"
    by (auto simp: word)
  have group: "readGroupListFile ?pairs = Some ?gs"
    using assms(4,5) by (fastforce simp: readGroupListFile_def comp_def case_prod_beta)
  have "of_nat p \<in> g_portno ` set ?gs" using assms(6) by force
  then have "foundInGroup (of_nat p) ?gs \<noteq> - 1" by (simp add: foundInGroup_found)
  with group have "\<exists>s. nd_main h (of_nat p) ?pairs f x junk = Running s \<and> nd_group s = ?gs \<and> nd_port s = of_nat p \<and>
      nd_failure s = f \<and> nd_AYATime s = x \<and> nd_phase s = First \<and>
      nd_clock s = (replicate NODES no_clock)[nat (foundInGroup (of_nat p) ?gs) := \<lparr>c_nodeId = of_nat p, c_time = 1\<rparr>]"
    for h x junk
    by (simp add: nd_main_def nd_init_def Let_def)
  then obtain s where s: "nd_main (ne_host env) (of_nat p) ?pairs f (of_nat a) (ne_junk env) = Running s"
      "nd_group s = ?gs" "nd_port s = of_nat p" "nd_failure s = f" "nd_AYATime s = of_nat a" "nd_phase s = First"
      "nd_clock s = (replicate NODES no_clock)[nat (foundInGroup (of_nat p) ?gs) := \<lparr>c_nodeId = of_nat p, c_time = 1\<rparr>]"
    by blast
  have "unat (of_nat f :: u64) = f" using assms(9) by (simp add: unat_of_nat)
  moreover note nd_arguments_decimal [OF p assms(7-9), of cmd g l]
  ultimately have "snd (nd_start env [cmd, show_nat p, g, l, show_nat t, show_nat a, show_nat f]) = Started [of_nat p] (Running s)"
    using assms(3) s(1) by (simp add: nd_start_def scan word pairs nd_willing_def nd_socket_def del: map_map)
  then show ?thesis using s by auto
qed

definition demo_nd_env :: nd_env where
  "demo_nd_env = \<lparr>ne_host = Little, ne_files = (\<lambda>f. Some (group_text [(''alpha'', 9001), (''beta'', 9002)])), ne_stdin = [],
     ne_ports = (\<lambda>_. 0), ne_truncate = (\<lambda>_. True), ne_socket = True, ne_bind = (\<lambda>_. True), ne_junk = []\<rparr>"

lemma demo_hosts: "host_name ''alpha''" "host_name ''beta''"
  by (simp_all add: host_name_def is_space_def)

theorem node_starts_witness:
  "\<exists>s. snd (nd_start demo_nd_env [''node'', show_nat 9002, ''group'', ''log'', show_nat 5, show_nat 3, show_nat 0]) =
       Started [9002] (Running s) \<and>
     nd_group s = [\<lparr>g_hostname = ''alpha'', g_portno = 9001\<rparr>, \<lparr>g_hostname = ''beta'', g_portno = 9002\<rparr>]"
proof -
  have "nd_willing demo_nd_env" "ne_files demo_nd_env ''group'' = Some (group_text [(''alpha'', 9001), (''beta'', 9002)])"
    by (simp_all add: nd_willing_def demo_nd_env_def)
  from node_starts [OF this(2) _ this(1), of 9002 5 3 0 "''node''" "''log''"] demo_hosts show ?thesis
    by auto
qed

subsection \<open>Arguments that go unnoticed\<close>

text \<open>
  The failure probability is not checked.  The test for a conversion error compares the pointer with
  the wrong argument, so that a text without digits is taken without a message for the probability 0, and no
  packet is ever dropped.
\<close>

theorem probability_not_checked:
  assumes "\<not> snd (strtoul f)"
  shows "nd_start env [cmd, p, g, l, t, a, f] = nd_start env [cmd, p, g, l, t, a, ''0'']"
proof -
  have "strtoul f = (0, False)" using assms by (auto simp: strtoul_def Let_def case_prod_beta split: if_splits)
  moreover have "strtoul ''0'' = (0, True)" by (simp add: strtoul_def is_space_def is_digit_def)
  ultimately have "nd_arguments [cmd, p, g, l, t, a, f] = nd_arguments [cmd, p, g, l, t, a, ''0'']"
    by (simp add: nd_arguments_def)
  moreover have "[cmd, p, g, l, t, a, x] ! 2 = g" "[cmd, p, g, l, t, a, x] ! 3 = l" "length [cmd, p, g, l, t, a, x] = 7" for x
    by simp_all
  ultimately show ?thesis by (simp only: nd_start_def if_False simp_thms)
qed

theorem probability_not_checked_witness:
  "nd_start demo_nd_env [''node'', ''9001'', ''group'', ''log'', ''5'', ''3'', ''ten''] =
   nd_start demo_nd_env [''node'', ''9001'', ''group'', ''log'', ''5'', ''3'', ''0'']"
  by (rule probability_not_checked) (simp add: strtoul_def is_space_def is_digit_def)

text \<open>
  The name of a node does not fit.  The first part of a log line, the node's name and a brace, is
  built in a buffer of 6 characters, which holds ports below 100 only; the manager and the workers use one of
  10, which holds every port of six digits.
\<close>

theorem name_buffer_too_small:
  "(nodeIdBuf_fits 6 (nd_port s) \<longleftrightarrow> unat (nd_port s) < 100) \<and>
   (nodeIdBuf_fits 10 port \<longleftrightarrow> unat port < 1000000)"
  by (simp add: nodeIdBuf_iff)

end
