(* ===== verification/MtServer.thy ===== *)
theory MtServer
  imports Bytes
begin

text \<open>
  The multi-threaded TCP server of client_server/mtserver.c: the request parser \<open>HandleTCPClient\<close>
  on its three arrays of 32 characters, and the count of client threads in \<open>main\<close> and
  \<open>ThreadMain\<close>.

  What the parser reads from outside is in a record: the host's byte order, and for the \<open>n\<close>-th answer
  the uptime, the thread count and whether \<open>send\<close> takes all four bytes.  \<open>Exited\<close> is the return of
  \<open>HandleTCPClient\<close>, which closes the connection; \<open>Undefined\<close> is a string without a terminator or
  a copy that leaves an array.  \<open>isdigit\<close> is false for characters above 127.
\<close>

definition RCVBUFSIZE :: nat where "RCVBUFSIZE = 32"

record srv_env =
  se_host :: endian
  se_uptime :: "nat \<Rightarrow> u32"
  se_threads :: "nat \<Rightarrow> u32"
  se_sent :: "nat \<Rightarrow> bool"

record client =
  cl_my :: "u8 list"
  cl_temp :: "u8 list"
  cl_invalid :: int
  cl_out :: "u8 list list"

subsection \<open>C library routines on the arrays\<close>

definition zero_buf :: "u8 list" where
  "zero_buf = replicate RCVBUFSIZE 0"

definition c_strcat :: "u8 list \<Rightarrow> u8 list \<Rightarrow> u8 list option" where
  "c_strcat dst src =
     do { n \<leftarrow> c_strlen dst; m \<leftarrow> c_strlen src; memcpy_to dst n (take (Suc m) src) }"

fun strncmp_eq :: "u8 list \<Rightarrow> u8 list \<Rightarrow> nat \<Rightarrow> bool" where
  "strncmp_eq as bs 0 = True"
| "strncmp_eq (a # as) (b # bs) (Suc n) = (a = b \<and> (a = 0 \<or> strncmp_eq as bs n))"
| "strncmp_eq as bs (Suc n) = False"

definition isdigit :: "u8 \<Rightarrow> bool" where
  "isdigit b \<longleftrightarrow> 48 \<le> b \<and> b \<le> 57"

definition space :: u8 where "space = 32"

definition lit_uptime :: "u8 list" where "lit_uptime = [117, 112, 116, 105, 109, 101, 0]"
definition lit_load :: "u8 list" where "lit_load = [108, 111, 97, 100, 0]"
definition lit_exit :: "u8 list" where "lit_exit = [101, 120, 105, 116, 0]"

subsection \<open>The parser\<close>

text \<open>Move what lies behind the first \<open>k\<close> characters to the front, through \<open>tempBuffer\<close>.\<close>

definition manageBuffer :: "nat \<Rightarrow> client \<Rightarrow> client option" where
  "manageBuffer k s =
     do { n \<leftarrow> c_strlen (cl_my s);
          tail \<leftarrow> memcpy_from (cl_my s) k (n - k);
          temp \<leftarrow> memcpy_to zero_buf 0 tail;
          m \<leftarrow> c_strlen temp;
          my \<leftarrow> memcpy_to zero_buf 0 (take m temp);
          Some (s\<lparr>cl_temp := temp, cl_my := my\<rparr>) }"

definition send_u32 :: "srv_env \<Rightarrow> u32 \<Rightarrow> client \<Rightarrow> client outcome" where
  "send_u32 env w s =
     (if se_sent env (length (cl_out s)) then Running (s\<lparr>cl_out := cl_out s @ [mem_of_u32 (se_host env) w]\<rparr>)
      else Exited s)"

definition of_option :: "'a option \<Rightarrow> 'a outcome" where
  "of_option m = (case m of None \<Rightarrow> Undefined | Some s \<Rightarrow> Running s)"

text \<open>A complete request: the answer, then the buffer without it.\<close>

definition answer_request :: "srv_env \<Rightarrow> u32 \<Rightarrow> nat \<Rightarrow> client \<Rightarrow> client outcome" where
  "answer_request env w k s =
     seq (send_u32 env w s) (\<lambda>s. seq (of_option (manageBuffer k s)) (\<lambda>s. Running (s\<lparr>cl_invalid := 0\<rparr>)))"

definition reject :: "srv_env \<Rightarrow> nat \<Rightarrow> client \<Rightarrow> client outcome" where
  "reject env k s =
     seq (of_option (manageBuffer k s))
       (\<lambda>s. seq (send_u32 env (- 1) s)
          (\<lambda>s. let s = s\<lparr>cl_invalid := cl_invalid s + 1\<rparr>
               in if cl_invalid s > 2 then Exited s else Running s))"

fun sum_digits :: "u8 list \<Rightarrow> u32" where
  "sum_digits [] = 0"
| "sum_digits (b # bs) = ucast b - 48 + sum_digits bs"

text \<open>One round of the \<open>for\<close> loop: the new value of \<open>my_char\<close>, before its increment, and the state.\<close>

definition parse_char :: "srv_env \<Rightarrow> nat \<Rightarrow> client \<Rightarrow> (nat \<times> client) outcome" where
  "parse_char env my_char s =
     (let my = cl_my s;
          keep = Running (my_char, s\<lparr>cl_invalid := 0\<rparr>);
          again = (\<lambda>m. and_then m (\<lambda>s. Running (0, s)) (\<lambda>s. (0, s)))
      in if strncmp_eq my lit_uptime my_char then
           (if my_char = 6 then again (answer_request env (htonl (se_host env) (se_uptime env (length (cl_out s)))) my_char s)
            else keep)
         else if strncmp_eq my lit_load my_char then
           (if my_char = 4 then again (answer_request env (htonl (se_host env) (se_threads env (length (cl_out s)))) my_char s)
            else keep)
         else if strncmp_eq my lit_exit my_char then
           and_then (send_u32 env (htonl (se_host env) 0) s)
             (\<lambda>s. Exited (my_char, s\<lparr>cl_temp := zero_buf, cl_my := zero_buf, cl_invalid := 0\<rparr>)) (\<lambda>s. (my_char, s))
         else if isdigit (my ! (my_char - 1)) \<or> my ! (my_char - 1) = space then
           (if my_char > 1 \<and> \<not> isdigit (my ! (my_char - 2)) \<or> my_char = 1 \<and> my ! (my_char - 1) = space
            then again (reject env my_char s)
            else if my ! (my_char - 1) = space
            then again (answer_request env (htonl (se_host env) (sum_digits (take (my_char - 1) my))) my_char s)
            else keep)
         else again (reject env (if my_char = 1 then my_char else my_char - 1) s))"

lemma and_then_cong [fundef_cong]:
  "m = m' \<Longrightarrow> (\<And>s. m' = Running s \<Longrightarrow> f s = f' s) \<Longrightarrow> and_then m f g = and_then m' f' g"
  by (cases m') auto

function parse_loop :: "srv_env \<Rightarrow> nat \<Rightarrow> client \<Rightarrow> client outcome" where
  "parse_loop env my_char s =
     (case c_strlen (cl_my s) of
        None \<Rightarrow> Undefined
      | Some n \<Rightarrow>
          if my_char \<le> n
          then and_then (parse_char env my_char s) (\<lambda>(my_char, s). parse_loop env (Suc my_char) s) snd
          else Running s)"
  by pat_completeness auto

text \<open>A round either looks at the next character or shortens the buffer.\<close>

lemma memcpy_from_length: "memcpy_from buf pos n = Some bs \<Longrightarrow> length bs = n"
  by (auto simp: memcpy_from_def split: if_splits)

lemma c_strlen_eq: "c_strlen s = Some n \<longleftrightarrow> 0 \<in> set s \<and> n = length (c_string s)"
  by (auto simp: c_strlen_def c_string_def)


lemma c_strlen_string: "0 \<notin> set str \<Longrightarrow> c_strlen (str @ 0 # rest) = Some (length str)"
  by (simp add: c_strlen_eq c_string_terminated)

lemma take_nonzero:
  assumes "c_strlen my = Some n"
  shows "0 \<notin> set (take n my)" and "n < length my" and "my = take n my @ 0 # drop (Suc n) my"
proof -
  from take_c_strlen [OF assms] have t: "take (Suc n) my = c_string my @ [0]" .
  show n: "n < length my" using assms by (rule c_strlen_less)
  have "length (c_string my) = n" using assms by (simp add: c_strlen_eq)
  with t n have "take n my = c_string my" and "my ! n = 0"
    by (simp_all add: take_Suc_conv_app_nth)
  then show "0 \<notin> set (take n my)" and "my = take n my @ 0 # drop (Suc n) my"
    using c_string_no0 id_take_nth_drop [OF n] by simp_all
qed

lemma strlen_zeroed: "0 \<notin> set bs \<Longrightarrow> length bs < RCVBUFSIZE \<Longrightarrow> c_strlen (overlay zero_buf 0 bs) = Some (length bs)"
proof -
  assume bs: "0 \<notin> set bs" and less: "length bs < RCVBUFSIZE"
  then have "overlay zero_buf 0 bs = bs @ 0 # replicate (RCVBUFSIZE - Suc (length bs)) 0"
    by (simp add: overlay_def zero_buf_def Suc_diff_Suc flip: replicate_Suc)
  with bs show ?thesis by (simp add: c_strlen_string)
qed

lemma strlen_zeroed_full: "0 \<notin> set bs \<Longrightarrow> length bs = RCVBUFSIZE \<Longrightarrow> c_strlen (overlay zero_buf 0 bs) = None"
  by (simp add: overlay_def zero_buf_def c_strlen_def)

lemma manageBuffer_eq:
  assumes "c_strlen (cl_my s) = Some n" and "k \<le> n"
  shows "manageBuffer k s =
    (let tail = take (n - k) (drop k (cl_my s)); buf = overlay zero_buf 0 tail
     in if n - k < RCVBUFSIZE then Some (s\<lparr>cl_temp := buf, cl_my := buf\<rparr>) else None)"
proof -
  let ?tail = "take (n - k) (drop k (cl_my s))"
  have n: "n < length (cl_my s)" using take_nonzero(2) [OF assms(1)] .
  with assms(2) have len: "length ?tail = n - k" by simp
  have "set ?tail \<subseteq> set (take n (cl_my s))" by (metis drop_take set_drop_subset)
  then have no0: "0 \<notin> set ?tail" using take_nonzero(1) [OF assms(1)] by auto
  have src: "memcpy_from (cl_my s) k (n - k) = Some ?tail" using n assms(2) by (simp add: memcpy_from_def)
  have fits: "memcpy_to zero_buf 0 ?tail = (if n - k \<le> RCVBUFSIZE then Some (overlay zero_buf 0 ?tail) else None)"
    using len by (simp add: memcpy_to_def zero_buf_def)
  consider "n - k < RCVBUFSIZE" | "n - k = RCVBUFSIZE" | "RCVBUFSIZE < n - k" by linarith
  then show ?thesis
  proof cases
    case 1
    then have "c_strlen (overlay zero_buf 0 ?tail) = Some (n - k)" using strlen_zeroed [OF no0] len by simp
    moreover have "take (n - k) (overlay zero_buf 0 ?tail) = ?tail" using len by (simp add: overlay_def)
    ultimately show ?thesis using 1 fits by (simp add: manageBuffer_def assms(1) src Let_def)
  next
    case 2
    then have "c_strlen (overlay zero_buf 0 ?tail) = None" using strlen_zeroed_full [OF no0] len by simp
    with 2 fits src show ?thesis by (simp add: manageBuffer_def assms(1) Let_def)
  next
    case 3
    with fits show ?thesis by (simp add: manageBuffer_def assms(1) src Let_def)
  qed
qed

lemma manageBuffer_shrinks:
  assumes "manageBuffer k s = Some t" and "c_strlen (cl_my s) = Some n" and "k \<le> n"
  shows "c_strlen (cl_my t) = Some (n - k)"
proof -
  let ?tail = "take (n - k) (drop k (cl_my s))"
  have "set ?tail \<subseteq> set (take n (cl_my s))" by (metis drop_take set_drop_subset)
  then have "0 \<notin> set ?tail" using take_nonzero(1) [OF assms(2)] by auto
  moreover have "length ?tail = n - k" using take_nonzero(2) [OF assms(2)] assms(3) by simp
  ultimately show ?thesis
    using assms(1) strlen_zeroed [of ?tail] by (auto simp: manageBuffer_eq [OF assms(2,3)] Let_def split: if_splits)
qed

lemma send_u32_Running: "send_u32 env w s = Running t \<Longrightarrow> cl_my t = cl_my s"
  by (auto simp: send_u32_def split: if_splits)

lemma of_option_Running: "of_option m = Running t \<longleftrightarrow> m = Some t"
  by (cases m) (simp_all add: of_option_def)

lemma and_then_Running: "and_then m f g = Running t \<longleftrightarrow> (\<exists>s. m = Running s \<and> f s = Running t)"
  by (cases m) auto

lemma answer_request_shrinks:
  "answer_request env w k s = Running t \<Longrightarrow> c_strlen (cl_my s) = Some n \<Longrightarrow> k \<le> n \<Longrightarrow> c_strlen (cl_my t) = Some (n - k)"
  by (auto simp: answer_request_def and_then_Running of_option_Running dest!: send_u32_Running manageBuffer_shrinks)

lemma reject_shrinks:
  "reject env k s = Running t \<Longrightarrow> c_strlen (cl_my s) = Some n \<Longrightarrow> k \<le> n \<Longrightarrow> c_strlen (cl_my t) = Some (n - k)"
  by (auto simp: reject_def and_then_Running of_option_Running Let_def dest!: send_u32_Running manageBuffer_shrinks
      split: if_splits)

lemma parse_char_Running:
  assumes "parse_char env my_char s = Running (mc, t)" and "c_strlen (cl_my s) = Some n" and "my_char \<le> n"
  shows "(mc = my_char \<and> cl_my t = cl_my s) \<or> (mc = 0 \<and> (\<exists>m. c_strlen (cl_my t) = Some m \<and> m < n))"
proof (cases "my_char = 0")
  case True
  with assms(1) show ?thesis by (auto simp: parse_char_def)
next
  case False
  then have dec: "n - my_char < n" "1 < my_char \<Longrightarrow> n - (my_char - 1) < n" using assms(3) by auto
  note shr = answer_request_shrinks [OF _ assms(2)] reject_shrinks [OF _ assms(2)]
  from assms(1,3) False dec show ?thesis
    by (auto simp: parse_char_def Let_def and_then_Running dest!: shr split: if_splits)
qed

termination parse_loop
proof (relation "measures [\<lambda>(env, mc, s). case c_strlen (cl_my s) of None \<Rightarrow> 0 | Some n \<Rightarrow> n,
    \<lambda>(env, mc, s). case c_strlen (cl_my s) of None \<Rightarrow> 0 | Some n \<Rightarrow> Suc n - mc]", goal_cases)
  case 1
  show ?case by simp
next
  case (2 env my_char s n p mc t)
  then have "(mc = my_char \<and> cl_my t = cl_my s) \<or> (mc = 0 \<and> (\<exists>m. c_strlen (cl_my t) = Some m \<and> m < n))"
    by (intro parse_char_Running) auto
  with 2 show ?case by auto
qed

declare parse_loop.simps [simp del]

subsection \<open>The connection\<close>

text \<open>What \<open>recv\<close> returns: an error, the end of the transmission, or up to 32 bytes.\<close>

datatype srv_event = RecvError | RecvEnd | RecvData "u8 list"

fun handle_recv :: "srv_env \<Rightarrow> srv_event \<Rightarrow> client \<Rightarrow> client outcome" where
  "handle_recv env RecvError s = Exited s"
| "handle_recv env RecvEnd s = Exited s"
| "handle_recv env (RecvData bytes) s =
     (case memcpy_to zero_buf 0 bytes of
        None \<Rightarrow> Undefined
      | Some echoBuffer \<Rightarrow>
          (case c_strcat (cl_my s) echoBuffer of
             None \<Rightarrow> Undefined
           | Some my \<Rightarrow> parse_loop env 1 (s\<lparr>cl_my := my\<rparr>)))"

definition HandleTCPClient :: "srv_env \<Rightarrow> u8 list \<Rightarrow> srv_event list \<Rightarrow> client outcome" where
  "HandleTCPClient env tempBuffer events =
     run (handle_recv env) events \<lparr>cl_my = zero_buf, cl_temp = tempBuffer, cl_invalid = 0, cl_out = []\<rparr>"

subsection \<open>The count of client threads\<close>

text \<open>
  \<open>sv_live\<close> is the number of threads that \<open>main\<close> has created and that have not yet decremented
  \<open>numThread\<close>; \<open>sv_created\<close> holds while \<open>main\<close> is between \<open>pthread_create\<close> and its increment.
  The steps of \<open>main\<close> and of the threads interleave.  The limit \<open>max\<close> is compared as an unsigned number.
\<close>

record server =
  sv_numThread :: u32
  sv_live :: nat
  sv_created :: bool

inductive srv_step :: "u32 \<Rightarrow> server \<Rightarrow> server \<Rightarrow> bool" for max_clients where
  create: "\<not> sv_created s \<Longrightarrow> sv_numThread s < max_clients \<Longrightarrow>
    srv_step max_clients s (s\<lparr>sv_live := Suc (sv_live s), sv_created := True\<rparr>)"
| refuse: "\<not> sv_created s \<Longrightarrow> \<not> sv_numThread s < max_clients \<Longrightarrow> srv_step max_clients s s"
| count: "sv_created s \<Longrightarrow> srv_step max_clients s (s\<lparr>sv_numThread := sv_numThread s + 1, sv_created := False\<rparr>)"
| finish: "sv_live s = Suc n \<Longrightarrow> srv_step max_clients s (s\<lparr>sv_numThread := sv_numThread s - 1, sv_live := n\<rparr>)"

inductive srv_reachable :: "u32 \<Rightarrow> server \<Rightarrow> bool" for max_clients where
  start: "srv_reachable max_clients \<lparr>sv_numThread = 0, sv_live = 0, sv_created = False\<rparr>"
| step: "srv_reachable max_clients s \<Longrightarrow> srv_step max_clients s t \<Longrightarrow> srv_reachable max_clients t"

code_pred srv_step .

inductive_cases srv_stepE: "srv_step max_clients s t"

end
