(* ===== verification/MtServerSpec.thy ===== *)
theory MtServerSpec
  imports MtServer
begin

text \<open>
  What the request parser of mtserver.c does, without its arrays: an automaton that reads one
  character at a time and holds the part of a request it has seen.  The refinement lemma at the end
  says that a round of the receive loop on the arrays is the automaton on the received characters.
\<close>

subsection \<open>The automaton\<close>

datatype reply = RUptime | RLoad | RSum u32 | RInvalid | RExit
datatype action = Hold | Reply reply nat

definition str_uptime :: "u8 list" where "str_uptime = [117, 112, 116, 105, 109, 101]"
definition str_load :: "u8 list" where "str_load = [108, 111, 97, 100]"
definition str_exit :: "u8 list" where "str_exit = [101, 120, 105, 116]"

definition is_prefix :: "u8 list \<Rightarrow> u8 list \<Rightarrow> bool" where
  "is_prefix h w \<longleftrightarrow> h = take (length h) w"

text \<open>The action for the characters held so far; a reply says how many of them it takes.\<close>

definition act :: "u8 list \<Rightarrow> action" where
  "act h =
     (if is_prefix h str_uptime then (if h = str_uptime then Reply RUptime 6 else Hold)
      else if is_prefix h str_load then (if h = str_load then Reply RLoad 4 else Hold)
      else if is_prefix h str_exit then Reply RExit 0
      else if isdigit (last h) \<or> last h = space then
        (if length h > 1 \<and> \<not> isdigit (last (butlast h)) \<or> length h = 1 \<and> last h = space then Reply RInvalid (length h)
         else if last h = space then Reply (RSum (sum_digits (butlast h))) (length h)
         else Hold)
      else Reply RInvalid (if length h = 1 then 1 else length h - 1))"

record parser =
  p_held :: "u8 list"
  p_invalid :: int
  p_out :: "u8 list list"

definition reply_word :: "srv_env \<Rightarrow> nat \<Rightarrow> reply \<Rightarrow> u32" where
  "reply_word env n r =
     (case r of
        RUptime \<Rightarrow> htonl (se_host env) (se_uptime env n)
      | RLoad \<Rightarrow> htonl (se_host env) (se_threads env n)
      | RSum w \<Rightarrow> htonl (se_host env) w
      | RInvalid \<Rightarrow> - 1
      | RExit \<Rightarrow> htonl (se_host env) 0)"

definition emit :: "srv_env \<Rightarrow> reply \<Rightarrow> parser \<Rightarrow> parser outcome" where
  "emit env r a =
     (let n = length (p_out a);
          b = a\<lparr>p_out := p_out a @ [mem_of_u32 (se_host env) (reply_word env n r)]\<rparr>
      in if \<not> se_sent env n then Exited a
         else if r = RExit then Exited b
         else if r = RInvalid then
           (if p_invalid a + 1 > 2 then Exited (b\<lparr>p_invalid := p_invalid a + 1\<rparr>)
            else Running (b\<lparr>p_invalid := p_invalid a + 1\<rparr>))
         else Running (b\<lparr>p_invalid := 0\<rparr>))"

definition feed_first :: "srv_env \<Rightarrow> u8 \<Rightarrow> parser \<Rightarrow> parser outcome" where
  "feed_first env c a =
     (case act [c] of
        Hold \<Rightarrow> Running (a\<lparr>p_held := [c], p_invalid := 0\<rparr>)
      | Reply r k \<Rightarrow> emit env r (a\<lparr>p_held := []\<rparr>))"

definition feed :: "srv_env \<Rightarrow> u8 \<Rightarrow> parser \<Rightarrow> parser outcome" where
  "feed env c a =
     (let h = p_held a @ [c] in
      case act h of
        Hold \<Rightarrow> Running (a\<lparr>p_held := h, p_invalid := 0\<rparr>)
      | Reply r k \<Rightarrow>
          seq (emit env r (a\<lparr>p_held := []\<rparr>)) (if k = length h then Running else feed_first env c))"

abbreviation feed_all :: "srv_env \<Rightarrow> u8 list \<Rightarrow> parser \<Rightarrow> parser outcome" where
  "feed_all env \<equiv> run (feed env)"

text \<open>What the parser may hold between two characters: nothing, or a request that is incomplete
  after each of its characters.\<close>

definition pending :: "u8 list \<Rightarrow> bool" where
  "pending h \<longleftrightarrow> (\<forall>i < length h. act (take (Suc i) h) = Hold)"

lemma pending_Nil [simp]: "pending []"
  by (simp add: pending_def)

lemma pending_snoc: "pending (h @ [c]) \<longleftrightarrow> pending h \<and> act (h @ [c]) = Hold"
proof -
  have "(\<forall>i < Suc (length h). act (take (Suc i) (h @ [c])) = Hold) \<longleftrightarrow>
      (\<forall>i < length h. act (take (Suc i) h) = Hold) \<and> act (h @ [c]) = Hold"
    by (auto simp: less_Suc_eq)
  then show ?thesis by (simp add: pending_def)
qed

lemma act_length:
  assumes "act h = Reply r k" and "h \<noteq> []" and "r \<noteq> RExit"
  shows "k = length h \<or> (1 < length h \<and> k = length h - 1 \<and> r = RInvalid)"
proof -
  from assms(2) have "1 \<le> length h" by (cases h) auto
  then show ?thesis
    using assms(1,3) unfolding act_def
    by (auto simp: str_uptime_def str_load_def split: if_splits)
qed

subsection \<open>One round of the loop\<close>

lemma strncmp_prefix:
  "0 \<notin> set w \<Longrightarrow> 0 \<notin> set str \<Longrightarrow> mc \<le> length str \<Longrightarrow>
    strncmp_eq (str @ rest) (w @ [0]) mc \<longleftrightarrow> is_prefix (take mc str) w"
proof (induction str arbitrary: w mc)
  case Nil
  then show ?case by (simp add: is_prefix_def)
next
  case (Cons a str)
  show ?case
  proof (cases mc)
    case 0
    then show ?thesis by (simp add: is_prefix_def)
  next
    case (Suc m)
    with Cons show ?thesis by (cases w) (auto simp: is_prefix_def)
  qed
qed

lemma literals: "lit_uptime = str_uptime @ [0]" "lit_load = str_load @ [0]" "lit_exit = str_exit @ [0]"
  by (simp_all add: lit_uptime_def str_uptime_def lit_load_def str_load_def lit_exit_def str_exit_def)

lemma literals_no0: "0 \<notin> set str_uptime" "0 \<notin> set str_load" "0 \<notin> set str_exit"
  by (simp_all add: str_uptime_def str_load_def str_exit_def)

lemma is_prefix_full: "is_prefix h w \<Longrightarrow> h = w \<longleftrightarrow> length h = length w"
  by (auto simp: is_prefix_def)

lemma length_literals: "length str_uptime = 6" "length str_load = 4"
  by (simp_all add: str_uptime_def str_load_def)

text \<open>The array holds the string.\<close>

definition holds :: "u8 list \<Rightarrow> u8 list \<Rightarrow> bool" where
  "holds my str \<longleftrightarrow> 0 \<notin> set str \<and> length my = RCVBUFSIZE \<and> (\<exists>rest. my = str @ 0 # rest)"

lemma holds_strlen: "holds my str \<Longrightarrow> c_strlen my = Some (length str)"
  by (auto simp: holds_def c_strlen_string)

lemma holds_length: "holds my str \<Longrightarrow> length str < RCVBUFSIZE"
  by (auto simp: holds_def)

lemma holds_overlay:
  assumes "0 \<notin> set str" and "length str < RCVBUFSIZE"
  shows "holds (overlay zero_buf 0 str) str"
proof -
  have "overlay zero_buf 0 str = str @ 0 # replicate (RCVBUFSIZE - Suc (length str)) 0"
    using assms(2) by (simp add: overlay_def zero_buf_def Suc_diff_Suc flip: replicate_Suc)
  with assms show ?thesis by (auto simp: holds_def)
qed

lemma manageBuffer_holds:
  assumes "holds (cl_my s) str" and "k \<le> length str"
  shows "manageBuffer k s = Some (s\<lparr>cl_temp := overlay zero_buf 0 (drop k str), cl_my := overlay zero_buf 0 (drop k str)\<rparr>)"
proof -
  from assms(1) obtain rest where my: "cl_my s = str @ 0 # rest" by (auto simp: holds_def)
  have "take (length str - k) (drop k (cl_my s)) = drop k str" using assms(2) by (simp add: my)
  moreover have "length str - k < RCVBUFSIZE" using holds_length [OF assms(1)] by simp
  ultimately show ?thesis
    using manageBuffer_eq [OF holds_strlen [OF assms(1)] assms(2)] by (simp add: Let_def)
qed

definition absp :: "client \<Rightarrow> u8 list \<Rightarrow> parser" where
  "absp s h = \<lparr>p_held = h, p_invalid = cl_invalid s, p_out = cl_out s\<rparr>"

text \<open>\<open>refines R m m'\<close>: the outcomes agree, states that go on are related by \<open>R\<close>, and a connection
  that is closed has sent the same answers.\<close>

fun refines :: "('c \<Rightarrow> parser \<Rightarrow> bool) \<Rightarrow> ('c \<Rightarrow> client) \<Rightarrow> 'c outcome \<Rightarrow> parser outcome \<Rightarrow> bool" where
  "refines R f (Running s) (Running a) = R s a"
| "refines R f (Exited s) (Exited a) = (cl_out (f s) = p_out a)"
| "refines R f Undefined Undefined = True"
| "refines R f m m' = False"

definition shifted :: "client \<Rightarrow> u8 list \<Rightarrow> client" where
  "shifted s str = s\<lparr>cl_temp := overlay zero_buf 0 str, cl_my := overlay zero_buf 0 str\<rparr>"

lemma shifted_simps [simp]:
  "cl_my (shifted s str) = overlay zero_buf 0 str" "cl_out (shifted s str) = cl_out s"
  "cl_invalid (shifted s str) = cl_invalid s"
  by (simp_all add: shifted_def)

lemma holds_drop: "holds my str \<Longrightarrow> holds (overlay zero_buf 0 (drop k str)) (drop k str)"
  by (rule holds_overlay) (auto simp: holds_def dest: in_set_dropD)

text \<open>After the first \<open>k\<close> characters have been answered the rest is at the front.\<close>

definition after :: "u8 list \<Rightarrow> nat \<times> client \<Rightarrow> parser \<Rightarrow> bool" where
  "after str p a \<longleftrightarrow> fst p = 0 \<and> holds (cl_my (snd p)) str \<and> absp (snd p) [] = a"

abbreviation again :: "client outcome \<Rightarrow> (nat \<times> client) outcome" where
  "again m \<equiv> and_then m (\<lambda>s. Running (0, s)) (\<lambda>s. (0, s))"

lemma answer_emit:
  assumes "holds (cl_my s) str" and "k \<le> length str" and "r \<noteq> RExit" and "r \<noteq> RInvalid"
  shows "refines (after (drop k str)) snd (again (answer_request env (reply_word env (length (cl_out s)) r) k s))
    (emit env r (absp s []))"
proof (cases "se_sent env (length (cl_out s))")
  case False
  then show ?thesis by (simp add: answer_request_def send_u32_def emit_def absp_def)
next
  case True
  let ?s = "s\<lparr>cl_out := cl_out s @ [mem_of_u32 (se_host env) (reply_word env (length (cl_out s)) r)]\<rparr>"
  have h: "holds (cl_my ?s) str" using assms(1) by simp
  have "manageBuffer k ?s = Some (shifted ?s (drop k str))"
    unfolding shifted_def by (rule manageBuffer_holds [OF h assms(2)])
  then show ?thesis
    using True assms(3,4) holds_drop [OF assms(1)]
    by (simp add: answer_request_def send_u32_def emit_def absp_def Let_def of_option_def after_def)
qed

lemma reject_emit:
  assumes "holds (cl_my s) str" and "k \<le> length str"
  shows "refines (after (drop k str)) snd (again (reject env k s)) (emit env RInvalid (absp s []))"
proof -
  have "manageBuffer k s = Some (shifted s (drop k str))"
    unfolding shifted_def by (rule manageBuffer_holds [OF assms])
  then show ?thesis
    using holds_drop [OF assms(1)]
    by (simp add: reject_def send_u32_def emit_def absp_def Let_def of_option_def after_def reply_word_def)
qed

lemma parse_char_act:
  assumes h: "holds (cl_my s) str" and mc: "0 < mc" "mc \<le> length str"
  shows "case act (take mc str) of
      Hold \<Rightarrow> parse_char env mc s = Running (mc, s\<lparr>cl_invalid := 0\<rparr>)
    | Reply r k \<Rightarrow> refines (after (drop k str)) snd (parse_char env mc s) (emit env r (absp s []))"
proof -
  let ?h = "take mc str" and ?my = "cl_my s"
  from h obtain rest where my: "?my = str @ 0 # rest" and no0: "0 \<notin> set str" by (auto simp: holds_def)
  have len: "length ?h = mc" using mc by simp
  have cmp: "strncmp_eq ?my lit_uptime mc = is_prefix ?h str_uptime"
    "strncmp_eq ?my lit_load mc = is_prefix ?h str_load" "strncmp_eq ?my lit_exit mc = is_prefix ?h str_exit"
    unfolding my literals using strncmp_prefix no0 mc(2) literals_no0 by simp_all
  have full: "is_prefix ?h str_uptime \<Longrightarrow> ?h = str_uptime \<longleftrightarrow> mc = 6" "is_prefix ?h str_load \<Longrightarrow> ?h = str_load \<longleftrightarrow> mc = 4"
    using len by (simp_all add: is_prefix_full length_literals)
  have nth: "?my ! i = str ! i" if "i < length str" for i using that by (simp add: my nth_append)
  have last_take: "last (take (Suc i) str) = ?my ! i" if "i < length str" for i
    using that by (simp add: take_Suc_conv_app_nth nth)
  have bl: "butlast ?h = take (mc - 1) str" using mc by (simp add: butlast_take)
  have last1: "last ?h = ?my ! (mc - 1)" using last_take [of "mc - 1"] mc by simp
  have last2: "last (butlast ?h) = ?my ! (mc - 2)" if "1 < mc"
    using last_take [of "mc - 2"] that mc unfolding bl by (simp add: Suc_diff_Suc numeral_2_eq_2)
  have sum: "sum_digits (butlast ?h) = sum_digits (take (mc - 1) ?my)"
    using mc unfolding bl by (simp add: my)
  have ans: "refines (after (drop k str)) snd (again (answer_request env (reply_word env (length (cl_out s)) r) k s))
    (emit env r (absp s []))" if "r \<noteq> RExit" "r \<noteq> RInvalid" "k \<le> length str" for r k
    using that by (intro answer_emit h)
  have words: "reply_word env n RUptime = htonl (se_host env) (se_uptime env n)"
    "reply_word env n RLoad = htonl (se_host env) (se_threads env n)"
    "reply_word env n (RSum w) = htonl (se_host env) w" for n w
    by (simp_all add: reply_word_def)
  note upt = ans [of RUptime 6, unfolded words] and lo = ans [of RLoad 4, unfolded words]
    and su = ans [of "RSum w" mc for w, unfolded words]
  consider (up) "is_prefix ?h str_uptime" | (load) "\<not> is_prefix ?h str_uptime" "is_prefix ?h str_load"
    | (exit) "\<not> is_prefix ?h str_uptime" "\<not> is_prefix ?h str_load" "is_prefix ?h str_exit"
    | (digit) "\<not> is_prefix ?h str_uptime" "\<not> is_prefix ?h str_load" "\<not> is_prefix ?h str_exit"
        "isdigit (last ?h) \<or> last ?h = space"
    | (other) "\<not> is_prefix ?h str_uptime" "\<not> is_prefix ?h str_load" "\<not> is_prefix ?h str_exit"
        "\<not> (isdigit (last ?h) \<or> last ?h = space)"
    by blast
  then show ?thesis
  proof cases
    case up
    show ?thesis
    proof (cases "mc = 6")
      case True
      with full(1) [OF up] have "act ?h = Reply RUptime 6" using up by (simp add: act_def)
      moreover have "parse_char env mc s =
          again (answer_request env (htonl (se_host env) (se_uptime env (length (cl_out s)))) 6 s)"
        using up cmp(1) True by (simp add: parse_char_def Let_def)
      ultimately show ?thesis using upt mc(2) True by simp
    next
      case False
      with full(1) [OF up] have "act ?h = Hold" using up by (simp add: act_def)
      with up cmp(1) False show ?thesis by (simp add: parse_char_def Let_def)
    qed
  next
    case load
    show ?thesis
    proof (cases "mc = 4")
      case True
      with full(2) [OF load(2)] have "act ?h = Reply RLoad 4" using load by (simp add: act_def)
      moreover have "parse_char env mc s =
          again (answer_request env (htonl (se_host env) (se_threads env (length (cl_out s)))) 4 s)"
        using load cmp(1,2) True by (simp add: parse_char_def Let_def)
      ultimately show ?thesis using lo mc(2) True by simp
    next
      case False
      with full(2) [OF load(2)] have "act ?h = Hold" using load by (simp add: act_def)
      with load cmp(1,2) False show ?thesis by (simp add: parse_char_def Let_def)
    qed
  next
    case exit
    then show ?thesis using cmp
      by (simp add: act_def parse_char_def Let_def send_u32_def emit_def reply_word_def absp_def)
  next
    case digit
    then show ?thesis
      using cmp len last1 last2 sum su reject_emit [OF h mc(2)] mc
      by (auto simp: act_def parse_char_def Let_def)
  next
    case other
    then show ?thesis
      using cmp len last1 reject_emit [OF h, of "if mc = 1 then mc else mc - 1"] mc
      by (auto simp: act_def parse_char_def Let_def)
  qed
qed

subsection \<open>The loop\<close>

text \<open>After a round of the receive loop the array holds what the automaton holds.\<close>

definition same :: "client \<Rightarrow> parser \<Rightarrow> bool" where
  "same s a \<longleftrightarrow> holds (cl_my s) (p_held a) \<and> pending (p_held a) \<and> absp s (p_held a) = a \<and>
     (p_held a \<noteq> [] \<longrightarrow> p_invalid a = 0)"

lemma emit_held: "emit env r a = Running b \<Longrightarrow> p_held b = p_held a"
  by (auto simp: emit_def Let_def split: if_splits)

lemma emit_RExit: "emit env RExit a \<noteq> Running b"
  by (simp add: emit_def Let_def)

lemma feed_empty: "feed env c (absp s []) = feed_first env c (absp s [])"
proof (cases "act [c]")
  case Hold
  then show ?thesis by (simp add: feed_def feed_first_def absp_def)
next
  case (Reply r k)
  have "k = 1" if "r \<noteq> RExit" using act_length [OF Reply _ that] by simp
  then show ?thesis using Reply
    by (cases "r = RExit"; cases "emit env r (absp s [])")
      (auto simp: feed_def feed_first_def absp_def emit_RExit)
qed

lemma seq_Running [simp]: "seq m Running = m"
  by (cases m) simp_all

lemma absp_update: "absp s h\<lparr>p_held := g\<rparr> = absp s g"
  by (simp add: absp_def)

lemma parse_loop_feed:
  "holds (cl_my s) str \<Longrightarrow> 0 < mc \<Longrightarrow> mc \<le> Suc (length str) \<Longrightarrow> pending (take (mc - 1) str) \<Longrightarrow>
    (1 < mc \<Longrightarrow> cl_invalid s = 0) \<Longrightarrow>
    refines same id (parse_loop env mc s) (feed_all env (drop (mc - 1) str) (absp s (take (mc - 1) str)))"
proof (induction env mc s arbitrary: str rule: parse_loop.induct)
  case (1 env mc s)
  note loop = parse_loop.simps [of env mc s] holds_strlen [OF 1(2)]
  show ?case
  proof (cases "mc \<le> length str")
    case False
    with 1 have "mc - 1 = length str" by simp
    moreover from this 1(3,6) have "str \<noteq> [] \<Longrightarrow> cl_invalid s = 0" by (cases str) auto
    ultimately show ?thesis using False 1(2,5) by (simp add: loop same_def absp_def)
  next
    case True
    let ?c = "str ! (mc - 1)" and ?h = "take mc str" and ?g = "take (mc - 1) str"
    obtain i where i: "mc = Suc i" using 1(3) by (cases mc) auto
    then have h: "?g @ [?c] = ?h" and rest: "drop (mc - 1) str = ?c # drop mc str"
      using True by (simp_all add: take_Suc_conv_app_nth Cons_nth_drop_Suc)
    have IH: "refines same id (parse_loop env (Suc m) t)
        (feed_all env (drop m str') (absp t (take m str')))"
      if "parse_char env mc s = Running (m, t)" "holds (cl_my t) str'" "m \<le> length str'" "pending (take m str')"
        "0 < m \<Longrightarrow> cl_invalid t = 0"
      for m t str'
      using 1(1) [OF loop(2) True that(1) refl, of str'] that by (simp add: id_def)
    have len: "length ?h = mc" using True by simp
    note round = parse_char_act [OF 1(2,3) True, of env]
    show ?thesis
    proof (cases "act ?h")
      case Hold
      with round have pc: "parse_char env mc s = Running (mc, s\<lparr>cl_invalid := 0\<rparr>)" by simp
      have "pending ?h" using 1(5) Hold pending_snoc [of ?g ?c] unfolding h by simp
      with IH [OF pc] True 1(2)
      have "refines same id (parse_loop env (Suc mc) (s\<lparr>cl_invalid := 0\<rparr>))
          (feed_all env (drop mc str) (absp (s\<lparr>cl_invalid := 0\<rparr>) ?h))" by simp
      moreover have "feed env ?c (absp s ?g) = Running (absp (s\<lparr>cl_invalid := 0\<rparr>) ?h)"
        using Hold h by (simp add: feed_def absp_def)
      ultimately show ?thesis unfolding rest using True by (simp add: loop pc id_def)
    next
      case (Reply r k)
      let ?m = "emit env r (absp s [])"
      from Reply round have pc: "refines (after (drop k str)) snd (parse_char env mc s) ?m" by simp
      have fd: "feed env ?c (absp s ?g) = seq ?m (if k = mc then Running else feed_first env ?c)"
        using Reply h len by (simp add: feed_def absp_def)
      show ?thesis
      proof (cases ?m)
        case (Running b)
        then have "r \<noteq> RExit" using emit_RExit by metis
        moreover have "?h \<noteq> []" using len 1(3) by auto
        ultimately have k: "k = mc \<or> (1 < mc \<and> k = mc - 1)" using act_length [OF Reply] len by auto
        from pc Running obtain t where t: "parse_char env mc s = Running (0, t)" "holds (cl_my t) (drop k str)"
            "absp t [] = b"
          by (cases "parse_char env mc s") (auto simp: after_def)
        from IH [OF t(1,2)] have "refines same id (parse_loop env 1 t) (feed_all env (drop k str) b)"
          using t(3) by simp
        moreover have "feed_all env (drop (mc - 1) str) (absp s ?g) = feed_all env (drop k str) b"
          using k Running feed_empty [of env ?c t] rest [simplified] by (auto simp: fd [simplified] t(3))
        ultimately show ?thesis using True t(1) by (simp add: loop id_def)
      next
        case (Exited b)
        with pc show ?thesis unfolding rest using True
          by (cases "parse_char env mc s") (auto simp: loop fd [simplified])
      next
        case Undefined
        with pc show ?thesis unfolding rest using True
          by (cases "parse_char env mc s") (auto simp: loop fd [simplified])
      qed
    qed
  qed
qed

text \<open>One datagram of the stream: as long as the array is large enough.\<close>

lemma memcpy_to_zero: "length data \<le> RCVBUFSIZE \<Longrightarrow> memcpy_to zero_buf 0 data = Some (overlay zero_buf 0 data)"
  by (simp add: memcpy_to_def zero_buf_def)

lemma strcat_holds:
  assumes "holds my h" and "holds echo data"
  shows "c_strcat my echo =
    (if length h + length data < RCVBUFSIZE then Some (overlay my (length h) (data @ [0])) else None)"
proof -
  from assms(2) obtain rest where "echo = data @ 0 # rest" by (auto simp: holds_def)
  then have t: "take (Suc (length data)) echo = data @ [0]" by simp
  have "length my = RCVBUFSIZE" using assms(1) by (simp add: holds_def)
  then show ?thesis
    by (simp add: c_strcat_def holds_strlen [OF assms(1)] holds_strlen [OF assms(2)] memcpy_to_def t
        del: take_append length_take)
qed

lemma holds_append:
  assumes "holds my h" and "0 \<notin> set data" and "length h + length data < RCVBUFSIZE"
  shows "holds (overlay my (length h) (data @ [0])) (h @ data)"
proof -
  from assms(1) obtain rest where my: "my = h @ 0 # rest" and "0 \<notin> set h" and "length my = RCVBUFSIZE"
    by (auto simp: holds_def)
  with assms(2,3) show ?thesis
    by (auto simp: holds_def overlay_def)
qed

lemma feed_pending:
  "pending h \<Longrightarrow> feed_all env h (absp s []) =
    Running (absp (if h = [] then s else s\<lparr>cl_invalid := 0\<rparr>) h)"
proof (induction h rule: rev_induct)
  case Nil
  show ?case by simp
next
  case (snoc c h)
  then have "pending h" and "act (h @ [c]) = Hold" by (simp_all add: pending_snoc)
  with snoc.IH show ?case by (simp add: run_append feed_def absp_def)
qed

lemma c_string_append: "0 \<in> set xs \<Longrightarrow> c_string (xs @ ys) = c_string xs"
  by (auto simp: c_string_def)

lemma c_string_id: "0 \<notin> set xs \<Longrightarrow> c_string xs = xs"
  by (auto simp: c_string_def takeWhile_eq_all_conv)

lemma c_string_whole: "c_string xs = xs \<longleftrightarrow> 0 \<notin> set xs"
  using c_string_no0 [of xs] c_string_id [of xs] by metis

lemma length_c_string: "length (c_string xs) \<le> length xs"
  by (simp add: c_string_def length_takeWhile_le)

lemma holds_c_string: "0 \<in> set my \<Longrightarrow> length my = RCVBUFSIZE \<Longrightarrow> holds my (c_string my)"
  using take_nonzero [of my "length (c_string my)"] take_c_strlen [of my "length (c_string my)"]
  by (auto simp: holds_def c_strlen_eq c_string_no0 take_Suc_conv_app_nth)

text \<open>The receive buffer is a string unless all its 32 bytes are taken.\<close>

lemma holds_received:
  assumes "length data \<le> RCVBUFSIZE" and "length (c_string data) < RCVBUFSIZE"
  shows "holds (overlay zero_buf 0 data) (c_string data)"
proof -
  have buf: "overlay zero_buf 0 data = data @ replicate (RCVBUFSIZE - length data) 0"
    by (simp add: overlay_def zero_buf_def)
  show ?thesis
  proof (cases "0 \<in> set data")
    case True
    with holds_c_string [of "overlay zero_buf 0 data"] assms(1) show ?thesis
      by (simp add: buf c_string_append)
  next
    case False
    then have id: "c_string data = data" by (rule c_string_id)
    with holds_overlay [OF False] assms(2) show ?thesis by simp
  qed
qed

lemma not_received:
  assumes "length data \<le> RCVBUFSIZE" and "\<not> length (c_string data) < RCVBUFSIZE"
  shows "c_strcat my (overlay zero_buf 0 data) = None"
proof -
  from assms have "length data = RCVBUFSIZE" and "length (c_string data) = length data"
    using length_c_string [of data] by auto
  moreover from this(2) have "0 \<notin> set data"
    by (metis c_string_def c_string_whole length_append less_add_same_cancel1 length_greater_0_conv
        append_Nil2 nat_neq_iff takeWhile_dropWhile_id)
  ultimately show ?thesis
    by (cases "c_strlen my") (simp_all add: c_strcat_def overlay_def zero_buf_def c_strlen_def)
qed

lemma handle_recv_data:
  assumes "same s a" and data: "length data \<le> RCVBUFSIZE"
  shows "if length (p_held a) + length (c_string data) < RCVBUFSIZE
    then refines same id (handle_recv env (RecvData data) s) (feed_all env (c_string data) a)
    else handle_recv env (RecvData data) s = Undefined"
proof (cases "length (c_string data) < RCVBUFSIZE")
  case False
  with not_received [OF data] memcpy_to_zero [OF data] show ?thesis by simp
next
  case short: True
  from assms(1) have h: "holds (cl_my s) (p_held a)" "pending (p_held a)" "absp s (p_held a) = a"
      "p_held a \<noteq> [] \<Longrightarrow> p_invalid a = 0"
    by (simp_all add: same_def)
  let ?data = "c_string data"
  let ?my = "overlay (cl_my s) (length (p_held a)) (?data @ [0])" and ?str = "p_held a @ ?data"
  have cat: "c_strcat (cl_my s) (overlay zero_buf 0 data) =
      (if length (p_held a) + length ?data < RCVBUFSIZE then Some ?my else None)"
    using strcat_holds [OF h(1) holds_received [OF data short]] .
  show ?thesis
  proof (cases "length (p_held a) + length ?data < RCVBUFSIZE")
    case False
    with cat memcpy_to_zero data show ?thesis by simp
  next
    case True
    let ?s = "s\<lparr>cl_my := ?my\<rparr>"
    have my: "holds (cl_my ?s) ?str" using holds_append [OF h(1) c_string_no0 True] by simp
    then have "refines same id (parse_loop env 1 ?s) (feed_all env ?str (absp ?s []))"
      using parse_loop_feed [of ?s ?str 1 env] by simp
    moreover have "absp ?s [] = absp s []" by (simp add: absp_def)
    moreover have "feed_all env (p_held a) (absp s []) = Running a"
    proof -
      have "absp (if p_held a = [] then s else s\<lparr>cl_invalid := 0\<rparr>) (p_held a) = a"
        using h(3,4) by (cases a) (auto simp: absp_def)
      with feed_pending [OF h(2)] show ?thesis by simp
    qed
    ultimately have "refines same id (parse_loop env 1 ?s) (feed_all env ?data a)" by (simp add: run_append)
    with True cat memcpy_to_zero data show ?thesis by simp
  qed
qed

text \<open>A whole connection.\<close>

definition fresh :: parser where
  "fresh = \<lparr>p_held = [], p_invalid = 0, p_out = []\<rparr>"

lemma same_fresh: "same \<lparr>cl_my = zero_buf, cl_temp = t, cl_invalid = 0, cl_out = []\<rparr> fresh"
  using holds_overlay [of "[]"] by (simp add: same_def fresh_def absp_def RCVBUFSIZE_def)

lemma recv_feed:
  assumes "same s a" and "\<And>d. d \<in> set ds \<Longrightarrow> length d \<le> RCVBUFSIZE"
    and "run (handle_recv env) (map RecvData ds) s \<noteq> Undefined"
  shows "refines same id (run (handle_recv env) (map RecvData ds) s) (feed_all env (concat (map c_string ds)) a)"
  using assms
proof (induction ds arbitrary: s a)
  case Nil
  then show ?case by simp
next
  case (Cons d ds)
  let ?m = "handle_recv env (RecvData d) s" and ?m' = "feed_all env (c_string d) a"
  from Cons.prems(3) have "?m \<noteq> Undefined" by auto
  with handle_recv_data [OF Cons.prems(1), of d env] Cons.prems(2) have r: "refines same id ?m ?m'"
    by (auto split: if_splits)
  have all: "feed_all env (concat (map c_string (d # ds))) a = seq ?m' (feed_all env (concat (map c_string ds)))"
    by (simp add: run_append)
  from r Cons.prems Cons.IH show ?case
    unfolding all by (cases ?m; cases ?m') simp_all
qed

end
