(* ===== verification/MtServerProps.thy ===== *)
theory MtServerProps
  imports MtServerSpec
begin

text \<open>
  The properties of the TCP server: complete requests are answered in order, how the byte stream is
  cut into packets makes no difference, the parse loop ends, and what the parser does with
  requests that are too long, wrong, or only begin like \<open>exit\<close>; at the end the thread count.
\<close>

subsection \<open>The automaton along its input\<close>

text \<open>What every state of the automaton satisfies: the strikes are at most two while the connection
  is open, an answer has four bytes, and there is no more to answer than has been received.\<close>

definition parser_ok :: "parser \<Rightarrow> bool" where
  "parser_ok a \<longleftrightarrow> 0 \<le> p_invalid a \<and> p_invalid a \<le> 2 \<and> list_all (\<lambda>w. length w = 4) (p_out a)"

definition closing :: "parser \<Rightarrow> bool" where
  "closing a \<longleftrightarrow> 0 \<le> p_invalid a \<and> p_invalid a \<le> 3 \<and> list_all (\<lambda>w. length w = 4) (p_out a)"

lemma length_mem_of_u32 [simp]: "length (mem_of_u32 e w) = 4"
  by (cases e) simp_all

lemma parser_ok_closing: "parser_ok a \<Longrightarrow> closing a"
  by (simp add: parser_ok_def closing_def)

lemma parser_ok_held [simp]: "parser_ok (a\<lparr>p_held := h\<rparr>) = parser_ok a"
  by (simp add: parser_ok_def)

definition used :: "parser \<Rightarrow> nat" where
  "used a = length (p_out a) + length (p_held a)"

fun within :: "nat \<Rightarrow> parser outcome \<Rightarrow> bool" where
  "within n (Running b) = (parser_ok b \<and> used b \<le> n)"
| "within n (Exited b) = (closing b \<and> used b \<le> n)"
| "within n Undefined = False"

lemma within_seq:
  "within n m \<Longrightarrow> (\<And>b. parser_ok b \<Longrightarrow> used b \<le> n \<Longrightarrow> within k (f b)) \<Longrightarrow> n \<le> k \<Longrightarrow> within k (seq m f)"
  by (cases m) auto

lemma within_mono: "within n m \<Longrightarrow> n \<le> k \<Longrightarrow> within k m"
  by (cases m) auto

lemma emit_within: "parser_ok a \<Longrightarrow> within (Suc (length (p_out a))) (emit env r (a\<lparr>p_held := []\<rparr>))"
  by (auto simp: emit_def Let_def parser_ok_def closing_def used_def)

lemma feed_first_within: "parser_ok a \<Longrightarrow> within (Suc (length (p_out a))) (feed_first env c a)"
  by (auto simp: feed_first_def emit_within split: action.split) (simp_all add: parser_ok_def used_def)

lemma feed_within:
  assumes "parser_ok a"
  shows "within (Suc (used a)) (feed env c a)"
proof (cases "act (p_held a @ [c])")
  case Hold
  with assms show ?thesis by (simp add: feed_def parser_ok_def used_def)
next
  case (Reply r k)
  let ?m = "emit env r (a\<lparr>p_held := []\<rparr>)"
  have m: "within (Suc (length (p_out a))) ?m" using assms by (rule emit_within)
  show ?thesis
  proof (cases "r = RExit \<or> p_held a = []")
    case True
    have "feed env c a = ?m"
    proof (cases "r = RExit")
      case True
      then show ?thesis using Reply by (cases ?m) (auto simp: feed_def emit_RExit)
    next
      case False
      with act_length [OF Reply] True have "k = Suc (length (p_held a))" by auto
      then show ?thesis using Reply by (simp add: feed_def)
    qed
    with m show ?thesis by (simp add: within_mono [OF m] used_def)
  next
    case False
    then have held: "1 \<le> length (p_held a)" by (cases "p_held a") auto
    have "within (Suc (used a)) (seq ?m f)" if "\<And>b. parser_ok b \<Longrightarrow> within (Suc (used b)) (f b)" for f
      using held by (intro within_seq [OF m]) (auto intro!: within_mono [OF that] simp: used_def)
    moreover have "within (Suc (used b)) (feed_first env c b)" "within (Suc (used b)) (Running b)" if "parser_ok b" for b
      using that within_mono [OF feed_first_within [OF that]] by (auto simp: used_def)
    ultimately show ?thesis using Reply by (simp add: feed_def Let_def)
  qed
qed

lemma feed_all_within: "parser_ok a \<Longrightarrow> within (used a + length cs) (feed_all env cs a)"
proof (induction cs arbitrary: a)
  case Nil
  then show ?case by simp
next
  case (Cons c cs)
  have "within (used a + length (c # cs)) (seq (feed env c a) (feed_all env cs))"
    by (rule within_seq [OF feed_within [OF Cons.prems]]) (auto intro: within_mono [OF Cons.IH])
  then show ?case by simp
qed

lemma fresh_ok [simp]: "parser_ok fresh" "used fresh = 0" "p_held fresh = []" "p_out fresh = []"
  by (simp_all add: fresh_def parser_ok_def used_def)

subsection \<open>The server as the automaton\<close>

lemma server_feed:
  assumes "\<And>d. d \<in> set ds \<Longrightarrow> length d \<le> RCVBUFSIZE"
    and "HandleTCPClient env t (map RecvData ds) \<noteq> Undefined"
  shows "refines same id (HandleTCPClient env t (map RecvData ds)) (feed_all env (concat (map c_string ds)) fresh)"
  using assms recv_feed [OF same_fresh] by (simp add: HandleTCPClient_def)

text \<open>What the client sees: whether the connection is closed, and the answers.\<close>

fun seen :: "client outcome \<Rightarrow> (bool \<times> u8 list list) option" where
  "seen (Running s) = Some (False, cl_out s)"
| "seen (Exited s) = Some (True, cl_out s)"
| "seen Undefined = None"

fun promised :: "parser outcome \<Rightarrow> (bool \<times> u8 list list) option" where
  "promised (Running a) = Some (False, p_out a)"
| "promised (Exited a) = Some (True, p_out a)"
| "promised Undefined = None"

lemma same_out: "same s a \<Longrightarrow> cl_out s = p_out a"
  by (cases a) (auto simp: same_def absp_def)

lemma refines_seen: "refines same id m m' \<Longrightarrow> seen m = promised m'"
  by (cases m; cases m') (auto simp: same_out)

lemma short_input_defined:
  "same s a \<Longrightarrow> parser_ok a \<Longrightarrow> (\<And>d. d \<in> set ds \<Longrightarrow> length d \<le> RCVBUFSIZE) \<Longrightarrow>
    used a + length (concat (map c_string ds)) < RCVBUFSIZE \<Longrightarrow> run (handle_recv env) (map RecvData ds) s \<noteq> Undefined"
proof (induction ds arbitrary: s a)
  case Nil
  then show ?case by simp
next
  case (Cons d ds)
  have "length (p_held a) + length (c_string d) < RCVBUFSIZE" using Cons.prems(4) by (simp add: used_def)
  with handle_recv_data [OF Cons.prems(1), of d env] Cons.prems(3)
  have r: "refines same id (handle_recv env (RecvData d) s) (feed_all env (c_string d) a)"
    by (simp del: handle_recv.simps)
  note w = feed_all_within [OF Cons.prems(2), of "c_string d" env]
  show ?case
  proof (cases "feed_all env (c_string d) a")
    case (Running b)
    with r obtain t where t: "handle_recv env (RecvData d) s = Running t" "same t b"
      by (cases "handle_recv env (RecvData d) s") auto
    have "run (handle_recv env) (map RecvData ds) t \<noteq> Undefined"
      using w Running Cons.prems(3,4) by (intro Cons.IH [OF t(2)]) auto
    with t(1) show ?thesis by (simp del: handle_recv.simps)
  next
    case (Exited b)
    with r show ?thesis by (cases "handle_recv env (RecvData d) s") (auto simp del: handle_recv.simps)
  next
    case Undefined
    with w show ?thesis by simp
  qed
qed

lemma short_connection_defined:
  "(\<And>d. d \<in> set ds \<Longrightarrow> length d \<le> RCVBUFSIZE) \<Longrightarrow> length (concat (map c_string ds)) < RCVBUFSIZE \<Longrightarrow>
    HandleTCPClient env t (map RecvData ds) \<noteq> Undefined"
  unfolding HandleTCPClient_def using short_input_defined [OF same_fresh] by simp

text \<open>C11: as long as the arrays hold the input, the client sees what the automaton sends on the
  concatenated strings of the packets, at most one answer of four bytes per character.\<close>

theorem server_is_automaton:
  assumes "\<And>d. d \<in> set ds \<Longrightarrow> length d \<le> RCVBUFSIZE"
    and "HandleTCPClient env t (map RecvData ds) \<noteq> Undefined"
  shows "\<exists>closed answers. seen (HandleTCPClient env t (map RecvData ds)) = Some (closed, answers) \<and>
    promised (feed_all env (concat (map c_string ds)) fresh) = Some (closed, answers) \<and>
    list_all (\<lambda>w. length w = 4) answers \<and> length answers \<le> length (concat (map c_string ds))"
proof -
  let ?m = "feed_all env (concat (map c_string ds)) fresh"
  have "within (length (concat (map c_string ds))) ?m"
    using feed_all_within [of fresh "concat (map c_string ds)" env] by simp
  moreover from refines_seen [OF server_feed [OF assms]]
  have "seen (HandleTCPClient env t (map RecvData ds)) = promised ?m" by simp
  ultimately show ?thesis by (cases ?m) (auto simp: parser_ok_def closing_def used_def)
qed

text \<open>How the stream is cut into packets makes no difference to the client.\<close>

theorem packets_do_not_matter:
  assumes "concat (map c_string ds) = concat (map c_string es)"
    and "\<And>d. d \<in> set ds \<union> set es \<Longrightarrow> length d \<le> RCVBUFSIZE"
    and "HandleTCPClient env t (map RecvData ds) \<noteq> Undefined"
    and "HandleTCPClient env u (map RecvData es) \<noteq> Undefined"
  shows "seen (HandleTCPClient env t (map RecvData ds)) = seen (HandleTCPClient env u (map RecvData es))"
  using refines_seen [OF server_feed [where ds = ds and env = env and t = t]]
    refines_seen [OF server_feed [where ds = es and env = env and t = u]] assms by simp

definition demo_env :: srv_env where
  "demo_env = \<lparr>se_host = Little, se_uptime = (\<lambda>n. 258), se_threads = (\<lambda>n. 3), se_sent = (\<lambda>n. True)\<rparr>"

lemma demo_sent [simp]: "se_sent demo_env n"
  by (simp add: demo_env_def)

definition demo_packets :: "u8 list list" where
  "demo_packets = [[108, 111], [97, 100, 52, 0, 9], [50, 32, 101]]"

lemma demo_packets_ok: "\<And>d. d \<in> set demo_packets \<Longrightarrow> length d \<le> RCVBUFSIZE"
  "HandleTCPClient demo_env t (map RecvData demo_packets) \<noteq> Undefined"
proof -
  show le: "\<And>d. d \<in> set demo_packets \<Longrightarrow> length d \<le> RCVBUFSIZE"
    by (auto simp: demo_packets_def RCVBUFSIZE_def)
  show "HandleTCPClient demo_env t (map RecvData demo_packets) \<noteq> Undefined"
    by (rule short_connection_defined [OF le]) (simp_all add: demo_packets_def c_string_def RCVBUFSIZE_def)
qed

theorem server_is_automaton_witness:
  "seen (HandleTCPClient demo_env zero_buf (map RecvData demo_packets)) =
    Some (True, [[0, 0, 0, 3], [0, 0, 0, 6], [0, 0, 0, 0]])"
proof -
  have "promised (feed_all demo_env (concat (map c_string demo_packets)) fresh) =
      Some (True, [[0, 0, 0, 3], [0, 0, 0, 6], [0, 0, 0, 0]])"
    by code_simp
  with server_is_automaton [OF demo_packets_ok, of zero_buf] show ?thesis by auto
qed

theorem packets_do_not_matter_witness:
  "seen (HandleTCPClient demo_env zero_buf (map RecvData demo_packets)) =
    seen (HandleTCPClient demo_env zero_buf (map RecvData [concat (map c_string demo_packets)]))"
proof (rule packets_do_not_matter)
  show "concat (map c_string demo_packets) = concat (map c_string [concat (map c_string demo_packets)])"
    by code_simp
  have le: "\<And>d. d \<in> set [concat (map c_string demo_packets)] \<Longrightarrow> length d \<le> RCVBUFSIZE"
    by (simp add: demo_packets_def c_string_def RCVBUFSIZE_def)
  with demo_packets_ok(1)
  show "\<And>d. d \<in> set demo_packets \<union> set [concat (map c_string demo_packets)] \<Longrightarrow> length d \<le> RCVBUFSIZE" by blast
  show "HandleTCPClient demo_env zero_buf (map RecvData [concat (map c_string demo_packets)]) \<noteq> Undefined"
    by (rule short_connection_defined [OF le]) (simp_all add: demo_packets_def c_string_def RCVBUFSIZE_def)
qed (rule demo_packets_ok)

subsection \<open>Complete requests\<close>

datatype request = Uptime | Load | Digits "u8 list"

fun request_text :: "request \<Rightarrow> u8 list" where
  "request_text Uptime = str_uptime"
| "request_text Load = str_load"
| "request_text (Digits ds) = ds @ [space]"

fun valid_request :: "request \<Rightarrow> bool" where
  "valid_request (Digits ds) = (ds \<noteq> [] \<and> list_all isdigit ds \<and> length ds \<le> 30)"
| "valid_request r = True"

fun request_answer :: "srv_env \<Rightarrow> nat \<Rightarrow> request \<Rightarrow> u32" where
  "request_answer env n Uptime = se_uptime env n"
| "request_answer env n Load = se_threads env n"
| "request_answer env n (Digits ds) = of_nat (sum_list (map (\<lambda>b. unat b - 48) ds))"

lemma digit_facts: "\<not> isdigit 0" "\<not> isdigit 117" "\<not> isdigit 108" "\<not> isdigit 101" "\<not> isdigit space" "\<not> isdigit 120"
  by (simp_all add: isdigit_def space_def)

lemma not_prefix: "isdigit b \<or> b = space \<Longrightarrow>
    \<not> is_prefix (b # h) str_uptime \<and> \<not> is_prefix (b # h) str_load \<and> \<not> is_prefix (b # h) str_exit"
  using digit_facts by (auto simp: is_prefix_def str_uptime_def str_load_def str_exit_def space_def)

lemma act_digits:
  assumes "list_all isdigit ds" and "ds \<noteq> []"
  shows "act ds = Hold" and "act (ds @ [space]) = Reply (RSum (sum_digits ds)) (Suc (length ds))"
proof -
  obtain b bs where ds: "ds = b # bs" and b: "isdigit b" using assms by (cases ds) auto
  have last: "isdigit (last ds)" "last ds \<noteq> space"
    using assms digit_facts by (metis last_in_set list_all_iff)+
  have "isdigit (last (butlast ds))" if "butlast ds \<noteq> []"
    using that assms(1) by (metis in_set_butlastD last_in_set list_all_iff)
  then show "act ds = Hold" using last not_prefix [of b bs] b
    by (auto simp: act_def ds)
  show "act (ds @ [space]) = Reply (RSum (sum_digits ds)) (Suc (length ds))"
    using last not_prefix [of b "bs @ [space]"] b digit_facts by (auto simp: act_def ds butlast_append)
qed

lemma pending_digits: "list_all isdigit ds \<Longrightarrow> pending ds"
  unfolding pending_def by (intro allI impI act_digits(1)) (auto simp: list_all_iff dest!: in_set_takeD)

lemma sum_digits_value: "list_all isdigit ds \<Longrightarrow> sum_digits ds = of_nat (sum_list (map (\<lambda>b. unat b - 48) ds))"
proof (induction ds)
  case Nil
  show ?case by simp
next
  case (Cons b bs)
  then have "48 \<le> unat b" by (simp add: isdigit_def word_le_nat_alt)
  then have "ucast b - 48 = (of_nat (unat b - 48) :: u32)" by (simp add: of_nat_diff)
  with Cons show ?case by simp
qed


lemma feed_held: "p_held a = h \<Longrightarrow> act (h @ [c]) = Hold \<Longrightarrow> feed env c a = Running (a\<lparr>p_held := h @ [c], p_invalid := 0\<rparr>)"
  by (simp add: feed_def)

lemma feed_reply:
  "p_held a = h \<Longrightarrow> act (h @ [c]) = Reply r (Suc (length h)) \<Longrightarrow> feed env c a = emit env r (a\<lparr>p_held := []\<rparr>)"
  by (simp add: feed_def)

lemma feed_prefix:
  assumes "p_held a = []" and "pending h" and "h \<noteq> []"
  shows "feed_all env h a = Running (a\<lparr>p_held := h, p_invalid := 0\<rparr>)"
  using assms(2,3)
proof (induction h rule: rev_induct)
  case Nil
  then show ?case by simp
next
  case (snoc c h)
  then have p: "pending h" "act (h @ [c]) = Hold" by (simp_all add: pending_snoc)
  show ?case
  proof (cases "h = []")
    case True
    with p assms(1) show ?thesis by (simp add: feed_def)
  next
    case False
    with snoc.IH p show ?thesis by (simp add: run_append feed_def)
  qed
qed

lemma run_Nil_fun: "run step [] = Running"
  by (rule ext) simp

text \<open>A complete request, arriving while nothing is held, is answered and leaves nothing behind.\<close>

lemma feed_last:
  assumes "p_held a = []" and "pending h" and "h \<noteq> []" and "act (h @ [c]) = Reply r (Suc (length h))"
  shows "feed_all env (h @ [c]) a = emit env r (a\<lparr>p_invalid := 0, p_held := []\<rparr>)"
  using feed_prefix [OF assms(1-3), of env] assms(4) by (simp add: run_append feed_def run_Nil_fun)

lemma pending_words: "pending [117, 112, 116, 105, 109]" "pending [108, 111, 97]"
  by (simp_all add: pending_def act_def is_prefix_def str_uptime_def str_load_def numeral_eq_Suc less_Suc_eq)

lemma act_words:
  "act [117, 112, 116, 105, 109, 101] = Reply RUptime 6" "act [108, 111, 97, 100] = Reply RLoad 4"
  by (simp_all add: act_def is_prefix_def str_uptime_def str_load_def)

lemma feed_request:
  assumes "valid_request r" and "p_held a = []" and "se_sent env (length (p_out a))"
  shows "feed_all env (request_text r) a =
    Running (a\<lparr>p_invalid := 0, p_out := p_out a @ [be_bytes (request_answer env (length (p_out a)) r)]\<rparr>)"
proof (cases r)
  case Uptime
  have "feed_all env ([117, 112, 116, 105, 109] @ [101]) a = emit env RUptime (a\<lparr>p_invalid := 0, p_held := []\<rparr>)"
    by (rule feed_last) (simp_all add: assms pending_words act_words)
  with Uptime assms show ?thesis by (simp add: str_uptime_def emit_def reply_word_def Let_def)
next
  case Load
  have "feed_all env ([108, 111, 97] @ [100]) a = emit env RLoad (a\<lparr>p_invalid := 0, p_held := []\<rparr>)"
    by (rule feed_last) (simp_all add: assms pending_words act_words)
  with Load assms show ?thesis by (simp add: str_load_def emit_def reply_word_def Let_def)
next
  case (Digits ds)
  with assms(1) have ds: "list_all isdigit ds" "ds \<noteq> []" by simp_all
  have "feed_all env (ds @ [space]) a = emit env (RSum (sum_digits ds)) (a\<lparr>p_invalid := 0, p_held := []\<rparr>)"
    by (rule feed_last) (simp_all add: assms ds pending_digits act_digits)
  with Digits assms ds show ?thesis by (simp add: emit_def reply_word_def Let_def sum_digits_value)
qed

lemma request_text_short:
  assumes "valid_request r"
  shows "0 \<notin> set (request_text r)" and "length (request_text r) < RCVBUFSIZE"
proof -
  have "0 \<notin> set ds" if "list_all isdigit ds" for ds
    using that digit_facts(1) by (auto simp: list_all_iff)
  with assms show "0 \<notin> set (request_text r)"
    by (cases r) (auto simp: literals_no0 space_def)
  from assms show "length (request_text r) < RCVBUFSIZE"
    by (cases r) (simp_all add: length_literals RCVBUFSIZE_def)
qed


fun answers :: "srv_env \<Rightarrow> nat \<Rightarrow> request list \<Rightarrow> u8 list list" where
  "answers env n [] = []"
| "answers env n (r # rs) = be_bytes (request_answer env n r) # answers env (Suc n) rs"

lemma length_answers [simp]: "length (answers env n rs) = length rs"
  by (induction rs arbitrary: n) simp_all

definition answering :: "srv_env \<Rightarrow> request list \<Rightarrow> parser \<Rightarrow> parser" where
  "answering env rs a = (if rs = [] then a
     else a\<lparr>p_invalid := 0, p_out := p_out a @ answers env (length (p_out a)) rs\<rparr>)"

lemma answering_simps [simp]:
  "p_held (answering env rs a) = p_held a" "p_out (answering env rs a) = p_out a @ answers env (length (p_out a)) rs"
  "answering env [] a = a"
  by (simp_all add: answering_def)

lemma answering_Cons: "answering env (r # rs) a = answering env rs (answering env [r] a)"
  by (simp add: answering_def)

lemma feed_request_eq:
  "valid_request r \<Longrightarrow> p_held a = [] \<Longrightarrow> se_sent env (length (p_out a)) \<Longrightarrow>
    feed_all env (request_text r) a = Running (answering env [r] a)"
  by (simp add: feed_request answering_def)

lemma feed_requests:
  "list_all valid_request rs \<Longrightarrow> p_held a = [] \<Longrightarrow> (\<And>n. n < length (p_out a) + length rs \<Longrightarrow> se_sent env n) \<Longrightarrow>
    feed_all env (concat (map request_text rs)) a = Running (answering env rs a)"
proof (induction rs arbitrary: a)
  case Nil
  then show ?case by simp
next
  case (Cons r rs)
  then have "feed_all env (request_text r) a = Running (answering env [r] a)" by (intro feed_request_eq) auto
  moreover have "feed_all env (concat (map request_text rs)) (answering env [r] a) =
      Running (answering env rs (answering env [r] a))"
    using Cons.prems by (intro Cons.IH) auto
  ultimately show ?case by (simp add: run_append answering_Cons [of env r rs])
qed

lemma recv_requests:
  "same s a \<Longrightarrow> p_held a = [] \<Longrightarrow> list_all valid_request rs \<Longrightarrow>
    (\<And>n. n < length (p_out a) + length rs \<Longrightarrow> se_sent env n) \<Longrightarrow>
    \<exists>s'. run (handle_recv env) (map (\<lambda>r. RecvData (request_text r)) rs) s = Running s' \<and> same s' (answering env rs a)"
proof (induction rs arbitrary: s a)
  case Nil
  then show ?case by simp
next
  case (Cons r rs)
  then have r: "valid_request r" "se_sent env (length (p_out a))" by simp_all
  have "refines same id (handle_recv env (RecvData (request_text r)) s) (Running (answering env [r] a))"
    using handle_recv_data [OF Cons.prems(1), of "request_text r" env] request_text_short [OF r(1)]
      feed_request_eq [OF r(1) Cons.prems(2) r(2)] Cons.prems(2)
    by (simp add: c_string_id)
  then obtain t where t: "handle_recv env (RecvData (request_text r)) s = Running t" "same t (answering env [r] a)"
    by (cases "handle_recv env (RecvData (request_text r)) s") auto
  from Cons.IH [OF t(2)] Cons.prems show ?case
    by (auto simp: t(1) answering_Cons [of env r rs] simp del: handle_recv.simps)
qed

text \<open>C19: a client whose requests are complete and arrive one per packet gets the answers, in network
  byte order and in order; the connection stays open.  The same holds for the same characters in any
  other packets that the arrays can hold.\<close>

theorem requests_answered:
  assumes "list_all valid_request rs" and "\<And>n. n < length rs \<Longrightarrow> se_sent env n"
    and "concat (map c_string ds) = concat (map request_text rs)"
    and "\<And>d. d \<in> set ds \<Longrightarrow> length d \<le> RCVBUFSIZE"
  shows "seen (HandleTCPClient env t (map (\<lambda>r. RecvData (request_text r)) rs)) = Some (False, answers env 0 rs) \<and>
    seen (HandleTCPClient env t (map RecvData ds)) \<in> {None, Some (False, answers env 0 rs)}"
proof
  show "seen (HandleTCPClient env t (map (\<lambda>r. RecvData (request_text r)) rs)) = Some (False, answers env 0 rs)"
    using recv_requests [OF same_fresh [of t], of rs env] assms(1,2)
    by (auto simp: HandleTCPClient_def same_out)
  have "seen (HandleTCPClient env t (map RecvData ds)) = Some (False, answers env 0 rs)"
    if "HandleTCPClient env t (map RecvData ds) \<noteq> Undefined"
    using refines_seen [OF server_feed [OF assms(4) that]] feed_requests [of rs fresh env] assms(1-3) by simp
  then show "seen (HandleTCPClient env t (map RecvData ds)) \<in> {None, Some (False, answers env 0 rs)}"
    by fastforce
qed


theorem requests_answered_witness:
  "seen (HandleTCPClient demo_env zero_buf (map (\<lambda>r. RecvData (request_text r)) [Uptime, Digits [49, 50]])) =
    Some (False, [[0, 0, 1, 2], [0, 0, 0, 3]])"
proof -
  have "list_all valid_request [Uptime, Digits [49, 50]]" by (simp add: isdigit_def)
  moreover have "\<And>n. se_sent demo_env n" by (simp add: demo_env_def)
  moreover have "concat (map c_string [[117, 112, 116], [105, 109, 101, 49, 50, 32]]) =
      concat (map request_text [Uptime, Digits [49, 50]])"
    by (simp add: c_string_def str_uptime_def space_def)
  ultimately have "seen (HandleTCPClient demo_env zero_buf (map (\<lambda>r. RecvData (request_text r)) [Uptime, Digits [49, 50]])) =
      Some (False, answers demo_env 0 [Uptime, Digits [49, 50]])"
    by (rule requests_answered [THEN conjunct1]) (auto simp: RCVBUFSIZE_def)
  also have "answers demo_env 0 [Uptime, Digits [49, 50]] = [[0, 0, 1, 2], [0, 0, 0, 3]]"
    by (simp add: demo_env_def) (simp add: be_bytes_def)
  finally show ?thesis .
qed

subsection \<open>Requests that are too long, wrong, or exit\<close>

lemma recv_first:
  assumes "length d \<le> RCVBUFSIZE" and "length (c_string d) < RCVBUFSIZE"
  obtains s where "refines same id s (feed_all env (c_string d) fresh)"
    and "\<And>es. HandleTCPClient env t (RecvData d # es) = seq s (run (handle_recv env) es)"
  using handle_recv_data [OF same_fresh assms(1), where env = env and t1 = t] assms(2)
  by (auto simp: HandleTCPClient_def simp del: handle_recv.simps)

lemma recv_first_Running:
  assumes "feed_all env (c_string d) fresh = Running a" and "length d \<le> RCVBUFSIZE" and "length (c_string d) < RCVBUFSIZE"
  obtains s where "same s a" and "\<And>es. HandleTCPClient env t (RecvData d # es) = run (handle_recv env) es s"
proof -
  obtain m where "refines same id m (Running a)" and
      "\<And>es. HandleTCPClient env t (RecvData d # es) = seq m (run (handle_recv env) es)"
    using recv_first [OF assms(2,3), where env = env and t = t] assms(1) by metis
  with that show ?thesis by (cases m) auto
qed

lemma recv_first_Exited:
  assumes "feed_all env (c_string d) fresh = Exited a" and "length d \<le> RCVBUFSIZE" and "length (c_string d) < RCVBUFSIZE"
  shows "seen (HandleTCPClient env t (RecvData d # es)) = Some (True, p_out a)"
proof -
  obtain m where "refines same id m (Exited a)" and
      "\<And>es. HandleTCPClient env t (RecvData d # es) = seq m (run (handle_recv env) es)"
    using recv_first [OF assms(2,3), where env = env and t = t] assms(1) by metis
  then show ?thesis by (cases m) auto
qed

text \<open>A number that does not fit the 32 characters overflows them: the request is copied behind the
  array by \<open>strcat\<close>.  A packet of 32 characters is a string without a terminator.\<close>

theorem long_number_overflows:
  assumes "list_all isdigit d" and "length d < RCVBUFSIZE" and "list_all isdigit e" and "length e \<le> RCVBUFSIZE"
    and "RCVBUFSIZE \<le> length d + length e"
  shows "HandleTCPClient env t (RecvData d # RecvData e # es) = Undefined"
proof -
  have str: "c_string d = d" "c_string e = e"
    using assms(1,3) digit_facts(1) by (auto simp: c_string_whole list_all_iff)
  obtain a where a: "feed_all env (c_string d) fresh = Running a" "p_held a = d"
  proof (cases "d = []")
    case True
    with that [of fresh] str show ?thesis by simp
  next
    case False
    then show ?thesis using that str feed_prefix [of fresh d env] pending_digits [OF assms(1)] by simp
  qed
  have short: "length d \<le> RCVBUFSIZE" "length (c_string d) < RCVBUFSIZE" using str assms(2) by simp_all
  obtain s where "same s a" and "\<And>es. HandleTCPClient env t (RecvData d # es) = run (handle_recv env) es s"
    using recv_first_Running [OF a(1) short, where t = t] by metis
  with handle_recv_data [of s a e env] str a(2) assms(4,5) show ?thesis
    by (simp del: handle_recv.simps)
qed

theorem long_number_overflows_witness:
  "HandleTCPClient demo_env zero_buf [RecvData (replicate 30 49), RecvData [49, 50], RecvEnd] = Undefined"
  by (rule long_number_overflows) (simp_all add: RCVBUFSIZE_def isdigit_def)

text \<open>\<open>exit\<close> is recognised by its first letter: after complete requests any packet that begins with
  \<open>e\<close> is answered with 0 and closes the connection.\<close>

theorem first_letter_exits:
  assumes "list_all valid_request rs" and "\<And>n. n \<le> length rs \<Longrightarrow> se_sent env n"
    and "length rest < RCVBUFSIZE" and "0 \<in> set rest \<or> length rest < RCVBUFSIZE - 1"
  shows "seen (HandleTCPClient env t (map (\<lambda>r. RecvData (request_text r)) rs @ [RecvData (101 # rest)] @ es)) =
    Some (True, answers env 0 rs @ [[0, 0, 0, 0]])"
proof -
  obtain s where s: "HandleTCPClient env t (map (\<lambda>r. RecvData (request_text r)) rs) = Running s" "same s (answering env rs fresh)"
    using recv_requests [OF same_fresh [of t], of rs env] assms(1,2) by (auto simp: HandleTCPClient_def)
  let ?a = "answering env rs fresh" and ?d = "101 # rest"
  obtain b where b: "feed env 101 ?a = Exited b" "p_out b = answers env 0 rs @ [[0, 0, 0, 0]]"
    using assms(2) [of "length rs"]
    by (simp add: feed_def act_def is_prefix_def str_uptime_def str_load_def str_exit_def emit_def
        reply_word_def be_bytes_def)
  have "length (c_string rest) < length rest" if "0 \<in> set rest"
    using that c_strlen_less [of rest] by (simp add: c_strlen_eq)
  then have short: "length (c_string ?d) < RCVBUFSIZE"
    using assms(3,4) length_c_string [of rest] by (auto simp: c_string_def)
  have "feed_all env (c_string ?d) ?a = Exited b" using b(1) by (simp add: c_string_def)
  with short have "seen (handle_recv env (RecvData ?d) s) = Some (True, answers env 0 rs @ [[0, 0, 0, 0]])"
    using handle_recv_data [OF s(2), of ?d env] assms(3) b(2)
    by (cases "handle_recv env (RecvData ?d) s") (auto simp del: handle_recv.simps)
  then show ?thesis using s(1)
    by (cases "handle_recv env (RecvData ?d) s") (simp_all add: HandleTCPClient_def run_append del: handle_recv.simps)
qed


theorem first_letter_exits_witness:
  "seen (HandleTCPClient demo_env zero_buf
      (map (\<lambda>r. RecvData (request_text r)) [Load] @ [RecvData (101 # [114, 114])] @ [])) =
    Some (True, [[0, 0, 0, 3], [0, 0, 0, 0]])"
proof -
  have "answers demo_env 0 [Load] = [[0, 0, 0, 3]]" by code_simp
  then show ?thesis using first_letter_exits [of "[Load]" demo_env "[114, 114]" zero_buf "[]"]
    by (simp add: RCVBUFSIZE_def)
qed

text \<open>A letter that begins no word, a space in front of a number included.\<close>

definition alien :: "u8 \<Rightarrow> bool" where
  "alien c \<longleftrightarrow> c \<notin> {117, 108, 101} \<and> \<not> isdigit c"

lemma act_alien: "alien c \<Longrightarrow> act [c] = Reply RInvalid 1"
  by (auto simp: alien_def act_def is_prefix_def str_uptime_def str_load_def str_exit_def)

definition wrong :: "u8 list" where "wrong = [255, 255, 255, 255]"

lemma wrong_answer: "mem_of_u32 e (- 1) = wrong"
proof -
  have "be_bytes (- 1) = wrong" by code_simp
  then show ?thesis by (cases e) (simp_all add: wrong_def)
qed

lemma feed_alien:
  assumes "alien c" and "p_held a = []" and "se_sent env (length (p_out a))"
  shows "feed env c a =
    (let b = a\<lparr>p_out := p_out a @ [wrong], p_invalid := p_invalid a + 1\<rparr>
     in if p_invalid a + 1 > 2 then Exited b else Running b)"
  using assms by (cases a) (simp add: feed_def act_alien emit_def reply_word_def wrong_answer Let_def)

text \<open>Three wrong letters in a row close the connection.\<close>

theorem three_wrong_letters:
  assumes "alien a" and "alien b" and "alien c" and "0 \<notin> {a, b, c}"
    and "length rest < 29" and "\<And>n. n < 3 \<Longrightarrow> se_sent env n"
  shows "seen (HandleTCPClient env t (RecvData ([a, b, c] @ rest) # es)) = Some (True, [wrong, wrong, wrong])"
proof -
  obtain x where "feed_all env (c_string ([a, b, c] @ rest)) fresh = Exited x" "p_out x = [wrong, wrong, wrong]"
    using assms by (auto simp: c_string_def feed_alien fresh_def)
  moreover have "length (c_string ([a, b, c] @ rest)) < RCVBUFSIZE"
    using length_c_string [of "[a, b, c] @ rest"] assms(5) by (simp add: RCVBUFSIZE_def)
  ultimately show ?thesis
    using recv_first_Exited [of env "[a, b, c] @ rest" x t es] assms(5) by (simp add: RCVBUFSIZE_def)
qed

theorem three_wrong_letters_witness:
  "seen (HandleTCPClient demo_env zero_buf (RecvData ([120, 121, 122] @ []) # [RecvEnd])) =
    Some (True, [wrong, wrong, wrong])"
  by (rule three_wrong_letters) (simp_all add: alien_def isdigit_def)

text \<open>A letter that begins a word resets the count before the word is refused: a client that sends
  nothing but \<open>ux\<close> gets two refusals for each and is never disconnected.\<close>

lemma feed_ux:
  assumes "p_held a = []" and "se_sent env (length (p_out a))" and "se_sent env (Suc (length (p_out a)))"
  shows "feed_all env [117, 120] a = Running (a\<lparr>p_out := p_out a @ [wrong, wrong], p_invalid := 2\<rparr>)"
proof -
  have u: "act [117] = Hold" and x: "act [120] = Reply RInvalid 1" and ux: "act [117, 120] = Reply RInvalid 1"
    by (simp_all add: act_def is_prefix_def str_uptime_def str_load_def str_exit_def isdigit_def space_def)
  show ?thesis using assms
    by (cases a) (simp add: feed_def feed_first_def u x ux emit_def reply_word_def wrong_answer Let_def)
qed

theorem half_words_never_close:
  assumes "\<And>n. n < 2 * k \<Longrightarrow> se_sent env n"
  shows "seen (HandleTCPClient env t (replicate k (RecvData [117, 120]))) = Some (False, replicate (2 * k) wrong)"
proof -
  have "\<exists>s'. run (handle_recv env) (replicate k (RecvData [117, 120])) s = Running s' \<and> cl_out s' = p_out a @ replicate (2 * k) wrong"
    if "same s a" "p_held a = []" "\<And>n. n < length (p_out a) + 2 * k \<Longrightarrow> se_sent env n" for s a
    using that
  proof (induction k arbitrary: s a)
    case 0
    then show ?case by (simp add: same_out)
  next
    case (Suc k)
    let ?b = "a\<lparr>p_out := p_out a @ [wrong, wrong], p_invalid := 2\<rparr>"
    have "feed_all env [117, 120] a = Running ?b" using Suc.prems by (intro feed_ux) auto
    then have "refines same id (handle_recv env (RecvData [117, 120]) s) (Running ?b)"
      using handle_recv_data [OF Suc.prems(1), of "[117, 120]" env] Suc.prems(2)
      by (simp add: c_string_def RCVBUFSIZE_def del: handle_recv.simps run.simps)
    then obtain t where "handle_recv env (RecvData [117, 120]) s = Running t" "same t ?b"
      by (cases "handle_recv env (RecvData [117, 120]) s") auto
    with Suc.IH [OF this(2)] Suc.prems show ?case by (simp del: handle_recv.simps)
  qed
  from this [OF same_fresh [of t]] assms show ?thesis by (auto simp: HandleTCPClient_def)
qed


theorem half_words_never_close_witness:
  "seen (HandleTCPClient demo_env zero_buf (replicate 100 (RecvData [117, 120]))) =
    Some (False, replicate (2 * 100) wrong)"
  by (rule half_words_never_close) simp

subsection \<open>The parse loop ends\<close>

text \<open>The loop run for at most \<open>n\<close> rounds.\<close>

fun parse_rounds :: "nat \<Rightarrow> srv_env \<Rightarrow> nat \<Rightarrow> client \<Rightarrow> client outcome option" where
  "parse_rounds 0 env my_char s = None"
| "parse_rounds (Suc n) env my_char s =
     (case c_strlen (cl_my s) of
        None \<Rightarrow> Some Undefined
      | Some len \<Rightarrow>
          if my_char \<le> len
          then (case parse_char env my_char s of
                  Running (my_char, s) \<Rightarrow> parse_rounds n env (Suc my_char) s
                | Exited (my_char, s) \<Rightarrow> Some (Exited s)
                | Undefined \<Rightarrow> Some Undefined)
          else Some (Running s))"

lemma parse_char_advances:
  assumes "parse_char env mc s = Running (m, t)" and "c_strlen (cl_my s) = Some n" and "0 < mc" and "mc \<le> n"
  shows "(m = mc \<and> cl_my t = cl_my s) \<or>
    (m = 0 \<and> (c_strlen (cl_my t) = Some (n - mc) \<or> (1 < mc \<and> c_strlen (cl_my t) = Some (n - (mc - 1)))))"
proof -
  note shr = answer_request_shrinks [OF _ assms(2)] reject_shrinks [OF _ assms(2)]
  from assms(1,3,4) show ?thesis
    by (auto simp: parse_char_def Let_def and_then_Running dest!: shr split: if_splits)
qed

lemma parse_rounds_enough:
  "c_strlen (cl_my s) = Some len \<Longrightarrow> 0 < mc \<Longrightarrow>
    2 * (Suc len - mc) + (if 1 < mc then 1 else 0) < n \<Longrightarrow> parse_rounds n env mc s = Some (parse_loop env mc s)"
proof (induction n arbitrary: mc s len)
  case 0
  then show ?case by simp
next
  case (Suc n)
  note loop = parse_loop.simps [of env mc s]
  show ?case
  proof (cases "mc \<le> len")
    case False
    with Suc.prems(1) show ?thesis by (simp add: loop)
  next
    case True
    show ?thesis
    proof (cases "parse_char env mc s")
      case (Running p)
      obtain m t where p: "p = (m, t)" by (cases p)
      have IH: "parse_rounds n env (Suc m) t = Some (parse_loop env (Suc m) t)"
        using parse_char_advances [OF Running [unfolded p] Suc.prems(1,2) True]
      proof (elim disjE conjE)
        assume "m = mc" and "cl_my t = cl_my s"
        with Suc.prems True show ?thesis by (intro Suc.IH [of _ len]) auto
      next
        assume "m = 0" and "c_strlen (cl_my t) = Some (len - mc)"
        with Suc.prems True show ?thesis by (intro Suc.IH [of _ "len - mc"]) (auto split: if_splits)
      next
        assume "m = 0" and "1 < mc" and "c_strlen (cl_my t) = Some (len - (mc - 1))"
        with Suc.prems True show ?thesis by (intro Suc.IH [of _ "len - (mc - 1)"]) auto
      qed
      with Running True Suc.prems(1) show ?thesis by (simp add: loop p)
    next
      case (Exited p)
      with True Suc.prems(1) show ?thesis by (cases p) (simp add: loop)
    next
      case Undefined
      with True Suc.prems(1) show ?thesis by (simp add: loop)
    qed
  qed
qed

text \<open>C33: the parse loop ends: on a string of \<open>len\<close> characters it takes at most two rounds for each.\<close>

theorem parse_loop_ends:
  assumes "c_strlen (cl_my s) = Some len"
  shows "parse_rounds (2 * len + 1) env 1 s = Some (parse_loop env 1 s)"
  using assms by (intro parse_rounds_enough) auto


theorem parse_loop_ends_witness:
  "parse_rounds (2 * 2 + 1) demo_env 1 \<lparr>cl_my = [49, 32, 0], cl_temp = zero_buf, cl_invalid = 0, cl_out = []\<rparr> =
    Some (parse_loop demo_env 1 \<lparr>cl_my = [49, 32, 0], cl_temp = zero_buf, cl_invalid = 0, cl_out = []\<rparr>)"
  by (rule parse_loop_ends) (simp add: c_strlen_def)

subsection \<open>The arrays of a connection\<close>

definition client_typed :: "client \<Rightarrow> bool" where
  "client_typed s \<longleftrightarrow> length (cl_my s) = RCVBUFSIZE \<and> 0 \<le> cl_invalid s \<and> cl_invalid s \<le> 3 \<and>
     list_all (\<lambda>w. length w = 4) (cl_out s)"

definition client_open :: "client \<Rightarrow> bool" where
  "client_open s \<longleftrightarrow> client_typed s \<and> cl_invalid s \<le> 2"

lemma memcpy_to_length: "memcpy_to buf pos bs = Some r \<Longrightarrow> length r = length buf"
  by (auto simp: memcpy_to_def split: if_splits)

lemma length_zero_buf [simp]: "length zero_buf = RCVBUFSIZE"
  by (simp add: zero_buf_def)

lemma manageBuffer_typed:
  "manageBuffer k s = Some t \<Longrightarrow> client_typed s \<Longrightarrow> client_typed t \<and> cl_invalid t = cl_invalid s"
  by (auto simp: manageBuffer_def client_typed_def bind_eq_Some_conv dest: memcpy_to_length)

fun typed_outcome :: "client outcome \<Rightarrow> bool" where
  "typed_outcome (Running s) = client_open s"
| "typed_outcome (Exited s) = client_typed s"
| "typed_outcome Undefined = True"

lemma typed_seq: "typed_outcome m \<Longrightarrow> (\<And>s. client_open s \<Longrightarrow> typed_outcome (f s)) \<Longrightarrow> typed_outcome (seq m f)"
  by (cases m) auto

lemma send_typed: "client_open s \<Longrightarrow> typed_outcome (send_u32 env w s)"
  by (auto simp: send_u32_def client_open_def client_typed_def)

lemma buffer_typed: "client_open s \<Longrightarrow> typed_outcome (of_option (manageBuffer k s))"
  using manageBuffer_typed [of k s] by (auto simp: of_option_def client_open_def split: option.split)

lemma answer_typed: "client_open s \<Longrightarrow> typed_outcome (answer_request env w k s)"
  unfolding answer_request_def
  by (intro typed_seq send_typed buffer_typed) (auto simp: client_open_def client_typed_def)

lemma reject_typed: "client_open s \<Longrightarrow> typed_outcome (reject env k s)"
  unfolding reject_def
  by (intro typed_seq send_typed buffer_typed) (auto simp: client_open_def client_typed_def Let_def)

lemma again_typed: "typed_outcome m \<Longrightarrow>
    (case again m of Running p \<Rightarrow> client_open (snd p) | Exited p \<Rightarrow> client_typed (snd p) | Undefined \<Rightarrow> True)"
  by (cases m) simp_all

lemma parse_char_typed:
  assumes "client_open s"
  shows "case parse_char env mc s of Running p \<Rightarrow> client_open (snd p) | Exited p \<Rightarrow> client_typed (snd p) | Undefined \<Rightarrow> True"
proof -
  have exit: "case and_then (send_u32 env w s) (\<lambda>s. Exited (mc, s\<lparr>cl_temp := zero_buf, cl_my := zero_buf, cl_invalid := 0\<rparr>))
      (\<lambda>s. (mc, s)) of Running p \<Rightarrow> client_open (snd p) | Exited p \<Rightarrow> client_typed (snd p) | Undefined \<Rightarrow> True" for w
    using assms by (auto simp: send_u32_def client_open_def client_typed_def)
  have keep: "client_open (s\<lparr>cl_invalid := 0\<rparr>)"
    using assms by (simp add: client_open_def client_typed_def)
  note again = again_typed [OF answer_typed [OF assms]] again_typed [OF reject_typed [OF assms]]
  show ?thesis
    unfolding parse_char_def Let_def using again exit keep by (simp only: outcome.case snd_conv split: if_split) simp
qed


lemma parse_loop_typed: "client_open s \<Longrightarrow> typed_outcome (parse_loop env mc s)"
proof (induction env mc s rule: parse_loop.induct)
  case (1 env mc s)
  show ?case
  proof (cases "c_strlen (cl_my s)")
    case None
    then show ?thesis by (simp add: parse_loop.simps [of env mc s])
  next
    case (Some n)
    show ?thesis
    proof (cases "parse_char env mc s")
      case (Running p)
      with 1 Some parse_char_typed [OF 1(2), of env mc] show ?thesis
        by (cases p) (auto simp: parse_loop.simps [of env mc s])
    next
      case (Exited p)
      with 1 Some parse_char_typed [OF 1(2), of env mc] show ?thesis
        by (cases p) (auto simp: parse_loop.simps [of env mc s] client_open_def)
    next
      case Undefined
      with 1 Some show ?thesis by (auto simp: parse_loop.simps [of env mc s])
    qed
  qed
qed

lemma strcat_length: "c_strcat dst src = Some r \<Longrightarrow> length r = length dst"
  by (auto simp: c_strcat_def bind_eq_Some_conv dest: memcpy_to_length)

lemma handle_recv_typed: "client_open s \<Longrightarrow> typed_outcome (handle_recv env e s)"
  by (cases e)
    (auto simp: client_open_def client_typed_def strcat_length split: option.split intro!: parse_loop_typed)

lemma client_open_typed: "client_open s \<Longrightarrow> client_typed s"
  by (simp add: client_open_def)

lemma run_typed: "client_open s \<Longrightarrow> typed_outcome (run (handle_recv env) es s)"
proof (induction es arbitrary: s)
  case Nil
  then show ?case by simp
next
  case (Cons e es)
  from handle_recv_typed [OF Cons.prems] Cons.IH show ?case by (auto intro: typed_seq)
qed

text \<open>Whatever the client sends, the request array keeps its 32 characters, there are at most two
  strikes while the connection is open and three when it is closed, and answers have four bytes.\<close>

theorem client_arrays:
  "case HandleTCPClient env t es of
     Running s \<Rightarrow> client_typed s \<and> cl_invalid s \<le> 2
   | Exited s \<Rightarrow> client_typed s
   | Undefined \<Rightarrow> True"
proof -
  have "client_open \<lparr>cl_my = zero_buf, cl_temp = t, cl_invalid = 0, cl_out = []\<rparr>"
    by (simp add: client_open_def client_typed_def)
  from run_typed [OF this, of env es] show ?thesis
    unfolding HandleTCPClient_def by (auto simp: client_open_def split: outcome.split)
qed

subsection \<open>The number of client threads\<close>

lemma unat_small: "unat (w :: u32) < 2 ^ 32"
proof -
  have "unat w < 2 ^ LENGTH(32)" by (rule unsigned_less)
  then show ?thesis by simp
qed

lemma live_count:
  "srv_reachable max_clients s \<Longrightarrow> sv_live s \<le> unat max_clients \<and>
    sv_numThread s = of_nat (sv_live s) - (if sv_created s then 1 else 0)"
proof (induction rule: srv_reachable.induct)
  case start
  show ?case by simp
next
  case (step s t)
  have small: "sv_live s < 2 ^ 32" using step.IH unat_small [of max_clients] by linarith
  from step.hyps(2) show ?case
  proof (rule srv_stepE)
    assume create: "t = s\<lparr>sv_live := Suc (sv_live s), sv_created := True\<rparr>" "\<not> sv_created s" "sv_numThread s < max_clients"
    have "sv_numThread s = of_nat (sv_live s)" using step.IH create by simp
    with small have "unat (sv_numThread s) = sv_live s" by (simp add: unat_of_nat)
    moreover have "unat (sv_numThread s) < unat max_clients" using create by (simp add: word_less_nat_alt)
    ultimately show ?thesis using create step.IH by simp
  next
    fix n
    assume "t = s\<lparr>sv_numThread := sv_numThread s - 1, sv_live := n\<rparr>" "sv_live s = Suc n"
    with step.IH show ?thesis by auto
  qed (use step.IH in auto)
qed

text \<open>There are never more client threads than the limit, read as an unsigned number, and a
  connection is refused only when there are as many.  The count is that of the threads, less the one
  that has been created and not yet been counted.\<close>

theorem thread_limit:
  assumes "srv_reachable max_clients s"
  shows "sv_live s \<le> unat max_clients \<and>
    sv_numThread s = of_nat (sv_live s) - (if sv_created s then 1 else 0) \<and>
    (\<not> sv_created s \<longrightarrow> \<not> sv_numThread s < max_clients \<longrightarrow> sv_live s = unat max_clients)"
proof -
  have c: "sv_live s \<le> unat max_clients" "sv_numThread s = of_nat (sv_live s) - (if sv_created s then 1 else 0)"
    using live_count [OF assms] by auto
  have "sv_live s < 2 ^ 32" using c(1) unat_small [of max_clients] by linarith
  then have "sv_live s = unat max_clients" if "\<not> sv_created s" "\<not> sv_numThread s < max_clients"
    using c that by (simp add: word_less_nat_alt unat_of_nat)
  with c show ?thesis by blast
qed

theorem thread_limit_witness:
  "srv_reachable 1 \<lparr>sv_numThread = 0, sv_live = 1, sv_created = True\<rparr> \<and>
    sv_live \<lparr>sv_numThread = 0, sv_live = 1, sv_created = True\<rparr> \<le> unat (1 :: u32)"
proof
  show r: "srv_reachable 1 \<lparr>sv_numThread = 0, sv_live = 1, sv_created = True\<rparr>"
    using srv_reachable.step [OF srv_reachable.start srv_step.create, of 1] by simp
  show "sv_live \<lparr>sv_numThread = 0, sv_live = 1, sv_created = True\<rparr> \<le> unat (1 :: u32)"
    by (rule thread_limit [OF r, THEN conjunct1])
qed

text \<open>A thread that ends before \<open>main\<close> has counted it is taken off a count that does not contain it:
  without any client the count is then \<open>2 ^ 32 - 1\<close>.\<close>

theorem count_wraps:
  assumes "0 < max_clients"
  shows "\<exists>s. srv_reachable max_clients s \<and> sv_live s = 0 \<and> sv_numThread s = 4294967295"
proof -
  let ?s = "\<lambda>n l c. \<lparr>sv_numThread = n, sv_live = l, sv_created = c\<rparr>"
  have "srv_reachable max_clients (?s 0 0 False)" by (rule srv_reachable.start)
  moreover have "srv_step max_clients (?s 0 0 False) (?s 0 1 True)"
    using srv_step.create [of "?s 0 0 False" max_clients] assms by simp
  ultimately have "srv_reachable max_clients (?s 0 1 True)" by (rule srv_reachable.step)
  moreover have "srv_step max_clients (?s 0 1 True) (?s (- 1) 0 True)"
    using srv_step.finish [of "?s 0 1 True" 0 max_clients] by simp
  ultimately have "srv_reachable max_clients (?s (- 1) 0 True)" by (rule srv_reachable.step)
  then show ?thesis by (intro exI [of _ "?s (- 1) 0 True"]) simp
qed

theorem count_wraps_witness:
  "\<exists>s. srv_reachable 4 s \<and> sv_live s = 0 \<and> sv_numThread s = 4294967295"
  by (rule count_wraps) simp

end
