(* ===== verification/MtServerStart.thy ===== *)
theory MtServerStart
  imports MtServerProps Startup CmdProps
begin

text \<open>
  The start of the TCP server and the rounds of its accept loop: the arguments, \<open>CreateTCPServerSocket\<close>,
  \<open>AcceptTCPConnection\<close> and \<open>DieWithError\<close>.  The results of the system calls are arguments.  A process
  that ends does so with status 1 and a text on the standard error output, of which \<open>perror\<close> writes the
  part given here before the description of the error.
\<close>

subsection \<open>Sockets\<close>

record srv_os =
  so_socket :: bool
  so_bind :: "u16 \<Rightarrow> bool"
  so_listen :: bool

text \<open>\<open>Died message\<close> is \<open>DieWithError\<close>.\<close>

datatype 'a or_died = Died string | Fine 'a

definition CreateTCPServerSocket :: "srv_os \<Rightarrow> u16 \<Rightarrow> u16 or_died" where
  "CreateTCPServerSocket os port =
     (if \<not> so_socket os then Died ''socket() failed''
      else if \<not> so_bind os port then Died ''bind() failed''
      else if \<not> so_listen os then Died ''listen() failed''
      else Fine port)"

text \<open>The address is given in network byte order.\<close>

definition inet_ntoa :: "u8 \<times> u8 \<times> u8 \<times> u8 \<Rightarrow> string" where
  "inet_ntoa a =
     (case a of (a1, a2, a3, a4) \<Rightarrow>
        show_nat (unat a1) @ ''.'' @ show_nat (unat a2) @ ''.'' @ show_nat (unat a3) @ ''.'' @ show_nat (unat a4))"

definition AcceptTCPConnection :: "(u8 \<times> u8 \<times> u8 \<times> u8) option \<Rightarrow> string or_died" where
  "AcceptTCPConnection accept =
     (case accept of
        None \<Rightarrow> Died ''accept() failed''
      | Some addr \<Rightarrow> Fine (''Handling client '' @ inet_ntoa addr @ newline))"

subsection \<open>The program\<close>

datatype srv_started = SrvExit string | Listening u32 u16

text \<open>The port is an \<open>unsigned short\<close>, the limit an \<open>int\<close> that is later compared with an unsigned number.\<close>

definition srv_start :: "srv_os \<Rightarrow> string list \<Rightarrow> srv_started" where
  "srv_start os argv =
     (if length argv \<noteq> 3
      then SrvExit (''Usage:  '' @ argv ! 0 @ '' <Max num of Clients> <Server Port>'' @ newline)
      else
        let echoServPort = ucast (atoi (argv ! 2)); max_clients = atoi (argv ! 1) in
        case CreateTCPServerSocket os echoServPort of
          Died message \<Rightarrow> SrvExit message
        | Fine port \<Rightarrow> Listening max_clients port)"

text \<open>
  A round of the loop when no thread gets between \<open>pthread_create\<close> and the lock: what \<open>accept\<close>, \<open>malloc\<close> and
  \<open>pthread_create\<close> (with the id of the thread) return, the standard output and the state.
\<close>

record srv_round =
  sr_accept :: "(u8 \<times> u8 \<times> u8 \<times> u8) option"
  sr_malloc :: bool
  sr_thread :: "nat option"

definition connected :: "u32 \<Rightarrow> string" where
  "connected n = ''Number of Connected thread: '' @ show_d n @ newline"

definition srv_loop :: "u32 \<Rightarrow> srv_round \<Rightarrow> server \<Rightarrow> (string \<times> server) or_died" where
  "srv_loop max_clients r s =
     (case AcceptTCPConnection (sr_accept r) of
        Died message \<Rightarrow> Died message
      | Fine out \<Rightarrow>
          if sv_numThread s < max_clients then
            (if \<not> sr_malloc r then Died ''malloc() failed''
             else case sr_thread r of
               None \<Rightarrow> Died ''pthread_create() failed''
             | Some threadID \<Rightarrow>
                 let s = s\<lparr>sv_live := Suc (sv_live s), sv_numThread := sv_numThread s + 1\<rparr> in
                 Fine (out @ connected (sv_numThread s) @ ''with thread '' @ show_nat threadID @ newline, s))
          else Fine (out, s))"

text \<open>What a thread does at its end.\<close>

definition thread_end :: "server \<Rightarrow> string \<times> server" where
  "thread_end s =
     (let s = s\<lparr>sv_numThread := sv_numThread s - 1, sv_live := sv_live s - 1\<rparr> in (connected (sv_numThread s), s))"

subsection \<open>What they promise\<close>

lemma ucast_nat: "(ucast (of_nat n :: u64) :: u32) = of_nat n" "(ucast (of_nat n :: u32) :: u16) = of_nat n"
  by (transfer, simp add: min_def)+

lemma atoi_show:
  assumes "n < 2 ^ 31"
  shows "atoi (show_nat n) = of_nat n" and "atoi (CHR ''-'' # show_nat n) = - of_nat n"
proof -
  have all: "takeWhile is_digit (show_nat n) = show_nat n"
    using show_nat_digits [of n] by (simp add: takeWhile_eq_all_conv list_all_iff)
  obtain d ds where d: "show_nat n = d # ds" using length_show_nat_pos [of n] by (cases "show_nat n") auto
  then have "is_digit d" using show_nat_digits [of n] by simp
  then have "sign (dropWhile is_space (show_nat n)) = (False, show_nat n)"
    using digit_plain [of d] d by simp
  moreover have "sign (dropWhile is_space (CHR ''-'' # show_nat n)) = (True, show_nat n)"
    by (simp add: is_space_def)
  ultimately have l: "strtol (show_nat n) = to_long False n" "strtol (CHR ''-'' # show_nat n) = to_long True n"
    by (simp_all add: strtol_def all decimal_show_nat)
  have "(ucast (- (of_nat n :: u64)) :: u32) = - of_nat n" by transfer (simp add: take_bit_take_bit take_bit_minus)
  then show "atoi (show_nat n) = of_nat n" and "atoi (CHR ''-'' # show_nat n) = - of_nat n"
    using assms by (simp_all add: atoi_def l to_long_def min_def ucast_nat)
qed

lemma loop_steps:
  assumes "srv_loop max_clients r s = Fine (out, t)" and "\<not> sv_created s"
  shows "(srv_step max_clients)\<^sup>*\<^sup>* s t"
proof (cases "sv_numThread s < max_clients")
  case True
  let ?u = "s\<lparr>sv_live := Suc (sv_live s), sv_created := True\<rparr>"
  have "srv_step max_clients s ?u" using assms(2) True by (rule srv_step.create)
  moreover have "srv_step max_clients ?u (?u\<lparr>sv_numThread := sv_numThread ?u + 1, sv_created := False\<rparr>)"
    by (rule srv_step.count) simp
  moreover have "t = ?u\<lparr>sv_numThread := sv_numThread ?u + 1, sv_created := False\<rparr>"
    using assms True by (auto simp: srv_loop_def Let_def split: or_died.splits option.splits if_splits)
  ultimately show ?thesis by (meson converse_rtranclp_into_rtranclp rtranclp.rtrancl_refl)
next
  case False
  then have "t = s" using assms(1) by (auto simp: srv_loop_def split: or_died.splits)
  then show ?thesis by simp
qed

text \<open>
  C34: the server keeps the limit that its arguments name.  Started with a number of clients and a port, it
  listens on that port, and however the rounds of its loop and the ends of its threads interleave there are never
  more client threads than that number; a round that goes through is such a step.
\<close>

theorem limit_from_arguments:
  assumes "m < 2 ^ 31" and "p < 2 ^ 16" and "so_socket os" and "so_bind os (of_nat p)" and "so_listen os"
  shows "srv_start os [cmd, show_nat m, show_nat p] = Listening (of_nat m) (of_nat p) \<and>
    (\<forall>s. srv_reachable (of_nat m) s \<longrightarrow> sv_live s \<le> m \<and>
      (\<forall>r out t. \<not> sv_created s \<and> srv_loop (of_nat m) r s = Fine (out, t) \<longrightarrow> srv_reachable (of_nat m) t))"
proof -
  have "atoi (show_nat m) = of_nat m" "atoi (show_nat p) = of_nat p" using assms(1,2) by (simp_all add: atoi_show)
  then have "srv_start os [cmd, show_nat m, show_nat p] = Listening (of_nat m) (of_nat p)"
    using assms(3-5) by (simp add: srv_start_def CreateTCPServerSocket_def ucast_nat)
  moreover have "sv_live s \<le> m" if "srv_reachable (of_nat m) s" for s
    using live_count [OF that] assms(1) by (simp add: unat_of_nat)
  moreover have "srv_reachable (of_nat m) t" if "srv_reachable (of_nat m) s" "(srv_step (of_nat m))\<^sup>*\<^sup>* s t" for s t
    using that(2,1) by (induction rule: rtranclp_induct) (auto intro: srv_reachable.step)
  ultimately show ?thesis using loop_steps by blast
qed

theorem limit_from_arguments_witness:
  "srv_start \<lparr>so_socket = True, so_bind = (\<lambda>_. True), so_listen = True\<rparr> [''mtserver'', show_nat 2, show_nat 8080] = Listening 2 8080 \<and>
   sv_live \<lparr>sv_numThread = 0, sv_live = 0, sv_created = False\<rparr> \<le> 2"
proof -
  let ?os = "\<lparr>so_socket = True, so_bind = (\<lambda>_. True), so_listen = True\<rparr>"
  from limit_from_arguments [of 2 8080 ?os "''mtserver''"] srv_reachable.start [of "of_nat 2"] show ?thesis by simp
qed

text \<open>
  The number of clients is not checked.  A text without digits is the limit 0, with which the server
  closes every connection; a negative number \<open>- m\<close> is the limit \<open>2 ^ 32 - m\<close>.
\<close>

theorem limit_not_checked:
  assumes "list_all (\<lambda>c. \<not> is_digit c) arg" and "0 < m" and "m < 2 ^ 31"
  shows "(\<forall>s. srv_reachable (atoi arg) s \<longrightarrow> sv_live s = 0) \<and>
    unat (atoi (CHR ''-'' # show_nat m)) = 2 ^ 32 - m"
proof -
  have "dropWhile is_space arg = ds \<Longrightarrow> set (snd (sign ds)) \<subseteq> set arg" for ds
    using set_dropWhileD [of _ is_space arg] by (cases ds) auto
  then have "takeWhile is_digit (snd (sign (dropWhile is_space arg))) = []"
    using assms(1) by (cases "snd (sign (dropWhile is_space arg))") (auto simp: list_all_iff)
  then have zero: "atoi arg = 0" by (simp add: atoi_def strtol_def case_prod_beta to_long_def)
  have "unat (- (of_nat m :: u32)) = 2 ^ 32 - m"
    using unat_sub_if_size [of 0 "of_nat m :: u32"] assms(2,3) by (simp add: unat_of_nat word_size)
  then have "unat (atoi (CHR ''-'' # show_nat m)) = 2 ^ 32 - m" using assms(3) by (simp add: atoi_show)
  moreover have "sv_live s = 0" if "srv_reachable (atoi arg) s" for s
    using live_count [OF that] by (simp add: zero)
  ultimately show ?thesis by blast
qed

theorem limit_not_checked_witness:
  "(\<forall>s. srv_reachable (atoi ''many'') s \<longrightarrow> sv_live s = 0) \<and> unat (atoi (CHR ''-'' # show_nat 1)) = 2 ^ 32 - 1"
  by (rule limit_not_checked) (simp_all add: is_digit_def)

end
