(* ===== verification/Threads.thy ===== *)
theory Threads
  imports Prelude "HOL-Library.Monad_Syntax"
begin

text \<open>
  The thread wrappers of client_server/Thread.c, a sample that the server does not use.  The objects of
  \<open>malloc\<close> are a map from addresses, a pointer is an address or \<open>None\<close> for \<open>NULL\<close>.  \<open>malloc\<close> and
  the \<open>pthread\<close> functions are parameters: their results.  \<open>th_id\<close> is \<open>None\<close> as long as it is
  indeterminate, that is, until \<open>pthread_create\<close> has succeeded.  The result \<open>None\<close> is undefined
  behaviour: a null pointer, a freed address or an indeterminate id is used.
\<close>

record ('e, 'a, 'p) thread =
  th_entry_pt :: 'e
  th_arg :: 'a
  th_id :: "'p option"

type_synonym ('e, 'a, 'p) threads = "nat \<rightharpoonup> ('e, 'a, 'p) thread"

definition createThread ::
  "nat option \<Rightarrow> 'e \<Rightarrow> 'a \<Rightarrow> ('e, 'a, 'p) threads \<Rightarrow> nat option \<times> ('e, 'a, 'p) threads"
where
  "createThread malloc func parm h =
     (case malloc of
        None \<Rightarrow> (None, h)
      | Some p \<Rightarrow> (Some p, h(p \<mapsto> \<lparr>th_entry_pt = func, th_arg = parm, th_id = None\<rparr>)))"

definition at :: "nat option \<Rightarrow> ('e, 'a, 'p) threads \<Rightarrow> ('e, 'a, 'p) thread option" where
  "at vthread h = do { p \<leftarrow> vthread; h p }"

text \<open>\<open>pthread_create\<close> returns an error number, and the id when that is 0.\<close>

definition runThread ::
  "('e \<Rightarrow> 'a \<Rightarrow> int \<times> 'p) \<Rightarrow> nat option \<Rightarrow> ('e, 'a, 'p) threads \<Rightarrow> (int \<times> ('e, 'a, 'p) threads) option"
where
  "runThread pthread_create vthread h =
     (case vthread of
        None \<Rightarrow> Some (- 10, h)
      | Some p \<Rightarrow>
          do { t \<leftarrow> h p;
               let (r, i) = pthread_create (th_entry_pt t) (th_arg t);
               Some (r, h(p \<mapsto> t\<lparr>th_id := if r = 0 then Some i else None\<rparr>)) })"

definition cancelThread :: "('p \<Rightarrow> int) \<Rightarrow> nat option \<Rightarrow> ('e, 'a, 'p) threads \<Rightarrow> int option" where
  "cancelThread pthread_cancel vthread h = do { t \<leftarrow> at vthread h; i \<leftarrow> th_id t; Some (pthread_cancel i) }"

definition joinThread :: "('p \<Rightarrow> int \<times> 'r) \<Rightarrow> nat option \<Rightarrow> ('e, 'a, 'p) threads \<Rightarrow> (int \<times> 'r) option" where
  "joinThread pthread_join vthread h = do { t \<leftarrow> at vthread h; i \<leftarrow> th_id t; Some (pthread_join i) }"

definition detachThread :: "('p \<Rightarrow> int) \<Rightarrow> nat option \<Rightarrow> ('e, 'a, 'p) threads \<Rightarrow> int option" where
  "detachThread pthread_detach vthread h = do { t \<leftarrow> at vthread h; i \<leftarrow> th_id t; Some (pthread_detach i) }"

definition getThreadID :: "nat option \<Rightarrow> ('e, 'a, 'p) threads \<Rightarrow> 'p option" where
  "getThreadID vthread h = do { t \<leftarrow> at vthread h; th_id t }"

definition getThreadArg :: "nat option \<Rightarrow> ('e, 'a, 'p) threads \<Rightarrow> 'a option" where
  "getThreadArg vthread h = map_option th_arg (at vthread h)"

subsection \<open>What the wrappers promise\<close>

lemmas thread_defs = runThread_def joinThread_def cancelThread_def detachThread_def getThreadID_def getThreadArg_def at_def

text \<open>
  A thread that is created and run is started with the function and the argument that it was created with;
  joining, cancelling and detaching act on the id that the system gave it, and the other threads are left
  alone.  Without memory \<open>createThread\<close> gives the null pointer, which only \<open>runThread\<close> checks.
\<close>

theorem thread_life:
  assumes "createThread malloc f x h = (v, h1)"
  shows "(case malloc of
      None \<Rightarrow> runThread create v h1 = Some (- 10, h) \<and> joinThread join v h1 = None \<and> cancelThread cancel v h1 = None \<and>
        detachThread detach v h1 = None \<and> getThreadID v h1 = None \<and> getThreadArg v h1 = None
    | Some p \<Rightarrow> joinThread join v h1 = None \<and>
        (case create f x of (r, i) \<Rightarrow>
          \<exists>h2. runThread create v h1 = Some (r, h2) \<and> getThreadArg v h2 = Some x \<and> (\<forall>q. q \<noteq> p \<longrightarrow> h2 q = h q) \<and>
            (if r = 0
             then getThreadID v h2 = Some i \<and> joinThread join v h2 = Some (join i) \<and>
               cancelThread cancel v h2 = Some (cancel i) \<and> detachThread detach v h2 = Some (detach i)
             else getThreadID v h2 = None)))"
proof (cases malloc)
  case None
  with assms show ?thesis
    by (simp add: createThread_def thread_defs)
next
  case (Some p)
  obtain r i where c: "create f x = (r, i)" by (cases "create f x")
  let ?h2 = "h(p \<mapsto> \<lparr>th_entry_pt = f, th_arg = x, th_id = if r = 0 then Some i else None\<rparr>)"
  have "runThread create v h1 = Some (r, ?h2)" "joinThread join v h1 = None"
    using assms Some c by (auto simp: createThread_def thread_defs)
  then show ?thesis
    using assms Some c by (auto simp: createThread_def thread_defs intro!: exI [of _ ?h2])
qed

theorem thread_life_witness:
  "\<exists>h2. runThread (\<lambda>f x. (0, 17 :: nat)) (Some 3) (snd (createThread (Some 3) ''main'' (5 :: nat) Map.empty)) = Some (0, h2) \<and>
     joinThread (\<lambda>i. (0, i)) (Some 3) h2 = Some (0 :: int, 17)"
  using thread_life [of "Some 3" "''main''" "5 :: nat" Map.empty "Some 3"
      "snd (createThread (Some 3) ''main'' (5 :: nat) Map.empty)" "\<lambda>f x. (0, 17 :: nat)"
      "\<lambda>i. (0 :: int, i)" "\<lambda>i. 0" "\<lambda>i. 0"]
  by (auto simp: createThread_def)

end
