(* ===== verification/Bully.thy ===== *)
theory Bully
  imports ShiViz Strtoul Complex_Main "HOL-Library.Monad_Syntax"
begin

text \<open>
  The leader election of bully_algorithm_fg_mpi/bully.c: \<open>handleNode\<close>, the loop of the nodes with a
  rank above 0, and the clock of node 0.

  A C \<open>int\<close> is an integer of which the operations check that it fits 32 bits; an overflow is
  \<open>Undefined\<close>.  The locals of \<open>handleNode\<close> are the state, its parameters a configuration.  An event is
  what one \<open>MPI_Wait\<close> delivers, with what the round asks of its surroundings: random numbers, times
  (as exact numbers), and the flag of \<open>MPI_Test\<close> for the \<open>n\<close>-th message of the node.  A message whose
  flag is false is cancelled by the code and may or may not arrive; the outbox keeps the flag.  While
  a node is dead (the loop in line 325) the events go to that loop.
\<close>

abbreviation ELECTION_ID :: int where "ELECTION_ID \<equiv> 20"
abbreviation AYA_ID :: int where "AYA_ID \<equiv> 21"
abbreviation IAA_ID :: int where "IAA_ID \<equiv> 22"
abbreviation COORD_ID :: int where "COORD_ID \<equiv> 23"
abbreviation ANSWER_ID :: int where "ANSWER_ID \<equiv> 24"
abbreviation CLOCK_ID :: int where "CLOCK_ID \<equiv> 25"
abbreviation IAM_DEAD_JIM :: int where "IAM_DEAD_JIM \<equiv> 998"
abbreviation IAM_ALIVE :: int where "IAM_ALIVE \<equiv> 1000"
abbreviation LEADER_DEAD :: int where "LEADER_DEAD \<equiv> 1001"
abbreviation TERMINATE :: int where "TERMINATE \<equiv> 999"

record by_conf =
  bc_size :: int
  bc_rank :: int
  bc_isDebug :: bool
  bc_timeoutValue :: int
  bc_AYATime :: int
  bc_sendFailure :: int
  bc_returnToLife :: int

record by_msg =
  bm_dest :: int
  bm_tag :: int
  bm_buffer :: "int \<times> int"
  bm_done :: bool

record by_event =
  be_source :: int
  be_tag :: int
  be_first :: int
  be_second :: "int option"
  be_random :: int
  be_times :: "nat \<Rightarrow> rat"
  be_done :: "nat \<Rightarrow> bool"

record by_state =
  by_sbuffer :: "int \<times> int"
  by_tick :: int
  by_AYATick :: int
  by_dlcTime :: int
  by_lastSent :: int
  by_lastReceived :: int
  by_AYARate :: int
  by_coordNode :: int
  by_coordDead :: bool
  by_deadTime :: rat
  by_outbox :: "by_msg list"
  by_printed :: "string list"

subsection \<open>Messages and output\<close>

definition int_fits :: "int \<Rightarrow> bool" where
  "int_fits i \<longleftrightarrow> - (2 ^ 31) \<le> i \<and> i < 2 ^ 31"

definition by_constructMsg :: "int \<Rightarrow> int \<Rightarrow> int \<times> int" where
  "by_constructMsg eventID dlcTime = (eventID, dlcTime)"

definition show_int :: "int \<Rightarrow> string" where
  "show_int i = (if i < 0 then CHR ''-'' # show_nat (nat (- i)) else show_nat (nat i))"

text \<open>The words for an event: in the debug lines, and in the lines of a sender.\<close>

definition event_words :: "int \<Rightarrow> (string \<times> string) option" where
  "event_words eventID =
     (if eventID = ELECTION_ID then Some (''Elect'', ''ELECTION'')
      else if eventID = ANSWER_ID then Some (''Answer'', ''PRIV_ANSWER'')
      else if eventID = COORD_ID then Some (''COORD'', ''LEADER'')
      else if eventID = AYA_ID then Some (''AYA'', ''PRIV_AYA'')
      else if eventID = IAA_ID then Some (''IAA'', ''PRIV_IAA'')
      else if eventID = IAM_DEAD_JIM then Some (''DEAD'', ''DEAD'')
      else if eventID = IAM_ALIVE then Some (''IAM_ALIVE'', ''ALIVE'')
      else None)"

definition node_line :: "int \<Rightarrow> string \<Rightarrow> int \<Rightarrow> string" where
  "node_line sender name dlcTime =
     ''Node Printing: N'' @ show_int sender @ '', Event ID: '' @ name @ '', DLC time: '' @ show_int dlcTime @ newline"

definition eventPrinting :: "int \<Rightarrow> int \<Rightarrow> int \<Rightarrow> int \<Rightarrow> bool \<Rightarrow> bool \<Rightarrow> string list" where
  "eventPrinting dlcTime eventID sender receiver isDebug isSend =
     (if eventID = LEADER_DEAD then [node_line sender ''LEADERDEAD'' dlcTime]
      else case event_words eventID of
        None \<Rightarrow> []
      | Some (short, name) \<Rightarrow>
          if isSend then
            (if isDebug then [''[Debug] N'' @ show_int sender @ '' sends '' @ short @ '' to N'' @ show_int receiver @
               ''. DLC time: '' @ show_int dlcTime @ newline] else []) @ [node_line sender name dlcTime]
          else if isDebug then [''[Debug] N'' @ show_int receiver @ '' receives '' @ short @ '' from N'' @ show_int sender @
               ''. DLC time: '' @ show_int dlcTime @ newline]
          else [])"

definition by_print :: "string list \<Rightarrow> by_state \<Rightarrow> by_state" where
  "by_print ls s = s\<lparr>by_printed := by_printed s @ ls\<rparr>"

definition by_debug :: "by_conf \<Rightarrow> string \<Rightarrow> by_state \<Rightarrow> by_state" where
  "by_debug c l s = (if bc_isDebug c then by_print [l @ newline] s else s)"

definition advance :: "by_state \<Rightarrow> by_state outcome" where
  "advance s = (if int_fits (by_dlcTime s + 1) then Running (s\<lparr>by_dlcTime := by_dlcTime s + 1\<rparr>) else Undefined)"

text \<open>\<open>constructMsg\<close>, \<open>eventPrinting\<close>, \<open>MPI_Isend\<close>, \<open>MPI_Test\<close> and the cancellation.\<close>

definition by_isend :: "by_conf \<Rightarrow> (nat \<Rightarrow> bool) \<Rightarrow> int \<Rightarrow> int \<Rightarrow> by_state \<Rightarrow> by_state" where
  "by_isend c flags eventID dest s =
     (let s = by_print (eventPrinting (by_dlcTime s) eventID (bc_rank c) dest (bc_isDebug c) True) s
      in s\<lparr>by_outbox := by_outbox s @ [\<lparr>bm_dest = dest, bm_tag = eventID,
            bm_buffer = by_constructMsg eventID (by_dlcTime s), bm_done = flags (length (by_outbox s))\<rparr>]\<rparr>)"

definition by_send :: "by_conf \<Rightarrow> (nat \<Rightarrow> bool) \<Rightarrow> int \<Rightarrow> int \<Rightarrow> by_state \<Rightarrow> by_state outcome" where
  "by_send c flags eventID dest s = seq (advance s) (\<lambda>s. Running (by_isend c flags eventID dest s))"

text \<open>The loops over the higher and the lower ranks; \<open>note\<close> is what a round of the loop assigns.\<close>

fun send_each :: "by_conf \<Rightarrow> (nat \<Rightarrow> bool) \<Rightarrow> int \<Rightarrow> (by_state \<Rightarrow> by_state) \<Rightarrow> int list \<Rightarrow> by_state \<Rightarrow> by_state outcome" where
  "send_each c flags eventID upd [] s = Running s"
| "send_each c flags eventID upd (i # is) s =
     seq (by_send c flags eventID i s) (\<lambda>s. send_each c flags eventID upd is (upd s))"

definition higher_ranks :: "by_conf \<Rightarrow> int list" where
  "higher_ranks c = [bc_rank c + 1 .. bc_size c - 1]"

definition lower_ranks :: "by_conf \<Rightarrow> int list" where
  "lower_ranks c = [1 .. bc_rank c - 1]"

definition elect_higher :: "by_conf \<Rightarrow> (nat \<Rightarrow> bool) \<Rightarrow> by_state \<Rightarrow> by_state outcome" where
  "elect_higher c flags = send_each c flags ELECTION_ID (\<lambda>s. s\<lparr>by_lastSent := ELECTION_ID\<rparr>) (higher_ranks c)"

definition coord_lower :: "by_conf \<Rightarrow> (nat \<Rightarrow> bool) \<Rightarrow> by_state \<Rightarrow> by_state outcome" where
  "coord_lower c flags = send_each c flags COORD_ID (\<lambda>s. s\<lparr>by_lastSent := COORD_ID\<rparr>) (lower_ranks c)"

subsection \<open>The handlers\<close>

definition handle_clock_tick :: "by_conf \<Rightarrow> by_event \<Rightarrow> by_state \<Rightarrow> by_state outcome" where
  "handle_clock_tick c e s =
     (if \<not> (int_fits (by_tick s + 1) \<and> int_fits (by_AYATick s + 1)) then Undefined
      else
        let s = s\<lparr>by_tick := by_tick s + 1, by_AYATick := by_AYATick s + 1\<rparr>;
            s = by_debug c (''[Debug] '' @ show_int (bc_rank c) @ '' GOTTA a message of contents '' @
                  show_int (fst (by_sbuffer s)) @ ''. The clock has ticked '' @ show_int (by_tick s) @ '' times.'') s
        in if (by_AYARate s = 0 \<or> by_AYATick s mod by_AYARate s = 0) \<and> by_coordNode s \<noteq> 0 then
             (if bc_AYATime c = 0 \<or> \<not> int_fits (2 * bc_AYATime c) then Undefined
              else by_send c (be_done e) AYA_ID (by_coordNode s)
                     (s\<lparr>by_AYARate := be_random e mod \<bar>2 * bc_AYATime c\<bar>, by_lastSent := AYA_ID\<rparr>))
           else Running s)"

definition by_handleElect :: "by_conf \<Rightarrow> by_event \<Rightarrow> by_state \<Rightarrow> by_state outcome" where
  "by_handleElect c e s =
     seq (by_send c (be_done e) ANSWER_ID (be_source e) s)
       (\<lambda>s. let s = s\<lparr>by_lastReceived := ELECTION_ID\<rparr>
            in if by_lastSent s = ELECTION_ID then Running s
               else seq (elect_higher c (be_done e) (s\<lparr>by_lastSent := 0\<rparr>))
                      (\<lambda>s. if by_lastSent s = 0 then coord_lower c (be_done e) s else Running s))"

definition handleAnswer :: "by_state \<Rightarrow> by_state" where
  "handleAnswer s =
     (if by_lastReceived s = COORD_ID then s\<lparr>by_lastSent := 0\<rparr>
      else if by_lastSent s = ELECTION_ID then s\<lparr>by_lastReceived := ANSWER_ID, by_lastSent := 0\<rparr>
      else s)"

text \<open>The check of the loop of a dead node, on the time \<open>now\<close>; a node that goes on waiting
  receives the next event.\<close>

definition dead_check :: "by_conf \<Rightarrow> by_event \<Rightarrow> rat \<Rightarrow> by_state \<Rightarrow> by_state" where
  "dead_check c e now s =
     (if now - by_deadTime s > of_int (bc_returnToLife c) then
        let s = by_debug c (CHR ''N'' # show_int (bc_rank c) @ '' came back to life!!!!!!!!!!!!!'') s;
            s = by_print (eventPrinting (by_dlcTime s) IAM_ALIVE (bc_rank c) (be_source e) (bc_isDebug c) True) s
        in s\<lparr>by_coordDead := False, by_deadTime := - 1, by_lastSent := 0, by_lastReceived := 0\<rparr>
      else by_debug c (CHR ''N'' # show_int (bc_rank c) @ '' is still dead!!!!!!!!!!!!!'') s)"

definition by_handleAYA :: "by_conf \<Rightarrow> by_event \<Rightarrow> by_state \<Rightarrow> by_state outcome" where
  "by_handleAYA c e s =
     seq (advance (s\<lparr>by_lastReceived := AYA_ID, by_lastSent := IAA_ID\<rparr>))
       (\<lambda>s. if be_random e mod 100 \<ge> bc_sendFailure c
            then Running (by_isend c (be_done e) IAA_ID (be_source e) (s\<lparr>by_deadTime := be_times e 0\<rparr>))
            else Running (dead_check c e (be_times e 1)
              ((by_print (eventPrinting (by_dlcTime s) IAM_DEAD_JIM (bc_rank c) (be_source e) (bc_isDebug c) True) s)
                \<lparr>by_coordDead := True, by_deadTime := be_times e 0\<rparr>)))"

definition by_heard :: "by_conf \<Rightarrow> by_event \<Rightarrow> by_state \<Rightarrow> by_state" where
  "by_heard c e s =
     (let s = s\<lparr>by_tick := 0, by_dlcTime := (if snd (by_sbuffer s) > by_dlcTime s then snd (by_sbuffer s) else by_dlcTime s)\<rparr>;
          s = by_debug c (''old dlctime is '' @ show_int (snd (by_sbuffer s))) s
      in by_print (eventPrinting (by_dlcTime s) (be_tag e) (be_source e) (bc_rank c) (bc_isDebug c) False) s)"

definition handle_node_msg :: "by_conf \<Rightarrow> by_event \<Rightarrow> by_state \<Rightarrow> by_state outcome" where
  "handle_node_msg c e s =
     (let s = by_heard c e s
      in if be_tag e = ELECTION_ID then by_handleElect c e s
         else if be_tag e = ANSWER_ID then Running (handleAnswer s)
         else if be_tag e = COORD_ID then Running (s\<lparr>by_lastReceived := COORD_ID, by_coordNode := be_source e\<rparr>)
         else if be_tag e = AYA_ID then by_handleAYA c e s
         else if be_tag e = IAA_ID then Running (s\<lparr>by_lastReceived := IAA_ID\<rparr>)
         else Running s)"

text \<open>The switch on \<open>lastSent\<close> after a timeout.  The condition for another election (line 373) reads
  \<open>tick % (size - 1) * timeoutValue\<close> as C does.\<close>

definition election_due :: "by_conf \<Rightarrow> by_state \<Rightarrow> bool option" where
  "election_due c s =
     (if by_lastReceived s = 0 then Some True
      else if by_lastReceived s = ANSWER_ID then
        (if bc_size c = 1 \<or> \<not> int_fits (by_tick s mod (bc_size c - 1) * bc_timeoutValue c) then None
         else Some (by_tick s mod (bc_size c - 1) * bc_timeoutValue c = 0))
      else Some False)"

definition reset_timer :: "by_state outcome \<Rightarrow> by_state outcome" where
  "reset_timer m = seq m (\<lambda>s. Running (s\<lparr>by_tick := 0, by_coordNode := 0\<rparr>))"

definition by_timeout :: "by_conf \<Rightarrow> by_event \<Rightarrow> by_state \<Rightarrow> by_state outcome" where
  "by_timeout c e s =
     (if by_lastSent s = 0 then
        (case election_due c s of
           None \<Rightarrow> Undefined
         | Some again \<Rightarrow>
             seq (if again then
                    reset_timer (send_each c (be_done e) ELECTION_ID
                      (\<lambda>s. s\<lparr>by_lastSent := ELECTION_ID, by_lastReceived := 0\<rparr>) (higher_ranks c) s)
                  else Running s)
               (\<lambda>s. if by_lastReceived s = ELECTION_ID then reset_timer (coord_lower c (be_done e) s) else Running s))
      else if by_lastSent s = ELECTION_ID then reset_timer (coord_lower c (be_done e) s)
      else if by_lastSent s = AYA_ID then
        reset_timer (elect_higher c (be_done e)
          (by_print (eventPrinting (by_dlcTime s) LEADER_DEAD (bc_rank c) 0 (bc_isDebug c) True) s))
      else Running s)"

subsection \<open>The loop\<close>

definition end_of_round :: "by_conf \<Rightarrow> by_event \<Rightarrow> by_state \<Rightarrow> by_state outcome" where
  "end_of_round c e s =
     (if bc_timeoutValue c = 0 then Undefined
      else seq (if by_tick s mod bc_timeoutValue c = 0 \<and> by_tick s \<noteq> 0
                then by_timeout c e (by_debug c (''++++++++TIMEOUT at RANK '' @ show_int (bc_rank c)) s)
                else Running s)
             (\<lambda>s. if fst (by_sbuffer s) = TERMINATE then Exited s else Running s))"

definition by_receive :: "by_event \<Rightarrow> by_state \<Rightarrow> by_state" where
  "by_receive e s =
     s\<lparr>by_sbuffer := (be_first e, case be_second e of None \<Rightarrow> snd (by_sbuffer s) | Some d \<Rightarrow> d)\<rparr>"

definition by_step :: "by_conf \<Rightarrow> by_event \<Rightarrow> by_state \<Rightarrow> by_state outcome" where
  "by_step c e s =
     (let s = by_receive e s in
      seq (if by_coordDead s then Running (dead_check c e (be_times e 0) s)
           else if be_tag e = CLOCK_ID then handle_clock_tick c e s
           else handle_node_msg c e s)
        (\<lambda>s. if by_coordDead s then Running s else end_of_round c e s))"

text \<open>The first election is sent with \<open>MPI_Send\<close>, which returns when the buffer can be used again.\<close>

definition by_init :: "int \<times> int \<Rightarrow> by_state" where
  "by_init sbuffer =
     \<lparr>by_sbuffer = sbuffer, by_tick = 0, by_AYATick = 0, by_dlcTime = 0, by_lastSent = 0, by_lastReceived = 0,
      by_AYARate = 0, by_coordNode = 0, by_coordDead = False, by_deadTime = 0, by_outbox = [], by_printed = []\<rparr>"

definition by_start :: "by_conf \<Rightarrow> int \<times> int \<Rightarrow> by_state outcome" where
  "by_start c sbuffer =
     (if bc_rank c = 1 then elect_higher c (\<lambda>_. True) (by_init sbuffer) else Running (by_init sbuffer))"

definition handleNode :: "by_conf \<Rightarrow> int \<times> int \<Rightarrow> by_event list \<Rightarrow> by_state outcome" where
  "handleNode c sbuffer es = seq (by_start c sbuffer) (run (by_step c) es)"

subsection \<open>The clock node and the arguments\<close>

text \<open>One round of \<open>handleClock\<close>: receivers and contents of its messages.\<close>

definition clock_round :: "int \<Rightarrow> (int \<times> int) list" where
  "clock_round sz = map (\<lambda>i. (i, CLOCK_ID)) [1 .. sz - 1]"

definition int_arg :: "string \<Rightarrow> int option" where
  "int_arg arg = (let (v, converted) = strtoul arg in if converted then Some (sint (ucast v :: u32)) else None)"

definition by_args :: "string list \<Rightarrow> int \<Rightarrow> int \<Rightarrow> by_conf option" where
  "by_args argv sz rank =
     (case argv of
        [_, a1, a2, a3, a4, a5] \<Rightarrow>
          do { isDebug \<leftarrow> int_arg a1; timeoutValue \<leftarrow> int_arg a2; AYATime \<leftarrow> int_arg a3;
               sendFailure \<leftarrow> int_arg a4; returnToLife \<leftarrow> int_arg a5;
               Some \<lparr>bc_size = sz, bc_rank = rank, bc_isDebug = (isDebug \<noteq> 0), bc_timeoutValue = timeoutValue,
                 bc_AYATime = AYATime, bc_sendFailure = sendFailure, bc_returnToLife = returnToLife\<rparr> }
      | _ \<Rightarrow> None)"

text \<open>\<open>bully\<close> on a node with a rank above 0: \<open>None\<close> is the return with -1.\<close>

definition bully_node :: "string list \<Rightarrow> int \<Rightarrow> int \<Rightarrow> int \<times> int \<Rightarrow> by_event list \<Rightarrow> by_state outcome option" where
  "bully_node argv sz rank sbuffer es = map_option (\<lambda>c. handleNode c sbuffer es) (by_args argv sz rank)"

end
