(* ===== verification/BullyProps.thy ===== *)
theory BullyProps
  imports Bully
begin

text \<open>
  The properties of the election on FG-MPI: the logical clock (interpretation of \<open>growing\<close>), the
  invariant of a node (interpretation of \<open>machine\<close>) with the reasons for each COORD message, what a
  node answers, how an election ends, and the faults of the timeouts.
\<close>

named_theorems by_defs \<open>definitions of the handlers of a node\<close>

lemmas [by_defs] = by_print_def by_debug_def advance_def by_isend_def by_send_def by_constructMsg_def
  handleAnswer_def dead_check_def by_receive_def reset_timer_def

subsection \<open>The logical clock\<close>

abbreviation bm_time :: "by_msg \<Rightarrow> int" where
  "bm_time m \<equiv> snd (bm_buffer m)"

text \<open>The clock does not decrease, and what is sent carries increasing times after the clock's.\<close>

definition by_le :: "by_state \<Rightarrow> by_state \<Rightarrow> bool" where
  "by_le s t \<longleftrightarrow> by_dlcTime s \<le> by_dlcTime t \<and>
     (\<exists>more. by_outbox t = by_outbox s @ more \<and> sorted_wrt (<) (map bm_time more) \<and>
       (\<forall>m\<in>set more. by_dlcTime s < bm_time m \<and> bm_time m \<le> by_dlcTime t))"

lemma by_le_refl [simp]: "by_le s s"
  by (simp add: by_le_def)

lemma by_le_same: "by_dlcTime t = by_dlcTime s \<Longrightarrow> by_outbox t = by_outbox s \<Longrightarrow> by_le s t"
  by (simp add: by_le_def)

lemma by_le_trans: "by_le s t \<Longrightarrow> by_le t u \<Longrightarrow> by_le s u"
proof -
  assume "by_le s t" and "by_le t u"
  then obtain xs ys where
    x: "by_dlcTime s \<le> by_dlcTime t" "by_outbox t = by_outbox s @ xs" "sorted_wrt (<) (map bm_time xs)"
      "\<forall>m\<in>set xs. by_dlcTime s < bm_time m \<and> bm_time m \<le> by_dlcTime t" and
    y: "by_dlcTime t \<le> by_dlcTime u" "by_outbox u = by_outbox t @ ys" "sorted_wrt (<) (map bm_time ys)"
      "\<forall>m\<in>set ys. by_dlcTime t < bm_time m \<and> bm_time m \<le> by_dlcTime u"
    by (auto simp: by_le_def)
  then have "sorted_wrt (<) (map bm_time (xs @ ys))" by (force simp: sorted_wrt_append)
  moreover have "\<forall>m\<in>set (xs @ ys). by_dlcTime s < bm_time m \<and> bm_time m \<le> by_dlcTime u"
    using x y by force
  ultimately show ?thesis using x y unfolding by_le_def by (intro conjI exI [of _ "xs @ ys"]) auto
qed

lemma by_le_seq:
  assumes "out_all (by_le s) m" and "\<And>t. out_all (by_le t) (f t)"
  shows "out_all (by_le s) (seq m f)"
  using assms(1)
proof (rule out_all_seq)
  fix t
  assume "by_le s t"
  then show "out_all (by_le s) (f t)"
    using assms(2) [of t] by (auto elim: out_all_mono intro: by_le_trans)
qed simp

lemma by_le_before: "by_dlcTime s \<le> by_dlcTime t \<Longrightarrow> by_outbox t = by_outbox s \<Longrightarrow> out_all (by_le t) m \<Longrightarrow> out_all (by_le s) m"
proof -
  assume "by_dlcTime s \<le> by_dlcTime t" and "by_outbox t = by_outbox s" and m: "out_all (by_le t) m"
  then have "by_le s t" by (simp add: by_le_def)
  with m show ?thesis by (auto elim: out_all_mono intro: by_le_trans)
qed

lemma send_le: "out_all (by_le s) (by_send c flags k i s)"
  by (auto simp: by_defs Let_def by_le_def)

lemma send_each_le:
  assumes "\<And>s. by_dlcTime (upd s) = by_dlcTime s \<and> by_outbox (upd s) = by_outbox s"
  shows "out_all (by_le s) (send_each c flags k upd is s)"
proof (induction "is" arbitrary: s)
  case Nil
  show ?case by simp
next
  case (Cons i "is")
  have "out_all (by_le s) (seq (by_send c flags k i s) (\<lambda>s. send_each c flags k upd is (upd s)))"
    by (intro by_le_seq send_le by_le_before [OF _ _ Cons]) (simp_all add: assms)
  then show ?case by simp
qed

lemma reset_timer_le: "out_all (by_le s) m \<Longrightarrow> out_all (by_le s) (reset_timer m)"
  unfolding reset_timer_def by (rule by_le_seq) (simp_all add: by_le_def)

lemma elect_higher_le: "out_all (by_le s) (elect_higher c flags s)"
  unfolding elect_higher_def by (rule send_each_le) simp

lemma coord_lower_le: "out_all (by_le s) (coord_lower c flags s)"
  unfolding coord_lower_def by (rule send_each_le) simp

lemma by_timeout_le: "out_all (by_le s) (by_timeout c e s)"
  unfolding by_timeout_def
  by (auto intro!: by_le_seq reset_timer_le send_each_le elect_higher_le coord_lower_le
      intro: by_le_before [OF _ _ elect_higher_le] simp: by_print_def split: option.split)

lemma end_of_round_le: "out_all (by_le s) (end_of_round c e s)"
proof -
  have "out_all (by_le s) (by_timeout c e (by_debug c l s))" for l
    by (rule by_le_before [OF _ _ by_timeout_le]) (simp_all add: by_defs)
  then show ?thesis unfolding end_of_round_def by (auto intro!: by_le_seq)
qed

lemma handle_clock_tick_le: "out_all (by_le s) (handle_clock_tick c e s)"
proof -
  have "out_all (by_le s) (by_send c flags k i t)" if "by_dlcTime t = by_dlcTime s" "by_outbox t = by_outbox s" for t flags k i
    using that by (intro by_le_before [OF _ _ send_le]) simp_all
  then show ?thesis unfolding handle_clock_tick_def Let_def by (auto simp: by_le_def by_debug_def by_print_def)
qed

lemma by_core [simp]:
  "by_dlcTime (by_print ls s) = by_dlcTime s" "by_outbox (by_print ls s) = by_outbox s"
  "by_dlcTime (by_debug c l s) = by_dlcTime s" "by_outbox (by_debug c l s) = by_outbox s"
  "by_dlcTime (dead_check c e now s) = by_dlcTime s" "by_outbox (dead_check c e now s) = by_outbox s"
  "by_dlcTime (by_isend c flags k i s) = by_dlcTime s"
  "by_outbox (by_isend c flags k i s) = by_outbox s @
    [\<lparr>bm_dest = i, bm_tag = k, bm_buffer = (k, by_dlcTime s), bm_done = flags (length (by_outbox s))\<rparr>]"
  "by_dlcTime (handleAnswer s) = by_dlcTime s" "by_outbox (handleAnswer s) = by_outbox s"
  by (simp_all add: by_defs Let_def)

lemma dead_check_le: "by_le s (dead_check c e now s)"
  by (simp add: by_le_def)

lemma by_handleElect_le: "out_all (by_le s) (by_handleElect c e s)"
proof -
  have "out_all (by_le t) (seq (elect_higher c (be_done e) (t\<lparr>by_lastReceived := ELECTION_ID, by_lastSent := 0\<rparr>))
      (\<lambda>s. if by_lastSent s = 0 then coord_lower c (be_done e) s else Running s))" for t
    by (intro by_le_seq by_le_before [OF _ _ elect_higher_le]) (auto intro: coord_lower_le)
  then show ?thesis unfolding by_handleElect_def Let_def
    by (intro by_le_seq send_le) (auto simp: by_le_def)
qed

lemma by_handleAYA_le: "out_all (by_le s) (by_handleAYA c e s)"
proof (cases "int_fits (by_dlcTime s + 1)")
  case True
  then show ?thesis unfolding by_handleAYA_def advance_def by (simp add: by_le_def)
next
  case False
  then show ?thesis unfolding by_handleAYA_def advance_def by simp
qed

text \<open>The clock of the received message is behind the clock of the node that has handled it.\<close>

lemma heard_core:
  "by_dlcTime (by_heard c e s) = max (snd (by_sbuffer s)) (by_dlcTime s)" "by_outbox (by_heard c e s) = by_outbox s"
  by (simp_all add: by_heard_def Let_def max_def)

lemma handle_heard_le: "out_all (by_le (by_heard c e s)) (handle_node_msg c e s)"
  unfolding handle_node_msg_def Let_def
  by (simp add: by_handleElect_le by_handleAYA_le by_le_same)

lemma handle_node_msg_le: "out_all (by_le s) (handle_node_msg c e s)"
  by (rule by_le_before [OF _ _ handle_heard_le]) (simp_all add: heard_core)

lemma by_step_le: "out_all (by_le s) (by_step c e s)"
proof -
  let ?r = "by_receive e s"
  have r: "by_dlcTime ?r = by_dlcTime s" "by_outbox ?r = by_outbox s" by (simp_all add: by_receive_def)
  have step: "out_all (by_le ?r) (by_step c e s)"
    unfolding by_step_def Let_def
    by (rule by_le_seq) (simp_all add: handle_node_msg_le handle_clock_tick_le dead_check_le end_of_round_le)
  show ?thesis by (rule by_le_before [OF _ _ step]) (simp_all add: r)
qed

interpretation bully_growing: growing "by_step c" by_le for c
  by unfold_locales (auto intro: by_le_trans by_step_le)


subsection \<open>What the loops send\<close>

fun sends :: "(nat \<Rightarrow> bool) \<Rightarrow> int \<Rightarrow> int \<Rightarrow> nat \<Rightarrow> int list \<Rightarrow> by_msg list" where
  "sends flags k d n [] = []"
| "sends flags k d n (i # is) =
     \<lparr>bm_dest = i, bm_tag = k, bm_buffer = (k, d + 1), bm_done = flags n\<rparr> # sends flags k (d + 1) (Suc n) is"

fun send_lines :: "by_conf \<Rightarrow> int \<Rightarrow> int \<Rightarrow> int list \<Rightarrow> string list" where
  "send_lines c k d [] = []"
| "send_lines c k d (i # is) =
     eventPrinting (d + 1) k (bc_rank c) i (bc_isDebug c) True @ send_lines c k (d + 1) is"

lemma length_sends [simp]: "length (sends flags k d n is) = length is"
  by (induction "is" arbitrary: d n) simp_all

lemma sends_mem: "m \<in> set (sends flags k d n is) \<Longrightarrow> bm_dest m \<in> set is \<and> bm_tag m = k \<and> fst (bm_buffer m) = k"
  by (induction "is" arbitrary: d n) auto

lemma sends_dests: "map bm_dest (sends flags k d n is) = is"
  by (induction "is" arbitrary: d n) simp_all

lemma sends_time: "m \<in> set (sends flags k d n is) \<Longrightarrow> d < bm_time m \<and> bm_time m \<le> d + int (length is)"
  by (induction "is" arbitrary: d n) fastforce+

definition after_sends :: "by_conf \<Rightarrow> (nat \<Rightarrow> bool) \<Rightarrow> int \<Rightarrow> int list \<Rightarrow> by_state \<Rightarrow> by_state" where
  "after_sends c flags k is s = s\<lparr>by_dlcTime := by_dlcTime s + int (length is),
     by_outbox := by_outbox s @ sends flags k (by_dlcTime s) (length (by_outbox s)) is,
     by_printed := by_printed s @ send_lines c k (by_dlcTime s) is\<rparr>"

lemma by_send_eq:
  "by_send c flags k i s = (if int_fits (by_dlcTime s + 1) then Running (after_sends c flags k [i] s) else Undefined)"
  by (simp add: by_defs Let_def after_sends_def)

lemma send_each_eq:
  assumes upd: "\<And>s. upd s = s\<lparr>by_lastSent := k, by_lastReceived := g (by_lastReceived s)\<rparr>" and "\<And>x. g (g x) = g x"
  shows "0 \<le> by_dlcTime s \<Longrightarrow> send_each c flags k upd is s =
    (if is = [] then Running s
     else if int_fits (by_dlcTime s + int (length is)) then Running (upd (after_sends c flags k is s)) else Undefined)"
proof (induction "is" arbitrary: s)
  case Nil
  show ?case by simp
next
  case (Cons i "is")
  let ?t = "upd (after_sends c flags k [i] s)"
  have t: "by_dlcTime ?t = by_dlcTime s + 1" by (simp add: upd after_sends_def)
  have join: "upd (after_sends c flags k is ?t) = upd (after_sends c flags k (i # is) s)"
    by (simp add: upd after_sends_def assms(2) algebra_simps)
  show ?case
  proof (cases "int_fits (by_dlcTime s + int (length (i # is)))")
    case True
    with Cons.prems have "int_fits (by_dlcTime s + 1)" by (simp add: int_fits_def)
    then show ?thesis using Cons.IH [of ?t] Cons.prems True t join
      by (auto simp: by_send_eq algebra_simps)
  next
    case False
    show ?thesis
    proof (cases "int_fits (by_dlcTime s + 1)")
      case fits: True
      with False have "is \<noteq> []" by auto
      with fits False show ?thesis using Cons.IH [of ?t] Cons.prems t
        by (simp add: by_send_eq algebra_simps)
    next
      case not_fits: False
      with False show ?thesis by (simp add: by_send_eq)
    qed
  qed
qed

lemma elect_higher_eq:
  "0 \<le> by_dlcTime s \<Longrightarrow> elect_higher c flags s =
    (if higher_ranks c = [] then Running s
     else if int_fits (by_dlcTime s + int (length (higher_ranks c)))
     then Running ((after_sends c flags ELECTION_ID (higher_ranks c) s)\<lparr>by_lastSent := ELECTION_ID\<rparr>) else Undefined)"
  unfolding elect_higher_def by (subst send_each_eq [where g = id]) simp_all

lemma coord_lower_eq:
  "0 \<le> by_dlcTime s \<Longrightarrow> coord_lower c flags s =
    (if lower_ranks c = [] then Running s
     else if int_fits (by_dlcTime s + int (length (lower_ranks c)))
     then Running ((after_sends c flags COORD_ID (lower_ranks c) s)\<lparr>by_lastSent := COORD_ID\<rparr>) else Undefined)"
  unfolding coord_lower_def by (subst send_each_eq [where g = id]) simp_all

lemma elect_again_eq:
  "0 \<le> by_dlcTime s \<Longrightarrow>
    send_each c flags ELECTION_ID (\<lambda>s. s\<lparr>by_lastSent := ELECTION_ID, by_lastReceived := 0\<rparr>) (higher_ranks c) s =
    (if higher_ranks c = [] then Running s
     else if int_fits (by_dlcTime s + int (length (higher_ranks c)))
     then Running ((after_sends c flags ELECTION_ID (higher_ranks c) s)\<lparr>by_lastSent := ELECTION_ID, by_lastReceived := 0\<rparr>)
     else Undefined)"
  by (subst send_each_eq [where g = "\<lambda>x. 0"]) simp_all


subsection \<open>The invariant of a node\<close>

definition addressed :: "by_conf \<Rightarrow> by_msg \<Rightarrow> bool" where
  "addressed c m \<longleftrightarrow> bm_tag m \<in> {ELECTION_ID, AYA_ID, IAA_ID, COORD_ID, ANSWER_ID} \<and> fst (bm_buffer m) = bm_tag m \<and>
     (bm_tag m = COORD_ID \<longrightarrow> bm_dest m \<in> set (lower_ranks c)) \<and>
     (bm_tag m = ELECTION_ID \<longrightarrow> bm_dest m \<in> set (higher_ranks c))"

text \<open>COORD goes to lower and ELECTION to higher ranks only; and a node that owes no reply has not seen
  an ELECTION message last, unless it is the only node.\<close>

definition by_ok :: "by_conf \<Rightarrow> by_state \<Rightarrow> bool" where
  "by_ok c s \<longleftrightarrow> 0 \<le> by_tick s \<and> 0 \<le> by_dlcTime s \<and> list_all (addressed c) (by_outbox s) \<and>
     by_lastSent s \<in> {0, ELECTION_ID, AYA_ID, IAA_ID, COORD_ID} \<and>
     (by_lastSent s = 0 \<and> by_lastReceived s = ELECTION_ID \<longrightarrow> higher_ranks c = [] \<and> lower_ranks c = [])"

lemma addressed_sends [simp]:
  "list_all (addressed c) (sends flags ELECTION_ID d n (higher_ranks c))"
  "list_all (addressed c) (sends flags COORD_ID d n (lower_ranks c))"
  "k \<in> {AYA_ID, IAA_ID, ANSWER_ID} \<Longrightarrow> list_all (addressed c) (sends flags k d n is)"
  by (auto simp: list_all_iff addressed_def dest: sends_mem)

lemma addressed_one [simp]:
  "k \<in> {AYA_ID, IAA_ID, ANSWER_ID} \<Longrightarrow> addressed c \<lparr>bm_dest = i, bm_tag = k, bm_buffer = (k, d), bm_done = b\<rparr>"
  by (auto simp: addressed_def)

lemma after_sends_fields [simp]:
  "by_dlcTime (after_sends c flags k is s) = by_dlcTime s + int (length is)"
  "by_outbox (after_sends c flags k is s) = by_outbox s @ sends flags k (by_dlcTime s) (length (by_outbox s)) is"
  "by_lastSent (after_sends c flags k is s) = by_lastSent s"
  "by_lastReceived (after_sends c flags k is s) = by_lastReceived s"
  "by_tick (after_sends c flags k is s) = by_tick s" "by_AYATick (after_sends c flags k is s) = by_AYATick s"
  "by_AYARate (after_sends c flags k is s) = by_AYARate s" "by_coordNode (after_sends c flags k is s) = by_coordNode s"
  "by_coordDead (after_sends c flags k is s) = by_coordDead s" "by_sbuffer (after_sends c flags k is s) = by_sbuffer s"
  by (simp_all add: after_sends_def)

lemma by_print_fields [simp]:
  "by_lastSent (by_print ls s) = by_lastSent s" "by_lastReceived (by_print ls s) = by_lastReceived s"
  "by_tick (by_print ls s) = by_tick s" "by_AYATick (by_print ls s) = by_AYATick s"
  "by_AYARate (by_print ls s) = by_AYARate s" "by_coordNode (by_print ls s) = by_coordNode s"
  "by_coordDead (by_print ls s) = by_coordDead s" "by_sbuffer (by_print ls s) = by_sbuffer s"
  "by_deadTime (by_print ls s) = by_deadTime s"
  by (simp_all add: by_print_def)

lemma by_debug_fields [simp]:
  "by_lastSent (by_debug c l s) = by_lastSent s" "by_lastReceived (by_debug c l s) = by_lastReceived s"
  "by_tick (by_debug c l s) = by_tick s" "by_AYATick (by_debug c l s) = by_AYATick s"
  "by_AYARate (by_debug c l s) = by_AYARate s" "by_coordNode (by_debug c l s) = by_coordNode s"
  "by_coordDead (by_debug c l s) = by_coordDead s" "by_sbuffer (by_debug c l s) = by_sbuffer s"
  "by_deadTime (by_debug c l s) = by_deadTime s"
  by (simp_all add: by_debug_def)

lemma by_isend_fields [simp]:
  "by_lastSent (by_isend c flags k i s) = by_lastSent s" "by_lastReceived (by_isend c flags k i s) = by_lastReceived s"
  "by_tick (by_isend c flags k i s) = by_tick s" "by_coordNode (by_isend c flags k i s) = by_coordNode s"
  "by_coordDead (by_isend c flags k i s) = by_coordDead s" "by_sbuffer (by_isend c flags k i s) = by_sbuffer s"
  by (simp_all add: by_isend_def Let_def)

lemma by_heard_fields [simp]:
  "by_lastSent (by_heard c e s) = by_lastSent s" "by_lastReceived (by_heard c e s) = by_lastReceived s"
  "by_tick (by_heard c e s) = 0" "by_AYATick (by_heard c e s) = by_AYATick s" "by_AYARate (by_heard c e s) = by_AYARate s"
  "by_coordNode (by_heard c e s) = by_coordNode s" "by_coordDead (by_heard c e s) = by_coordDead s"
  "by_sbuffer (by_heard c e s) = by_sbuffer s"
  by (simp_all add: by_heard_def Let_def)

lemma by_timeout_ok: "by_ok c s \<Longrightarrow> out_all (by_ok c) (by_timeout c e s)"
  by (auto simp: by_timeout_def reset_timer_def by_ok_def elect_again_eq elect_higher_eq coord_lower_eq
      split: option.split)

lemma end_of_round_ok: "by_ok c s \<Longrightarrow> out_all (by_ok c) (end_of_round c e s)"
proof -
  assume ok: "by_ok c s"
  then have "by_ok c (by_debug c l s)" for l by (simp add: by_ok_def)
  from by_timeout_ok [OF this] ok show ?thesis
    unfolding end_of_round_def by (auto intro!: out_all_seq [where P = "by_ok c"])
qed

lemma handle_clock_tick_ok: "by_ok c s \<Longrightarrow> out_all (by_ok c) (handle_clock_tick c e s)"
  by (auto simp: handle_clock_tick_def Let_def by_ok_def by_send_eq)

lemma by_handleElect_ok: "by_ok c s \<Longrightarrow> out_all (by_ok c) (by_handleElect c e s)"
  by (auto simp: by_handleElect_def Let_def by_ok_def by_send_eq elect_higher_eq coord_lower_eq)

lemma dead_check_ok: "by_ok c s \<Longrightarrow> by_ok c (dead_check c e now s)"
  by (auto simp: dead_check_def Let_def by_ok_def)

lemma by_handleAYA_ok:
  assumes "by_ok c s"
  shows "out_all (by_ok c) (by_handleAYA c e s)"
proof -
  let ?t = "s\<lparr>by_lastReceived := AYA_ID, by_lastSent := IAA_ID, by_dlcTime := by_dlcTime s + 1\<rparr>"
  have "by_ok c (by_isend c flags IAA_ID i (?t\<lparr>by_deadTime := d\<rparr>))"
    and "by_ok c ((by_print ls ?t)\<lparr>by_coordDead := True, by_deadTime := d\<rparr>)" for flags i d ls
    using assms by (auto simp: by_ok_def)
  then show ?thesis unfolding by_handleAYA_def advance_def by (simp add: dead_check_ok)
qed

lemma handleAnswer_ok: "by_ok c s \<Longrightarrow> by_ok c (handleAnswer s)"
  by (auto simp: handleAnswer_def by_ok_def)

lemma handle_node_msg_ok: "by_ok c s \<Longrightarrow> out_all (by_ok c) (handle_node_msg c e s)"
proof -
  assume "by_ok c s"
  then have "by_ok c (by_heard c e s)" by (auto simp: by_ok_def heard_core)
  moreover from this have "by_ok c ((by_heard c e s)\<lparr>by_lastReceived := COORD_ID, by_coordNode := be_source e\<rparr>)"
    "by_ok c ((by_heard c e s)\<lparr>by_lastReceived := IAA_ID\<rparr>)"
    by (auto simp: by_ok_def)
  ultimately show ?thesis unfolding handle_node_msg_def Let_def
    by (simp add: by_handleElect_ok by_handleAYA_ok handleAnswer_ok)
qed

lemma by_step_ok: "by_ok c s \<Longrightarrow> out_all (by_ok c) (by_step c e s)"
proof -
  assume "by_ok c s"
  then have "by_ok c (by_receive e s)" by (simp add: by_ok_def by_receive_def)
  then have "out_all (by_ok c) (if by_coordDead (by_receive e s) then Running (dead_check c e (be_times e 0) (by_receive e s))
      else if be_tag e = CLOCK_ID then handle_clock_tick c e (by_receive e s) else handle_node_msg c e (by_receive e s))"
    by (simp add: dead_check_ok handle_clock_tick_ok handle_node_msg_ok)
  then show ?thesis unfolding by_step_def Let_def
    by (rule out_all_seq) (simp_all add: end_of_round_ok)
qed

interpretation bully_machine: machine "by_step c" "by_ok c" for c
  by unfold_locales (rule by_step_ok)

end
