(* ===== verification/BullyElection.thy ===== *)
theory BullyElection
  imports BullyProps
begin

text \<open>
  The election on FG-MPI: logical time, the invariant along a run, the reasons for a COORD message, the
  reply to an ELECTION message, and an election from the first message to the last.
\<close>

subsection \<open>Runs\<close>

lemma by_init_ok: "by_ok c (by_init sb)"
  by (simp add: by_ok_def by_init_def)

lemma by_start_ok: "out_all (by_ok c) (by_start c sb)"
  by (auto simp: by_start_def elect_higher_eq by_init_def by_ok_def)

lemma by_start_le: "out_all (by_le (by_init sb)) (by_start c sb)"
  by (simp add: by_start_def elect_higher_le)

lemma handleNode_le: "out_all (by_le (by_init sb)) (handleNode c sb es)"
  unfolding handleNode_def by (intro by_le_seq by_start_le bully_growing.run_le)

text \<open>Along any run of a node the messages it sends carry strictly increasing times.\<close>

theorem lamport_increases:
  "case handleNode c sb es of
     Undefined \<Rightarrow> True
   | Running t \<Rightarrow> sorted_wrt (<) (map bm_time (by_outbox t)) \<and> (\<forall>m\<in>set (by_outbox t). 0 < bm_time m \<and> bm_time m \<le> by_dlcTime t)
   | Exited t \<Rightarrow> sorted_wrt (<) (map bm_time (by_outbox t)) \<and> (\<forall>m\<in>set (by_outbox t). 0 < bm_time m \<and> bm_time m \<le> by_dlcTime t)"
  using handleNode_le [of sb c es] by (cases "handleNode c sb es") (auto simp: by_le_def by_init_def)

text \<open>A message that a live node handles moves the clock to its time before anything is sent.\<close>

lemma heard_step:
  assumes "\<not> by_coordDead s" and "be_tag e \<noteq> CLOCK_ID" and "be_second e = Some d"
  shows "out_all (by_le (s\<lparr>by_dlcTime := max d (by_dlcTime s)\<rparr>)) (by_step c e s)"
proof -
  let ?h = "by_heard c e (by_receive e s)"
  have h: "by_dlcTime ?h = max d (by_dlcTime s)" "by_outbox ?h = by_outbox s"
    using assms(3) by (simp_all add: heard_core by_receive_def)
  have "out_all (by_le ?h) (by_step c e s)"
    using assms(1,2) unfolding by_step_def Let_def
    by (intro by_le_seq) (auto simp: by_receive_def handle_heard_le end_of_round_le)
  then show ?thesis by (rule by_le_before [rotated 2]) (simp_all add: h)
qed

text \<open>
  C30: logical time follows the order of events.  Take any run of a node and any message of another
  node in it that the node handles, that is one that arrives while the node is not dead.  Everything
  the node sends from then on, in answer to the message or after any later messages, clock ticks and
  timeouts, carries a later time than that message, and the times of all messages the node sends
  along the run increase strictly.  A message discarded by a dead node does not move its clock and
  is not meant here.
\<close>

theorem received_before_sent:
  assumes "handleNode c sb es = Running s" and "\<not> by_coordDead s" and "be_tag e \<noteq> CLOCK_ID" and "be_second e = Some d"
  shows "out_all (\<lambda>t. \<exists>more. by_outbox t = by_outbox s @ more \<and> (\<forall>m\<in>set more. d < bm_time m) \<and>
      sorted_wrt (<) (map bm_time (by_outbox t)))
    (handleNode c sb (es @ e # es'))"
proof -
  let ?h = "s\<lparr>by_dlcTime := max d (by_dlcTime s)\<rparr>"
  have run: "handleNode c sb (es @ e # es') = seq (by_step c e s) (run (by_step c) es')"
  proof -
    obtain s0 where "by_start c sb = Running s0" "run (by_step c) es s0 = Running s"
      using assms(1) unfolding handleNode_def by (cases "by_start c sb") simp_all
    then show ?thesis by (simp add: handleNode_def run_append)
  qed
  have "out_all (by_le ?h) (handleNode c sb (es @ e # es'))"
    unfolding run by (rule by_le_seq [OF heard_step [OF assms(2-4)]]) (rule bully_growing.run_le)
  moreover have "out_all (by_le (by_init sb)) (handleNode c sb (es @ e # es'))" by (rule handleNode_le)
  ultimately have "out_all (\<lambda>t. by_le ?h t \<and> by_le (by_init sb) t) (handleNode c sb (es @ e # es'))"
    by (cases "handleNode c sb (es @ e # es')") simp_all
  then show ?thesis
    by (rule out_all_mono) (auto simp: by_le_def by_init_def)
qed

text \<open>The invariant of a node holds along every run: COORD goes to lower ranks only, ELECTION to higher
  ranks only, and the state that line 392 asks for, no message owed after an ELECTION, occurs only
  where line 393 has no node to send to.\<close>

theorem bully_invariant:
  "case handleNode c sb es of Undefined \<Rightarrow> True | Running t \<Rightarrow> by_ok c t | Exited t \<Rightarrow> by_ok c t"
proof -
  have "out_all (by_ok c) (handleNode c sb es)"
    unfolding handleNode_def
    by (rule out_all_seq [OF by_start_ok]) (rule bully_machine.run_inv, simp_all)
  then show ?thesis by (cases "handleNode c sb es") simp_all
qed

subsection \<open>Reasons for COORD\<close>

definition by_adds :: "(by_msg \<Rightarrow> bool) \<Rightarrow> by_state \<Rightarrow> by_state \<Rightarrow> bool" where
  "by_adds P s t \<longleftrightarrow> (\<exists>more. by_outbox t = by_outbox s @ more \<and> list_all P more)"

lemma by_adds_same: "by_outbox t = by_outbox s \<Longrightarrow> by_adds P s t"
  by (simp add: by_adds_def)

lemma by_adds_trans: "by_adds P s t \<Longrightarrow> by_adds P t u \<Longrightarrow> by_adds P s u"
  by (auto simp: by_adds_def)

lemma by_adds_cong: "by_outbox s' = by_outbox s \<Longrightarrow> by_adds P s' = by_adds P s"
  by (simp add: by_adds_def fun_eq_iff)

lemma by_adds_more: "by_outbox t = by_outbox s @ ms \<Longrightarrow> list_all P ms \<Longrightarrow> by_adds P s t"
  by (auto simp: by_adds_def)

definition no_coord :: "by_msg \<Rightarrow> bool" where
  "no_coord m \<longleftrightarrow> bm_tag m \<noteq> COORD_ID"

lemma no_coord_sends: "k \<noteq> COORD_ID \<Longrightarrow> list_all no_coord (sends flags k d n is)"
  by (auto simp: list_all_iff no_coord_def dest: sends_mem)

lemma timeout_adds:
  assumes "by_ok c s" and "by_lastSent s \<noteq> ELECTION_ID"
  shows "out_all (by_adds no_coord s) (by_timeout c e s)"
  using assms
  by (auto simp: by_timeout_def reset_timer_def by_ok_def elect_again_eq elect_higher_eq coord_lower_eq
      no_coord_sends by_adds_same by_adds_more split: option.split)


lemma round_adds:
  assumes "by_ok c s" and "by_lastSent s = ELECTION_ID \<Longrightarrow> by_tick s mod bc_timeoutValue c \<noteq> 0 \<or> by_tick s = 0"
  shows "out_all (by_adds no_coord s) (end_of_round c e s)"
proof -
  have timeout: "out_all (by_adds no_coord s) (by_timeout c e (by_debug c l s))" if "by_lastSent s \<noteq> ELECTION_ID" for l
  proof -
    have "by_ok c (by_debug c l s)" using assms(1) by (simp add: by_ok_def)
    from timeout_adds [OF this] that have "out_all (by_adds no_coord (by_debug c l s)) (by_timeout c e (by_debug c l s))"
      by simp
    then show ?thesis by (simp only: by_adds_cong [of "by_debug c l s" s] by_core)
  qed
  have fin: "out_all (by_adds no_coord s) m \<Longrightarrow>
      out_all (by_adds no_coord s) (seq m (\<lambda>s. if fst (by_sbuffer s) = TERMINATE then Exited s else Running s))" for m
    by (rule out_all_seq) simp_all
  show ?thesis
  proof (cases "by_tick s mod bc_timeoutValue c = 0 \<and> by_tick s \<noteq> 0")
    case True
    then show ?thesis using assms(2) fin [OF timeout] unfolding end_of_round_def by auto
  next
    case False
    then show ?thesis using fin [of "Running s"] unfolding end_of_round_def by (auto simp: by_adds_same)
  qed
qed

lemma clock_tick_adds:
  "out_all (\<lambda>t. by_adds no_coord s t \<and> by_tick t = by_tick s + 1 \<and> by_lastSent t \<in> {by_lastSent s, AYA_ID})
    (handle_clock_tick c e s)"
  by (auto simp: handle_clock_tick_def Let_def by_send_eq no_coord_def by_adds_same intro: by_adds_more)

lemma by_handleElect_eq:
  assumes "0 \<le> by_dlcTime s"
  shows "by_handleElect c e s =
    (if \<not> int_fits (by_dlcTime s + 1) then Undefined
     else let t = (after_sends c (be_done e) ANSWER_ID [be_source e] s)\<lparr>by_lastReceived := ELECTION_ID\<rparr>
          in if by_lastSent s = ELECTION_ID then Running t
             else if higher_ranks c \<noteq> [] then
               (if int_fits (by_dlcTime t + int (length (higher_ranks c)))
                then Running ((after_sends c (be_done e) ELECTION_ID (higher_ranks c) t)\<lparr>by_lastSent := ELECTION_ID\<rparr>)
                else Undefined)
             else if lower_ranks c \<noteq> [] then
               (if int_fits (by_dlcTime t + int (length (lower_ranks c)))
                then Running ((after_sends c (be_done e) COORD_ID (lower_ranks c) t)\<lparr>by_lastSent := COORD_ID\<rparr>)
                else Undefined)
             else Running (t\<lparr>by_lastSent := 0\<rparr>))"
  using assms
  by (simp add: by_handleElect_def Let_def by_send_eq elect_higher_eq coord_lower_eq)
    (simp add: after_sends_def)

lemma elect_adds:
  assumes "by_ok c s" and "by_lastSent s = ELECTION_ID \<or> higher_ranks c \<noteq> []"
  shows "out_all (\<lambda>t. by_adds no_coord s t \<and> by_tick t = by_tick s) (by_handleElect c e s)"
proof -
  have "0 \<le> by_dlcTime s" using assms(1) by (simp add: by_ok_def)
  moreover have "list_all no_coord (sends flags ELECTION_ID d n is)" "list_all no_coord (sends flags ANSWER_ID d n is)"
    for flags d n "is"
    by (simp_all add: no_coord_sends)
  moreover have "by_adds no_coord s t" if "by_outbox t = by_outbox s @ xs @ ys" "list_all no_coord xs" "list_all no_coord ys" for t xs ys
    using that by (simp add: by_adds_def)
  ultimately show ?thesis using assms(2)
    by (auto simp: by_handleElect_eq Let_def intro!: by_adds_more simp del: sends.simps)
qed

lemma aya_adds: "out_all (\<lambda>t. by_adds no_coord s t \<and> by_tick t = by_tick s) (by_handleAYA c e s)"
  by (auto simp: by_handleAYA_def advance_def no_coord_def by_adds_same dead_check_def Let_def intro!: by_adds_more)

lemma node_msg_adds:
  assumes "by_ok c s" and "be_tag e = ELECTION_ID \<Longrightarrow> by_lastSent s = ELECTION_ID \<or> higher_ranks c \<noteq> []"
  shows "out_all (\<lambda>t. by_adds no_coord s t \<and> by_tick t = 0) (handle_node_msg c e s)"
proof -
  let ?h = "by_heard c e s"
  have h: "by_ok c ?h" using assms(1) by (auto simp: by_ok_def heard_core)
  have eq: "by_adds no_coord ?h = by_adds no_coord s" by (simp add: by_adds_def heard_core fun_eq_iff)
  have same: "by_adds no_coord s t" if "by_outbox t = by_outbox ?h" for t using that by (simp add: by_adds_same heard_core)
  show ?thesis
  proof (cases "be_tag e = ELECTION_ID")
    case True
    with elect_adds [OF h, of e] assms(2) eq show ?thesis by (simp add: handle_node_msg_def)
  next
    case False
    with aya_adds [of ?h c e] eq show ?thesis
      by (simp add: handle_node_msg_def Let_def same) (simp add: handleAnswer_def)
  qed
qed

text \<open>C29: a node announces itself only on an ELECTION message that it does not pass on, because there
  is no higher rank and it awaits no answer itself, or at a timeout of an election of its own.\<close>

theorem coord_reasons:
  assumes "by_ok c s" and "\<not> by_coordDead s"
    and "\<not> (be_tag e = ELECTION_ID \<and> higher_ranks c = [] \<and> by_lastSent s \<noteq> ELECTION_ID)"
    and "\<not> (be_tag e = CLOCK_ID \<and> by_lastSent s = ELECTION_ID \<and> (by_tick s + 1) mod bc_timeoutValue c = 0)"
  shows "out_all (\<lambda>t. \<exists>ms. by_outbox t = by_outbox s @ ms \<and> (\<forall>m\<in>set ms. bm_tag m \<noteq> COORD_ID)) (by_step c e s)"
proof -
  let ?r = "by_receive e s" and ?m = "if be_tag e = CLOCK_ID then handle_clock_tick c e (by_receive e s)
      else handle_node_msg c e (by_receive e s)"
  have r: "by_outbox ?r = by_outbox s" "by_tick ?r = by_tick s" "by_lastSent ?r = by_lastSent s" "\<not> by_coordDead ?r"
    using assms(2) by (simp_all add: by_receive_def)
  have ok: "by_ok c ?r" using assms(1) by (simp add: by_ok_def by_receive_def)
  let ?Q = "\<lambda>t. by_adds no_coord ?r t \<and> by_ok c t \<and>
    (by_lastSent t = ELECTION_ID \<longrightarrow> by_tick t mod bc_timeoutValue c \<noteq> 0 \<or> by_tick t = 0)"
  have "out_all ?Q ?m"
  proof (cases "be_tag e = CLOCK_ID")
    case True
    with clock_tick_adds [of ?r c e] handle_clock_tick_ok [OF ok, of e] assms(4) r show ?thesis
      by (cases "handle_clock_tick c e ?r") auto
  next
    case False
    with node_msg_adds [OF ok, of e] handle_node_msg_ok [OF ok, of e] assms(3) r show ?thesis
      by (cases "handle_node_msg c e ?r") auto
  qed
  then have "out_all (by_adds no_coord ?r) (seq ?m (\<lambda>s. if by_coordDead s then Running s else end_of_round c e s))"
  proof (rule out_all_seq)
    fix t
    assume "?Q t"
    then show "out_all (by_adds no_coord ?r) (if by_coordDead t then Running t else end_of_round c e t)"
      using round_adds [of c t e] by (auto elim!: out_all_mono intro: by_adds_trans)
  qed simp
  then have "out_all (by_adds no_coord ?r) (by_step c e s)" using r unfolding by_step_def Let_def by simp
  then show ?thesis using r by (auto elim!: out_all_mono simp: by_adds_def list_all_iff no_coord_def)
qed


subsection \<open>The reply to ELECTION\<close>

lemma end_of_round_quiet:
  assumes "bc_timeoutValue c \<noteq> 0" and "by_tick s mod bc_timeoutValue c \<noteq> 0 \<or> by_tick s = 0"
    and "fst (by_sbuffer s) \<noteq> TERMINATE"
  shows "end_of_round c e s = Running s"
  using assms unfolding end_of_round_def by auto

text \<open>What a node that is alive sends on an ELECTION message, with the times of its clock.\<close>

definition elect_reply :: "by_conf \<Rightarrow> by_event \<Rightarrow> int \<Rightarrow> by_state \<Rightarrow> by_msg list" where
  "elect_reply c e d s =
     (let n = length (by_outbox s) in
      sends (be_done e) ANSWER_ID d n [be_source e] @
      (if by_lastSent s = ELECTION_ID then []
       else if higher_ranks c \<noteq> [] then sends (be_done e) ELECTION_ID (d + 1) (Suc n) (higher_ranks c)
       else sends (be_done e) COORD_ID (d + 1) (Suc n) (lower_ranks c)))"

lemma rank_lengths:
  "1 \<le> bc_rank c \<Longrightarrow> bc_rank c < bc_size c \<Longrightarrow> int (length (higher_ranks c)) < bc_size c"
  "1 \<le> bc_rank c \<Longrightarrow> bc_rank c < bc_size c \<Longrightarrow> int (length (lower_ranks c)) < bc_size c"
  by (simp_all add: higher_ranks_def lower_ranks_def)

lemma fitsI: "0 \<le> x \<Longrightarrow> x < 2 ^ 31 \<Longrightarrow> int_fits x"
  by (simp add: int_fits_def)

lemma elect_step:
  assumes "by_ok c s" and "\<not> by_coordDead s" and "be_tag e = ELECTION_ID" and "be_first e = ELECTION_ID"
    and "be_second e = Some d" and "bc_timeoutValue c \<noteq> 0" and "1 \<le> bc_rank c" and "bc_rank c < bc_size c"
    and "max d (by_dlcTime s) + bc_size c < 2 ^ 31"
  shows "\<exists>t. by_step c e s = Running t \<and> \<not> by_coordDead t \<and> by_tick t = 0 \<and> by_coordNode t = by_coordNode s \<and>
    by_outbox t = by_outbox s @ elect_reply c e (max d (by_dlcTime s)) s \<and> by_lastReceived t = ELECTION_ID \<and>
    by_lastSent t = (if by_lastSent s = ELECTION_ID \<or> higher_ranks c \<noteq> [] then ELECTION_ID
                     else if lower_ranks c \<noteq> [] then COORD_ID else 0)"
proof -
  let ?r = "by_receive e s" and ?h = "by_heard c e (by_receive e s)" and ?d = "max d (by_dlcTime s)"
  have h: "by_dlcTime ?h = ?d" "by_outbox ?h = by_outbox s" "by_lastSent ?h = by_lastSent s"
    "by_coordDead ?h = False" "fst (by_sbuffer ?h) = ELECTION_ID" "by_coordNode ?h = by_coordNode s"
    using assms(2,4,5) by (simp_all add: heard_core by_receive_def)
  have nonneg: "0 \<le> ?d" using assms(1) by (auto simp: by_ok_def)
  then have fits: "int_fits (?d + 1)" "int_fits (?d + 1 + int (length (higher_ranks c)))"
      "int_fits (?d + 1 + int (length (lower_ranks c)))"
    using rank_lengths [OF assms(7,8)] assms(7,8,9) by (auto intro!: fitsI simp del: max_less_iff_conj)
  have eq: "by_handleElect c e ?h = Running (if by_lastSent s = ELECTION_ID
        then (after_sends c (be_done e) ANSWER_ID [be_source e] ?h)\<lparr>by_lastReceived := ELECTION_ID\<rparr>
      else if higher_ranks c \<noteq> [] then (after_sends c (be_done e) ELECTION_ID (higher_ranks c)
          ((after_sends c (be_done e) ANSWER_ID [be_source e] ?h)\<lparr>by_lastReceived := ELECTION_ID\<rparr>))\<lparr>by_lastSent := ELECTION_ID\<rparr>
      else if lower_ranks c \<noteq> [] then (after_sends c (be_done e) COORD_ID (lower_ranks c)
          ((after_sends c (be_done e) ANSWER_ID [be_source e] ?h)\<lparr>by_lastReceived := ELECTION_ID\<rparr>))\<lparr>by_lastSent := COORD_ID\<rparr>
      else (after_sends c (be_done e) ANSWER_ID [be_source e] ?h)\<lparr>by_lastReceived := ELECTION_ID, by_lastSent := 0\<rparr>)"
    (is "_ = Running ?t")
    using by_handleElect_eq [of ?h c e] nonneg fits h by (simp add: Let_def)
  have "\<not> by_coordDead ?t" "by_tick ?t = 0" "by_coordNode ?t = by_coordNode s" "fst (by_sbuffer ?t) = ELECTION_ID"
      "by_outbox ?t = by_outbox s @ elect_reply c e ?d s" "by_lastReceived ?t = ELECTION_ID"
      "by_lastSent ?t = (if by_lastSent s = ELECTION_ID \<or> higher_ranks c \<noteq> [] then ELECTION_ID
                        else if lower_ranks c \<noteq> [] then COORD_ID else 0)"
    using h by (auto simp: elect_reply_def Let_def)
  then obtain t where "by_handleElect c e ?h = Running t"
    and "\<not> by_coordDead t" "by_tick t = 0" "by_coordNode t = by_coordNode s" "fst (by_sbuffer t) = ELECTION_ID"
      "by_outbox t = by_outbox s @ elect_reply c e ?d s" "by_lastReceived t = ELECTION_ID"
      "by_lastSent t = (if by_lastSent s = ELECTION_ID \<or> higher_ranks c \<noteq> [] then ELECTION_ID
                        else if lower_ranks c \<noteq> [] then COORD_ID else 0)"
    using eq by blast
  moreover from this assms(6) have "end_of_round c e t = Running t" by (intro end_of_round_quiet) simp_all
  moreover have "by_step c e s = seq (by_handleElect c e ?h) (\<lambda>s. if by_coordDead s then Running s else end_of_round c e s)"
    using assms(2,3) by (simp add: by_step_def Let_def handle_node_msg_def by_receive_def)
  ultimately show ?thesis by simp
qed


text \<open>A node that is alive answers an ELECTION message; then it passes the election on to the higher
  ranks, unless it awaits an answer itself, or announces itself to the lower ranks if there is no
  higher one.  Times count on from the later of the two clocks.\<close>

theorem elect_passed_on:
  assumes "by_ok c s" and "\<not> by_coordDead s" and "be_tag e = ELECTION_ID" and "be_first e = ELECTION_ID"
    and "be_second e = Some d" and "bc_timeoutValue c \<noteq> 0" and "1 \<le> bc_rank c" and "bc_rank c < bc_size c"
    and "max d (by_dlcTime s) + bc_size c < 2 ^ 31"
  shows "\<exists>t. by_step c e s = Running t \<and> by_outbox t = by_outbox s @ elect_reply c e (max d (by_dlcTime s)) s \<and>
    by_lastReceived t = ELECTION_ID \<and> by_coordNode t = by_coordNode s \<and>
    by_lastSent t = (if by_lastSent s = ELECTION_ID \<or> higher_ranks c \<noteq> [] then ELECTION_ID
                     else if lower_ranks c \<noteq> [] then COORD_ID else 0)"
  using elect_step [OF assms] by blast

definition demo_conf :: "int \<Rightarrow> by_conf" where
  "demo_conf r = \<lparr>bc_size = 4, bc_rank = r, bc_isDebug = False, bc_timeoutValue = 5, bc_AYATime = 3,
     bc_sendFailure = 10, bc_returnToLife = 20\<rparr>"

definition demo_event :: "int \<Rightarrow> int \<Rightarrow> int \<Rightarrow> by_event" where
  "demo_event src tag time = \<lparr>be_source = src, be_tag = tag, be_first = tag, be_second = Some time,
     be_random = 50, be_times = (\<lambda>n. 7), be_done = (\<lambda>n. True)\<rparr>"

theorem received_before_sent_witness:
  "out_all (\<lambda>t. \<exists>more. by_outbox t = by_outbox (by_init (0, 0)) @ more \<and> (\<forall>m\<in>set more. 4 < bm_time m) \<and>
      sorted_wrt (<) (map bm_time (by_outbox t)))
    (handleNode (demo_conf 2) (0, 0) ([] @ demo_event 1 ELECTION_ID 4 # replicate 12 (demo_event 0 CLOCK_ID 0)))"
  by (rule received_before_sent)
    (simp_all add: handleNode_def by_start_def demo_conf_def by_init_def demo_event_def)

theorem coord_reasons_witness:
  "out_all (\<lambda>t. \<exists>ms. by_outbox t = by_outbox (by_init (0, 0)) @ ms \<and> (\<forall>m\<in>set ms. bm_tag m \<noteq> COORD_ID))
    (by_step (demo_conf 2) (demo_event 1 ELECTION_ID 4) (by_init (0, 0)))"
  by (rule coord_reasons [OF by_init_ok]) (simp_all add: by_init_def demo_event_def higher_ranks_def demo_conf_def)

theorem elect_passed_on_witness:
  "\<exists>t. by_step (demo_conf 2) (demo_event 1 ELECTION_ID 4) (by_init (0, 0)) = Running t \<and>
    map (\<lambda>m. (bm_dest m, bm_tag m, bm_time m)) (by_outbox t) = [(1, ANSWER_ID, 5), (3, ELECTION_ID, 6)]"
proof -
  have "elect_reply (demo_conf 2) (demo_event 1 ELECTION_ID 4) (max 4 (by_dlcTime (by_init (0, 0)))) (by_init (0, 0)) =
    [\<lparr>bm_dest = 1, bm_tag = ANSWER_ID, bm_buffer = (ANSWER_ID, 5), bm_done = True\<rparr>,
     \<lparr>bm_dest = 3, bm_tag = ELECTION_ID, bm_buffer = (ELECTION_ID, 6), bm_done = True\<rparr>]"
    by (simp add: elect_reply_def demo_conf_def demo_event_def by_init_def higher_ranks_def Let_def)
  moreover have "\<exists>t. by_step (demo_conf 2) (demo_event 1 ELECTION_ID 4) (by_init (0, 0)) = Running t \<and>
      by_outbox t = by_outbox (by_init (0, 0)) @
        elect_reply (demo_conf 2) (demo_event 1 ELECTION_ID 4) (max 4 (by_dlcTime (by_init (0, 0)))) (by_init (0, 0))"
    using elect_passed_on [of "demo_conf 2" "by_init (0, 0)" "demo_event 1 ELECTION_ID 4" 4] by_init_ok
    by (auto simp: demo_conf_def demo_event_def by_init_def)
  moreover have "by_outbox (by_init (0, 0)) = []" by (simp add: by_init_def)
  ultimately show ?thesis by fastforce
qed

subsection \<open>An election\<close>

text \<open>The event of the node that receives message \<open>m\<close> of \<open>source\<close>.\<close>

definition delivers :: "by_event \<Rightarrow> int \<Rightarrow> by_msg \<Rightarrow> bool" where
  "delivers e source m \<longleftrightarrow> be_source e = source \<and> be_tag e = bm_tag m \<and> be_first e = fst (bm_buffer m) \<and>
     be_second e = Some (bm_time m)"

lemma hears_coord:
  assumes "\<not> by_coordDead s" and "be_tag e = COORD_ID" and "be_first e = COORD_ID" and "bc_timeoutValue c \<noteq> 0"
  shows "\<exists>t. by_step c e s = Running t \<and> by_coordNode t = be_source e \<and> by_lastReceived t = COORD_ID \<and> by_outbox t = by_outbox s"
proof -
  let ?t = "(by_heard c e (by_receive e s))\<lparr>by_lastReceived := COORD_ID, by_coordNode := be_source e\<rparr>"
  have "by_coordDead ?t = False" "by_tick ?t = 0" "fst (by_sbuffer ?t) = COORD_ID"
    using assms(1,3) by (simp_all add: by_receive_def)
  moreover have "end_of_round c e ?t = Running ?t" using calculation assms(4) by (intro end_of_round_quiet) simp_all
  moreover have "by_step c e s = seq (Running ?t) (\<lambda>s. if by_coordDead s then Running s else end_of_round c e s)"
    using assms(1,2) by (simp add: by_step_def Let_def handle_node_msg_def by_receive_def)
  ultimately have "by_step c e s = Running ?t" by simp
  then show ?thesis by (simp add: heard_core by_receive_def)
qed

text \<open>Every node that is alive when it receives \<open>k\<close> from node \<open>n\<close> takes \<open>n\<close> for its coordinator.\<close>

definition accepted :: "int \<Rightarrow> by_msg \<Rightarrow> bool" where
  "accepted n k \<longleftrightarrow> (\<forall>c s e. \<not> by_coordDead s \<and> bc_timeoutValue c \<noteq> 0 \<and> delivers e n k \<longrightarrow>
     (\<exists>t. by_step c e s = Running t \<and> by_coordNode t = n))"

text \<open>C12: node 1 calls the election when it starts.  The node with the highest rank, on receiving the
  call, answers and sends COORD to every other node, later in logical time than the call; and every
  node that is alive when it receives this message takes the highest rank for its coordinator.\<close>

theorem election_agrees:
  assumes low: "bc_rank c1 = 1" "bc_size c1 = sz"
    and top: "bc_rank ch = sz - 1" "bc_size ch = sz" "bc_timeoutValue ch \<noteq> 0"
    and sz: "2 < sz" "sz < 2 ^ 29"
  shows "\<exists>s1 m. by_start c1 sb1 = Running s1 \<and> m \<in> set (by_outbox s1) \<and> bm_dest m = sz - 1 \<and> bm_tag m = ELECTION_ID \<and>
    (\<forall>e. delivers e 1 m \<longrightarrow> (\<exists>h. by_step ch e (by_init sbh) = Running h \<and>
      map (\<lambda>k. (bm_dest k, bm_tag k)) (by_outbox h) = (1, ANSWER_ID) # map (\<lambda>i. (i, COORD_ID)) [1 .. sz - 2] \<and>
      (\<forall>k\<in>set (by_outbox h). bm_time m < bm_time k \<and>
        (bm_tag k = COORD_ID \<longrightarrow> accepted (sz - 1) k))))"
proof -
  let ?calls = "sends (\<lambda>_. True) ELECTION_ID 0 0 (higher_ranks c1)"
  have hi: "higher_ranks c1 = [2 .. sz - 1]" "higher_ranks ch = []" "lower_ranks ch = [1 .. sz - 2]"
    using low top by (simp_all add: higher_ranks_def lower_ranks_def)
  have "int_fits (int (length (higher_ranks c1)))" using sz by (simp add: hi int_fits_def)
  then obtain s1 where s1: "by_start c1 sb1 = Running s1" "by_outbox s1 = ?calls"
    using low sz by (simp add: by_start_def elect_higher_eq by_init_def hi)
  have "sz - 1 \<in> set (map bm_dest ?calls)" using sz by (simp only: sends_dests hi) simp
  then obtain m where m: "m \<in> set ?calls" "bm_dest m = sz - 1" by auto
  then have mk: "bm_tag m = ELECTION_ID" "fst (bm_buffer m) = ELECTION_ID" "0 < bm_time m" "bm_time m \<le> sz"
    using sends_mem [OF m(1)] sends_time [OF m(1)] sz by (auto simp: hi)
  have lead: "\<exists>h. by_step ch e (by_init sbh) = Running h \<and>
      by_outbox h = sends (be_done e) ANSWER_ID (bm_time m) 0 [1] @ sends (be_done e) COORD_ID (bm_time m + 1) 1 [1 .. sz - 2]"
    if e: "delivers e 1 m" for e
  proof -
    have "\<exists>h. by_step ch e (by_init sbh) = Running h \<and>
        by_outbox h = by_outbox (by_init sbh) @ elect_reply ch e (max (bm_time m) (by_dlcTime (by_init sbh))) (by_init sbh)"
      using elect_step [of ch "by_init sbh" e "bm_time m"] by_init_ok e top sz mk
      by (auto simp: delivers_def by_init_def)
    then show ?thesis using e mk hi by (auto simp: elect_reply_def by_init_def delivers_def Let_def)
  qed
  have later: "bm_time m < bm_time k" if "k \<in> set (sends f ANSWER_ID (bm_time m) 0 [1] @ sends f COORD_ID (bm_time m + 1) 1 is)"
    for k f "is"
    using that by (auto dest!: sends_time)
  have kinds: "map (\<lambda>k. (bm_dest k, bm_tag k)) (sends f k d n is) = map (\<lambda>i. (i, k)) is" for f k d n "is"
    by (induction "is" arbitrary: d n) simp_all
  have coord: "accepted (sz - 1) k" if "bm_tag k = COORD_ID" "fst (bm_buffer k) = bm_tag k" for k
    using hears_coord that unfolding delivers_def accepted_def by metis
  have "\<forall>e. delivers e 1 m \<longrightarrow> (\<exists>h. by_step ch e (by_init sbh) = Running h \<and>
      map (\<lambda>k. (bm_dest k, bm_tag k)) (by_outbox h) = (1, ANSWER_ID) # map (\<lambda>i. (i, COORD_ID)) [1 .. sz - 2] \<and>
      (\<forall>k\<in>set (by_outbox h). bm_time m < bm_time k \<and>
        (bm_tag k = COORD_ID \<longrightarrow> accepted (sz - 1) k)))"
  proof (intro allI impI)
    fix e
    assume "delivers e 1 m"
    from lead [OF this] obtain h where h: "by_step ch e (by_init sbh) = Running h"
      "by_outbox h = sends (be_done e) ANSWER_ID (bm_time m) 0 [1] @ sends (be_done e) COORD_ID (bm_time m + 1) 1 [1 .. sz - 2]"
      by blast
    have "fst (bm_buffer k) = bm_tag k" if "k \<in> set (by_outbox h)" for k
      using that unfolding h(2) by (auto dest: sends_mem)
    with later coord have "\<forall>k\<in>set (by_outbox h). bm_time m < bm_time k \<and>
        (bm_tag k = COORD_ID \<longrightarrow> accepted (sz - 1) k)"
      unfolding h(2) by blast
    moreover have "map (\<lambda>k. (bm_dest k, bm_tag k)) (by_outbox h) = (1, ANSWER_ID) # map (\<lambda>i. (i, COORD_ID)) [1 .. sz - 2]"
      unfolding h(2) map_append kinds by simp
    ultimately show "\<exists>h. by_step ch e (by_init sbh) = Running h \<and>
      map (\<lambda>k. (bm_dest k, bm_tag k)) (by_outbox h) = (1, ANSWER_ID) # map (\<lambda>i. (i, COORD_ID)) [1 .. sz - 2] \<and>
      (\<forall>k\<in>set (by_outbox h). bm_time m < bm_time k \<and>
        (bm_tag k = COORD_ID \<longrightarrow> accepted (sz - 1) k))"
      using h(1) by (intro exI [of _ h] conjI)
  qed
  moreover have "m \<in> set (by_outbox s1)" using m(1) s1(2) by simp
  ultimately show ?thesis using s1(1) m(2) mk(1) by (intro exI conjI)
qed

theorem election_agrees_witness:
  "\<exists>s1 m. by_start (demo_conf 1) (0, 0) = Running s1 \<and> m \<in> set (by_outbox s1) \<and> bm_dest m = 4 - 1 \<and> bm_tag m = ELECTION_ID"
proof -
  have c: "bc_rank (demo_conf 1) = 1" "bc_size (demo_conf 1) = 4" "bc_rank (demo_conf 3) = 4 - 1" "bc_size (demo_conf 3) = 4"
    "bc_timeoutValue (demo_conf 3) \<noteq> 0" "2 < (4 :: int)" "(4 :: int) < 2 ^ 29"
    by (simp_all add: demo_conf_def)
  from election_agrees [OF c, of "(0, 0)" "(0, 0)"] show ?thesis by blast
qed

end
