(* ===== verification/BullyFaults.thy ===== *)
theory BullyFaults
  imports BullyElection
begin

text \<open>
  Clock ticks, timeouts and death of the nodes on FG-MPI: what a node that is dead or back to life
  does, when an election is called again, and a coordinator that is declared dead although it has answered.
\<close>

subsection \<open>Clock ticks\<close>

definition is_tick :: "by_event \<Rightarrow> bool" where
  "is_tick e \<longleftrightarrow> be_tag e = CLOCK_ID \<and> be_first e = CLOCK_ID"

text \<open>What a tick without consequences leaves alone.\<close>

definition idle :: "by_state \<Rightarrow> by_state \<Rightarrow> bool" where
  "idle s t \<longleftrightarrow> by_dlcTime t = by_dlcTime s \<and> by_outbox t = by_outbox s \<and> by_lastSent t = by_lastSent s \<and>
     by_lastReceived t = by_lastReceived s \<and> by_AYARate t = by_AYARate s \<and> by_coordNode t = by_coordNode s \<and>
     by_coordDead t = by_coordDead s"

lemma idle_trans: "idle s t \<Longrightarrow> idle t u \<Longrightarrow> idle s u"
  by (simp add: idle_def)

definition aya_due :: "by_state \<Rightarrow> int \<Rightarrow> bool" where
  "aya_due s j \<longleftrightarrow> (by_AYARate s = 0 \<or> (by_AYATick s + j) mod by_AYARate s = 0) \<and> by_coordNode s \<noteq> 0"

definition room :: "by_state \<Rightarrow> int \<Rightarrow> bool" where
  "room s n \<longleftrightarrow> 0 \<le> by_tick s \<and> 0 \<le> by_AYATick s \<and> by_tick s + n < 2 ^ 31 \<and> by_AYATick s + n < 2 ^ 31"

text \<open>A tick at which no AYA is due: the counters go up, then the timeout is looked at.\<close>

lemma tick_step:
  assumes "\<not> by_coordDead s" and "is_tick e" and "\<not> aya_due s 1" and "room s 1"
  obtains t where "by_step c e s = end_of_round c e t" and "idle s t" and "by_tick t = by_tick s + 1"
    and "by_AYATick t = by_AYATick s + 1" and "fst (by_sbuffer t) = CLOCK_ID" and "set (by_printed s) \<subseteq> set (by_printed t)"
proof -
  let ?r = "(by_receive e s)\<lparr>by_tick := by_tick s + 1, by_AYATick := by_AYATick s + 1\<rparr>"
  let ?t = "by_debug c (''[Debug] '' @ show_int (bc_rank c) @ '' GOTTA a message of contents '' @
      show_int (fst (by_sbuffer ?r)) @ ''. The clock has ticked '' @ show_int (by_tick ?r) @ '' times.'') ?r"
  have r: "by_tick (by_receive e s) = by_tick s" "by_AYATick (by_receive e s) = by_AYATick s"
    "by_AYARate (by_receive e s) = by_AYARate s" "by_coordNode (by_receive e s) = by_coordNode s"
    "by_coordDead (by_receive e s) = by_coordDead s" "fst (by_sbuffer (by_receive e s)) = be_first e"
    by (simp_all add: by_receive_def)
  have "handle_clock_tick c e (by_receive e s) = Running ?t"
    using assms(3,4) by (auto simp: handle_clock_tick_def Let_def r int_fits_def room_def aya_due_def)
  then have "by_step c e s = end_of_round c e ?t"
    using assms(1,2) by (simp add: by_step_def Let_def r is_tick_def)
  moreover have "idle s ?t" by (simp add: idle_def by_receive_def)
  moreover have "by_tick ?t = by_tick s + 1" "by_AYATick ?t = by_AYATick s + 1" "fst (by_sbuffer ?t) = CLOCK_ID"
    using assms(2) by (simp_all add: r is_tick_def)
  moreover have "set (by_printed s) \<subseteq> set (by_printed ?t)"
    by (auto simp: by_debug_def by_print_def by_receive_def)
  ultimately show ?thesis by (rule that)
qed

lemma quiet_ticks:
  "\<not> by_coordDead s \<Longrightarrow> list_all is_tick es \<Longrightarrow> room s (int (length es)) \<Longrightarrow> bc_timeoutValue c \<noteq> 0 \<Longrightarrow>
    (\<And>j. 1 \<le> j \<Longrightarrow> j \<le> int (length es) \<Longrightarrow> \<not> aya_due s j \<and> (by_tick s + j) mod bc_timeoutValue c \<noteq> 0) \<Longrightarrow>
    \<exists>t. run (by_step c) es s = Running t \<and> idle s t \<and> by_tick t = by_tick s + int (length es) \<and>
      by_AYATick t = by_AYATick s + int (length es)"
proof (induction es arbitrary: s)
  case Nil
  then show ?case by (simp add: idle_def)
next
  case (Cons e es)
  have one: "\<not> aya_due s 1" "(by_tick s + 1) mod bc_timeoutValue c \<noteq> 0" using Cons.prems(5) [of 1] by simp_all
  have "room s 1" "is_tick e" using Cons.prems(2,3) by (auto simp: room_def)
  with one(1) Cons.prems(1) obtain t where t: "by_step c e s = end_of_round c e t" "idle s t" "by_tick t = by_tick s + 1"
      "by_AYATick t = by_AYATick s + 1" "fst (by_sbuffer t) = CLOCK_ID"
    by (elim tick_step [of s e c])
  have "end_of_round c e t = Running t" using t one(2) Cons.prems(4) by (intro end_of_round_quiet) simp_all
  moreover have "\<exists>u. run (by_step c) es t = Running u \<and> idle t u \<and> by_tick u = by_tick t + int (length es) \<and>
      by_AYATick u = by_AYATick t + int (length es)"
  proof (rule Cons.IH)
    show "\<not> aya_due t j \<and> (by_tick t + j) mod bc_timeoutValue c \<noteq> 0" if "1 \<le> j" "j \<le> int (length es)" for j
      using Cons.prems(5) [of "j + 1"] that t by (simp add: aya_due_def idle_def algebra_simps)
  qed (use Cons.prems t in \<open>auto simp: idle_def room_def\<close>)
  ultimately show ?case using t by (auto intro: idle_trans)
qed

subsection \<open>A coordinator that has answered\<close>

lemma iaa_step:
  assumes "\<not> by_coordDead s" and "be_tag e = IAA_ID" and "be_first e = IAA_ID" and "be_second e = Some d"
    and "bc_timeoutValue c \<noteq> 0"
  shows "\<exists>t. by_step c e s = Running t \<and> by_tick t = 0 \<and> by_AYATick t = by_AYATick s \<and> by_lastReceived t = IAA_ID \<and>
    by_lastSent t = by_lastSent s \<and> by_AYARate t = by_AYARate s \<and> by_coordNode t = by_coordNode s \<and> \<not> by_coordDead t \<and>
    by_outbox t = by_outbox s \<and> by_dlcTime t = max d (by_dlcTime s)"
proof -
  let ?t = "(by_heard c e (by_receive e s))\<lparr>by_lastReceived := IAA_ID\<rparr>"
  have t: "by_coordDead ?t = False" "by_tick ?t = 0" "fst (by_sbuffer ?t) = IAA_ID"
    using assms(1,3) by (simp_all add: by_receive_def)
  moreover have "end_of_round c e ?t = Running ?t" using t assms(5) by (intro end_of_round_quiet) simp_all
  moreover have "by_step c e s = seq (Running ?t) (\<lambda>s. if by_coordDead s then Running s else end_of_round c e s)"
    using assms(1,2) by (simp add: by_step_def Let_def handle_node_msg_def by_receive_def)
  ultimately have "by_step c e s = Running ?t" by simp
  with assms(1,4) show ?thesis by (simp add: heard_core by_receive_def)
qed


lemma end_of_round_timeout:
  assumes "bc_timeoutValue c \<noteq> 0" and "by_tick s mod bc_timeoutValue c = 0" and "by_tick s \<noteq> 0"
    and "by_timeout c e (by_debug c (''++++++++TIMEOUT at RANK '' @ show_int (bc_rank c)) s) = Running t"
    and "fst (by_sbuffer t) \<noteq> TERMINATE"
  shows "end_of_round c e s = Running t"
  using assms unfolding end_of_round_def by simp

lemma dead_leader_timeout:
  assumes "by_lastSent s = AYA_ID" and "higher_ranks c \<noteq> []" and "0 \<le> by_dlcTime s"
    and "int_fits (by_dlcTime s + int (length (higher_ranks c)))"
  shows "by_timeout c e s = Running ((after_sends c (be_done e) ELECTION_ID (higher_ranks c)
      (by_print [node_line (bc_rank c) ''LEADERDEAD'' (by_dlcTime s)] s))
      \<lparr>by_lastSent := ELECTION_ID, by_tick := 0, by_coordNode := 0\<rparr>)"
  using assms by (simp add: by_timeout_def elect_higher_eq reset_timer_def eventPrinting_def)

text \<open>C40: an answer of the coordinator resets the timer but not \<open>lastSent\<close> (line 357).  So when no further
  AYA is due within the timeout, the node declares the coordinator dead that has just answered, and
  calls an election.\<close>

theorem answered_coordinator_declared_dead:
  assumes s: "by_ok c s" "\<not> by_coordDead s" "by_lastSent s = AYA_ID"
    and e: "be_tag e = IAA_ID" "be_first e = IAA_ID" "be_second e = Some d"
    and ticks: "list_all is_tick es" "int (length es) = bc_timeoutValue c"
    and c: "0 < bc_timeoutValue c" "higher_ranks c \<noteq> []" "1 \<le> bc_rank c"
    and quiet: "\<And>j. 1 \<le> j \<Longrightarrow> j \<le> bc_timeoutValue c \<Longrightarrow> \<not> aya_due s j"
    and room: "0 \<le> by_AYATick s" "by_AYATick s + bc_timeoutValue c < 2 ^ 31" "max d (by_dlcTime s) + bc_size c < 2 ^ 31"
  shows "\<exists>t f. run (by_step c) (e # es) s = Running t \<and> by_coordNode t = 0 \<and> by_lastSent t = ELECTION_ID \<and>
    by_outbox t = by_outbox s @ sends f ELECTION_ID (max d (by_dlcTime s)) (length (by_outbox s)) (higher_ranks c) \<and>
    node_line (bc_rank c) ''LEADERDEAD'' (max d (by_dlcTime s)) \<in> set (by_printed t)"
proof -
  have nz: "bc_timeoutValue c \<noteq> 0" using c by simp
  from iaa_step [OF s(2) e nz] obtain a where
    a: "by_step c e s = Running a" "by_tick a = 0" "by_AYATick a = by_AYATick s" "by_lastSent a = AYA_ID"
      "by_AYARate a = by_AYARate s" "by_coordNode a = by_coordNode s" "\<not> by_coordDead a" "by_outbox a = by_outbox s"
      "by_dlcTime a = max d (by_dlcTime s)"
    using s(3) by auto
  have due: "aya_due a j = aya_due s j" for j using a by (simp add: aya_due_def)
  from ticks c(1) obtain fs g where es: "es = fs @ [g]" by (cases es rule: rev_cases) auto
  have len: "int (length fs) = bc_timeoutValue c - 1" using ticks(2) es by simp
  have "\<exists>b. run (by_step c) fs a = Running b \<and> idle a b \<and> by_tick b = by_tick a + int (length fs) \<and>
      by_AYATick b = by_AYATick a + int (length fs)"
  proof (rule quiet_ticks)
    show "\<not> aya_due a j \<and> (by_tick a + j) mod bc_timeoutValue c \<noteq> 0" if "1 \<le> j" "j \<le> int (length fs)" for j
      using that len quiet [of j] due a(2) by simp
  qed (use a ticks es nz room len in \<open>auto simp: room_def\<close>)
  then obtain b where b: "run (by_step c) fs a = Running b" "idle a b" "by_tick b = bc_timeoutValue c - 1"
      "by_AYATick b = by_AYATick s + (bc_timeoutValue c - 1)"
    using a len by auto
  have "aya_due b 1 = aya_due s (bc_timeoutValue c)" using a b by (simp add: aya_due_def idle_def)
  then have "\<not> aya_due b 1" using quiet [of "bc_timeoutValue c"] c(1) by simp
  moreover have "\<not> by_coordDead b" "is_tick g" "room b 1"
    using a b ticks es room c(1) by (auto simp: idle_def room_def)
  ultimately obtain t where t: "by_step c g b = end_of_round c g t" "idle b t" "by_tick t = by_tick b + 1"
      "fst (by_sbuffer t) = CLOCK_ID"
    by (elim tick_step [of b g c])
  let ?d = "by_debug c (''++++++++TIMEOUT at RANK '' @ show_int (bc_rank c)) t" and ?D = "max d (by_dlcTime s)"
  have tf: "by_dlcTime t = ?D" "by_outbox t = by_outbox s" "by_lastSent t = AYA_ID"
    using t(2) b(2) a by (simp_all add: idle_def)
  have nonneg: "0 \<le> ?D" using s(1) by (auto simp: by_ok_def)
  have "bc_rank c < bc_size c" using c(2) by (simp add: higher_ranks_def)
  with rank_lengths(1) [of c] c(3) room(3) nonneg have "int_fits (?D + int (length (higher_ranks c)))"
    by (intro fitsI) auto
  with dead_leader_timeout [of ?d c g] tf c(2) nonneg
  have "by_timeout c g ?d = Running ((after_sends c (be_done g) ELECTION_ID (higher_ranks c)
      (by_print [node_line (bc_rank c) ''LEADERDEAD'' ?D] ?d))\<lparr>by_lastSent := ELECTION_ID, by_tick := 0, by_coordNode := 0\<rparr>)"
    (is "_ = Running ?u") by simp
  then have "end_of_round c g t = Running ?u"
    using t b(3) nz c(1) by (intro end_of_round_timeout) simp_all
  then have "run (by_step c) (e # es) s = Running ?u" using a(1) b(1) t(1) by (simp add: es run_append)
  moreover have "by_outbox ?u = by_outbox s @ sends (be_done g) ELECTION_ID ?D (length (by_outbox s)) (higher_ranks c)"
    using tf by simp
  moreover have "node_line (bc_rank c) ''LEADERDEAD'' ?D \<in> set (by_printed ?u)"
    by (simp add: after_sends_def by_print_def)
  ultimately show ?thesis by (intro exI [of _ ?u] exI [of _ "be_done g"]) (simp add: tf)
qed


definition demo_tick :: by_event where
  "demo_tick = \<lparr>be_source = 0, be_tag = CLOCK_ID, be_first = CLOCK_ID, be_second = None,
     be_random = 0, be_times = (\<lambda>n. 7), be_done = (\<lambda>n. True)\<rparr>"

definition demo_waiting :: by_state where
  "demo_waiting = (by_init (0, 0))\<lparr>by_lastSent := AYA_ID, by_coordNode := 3, by_AYARate := 8, by_AYATick := 8\<rparr>"

theorem answered_coordinator_declared_dead_witness:
  "\<exists>t. run (by_step (demo_conf 2)) (demo_event 3 IAA_ID 9 # replicate 5 demo_tick) demo_waiting = Running t \<and>
    by_coordNode t = 0 \<and> by_lastSent t = ELECTION_ID"
proof -
  have "\<exists>t f. run (by_step (demo_conf 2)) (demo_event 3 IAA_ID 9 # replicate 5 demo_tick) demo_waiting = Running t \<and>
      by_coordNode t = 0 \<and> by_lastSent t = ELECTION_ID \<and>
      by_outbox t = by_outbox demo_waiting @
        sends f ELECTION_ID (max 9 (by_dlcTime demo_waiting)) (length (by_outbox demo_waiting)) (higher_ranks (demo_conf 2)) \<and>
      node_line (bc_rank (demo_conf 2)) ''LEADERDEAD'' (max 9 (by_dlcTime demo_waiting)) \<in> set (by_printed t)"
  proof (rule answered_coordinator_declared_dead)
    show "\<not> aya_due demo_waiting j" if "1 \<le> j" "j \<le> bc_timeoutValue (demo_conf 2)" for j
    proof -
      have "j = 1 \<or> j = 2 \<or> j = 3 \<or> j = 4 \<or> j = 5" using that by (auto simp: demo_conf_def)
      then show ?thesis by (auto simp: aya_due_def demo_waiting_def)
    qed
  qed (simp_all add: demo_waiting_def demo_conf_def demo_event_def demo_tick_def by_ok_def by_init_def is_tick_def higher_ranks_def)
  then show ?thesis by blast
qed

subsection \<open>Death and return\<close>

lemma dead_step:
  assumes "by_coordDead s" and "be_times e 0 - by_deadTime s \<le> of_int (bc_returnToLife c)"
  shows "\<exists>t. by_step c e s = Running t \<and> idle s t \<and> by_tick t = by_tick s \<and> by_deadTime t = by_deadTime s"
  using assms by (simp add: by_step_def Let_def by_receive_def dead_check_def idle_def)

text \<open>A node that is dead discards what it receives, ticks and clocks included, until the first
  message after \<open>returnToLife\<close> seconds, which it discards too; then it is alive and has forgotten what
  it last sent and received.\<close>

theorem dead_until_return:
  assumes "by_coordDead s" and "by_tick s = 0" and "bc_timeoutValue c \<noteq> 0"
    and "\<And>e. e \<in> set es \<Longrightarrow> be_times e 0 - by_deadTime s \<le> of_int (bc_returnToLife c)"
    and "be_times e 0 - by_deadTime s > of_int (bc_returnToLife c)" and "be_first e \<noteq> TERMINATE"
  shows "(\<exists>t. run (by_step c) es s = Running t \<and> idle s t) \<and>
    (\<exists>t. run (by_step c) (es @ [e]) s = Running t \<and> \<not> by_coordDead t \<and> by_outbox t = by_outbox s \<and>
      by_dlcTime t = by_dlcTime s \<and> by_coordNode t = by_coordNode s \<and> by_lastSent t = 0 \<and> by_lastReceived t = 0)"
proof -
  have "\<exists>t. run (by_step c) es s = Running t \<and> idle s t \<and> by_tick t = 0 \<and> by_deadTime t = by_deadTime s"
    using assms(1,2,4)
  proof (induction es arbitrary: s)
    case Nil
    then show ?case by (simp add: idle_def)
  next
    case (Cons e es)
    then obtain u where u: "by_step c e s = Running u" "idle s u" "by_tick u = by_tick s" "by_deadTime u = by_deadTime s"
      using dead_step [of s e c] by auto
    with Cons.IH [of u] Cons.prems show ?case by (auto simp: idle_def)
  qed
  then obtain t where t: "run (by_step c) es s = Running t" "idle s t" "by_tick t = 0" "by_deadTime t = by_deadTime s"
    by blast
  let ?u = "dead_check c e (be_times e 0) (by_receive e t)"
  have dead: "by_coordDead (by_receive e t)" "by_deadTime (by_receive e t) = by_deadTime s"
    using t assms(1) by (simp_all add: by_receive_def idle_def)
  have u: "\<not> by_coordDead ?u" "by_lastSent ?u = 0" "by_lastReceived ?u = 0" "by_tick ?u = 0"
      "fst (by_sbuffer ?u) = be_first e" "by_coordNode ?u = by_coordNode s"
    using assms(5) t dead by (simp_all add: dead_check_def Let_def by_receive_def idle_def)
  have "by_step c e t = end_of_round c e ?u" using dead u by (simp add: by_step_def Let_def)
  also have "\<dots> = Running ?u" using u assms(3,6) by (intro end_of_round_quiet) simp_all
  finally have "run (by_step c) (es @ [e]) s = Running ?u" using t(1) by (simp add: run_append)
  moreover have "by_outbox ?u = by_outbox s" "by_dlcTime ?u = by_dlcTime s"
    using t(2) by (simp_all add: by_receive_def idle_def)
  ultimately show ?thesis using t u by blast
qed

definition demo_dead :: by_state where
  "demo_dead = (by_init (0, 0))\<lparr>by_coordDead := True, by_deadTime := - 13\<rparr>"

theorem dead_until_return_witness:
  "\<exists>t. run (by_step (demo_conf 3)) ([demo_tick, demo_event 1 ELECTION_ID 9] @ [(demo_event 2 ELECTION_ID 9)\<lparr>be_times := \<lambda>n. 8\<rparr>])
      demo_dead = Running t \<and> \<not> by_coordDead t \<and> by_outbox t = []"
proof -
  have d: "by_coordDead demo_dead" "by_tick demo_dead = 0" "bc_timeoutValue (demo_conf 3) \<noteq> 0" "by_outbox demo_dead = []"
    by (simp_all add: demo_dead_def demo_conf_def by_init_def)
  have "be_times e 0 - by_deadTime demo_dead \<le> of_int (bc_returnToLife (demo_conf 3))"
    if "e \<in> set [demo_tick, demo_event 1 ELECTION_ID 9]" for e
    using that by (auto simp: demo_dead_def demo_conf_def demo_tick_def demo_event_def)
  moreover have "of_int (bc_returnToLife (demo_conf 3)) < be_times ((demo_event 2 ELECTION_ID 9)\<lparr>be_times := \<lambda>n. 8\<rparr>) 0 - by_deadTime demo_dead"
    "be_first ((demo_event 2 ELECTION_ID 9)\<lparr>be_times := \<lambda>n. 8\<rparr>) \<noteq> TERMINATE"
    by (simp_all add: demo_dead_def demo_conf_def demo_event_def)
  ultimately show ?thesis using dead_until_return [OF d(1-3)] d(4) by metis
qed

subsection \<open>Timeouts of a node that awaits nothing\<close>

lemma idle_timeout_step:
  assumes "\<not> by_coordDead s" and "is_tick e" and "\<not> aya_due s 1" and "room s 1" and "by_ok c s"
    and "bc_timeoutValue c \<noteq> 0" and "by_lastSent s = 0" and "by_lastReceived s = 0" and "higher_ranks c = []"
  shows "\<exists>t. by_step c e s = Running t \<and> by_outbox t = by_outbox s \<and> by_lastSent t = 0 \<and> by_lastReceived t = 0 \<and>
    by_coordNode t \<in> {by_coordNode s, 0} \<and> \<not> by_coordDead t \<and> 0 \<le> by_tick t \<and> by_tick t \<le> by_tick s + 1 \<and>
    by_AYATick t = by_AYATick s + 1 \<and> by_ok c t"
proof -
  obtain t where t: "by_step c e s = end_of_round c e t" "idle s t" "by_tick t = by_tick s + 1"
      "by_AYATick t = by_AYATick s + 1" "fst (by_sbuffer t) = CLOCK_ID"
    using tick_step [OF assms(1-4), of c] by metis
  have f: "by_outbox t = by_outbox s" "by_lastSent t = 0" "by_lastReceived t = 0" "by_coordNode t = by_coordNode s"
      "\<not> by_coordDead t" "0 \<le> by_dlcTime t" "0 \<le> by_tick s"
    using t(2) assms(1,4,5,7,8) by (auto simp: idle_def by_ok_def room_def)
  have "out_all (by_ok c) (by_step c e s)" by (rule by_step_ok [OF assms(5)])
  show ?thesis
  proof (cases "by_tick t mod bc_timeoutValue c = 0")
    case False
    then have "end_of_round c e t = Running t" using t(5) assms(6) by (intro end_of_round_quiet) simp_all
    with t f by_step_ok [OF assms(5), of e] show ?thesis by simp
  next
    case True
    let ?d = "by_debug c (''++++++++TIMEOUT at RANK '' @ show_int (bc_rank c)) t"
    have "by_timeout c e ?d = Running (?d\<lparr>by_tick := 0, by_coordNode := 0\<rparr>)"
      using f assms(9) by (simp add: by_timeout_def election_due_def elect_again_eq reset_timer_def)
    then have "end_of_round c e t = Running (?d\<lparr>by_tick := 0, by_coordNode := 0\<rparr>)"
      using True t f assms(6) by (intro end_of_round_timeout) simp_all
    with t f by_step_ok [OF assms(5), of e] show ?thesis by simp
  qed
qed

text \<open>The node with the highest rank that has come back to life, or that has just started, never
  announces itself: its timeouts send nothing, as long as no message arrives.\<close>

theorem highest_waits_silently:
  assumes "by_ok c s" and "\<not> by_coordDead s" and "by_lastSent s = 0" and "by_lastReceived s = 0" and "by_coordNode s = 0"
    and "higher_ranks c = []" and "bc_timeoutValue c \<noteq> 0" and "list_all is_tick es" and "room s (int (length es))"
  shows "\<exists>t. run (by_step c) es s = Running t \<and> by_outbox t = by_outbox s \<and> by_lastSent t = 0 \<and> by_lastReceived t = 0"
  using assms
proof (induction es arbitrary: s)
  case Nil
  then show ?case by simp
next
  case (Cons e es)
  have "room s 1" "is_tick e" "\<not> aya_due s 1" using Cons.prems by (auto simp: room_def aya_due_def)
  with idle_timeout_step [of s e c] Cons.prems obtain t where t: "by_step c e s = Running t" "by_outbox t = by_outbox s"
      "by_lastSent t = 0" "by_lastReceived t = 0" "by_coordNode t = 0" "\<not> by_coordDead t" "0 \<le> by_tick t"
      "by_tick t \<le> by_tick s + 1" "by_AYATick t = by_AYATick s + 1" "by_ok c t"
    by auto
  from Cons.IH [OF t(10,6,3,4,5)] Cons.prems t show ?case by (auto simp: room_def)
qed

theorem highest_waits_silently_witness:
  "\<exists>t. run (by_step (demo_conf 3)) (replicate 50 demo_tick) (by_init (0, 0)) = Running t \<and> by_outbox t = []"
proof -
  have "\<exists>t. run (by_step (demo_conf 3)) (replicate 50 demo_tick) (by_init (0, 0)) = Running t \<and>
      by_outbox t = by_outbox (by_init (0, 0)) \<and> by_lastSent t = 0 \<and> by_lastReceived t = 0"
    by (rule highest_waits_silently [OF by_init_ok])
      (simp_all add: by_init_def demo_conf_def higher_ranks_def is_tick_def demo_tick_def room_def list_all_iff)
  then show ?thesis by (auto simp: by_init_def)
qed

text \<open>After an ANSWER the election is called again when the ticks are a multiple of \<open>size - 1\<close> and of the
  timeout: \<open>tick % (size-1)*timeoutValue\<close> is read as \<open>(tick % (size-1))*timeoutValue\<close>, so the node waits
  for the least common multiple, not for the product.\<close>

theorem election_called_again:
  assumes "by_ok c s" and "\<not> by_coordDead s" and "is_tick e" and "\<not> aya_due s 1" and "room s 1"
    and "by_lastSent s = 0" and "by_lastReceived s = ANSWER_ID" and "0 < bc_timeoutValue c"
    and "1 \<le> bc_rank c" and "bc_rank c < bc_size c" and "bc_size c * bc_timeoutValue c < 2 ^ 31"
    and "by_dlcTime s + bc_size c < 2 ^ 31"
  shows "\<exists>t. by_step c e s = Running t \<and> by_outbox t = by_outbox s @
    (if lcm (bc_size c - 1) (bc_timeoutValue c) dvd by_tick s + 1
     then sends (be_done e) ELECTION_ID (by_dlcTime s) (length (by_outbox s)) (higher_ranks c) else [])"
proof -
  obtain t where t: "by_step c e s = end_of_round c e t" "idle s t" "by_tick t = by_tick s + 1" "fst (by_sbuffer t) = CLOCK_ID"
    using tick_step [OF assms(2-5), of c] by metis
  let ?T = "by_tick s + 1" and ?v = "bc_timeoutValue c" and ?n = "bc_size c - 1"
  let ?d = "by_debug c (''++++++++TIMEOUT at RANK '' @ show_int (bc_rank c)) t"
  have f: "by_outbox t = by_outbox s" "by_lastSent t = 0" "by_lastReceived t = ANSWER_ID" "by_dlcTime t = by_dlcTime s"
    using t(2) assms(6,7) by (simp_all add: idle_def)
  have dlc: "0 \<le> by_dlcTime s" using assms(1) by (auto simp: by_ok_def)
  have n: "1 \<le> ?n" using assms(9,10) by simp
  have fits: "int_fits (by_dlcTime s + int (length (higher_ranks c)))"
    using rank_lengths(1) [OF assms(9,10)] assms(12) dlc by (intro fitsI) auto
  have "0 \<le> ?T mod ?n * ?v" "?T mod ?n * ?v < 2 ^ 31"
  proof -
    have m: "0 \<le> ?T mod ?n" "?T mod ?n \<le> bc_size c" using n pos_mod_bound [of ?n ?T] pos_mod_sign [of ?n ?T] by linarith+
    then show "0 \<le> ?T mod ?n * ?v" using assms(8) by simp
    have "?T mod ?n * ?v \<le> bc_size c * ?v" using m(2) assms(8) by (intro mult_right_mono) simp_all
    with assms(11) show "?T mod ?n * ?v < 2 ^ 31" by linarith
  qed
  then have due: "election_due c ?d = Some (?n dvd ?T)"
    using f t(3) n assms(8) by (simp add: election_due_def fitsI dvd_eq_mod_eq_0)
  show ?thesis
  proof (cases "?v dvd ?T")
    case False
    then have "end_of_round c e t = Running t"
      using t assms(8) by (intro end_of_round_quiet) (simp_all add: dvd_eq_mod_eq_0)
    moreover have "\<not> lcm ?n ?v dvd ?T" using False by (meson dvd_lcm2 dvd_trans)
    ultimately show ?thesis using t(1) f(1) by auto
  next
    case True
    then have lcm: "lcm ?n ?v dvd ?T \<longleftrightarrow> ?n dvd ?T" by (meson dvd_lcm1 dvd_trans lcm_least)
    obtain u where "by_timeout c e ?d = Running u" "fst (by_sbuffer u) = CLOCK_ID"
      "by_outbox u = by_outbox s @ (if ?n dvd ?T then sends (be_done e) ELECTION_ID (by_dlcTime s) (length (by_outbox s)) (higher_ranks c) else [])"
      using due f t(4) dlc fits by (cases "?n dvd ?T"; cases "higher_ranks c = []")
        (simp_all add: by_timeout_def elect_again_eq reset_timer_def)
    moreover from this have "end_of_round c e t = Running u"
      using t assms(5,8) True by (intro end_of_round_timeout) (simp_all add: dvd_eq_mod_eq_0 room_def)
    ultimately show ?thesis using t(1) lcm by simp
  qed
qed


definition demo_answered :: by_state where
  "demo_answered = (by_init (0, 0))\<lparr>by_lastReceived := ANSWER_ID, by_tick := 11\<rparr>"

theorem election_called_again_witness:
  "\<exists>t. by_step ((demo_conf 2)\<lparr>bc_size := 7, bc_timeoutValue := 4\<rparr>) demo_tick demo_answered = Running t \<and>
    map bm_dest (by_outbox t) = [3 .. 6]"
proof -
  let ?c = "(demo_conf 2)\<lparr>bc_size := 7, bc_timeoutValue := 4\<rparr>"
  have hi: "higher_ranks ?c = [3 .. 6]" by (simp add: higher_ranks_def demo_conf_def)
  have lcm: "lcm (bc_size ?c - 1) (bc_timeoutValue ?c) dvd by_tick demo_answered + 1"
    by (rule lcm_least) (simp_all add: demo_conf_def demo_answered_def)
  have "\<exists>t. by_step ?c demo_tick demo_answered = Running t \<and> by_outbox t = by_outbox demo_answered @
    (if lcm (bc_size ?c - 1) (bc_timeoutValue ?c) dvd by_tick demo_answered + 1
     then sends (be_done demo_tick) ELECTION_ID (by_dlcTime demo_answered) (length (by_outbox demo_answered)) (higher_ranks ?c)
     else [])"
    by (rule election_called_again)
      (simp_all add: demo_answered_def demo_conf_def demo_tick_def by_init_def by_ok_def is_tick_def aya_due_def room_def)
  moreover have "by_outbox demo_answered = []" by (simp add: demo_answered_def by_init_def)
  ultimately show ?thesis unfolding if_P [OF lcm] hi using sends_dests by fastforce
qed

end
