(* ===== verification/BullyStart.thy ===== *)
theory BullyStart
  imports BullyFaults CmdProps
begin

text \<open>
  The program \<open>bully\<close> around its nodes: \<open>usage\<close>, \<open>usageBully\<close>, the arguments with the messages about
  them, the printed configuration, and the choice between the clock and a node.  Rank and size come
  from MPI.
\<close>

definition by_usage_mpi :: "string \<Rightarrow> int \<Rightarrow> string" where
  "by_usage_mpi cmd rank =
     (if rank = 0 then ''Usage mpirun -nfg X -n Y '' @ cmd @ '' Z'' @ newline @ '' where X*Y must be >= Z'' @ newline else [])"

definition usageBully :: "string \<Rightarrow> string" where
  "usageBully cmd = ''usage: '' @ cmd @ ''  isDebug timeoutVal AYATime sendFailure returnToLife'' @ newline"

datatype by_started = BullyReturned int | ClockNode int | BullyNode by_conf

text \<open>The names under which the arguments are complained about.\<close>

definition by_complaint :: "string \<times> string \<Rightarrow> string" where
  "by_complaint p = (if int_arg (snd p) = None then fst p @ '' conversion error'' @ newline else [])"

definition by_names :: "string list" where
  "by_names = [''isDebug value'', ''Timeout value'', ''AYATime'', ''sendFailure'', ''returnToLife'']"

definition by_err_text :: "nat \<Rightarrow> string" where
  "by_err_text err =
     show_nat err @ '' conversion error'' @ (if 1 < err then ''s were '' else '' was '') @
     ''encountered, program exiting.'' @ newline"

definition by_line :: "string \<Rightarrow> int \<Rightarrow> string" where
  "by_line name v = name @ show_int v @ newline"

definition by_hello :: "int \<Rightarrow> int \<Rightarrow> int \<Rightarrow> int \<Rightarrow> string" where
  "by_hello rank sz coSize sRank =
     ''Hello! I am rank '' @ show_int rank @ '' of '' @ show_int sz @ '' co-located size is '' @ show_int coSize @
     '', start rank '' @ show_int sRank @ '' '' @ newline"

definition by_config :: "int \<Rightarrow> by_conf \<Rightarrow> string" where
  "by_config isDebug c =
     by_line ''Debug output?:            '' isDebug @ by_line ''Timeout value:            '' (bc_timeoutValue c) @
     by_line ''AYATime:                  '' (bc_AYATime c) @ by_line ''Send failure:             '' (bc_sendFailure c) @
     by_line ''Return to life:           '' (bc_returnToLife c)"

text \<open>The node that a rank above 0 becomes; rank 0 is the clock.\<close>

definition bully :: "string list \<Rightarrow> int \<Rightarrow> int \<Rightarrow> int \<Rightarrow> int \<Rightarrow> string \<times> by_started" where
  "bully argv sz rank coSize sRank =
     (if length argv \<noteq> 6 then (usageBully (argv ! 0), BullyReturned (- 1))
      else
        let out = concat (map by_complaint (zip by_names (tl argv)));
            err = length (filter (\<lambda>a. int_arg a = None) (tl argv))
        in case by_args argv sz rank of
             None \<Rightarrow> (out @ by_err_text err, BullyReturned (- 1))
           | Some c \<Rightarrow>
               (out @ by_config (case int_arg (argv ! 1) of Some d \<Rightarrow> d | None \<Rightarrow> 0) c @ by_hello rank sz coSize sRank,
                if rank = 0 then ClockNode sz else BullyNode c))"

subsection \<open>What it promises\<close>

lemma int_arg_show: "n < 2 ^ 31 \<Longrightarrow> int_arg (show_nat n) = Some (int n)"
proof -
  assume n: "n < 2 ^ 31"
  have u: "(ucast (of_nat n :: u64) :: u32) = of_nat n" by transfer (simp add: min_def)
  have "sint (of_nat n :: u32) = int n" using n by (simp add: signed_of_nat signed_take_bit_int_eq_self_iff)
  then show ?thesis using strtoul_show(1) [of n] n by (simp add: int_arg_def u)
qed

lemma by_args_None:
  assumes "length argv = 6"
  shows "by_args argv sz rank = None \<longleftrightarrow> (\<exists>a \<in> set (tl argv). int_arg a = None)"
proof -
  obtain c a1 a2 a3 a4 a5 where a: "argv = [c, a1, a2, a3, a4, a5]"
    using assms by (auto simp: length_Suc_conv numeral_eq_Suc)
  show ?thesis by (auto simp: a by_args_def bind_eq_None_conv)
qed

text \<open>\<open>bully\<close> goes on exactly when it has five arguments with digits.\<close>

theorem bully_returns:
  "(\<exists>out. bully argv sz rank coSize sRank = (out, BullyReturned (- 1))) \<longleftrightarrow>
     length argv \<noteq> 6 \<or> (\<exists>a \<in> set (tl argv). int_arg a = None)"
proof (cases "length argv = 6")
  case True
  show ?thesis
    using by_args_None [OF True, of sz rank] True
    by (cases "by_args argv sz rank") (auto simp: bully_def Let_def)
qed (simp add: bully_def)

text \<open>
  With decimal numbers for its five arguments, rank 0 is the clock and every other rank runs \<open>handleNode\<close>
  with the configuration that the arguments name, the same on every node but for the rank, whatever its
  place among the processes.
\<close>

theorem bully_starts:
  assumes "\<forall>n \<in> {d, t, a, f, r}. n < 2 ^ 31"
  shows "snd (bully [cmd, show_nat d, show_nat t, show_nat a, show_nat f, show_nat r] sz rank coSize sRank) =
    (if rank = 0 then ClockNode sz
     else BullyNode \<lparr>bc_size = sz, bc_rank = rank, bc_isDebug = (d \<noteq> 0), bc_timeoutValue = int t, bc_AYATime = int a,
       bc_sendFailure = int f, bc_returnToLife = int r\<rparr>)"
  using assms by (simp add: bully_def by_args_def int_arg_show Let_def)

theorem bully_starts_witness:
  "snd (bully [''bully'', show_nat 0, show_nat 5, show_nat 3, show_nat 10, show_nat 8] 4 2 1 0) =
    BullyNode \<lparr>bc_size = 4, bc_rank = 2, bc_isDebug = False, bc_timeoutValue = 5, bc_AYATime = 3, bc_sendFailure = 10,
      bc_returnToLife = 8\<rparr>"
  using bully_starts [of 0 5 3 10 8 "''bully''" 4 2 1 0] by simp

end
