(* ===== verification/Spec2Isabelle.thy ===== *)
theory Spec2Isabelle
  imports TxReach WireProps StartupProps DumpProps NodeStartProps MtServerStart Threads CmdProps BullyStart
begin

text \<open>
  A verification development for the distributed systems programs of this repository.

  \<^bold>\<open>The programs.\<close>  \<open>src/transaction_management\<close> is a two-phase commit: workers
  (\<open>tworker.c\<close>) keep a small object store and a log, a transaction manager (\<open>tmanager.c\<close>) keeps a
  table of running transactions and a log of decisions, a client (\<open>cmd.c\<close>) sends commands to the
  workers; \<open>helper.c\<close> holds the message serialisers and the log lines.  All talk UDP.
  \<open>src/bully_algorithm\<close> is a leader election over UDP (\<open>node.c\<close>), \<open>src/bully_algorithm_fg_mpi\<close> one
  between MPI processes that get their ticks from a clock process (\<open>bully.c\<close>).
  \<open>src/client_server\<close> is a TCP server with a thread per client (\<open>mtserver.c\<close>) and a sample of
  thread wrappers (\<open>Thread.c\<close>).  \<open>dumpObject.c\<close> prints the files of a worker and the manager.

  \<^bold>\<open>The theories.\<close>
  \<^item> \<open>Prelude\<close>: word types, outcomes of a C procedure, event loops, array searches; the locales
    \<open>machine\<close> (an invariant of an event loop) and \<open>growing\<close> (a preorder along it), which the manager,
    the worker and both elections interpret.
  \<^item> \<open>Bytes\<close>: memory at byte level, byte orders, \<open>memcpy\<close>, C strings; the locales \<open>codec\<close> and
    \<open>array_codec\<close> for serialisers.  \<open>VectorClock\<close>: tick and merge of vector clocks and the locale
    \<open>vclock\<close>.  \<open>ShiViz\<close>: the lines of the ShiViz log.  \<open>Strtoul\<close>: numbers in arguments.  \<open>TxWire\<close>:
    messages, enums and their wire format (\<open>msg.h\<close>, \<open>helper.c\<close>).  \<open>WireProps\<close>: round trips of the
    messages, the merge as a maximum, the bounds of the log lines.
  \<^item> \<open>TManager\<close>: data and operations of the transaction manager; \<open>TManagerLoop\<close>: one definition per
    case of \<open>handleWorkerMsg\<close>, the first start and the restart.  \<open>TManagerFrame\<close>,
    \<open>TManagerSpec\<close> and \<open>TManagerSafe\<close>: what the operations leave alone, the abstract coordinator,
    and what a step can add to the log.  \<open>TManagerProps\<close>, \<open>TManagerLife\<close>, \<open>TManagerOps\<close>,
    \<open>TManagerVotes\<close>, \<open>TManagerFaults\<close>: invariant, safety of decisions, crashes and restarts, the
    behaviour of each kind of message, and what goes wrong.
  \<^item> \<open>TWorker\<close>: data and operations of the worker; \<open>TWorkerLoop\<close>: its two event loops, start and
    restart.  \<open>TWorkerFrame\<close> and \<open>TWorkerUndo\<close>: invariants, and the log as an undo log.
    \<open>TWorkerProps\<close>, \<open>TWorkerVotes\<close>, \<open>TWorkerRecovery\<close>: updates, votes, decisions, recovery.
  \<^item> \<open>TxSystem\<close>: manager and worker together, through the serialised datagrams.  \<open>TManagerEffect\<close> and
    \<open>TWorkerEffect\<close>: what one event of either can send and log.  \<open>TxNetwork\<close>: the whole system, one manager
    and any number of workers with a network between them, as the step relation \<open>tx_step\<close>, its invariant and
    the agreement on decisions.  \<open>TxReach\<close>: a run of that system that commits.
  \<^item> \<open>Startup\<close>: from the arguments of manager and worker to their event loops, with files, sockets and
    exit codes; \<open>StartupProps\<close>: starts, restarts on the files of an earlier process, wrong arguments.
    \<open>Dump\<close>: the printing procedures and \<open>dumpObject.c\<close>; \<open>DumpProps\<close>: how far a dump can read.
  \<^item> \<open>Cmd\<close>: the client, from its arguments to the datagram; \<open>CmdProps\<close>: what it sends, and its effect in
    the worker.
  \<^item> \<open>Node\<close>: the election node over UDP; \<open>NodeFrame\<close> and \<open>NodeSteps\<close>: its messages on the wire, what its
    operations leave alone, its invariant.  \<open>NodeProps\<close>, \<open>NodeElection\<close>, \<open>NodeSafety\<close>, \<open>NodeFaults\<close>:
    replies, timeouts, the reasons for an announcement, an election between two nodes, and faults.
    \<open>NodeStart\<close>: its arguments and the group list; \<open>NodeStartProps\<close>: the list is read back, the node
    starts with it.
  \<^item> \<open>MtServer\<close>: the request parser of the TCP server on its arrays, and the count of its threads;
    \<open>MtServerSpec\<close>: the automaton that the parser implements, with the refinement lemma;
    \<open>MtServerProps\<close>: requests and answers, packets, the end of the parse loop, faults, the thread limit.
    \<open>MtServerStart\<close>: arguments, server socket and accept loop.  \<open>Threads\<close>: the wrappers of \<open>Thread.c\<close>.
  \<^item> \<open>Bully\<close>: a node of the election on FG-MPI, the clock process and the arguments; \<open>BullyProps\<close>: its logical
    clock and invariant; \<open>BullyElection\<close>: replies, reasons for COORD, an election; \<open>BullyFaults\<close>:
    timeouts, death and return; \<open>BullyStart\<close>: the output of the start, and what a rank becomes.

  \<^bold>\<open>Correspondence.\<close>  A C struct is a record, the globals of a program with the locals that
  outlive a round of its loop are one state record, \<open>uint32_t\<close> and \<open>unsigned int\<close> are 32-bit words,
  an \<open>int\<close> is such a word read with \<open>sint\<close>; in \<open>bully.c\<close> an \<open>int\<close> is an integer whose overflow is
  undefined.  Definitions carry the names of the C functions, with a prefix \<open>tw_\<close>, \<open>nd_\<close> or \<open>by_\<close> where
  programs share a name.  What a system or MPI call returns is the argument of an event
  (\<open>tm_event\<close>, \<open>tw_event\<close>, \<open>nd_event\<close>, \<open>srv_event\<close>, \<open>by_event\<close>); what the program sends is appended to
  the outbox of its state.  Files are the mapped header and the list of records behind it.  Behaviour
  that C leaves undefined is the outcome \<open>Undefined\<close> or \<open>None\<close>, and indeterminate values are arguments.
  Ports are taken to be below \<open>2 ^ 32\<close>, and \<open>unsigned long\<close> to have 64 bits.

  \<^bold>\<open>The system of manager and workers.\<close>  A state of \<open>tx_step\<close> is the manager and a worker per index,
  each running or dead, and the set of all datagrams ever sent.  A step lets a running process handle an event
  whose datagram, if it has one, is any of those from any source address, so that the network loses, repeats,
  reorders and misdelivers; or a process dies; or a dead one starts on its files.  Commands come from outside
  without restriction.  \<open>decision_agreement\<close> has two conditions.  \<open>one_life\<close>: the transaction number is used once, and
  a poll for it reaches the manager only when it has been decided and has left the table; the run that
  an earlier poll makes possible is \<open>poll_splits_decision\<close>.  \<open>settled_restart\<close>: the manager is not started again
  while the transaction is in its table; otherwise see \<open>restart_splits_decision\<close>.  The agreement is one of the
  workers' logs; a late vote to abort adds an abort record behind the commit in the manager's log.

  \<^bold>\<open>Bounds.\<close>  Recursion is structural or on event lists, except for the parse loop of the TCP server,
  a \<open>function\<close> whose termination is proved (the buffer gets shorter or the index grows); theorem
  \<open>parse_loop_ends\<close> counts its rounds; and for the scan of the group list, where the text gets shorter.  There is no fuel in the models.  The log readers are bounded
  by the mapped page of 4096 bytes: 214 records of the manager, 22 of a worker.

  \<^bold>\<open>Not modelled.\<close>  The standard error output of \<open>perror\<close>, errors of \<open>mmap\<close>, \<open>msync\<close>, and of \<open>fopen\<close> while a
  program runs, the time that \<open>sleep\<close> takes, the start of MPI, the call of \<open>socket\<close> in \<open>createCmdSocket\<close>, whose
  failure shows in \<open>sendto\<close>.  \<open>strtoul\<close>, \<open>atoi\<close>, \<open>scanf\<close> and \<open>printf\<close> are modelled as far as the programs use
  them, \<open>ctime\<close> is a parameter.  The AYA thread of \<open>node.c\<close> inside a handler: a round of the thread and a handler
  are one step each, and a cancellation takes effect at once, while the two share the clock, \<open>lastSent\<close> and the
  log file in the program.  Overflows of the small local buffers of the log lines (\<open>nodeIdBuf\<close>, \<open>nodeTimeBuf\<close>,
  \<open>portBuf\<close>) are not the outcome \<open>Undefined\<close> of a step: the lines are those that the buffers would hold.  The bounds
  are lemmas beside the steps (\<open>nodeIdBuf_iff\<close>, \<open>nodeTimeBuf_ports\<close>, \<open>portBuf_iff\<close>); for \<open>node.c\<close> they fail from port 100 on, see \<open>name_buffer_too_small\<close>, so what is
  shown of the node is true of the C program as far as the overflow does no other harm.  Programs are given at least their own name as an argument.
\<close>

end
